(* ===== verification/Prelude.thy ===== *)
theory Prelude
  imports Main "HOL-Library.AList" "HOL-Library.Multiset" "HOL-Library.Sublist"
begin

text \<open>
  Shared vocabulary of the development: the result of a Go call (a value, an error, a
  panic), the state-passing computations every stateful function of the program is
  translated to, the loop combinator for Go's \<open>for .. range\<close> with \<open>break\<close> and early
  \<open>return\<close>, and the two styles of reasoning about them: Hoare triples over one state,
  and relations between the state before and after (locale \<open>step_relation\<close>).
\<close>

named_theorems run_simps \<open>rules that evaluate a computation on a given state\<close>
named_theorems run_iffs \<open>when a computation ends without error\<close>
named_theorems run_elims \<open>the calls made by a computation that ended without error\<close>
named_theorems step_rules \<open>rules that take a step relation through a computation\<close>

section \<open>Results and computations\<close>

text \<open>
  A Go call ends with a value, with a non-nil error, or in a panic. A computation maps the
  state to a result and the new state; state changes made before an error or a panic stay.
\<close>

datatype ('e, 'a) outcome = Ok 'a | Err 'e | Panic string

type_synonym ('s, 'e, 'a) comp = "'s \<Rightarrow> ('e, 'a) outcome \<times> 's"

definition ret :: "'a \<Rightarrow> ('s, 'e, 'a) comp" where
  "ret x = (\<lambda>s. (Ok x, s))"

definition fail :: "'e \<Rightarrow> ('s, 'e, 'a) comp" where
  "fail e = (\<lambda>s. (Err e, s))"

definition panic :: "string \<Rightarrow> ('s, 'e, 'a) comp" where
  "panic p = (\<lambda>s. (Panic p, s))"

definition bind :: "('s, 'e, 'a) comp \<Rightarrow> ('a \<Rightarrow> ('s, 'e, 'b) comp) \<Rightarrow> ('s, 'e, 'b) comp" where
  "bind m f = (\<lambda>s. case m s of
     (Ok x, s') \<Rightarrow> f x s'
   | (Err e, s') \<Rightarrow> (Err e, s')
   | (Panic p, s') \<Rightarrow> (Panic p, s'))"

definition seq :: "('s, 'e, 'a) comp \<Rightarrow> ('s, 'e, 'b) comp \<Rightarrow> ('s, 'e, 'b) comp" where
  "seq m n = bind m (\<lambda>_. n)"

definition gets :: "('s \<Rightarrow> 'a) \<Rightarrow> ('s, 'e, 'a) comp" where
  "gets f = (\<lambda>s. (Ok (f s), s))"

definition modify :: "('s \<Rightarrow> 's) \<Rightarrow> ('s, 'e, unit) comp" where
  "modify f = (\<lambda>s. (Ok (), f s))"

text \<open>A pure fallible call; \<open>wrap\<close> is what the caller does to the error.\<close>

definition lift_sum :: "'e + 'a \<Rightarrow> ('s, 'e, 'a) comp" where
  "lift_sum x = (case x of Inl e \<Rightarrow> fail e | Inr a \<Rightarrow> ret a)"

definition map_err :: "('e \<Rightarrow> 'e) \<Rightarrow> ('s, 'e, 'a) comp \<Rightarrow> ('s, 'e, 'a) comp" where
  "map_err w m = (\<lambda>s. case m s of (Err e, s') \<Rightarrow> (Err (w e), s') | r \<Rightarrow> r)"

text \<open>A call whose error is inspected by the caller instead of being returned.\<close>

definition try_comp :: "('s, 'e, 'a) comp \<Rightarrow> ('s, 'e, 'e + 'a) comp" where
  "try_comp m = (\<lambda>s. case m s of
     (Ok x, s') \<Rightarrow> (Ok (Inr x), s')
   | (Err e, s') \<Rightarrow> (Ok (Inl e), s')
   | (Panic p, s') \<Rightarrow> (Panic p, s'))"

text \<open>
  A deferred closure reading the named result \<open>err\<close>: it runs after the body, also while a
  panic unwinds, in which case \<open>err\<close> is still nil.
\<close>

definition with_defer :: "('s, 'e, 'a) comp \<Rightarrow> ('e option \<Rightarrow> 's \<Rightarrow> 's) \<Rightarrow> ('s, 'e, 'a) comp" where
  "with_defer m d = (\<lambda>s. case m s of
     (Ok x, s') \<Rightarrow> (Ok x, d None s')
   | (Err e, s') \<Rightarrow> (Err e, d (Some e) s')
   | (Panic p, s') \<Rightarrow> (Panic p, d None s'))"

definition of_option :: "'e option \<Rightarrow> ('s, 'e, unit) comp" where
  "of_option x = (case x of None \<Rightarrow> ret () | Some e \<Rightarrow> fail e)"

section \<open>Loops\<close>

text \<open>
  A loop body ends by going to the next iteration, by \<open>break\<close>, or by returning from the
  enclosing function; the first two carry the loop's local variables.
\<close>

datatype ('c, 'r) ctl = Next 'c | Break 'c | Return 'r

fun for_each :: "'i list \<Rightarrow> 'c \<Rightarrow> ('i \<Rightarrow> 'c \<Rightarrow> ('s, 'e, ('c, 'r) ctl) comp)
    \<Rightarrow> ('s, 'e, ('c, 'r) ctl) comp" where
  "for_each [] c body = ret (Next c)"
| "for_each (i # is) c body = bind (body i c) (\<lambda>x. case x of
       Next c' \<Rightarrow> for_each is c' body
     | Break c' \<Rightarrow> ret (Next c')
     | Return r \<Rightarrow> ret (Return r))"

section \<open>Symbolic evaluation\<close>

lemma ret_app [run_simps]: "ret x s = (Ok x, s)" by (simp add: ret_def)
lemma fail_app [run_simps]: "fail e s = (Err e, s)" by (simp add: fail_def)
lemma panic_app [run_simps]: "panic p s = (Panic p, s)" by (simp add: panic_def)
lemma gets_app [simp, run_simps]: "gets f s = (Ok (f s), s)" by (simp add: gets_def)
lemma modify_app [simp, run_simps]: "modify f s = (Ok (), f s)" by (simp add: modify_def)

lemma bind_ret [simp]: "bind (ret x) f = f x" by (simp add: bind_def run_simps)
lemma bind_fail [simp]: "bind (fail e) f = fail e" by (simp add: bind_def fail_def)
lemma bind_panic [simp]: "bind (panic p) f = panic p" by (simp add: bind_def panic_def)

lemma bind_assoc: "bind (bind m f) g = bind m (\<lambda>x. bind (f x) g)"
  by (auto simp: bind_def fun_eq_iff split: prod.splits outcome.splits)

lemma lift_sum_simps [simp]:
  "lift_sum (Inl e) = fail e" "lift_sum (Inr a) = ret a"
  by (simp_all add: lift_sum_def)

lemma of_option_simps [simp]:
  "of_option None = ret ()" "of_option (Some e) = fail e"
  by (simp_all add: of_option_def)

section \<open>Hoare triples\<close>

text \<open>
  \<open>triple P m Q\<close>: from a state satisfying \<open>P\<close>, the result and the final state of \<open>m\<close>
  satisfy \<open>Q\<close>. The computations are total functions, so this is total correctness.
\<close>

definition triple :: "('s \<Rightarrow> bool) \<Rightarrow> ('s, 'e, 'a) comp \<Rightarrow> (('e, 'a) outcome \<Rightarrow> 's \<Rightarrow> bool) \<Rightarrow> bool" where
  "triple P m Q \<longleftrightarrow> (\<forall>s. P s \<longrightarrow> Q (fst (m s)) (snd (m s)))"

lemma tripleI: "(\<And>s r s'. P s \<Longrightarrow> m s = (r, s') \<Longrightarrow> Q r s') \<Longrightarrow> triple P m Q"
  by (simp add: triple_def)

lemma tripleD: "triple P m Q \<Longrightarrow> P s \<Longrightarrow> m s = (r, s') \<Longrightarrow> Q r s'"
  unfolding triple_def by (metis fst_conv snd_conv)

lemma triple_conseq:
  "triple P' m Q' \<Longrightarrow> (\<And>s. P s \<Longrightarrow> P' s) \<Longrightarrow> (\<And>r s. Q' r s \<Longrightarrow> Q r s) \<Longrightarrow> triple P m Q"
  by (simp add: triple_def)

lemma triple_ret: "(\<And>s. P s \<Longrightarrow> Q (Ok x) s) \<Longrightarrow> triple P (ret x) Q"
  by (simp add: triple_def run_simps)

lemma triple_bind:
  assumes "triple P m (\<lambda>r s. case r of Ok x \<Rightarrow> R x s | Err e \<Rightarrow> Q (Err e) s | Panic p \<Rightarrow> Q (Panic p) s)"
    and "\<And>x. triple (R x) (f x) Q"
  shows "triple P (bind m f) Q"
  using assms by (fastforce simp: triple_def bind_def split: prod.splits outcome.splits)

lemma triple_for_each:
  assumes body: "\<And>pre i post c. is = pre @ i # post \<Longrightarrow>
      triple (I pre c) (body i c) (\<lambda>r s. case r of
        Ok (Next c') \<Rightarrow> I (pre @ [i]) c' s
      | Ok (Break c') \<Rightarrow> B c' s
      | Ok (Return x) \<Rightarrow> Q (Ok (Return x)) s
      | Err e \<Rightarrow> Q (Err e) s
      | Panic p \<Rightarrow> Q (Panic p) s)"
    and fin: "\<And>c s. I is c s \<Longrightarrow> Q (Ok (Next c)) s"
    and brk: "\<And>c s. B c s \<Longrightarrow> Q (Ok (Next c)) s"
  shows "triple (I [] c) (for_each is c body) Q"
proof -
  have "triple (I pre c) (for_each post c body) Q" if "is = pre @ post" for pre post c
    using that
  proof (induction post arbitrary: pre c)
    case Nil
    then show ?case using fin by (simp add: triple_def run_simps)
  next
    case (Cons i post)
    show ?case
      unfolding for_each.simps
    proof (rule triple_bind [where R = "\<lambda>x s. case x of
          Next c' \<Rightarrow> I (pre @ [i]) c' s | Break c' \<Rightarrow> B c' s | Return r \<Rightarrow> Q (Ok (Return r)) s"])
      show "triple (I pre c) (body i c) (\<lambda>r s. case r of
          Ok x \<Rightarrow> (case x of Next c' \<Rightarrow> I (pre @ [i]) c' s | Break c' \<Rightarrow> B c' s
                    | Return r \<Rightarrow> Q (Ok (Return r)) s)
        | Err e \<Rightarrow> Q (Err e) s | Panic p \<Rightarrow> Q (Panic p) s)"
        using body [OF Cons.prems] by (rule triple_conseq) (auto split: outcome.splits ctl.splits)
    next
      fix x
      have "triple (I (pre @ [i]) c') (for_each post c' body) Q" for c'
        using Cons.IH [of "pre @ [i]" c'] Cons.prems by simp
      then show "triple (\<lambda>s. case x of
            Next c' \<Rightarrow> I (pre @ [i]) c' s | Break c' \<Rightarrow> B c' s | Return r \<Rightarrow> Q (Ok (Return r)) s)
          (case x of Next c' \<Rightarrow> for_each post c' body | Break c' \<Rightarrow> ret (Next c') | Return r \<Rightarrow> ret (Return r)) Q"
        using brk by (cases x) (auto simp: triple_def run_simps)
    qed
  qed
  from this [of "[]" "is"] show ?thesis by simp
qed

section \<open>Relations between the state before and after\<close>

text \<open>
  \<open>steps R m\<close>: whatever the result, \<open>m\<close> takes the state along \<open>R\<close>. For a preorder \<open>R\<close>
  this is closed under every way the program composes computations, so a property of a
  whole handler follows from the same property of the calls it makes.
\<close>

definition steps :: "('s \<Rightarrow> 's \<Rightarrow> bool) \<Rightarrow> ('s, 'e, 'a) comp \<Rightarrow> bool" where
  "steps R m \<longleftrightarrow> (\<forall>s. R s (snd (m s)))"

lemma stepsD: "steps R m \<Longrightarrow> m s = (r, s') \<Longrightarrow> R s s'"
  unfolding steps_def by (metis snd_conv)

locale step_relation =
  fixes R :: "'s \<Rightarrow> 's \<Rightarrow> bool"
  assumes refl: "R s s"
    and trans: "R s t \<Longrightarrow> R t u \<Longrightarrow> R s u"
begin

lemma steps_ret [step_rules]: "steps R (ret x)"
  by (simp add: steps_def refl run_simps)

lemma steps_fail [step_rules]: "steps R (fail e)"
  by (simp add: steps_def refl run_simps)

lemma steps_panic [step_rules]: "steps R (panic p)"
  by (simp add: steps_def refl run_simps)

lemma steps_gets [step_rules]: "steps R (gets f)"
  by (simp add: steps_def refl)

lemma steps_lift_sum [step_rules]: "steps R (lift_sum x)"
  by (cases x) (simp_all add: steps_fail steps_ret)

lemma steps_of_option [step_rules]: "steps R (of_option x)"
  by (cases x) (simp_all add: steps_fail steps_ret)

lemma steps_bind_res:
  assumes "steps R m" and "\<And>x s s'. m s = (Ok x, s') \<Longrightarrow> steps R (f x)"
  shows "steps R (bind m f)"
  unfolding steps_def
proof
  fix s
  have m: "R s (snd (m s))" using assms(1) by (simp add: steps_def)
  show "R s (snd (bind m f s))"
  proof (cases "m s")
    case (Pair r s')
    then show ?thesis
    proof (cases r)
      case (Ok x)
      have "R s' (snd (f x s'))" using assms(2) [of s x s'] Pair Ok by (simp add: steps_def)
      with m Pair Ok show ?thesis by (auto simp: bind_def intro: trans)
    qed (use m in \<open>simp_all add: bind_def\<close>)
  qed
qed

lemma steps_bind [step_rules]:
  "steps R m \<Longrightarrow> (\<And>x. steps R (f x)) \<Longrightarrow> steps R (bind m f)"
  by (rule steps_bind_res)

lemma steps_seq [step_rules]: "steps R m \<Longrightarrow> steps R n \<Longrightarrow> steps R (seq m n)"
  by (simp add: seq_def steps_bind)

lemma steps_map_err [step_rules]: "steps R m \<Longrightarrow> steps R (map_err w m)"
  by (auto simp: steps_def map_err_def split: prod.splits outcome.splits) (metis snd_conv)+

lemma steps_try [step_rules]: "steps R m \<Longrightarrow> steps R (try_comp m)"
  by (auto simp: steps_def try_comp_def split: prod.splits outcome.splits) (metis snd_conv)+

lemma steps_defer [step_rules]:
  assumes "steps R m" and "\<And>e s. R s (d e s)"
  shows "steps R (with_defer m d)"
  unfolding steps_def
proof
  fix s
  have "R s (snd (m s))" using assms(1) by (simp add: steps_def)
  then show "R s (snd (with_defer m d s))"
    using assms(2) trans
    by (cases "m s"; cases "fst (m s)") (fastforce simp: with_defer_def)+
qed

lemma steps_for_each [step_rules]:
  "(\<And>i c. i \<in> set is \<Longrightarrow> steps R (body i c)) \<Longrightarrow> steps R (for_each is c body)"
proof (induction "is" arbitrary: c)
  case Nil
  then show ?case by (simp add: steps_ret)
next
  case (Cons i "is")
  have "steps R (case x of Next c' \<Rightarrow> for_each is c' body | Break c' \<Rightarrow> ret (Next c')
      | Return r \<Rightarrow> ret (Return r))" for x
    using Cons by (cases x) (auto intro: steps_ret)
  then show ?case using Cons.prems by (auto intro: steps_bind)
qed

end

text \<open>The results of a \<open>bind\<close>, for a case analysis of a handler along its calls.\<close>

lemma bind_cases:
  assumes "bind m f s = (res, s')"
  obtains (Ok) x t where "m s = (Ok x, t)" "f x t = (res, s')"
  | (Err) e where "m s = (Err e, s')" "res = Err e"
  | (Panic) p where "m s = (Panic p, s')" "res = Panic p"
  using assms by (auto simp: bind_def split: prod.splits outcome.splits)

lemma bind_Ok_cases [run_elims]:
  assumes "bind m f s = (Ok y, s')"
  obtains x t where "m s = (Ok x, t)" "f x t = (Ok y, s')"
  using assms by (auto simp: bind_def split: prod.splits outcome.splits)

lemma seq_Ok_cases [run_elims]:
  assumes "seq m n s = (Ok y, s')"
  obtains x t where "m s = (Ok x, t)" "n t = (Ok y, s')"
  using assms unfolding seq_def by (rule bind_Ok_cases)

lemma Ok_iffs [run_iffs]:
  "ret x s = (Ok y, s') \<longleftrightarrow> y = x \<and> s' = s"
  "fail e s = (Ok z, s') \<longleftrightarrow> False"
  "panic p s = (Ok z, s') \<longleftrightarrow> False"
  "lift_sum v s = (Ok y, s') \<longleftrightarrow> v = Inr y \<and> s' = s"
  "of_option w s = (Ok u, s') \<longleftrightarrow> w = None \<and> s' = s"
  "map_err f m s = (Ok a, s') \<longleftrightarrow> m s = (Ok a, s')"
  by (auto simp: run_simps lift_sum_def of_option_def map_err_def split: sum.splits option.splits prod.splits outcome.splits)

text \<open>
  A loop whose body only goes on, seen as the chain of its iterations on the loop variables.
\<close>

fun chain :: "('i \<Rightarrow> 'c \<Rightarrow> 'c \<Rightarrow> bool) \<Rightarrow> 'i list \<Rightarrow> 'c \<Rightarrow> 'c \<Rightarrow> bool" where
  "chain R [] c c' = (c' = c)"
| "chain R (i # is) c c' = (\<exists>d. R i c d \<and> chain R is d c')"

lemma for_each_chain:
  assumes "for_each is c body s = (Ok x, s')"
    and "\<And>i c s y s'. i \<in> set is \<Longrightarrow> body i c s = (Ok y, s') \<Longrightarrow> \<exists>d. y = Next d \<and> R i c d"
  shows "\<exists>c'. x = Next c' \<and> chain R is c c'"
  using assms
proof (induction "is" arbitrary: c s)
  case (Cons i "is")
  obtain y t where y: "body i c s = (Ok y, t)"
      "(case y of Next c' \<Rightarrow> for_each is c' body | Break c' \<Rightarrow> ret (Next c') | Return r \<Rightarrow> ret (Return r)) t = (Ok x, s')"
    using Cons.prems(1) by (auto elim!: run_elims)
  obtain d where d: "y = Next d" "R i c d" using Cons.prems(2) [OF _ y(1)] by auto
  then have "for_each is d body t = (Ok x, s')" using y(2) by simp
  from Cons.IH [OF this] Cons.prems(2) obtain c' where "x = Next c'" "chain R is d c'"
    by auto
  with d show ?case by auto
qed (auto simp: run_iffs)

lemma chain_inv:
  "chain R is c c' \<Longrightarrow> I c \<Longrightarrow> (\<And>i c d. i \<in> set is \<Longrightarrow> R i c d \<Longrightarrow> I c \<Longrightarrow> I d) \<Longrightarrow> I c'"
  by (induction "is" arbitrary: c) (simp, force)

section \<open>Strings\<close>

text \<open>\<open>strings.Split\<close> at a one-character separator.\<close>

fun splitAt :: "char \<Rightarrow> string \<Rightarrow> string list" where
  "splitAt sep [] = [[]]"
| "splitAt sep (x # xs) =
     (if x = sep then [] # splitAt sep xs
      else (case splitAt sep xs of (w # ws) \<Rightarrow> (x # w) # ws | [] \<Rightarrow> [[x]]))"

text \<open>The decimal digits of a number, which is what \<open>strconv.Itoa\<close> writes.\<close>

fun digits_of :: "nat \<Rightarrow> string" where
  "digits_of n = (if n < 10 then [char_of (48 + n)] else digits_of (n div 10) @ [char_of (48 + n mod 10)])"

declare digits_of.simps [simp del]

end
