(* ===== verification/Api_Objects.thy ===== *)
theory Api_Objects
  imports Prelude
begin

text \<open>
  Kubernetes API objects as the Go code sees them, and the object keys of
  \<open>pkg/types/object_key.go\<close>. The Go interfaces \<open>TypeKey\<close>, \<open>ObjectKey\<close> and \<open>client.Object\<close>
  are the record schemes \<open>GroupVersionKind\<close>, \<open>ObjectKey\<close> and \<open>Object\<close>: a function over an
  interface takes the scheme, so it accepts every record that extends it. Also here: Go
  errors, the annotation keys and values of \<open>pkg/types/constants.go\<close>, and
  \<open>RetriableError\<close> of \<open>pkg/types/errors.go\<close>.
\<close>

section \<open>Errors\<close>

text \<open>
  An error of the API machinery carries a reason; \<open>fmt.Errorf\<close> and \<open>errors.Wrapf\<close> keep
  their format and arguments; \<open>RetriableError\<close> carries the delay (nanoseconds) if any;
  \<open>errors.Join\<close> keeps its parts.
\<close>

datatype api_reason = ReasonNotFound | ReasonConflict | ReasonNoMatch | ReasonOther int

datatype fmt_arg = AStr string | AInt int | AErr goerr

and goerr =
    ApiError api_reason string
  | Errorf string "fmt_arg list"
  | Wrapf goerr string "fmt_arg list"
  | RetriableError goerr "int option"
  | JoinError "goerr list"

text \<open>\<open>errors.As\<close> searches the chain of wrapped errors.\<close>

fun api_reason_of :: "goerr \<Rightarrow> api_reason option"
  and api_reason_of_list :: "goerr list \<Rightarrow> api_reason option" where
  "api_reason_of (ApiError r _) = Some r"
| "api_reason_of (Errorf _ _) = None"
| "api_reason_of (Wrapf e _ _) = api_reason_of e"
| "api_reason_of (RetriableError e _) = api_reason_of e"
| "api_reason_of (JoinError es) = api_reason_of_list es"
| "api_reason_of_list [] = None"
| "api_reason_of_list (e # es) = (case api_reason_of e of Some r \<Rightarrow> Some r | None \<Rightarrow> api_reason_of_list es)"

definition IsNotFound :: "goerr \<Rightarrow> bool" where
  "IsNotFound e \<longleftrightarrow> api_reason_of e = Some ReasonNotFound"

definition IsConflict :: "goerr \<Rightarrow> bool" where
  "IsConflict e \<longleftrightarrow> api_reason_of e = Some ReasonConflict"

definition IsNoMatchError :: "goerr \<Rightarrow> bool" where
  "IsNoMatchError e \<longleftrightarrow> api_reason_of e = Some ReasonNoMatch"

text \<open>\<open>client.IgnoreNotFound\<close>.\<close>

definition IgnoreNotFound :: "goerr \<Rightarrow> goerr option" where
  "IgnoreNotFound e = (if IsNotFound e then None else Some e)"

definition NewRetriableError :: "goerr \<Rightarrow> int option \<Rightarrow> goerr" where
  "NewRetriableError err retryAfter = RetriableError err retryAfter"

text \<open>\<open>errors.As(err, *RetriableError)\<close> followed by \<open>RetryAfter()\<close>.\<close>

fun asRetriableError :: "goerr \<Rightarrow> (goerr \<times> int option) option"
  and asRetriableError_list :: "goerr list \<Rightarrow> (goerr \<times> int option) option" where
  "asRetriableError (ApiError _ _) = None"
| "asRetriableError (Errorf _ _) = None"
| "asRetriableError (Wrapf e _ _) = asRetriableError e"
| "asRetriableError (RetriableError e d) = Some (e, d)"
| "asRetriableError (JoinError es) = asRetriableError_list es"
| "asRetriableError_list [] = None"
| "asRetriableError_list (e # es) =
     (case asRetriableError e of Some r \<Rightarrow> Some r | None \<Rightarrow> asRetriableError_list es)"

section \<open>Keys\<close>

record GroupKind =
  Group :: string
  Kind :: string

record GroupVersionKind = GroupKind +
  Version :: string

record ObjectKey = GroupVersionKind +
  Namespace :: string
  Name :: string

type_synonym TypeVersionInfo = GroupVersionKind
type_synonym TypeInfo = GroupKind

definition TypeKeyFromGroupAndVersionAndKind :: "string \<Rightarrow> string \<Rightarrow> string \<Rightarrow> GroupVersionKind" where
  "TypeKeyFromGroupAndVersionAndKind grp version kind =
     \<lparr>Group = grp, Kind = kind, Version = version\<rparr>"

text \<open>Group, kind, namespace and name of an object: what the inventory is keyed by.\<close>

definition object_id :: "'a ObjectKey_scheme \<Rightarrow> string \<times> string \<times> string \<times> string" where
  "object_id k = (Group k, Kind k, Namespace k, Name k)"

definition mkKey :: "string \<Rightarrow> string \<Rightarrow> string \<Rightarrow> string \<Rightarrow> string \<Rightarrow> ObjectKey" where
  "mkKey grp version kind namespace name =
     \<lparr>Group = grp, Kind = kind, Version = version, Namespace = namespace, Name = name\<rparr>"

section \<open>API objects\<close>

text \<open>
  A \<open>client.Object\<close> is either unstructured (a JSON tree) or a pointer to a Go struct type.
  The parts of the specification the code reads are modelled for the three kinds it
  treats specially; the rest of an object is its JSON text.
\<close>

datatype gotype = GoUnstructured | GoTyped

datatype ResourceScope = NamespaceScoped | ClusterScoped | ScopeOther string

record CustomResourceDefinitionSpec =
  CrdGroup :: string
  CrdKind :: string
  CrdScope :: ResourceScope
  CrdVersions :: "(string \<times> bool) list"

record APIServiceSpec =
  ApiGroup :: string
  ApiVersion :: string

datatype Body =
    CrdBody CustomResourceDefinitionSpec
  | ApiServiceBody APIServiceSpec
  | SecretBody "(string \<times> string) list" "(string \<times> string) list"
  | JsonBody string

text \<open>
  A managed fields entry. \<open>Time\<close> and \<open>FieldsV1\<close> are pointers in Go, and Go's \<open>==\<close> on the
  struct compares the addresses, so a pointer is its address with what it points to.
\<close>

record ManagedFieldsEntry =
  Manager :: string
  Operation :: string
  APIVersion :: string
  Time :: "nat option"
  FieldsType :: string
  FieldsV1 :: "(nat \<times> string) option"
  Subresource :: string

record Object = ObjectKey +
  GoType :: gotype
  GenerateName :: string
  Labels :: "(string \<times> string) list"
  Annotations :: "(string \<times> string) list"
  Finalizers :: "string list"
  ResourceVersion :: string
  Generation :: int
  DeletionTimestamp :: "int option"
  ManagedFields :: "ManagedFieldsEntry list"
  ObjBody :: Body

text \<open>Reading a Go map yields the zero value for a missing key.\<close>

definition getString :: "(string \<times> string) list \<Rightarrow> string \<Rightarrow> string" where
  "getString m k = (case map_of m k of Some v \<Rightarrow> v | None \<Rightarrow> '''')"

definition SetLabel :: "'a Object_scheme \<Rightarrow> string \<Rightarrow> string \<Rightarrow> 'a Object_scheme" where
  "SetLabel obj key val = obj\<lparr>Labels := AList.update key val (Labels obj)\<rparr>"

definition RemoveLabel :: "'a Object_scheme \<Rightarrow> string \<Rightarrow> 'a Object_scheme" where
  "RemoveLabel obj key = obj\<lparr>Labels := AList.delete key (Labels obj)\<rparr>"

definition SetAnnotation :: "'a Object_scheme \<Rightarrow> string \<Rightarrow> string \<Rightarrow> 'a Object_scheme" where
  "SetAnnotation obj key val = obj\<lparr>Annotations := AList.update key val (Annotations obj)\<rparr>"

definition RemoveAnnotation :: "'a Object_scheme \<Rightarrow> string \<Rightarrow> 'a Object_scheme" where
  "RemoveAnnotation obj key = obj\<lparr>Annotations := AList.delete key (Annotations obj)\<rparr>"

lemma getString_update [simp]:
  "getString (AList.update k v m) k' = (if k' = k then v else getString m k')"
  by (simp add: getString_def update_conv)

lemma getString_delete [simp]:
  "getString (AList.delete k m) k' = (if k' = k then '''' else getString m k')"
  by (simp add: getString_def delete_conv)

section \<open>Constants of pkg/types\<close>

abbreviation "LabelKeySuffixOwnerId \<equiv> ''owner-id''"
abbreviation "AnnotationKeySuffixOwnerId \<equiv> ''owner-id''"
abbreviation "AnnotationKeySuffixDigest \<equiv> ''digest''"
abbreviation "AnnotationKeySuffixAdoptionPolicy \<equiv> ''adoption-policy''"
abbreviation "AnnotationKeySuffixReconcilePolicy \<equiv> ''reconcile-policy''"
abbreviation "AnnotationKeySuffixUpdatePolicy \<equiv> ''update-policy''"
abbreviation "AnnotationKeySuffixDeletePolicy \<equiv> ''delete-policy''"
abbreviation "AnnotationKeySuffixReapplyInterval \<equiv> ''reapply-interval''"
abbreviation "AnnotationKeySuffixApplyOrder \<equiv> ''apply-order''"
abbreviation "AnnotationKeySuffixPurgeOrder \<equiv> ''purge-order''"
abbreviation "AnnotationKeySuffixDeleteOrder \<equiv> ''delete-order''"
abbreviation "AnnotationKeySuffixStatusHint \<equiv> ''status-hint''"
abbreviation "AnnotationKeySuffixDisableEvents \<equiv> ''disable-events''"

end
