(* ===== verification/Api_Client.thy ===== *)
theory Api_Client
  imports Api_Objects
begin

text \<open>
  What the code calls but does not contain. \<open>platform\<close> collects the pure functions of
  third-party packages, \<open>client\<close> the operations of \<open>cluster.Client\<close> (\<open>pkg/cluster\<close>) on an
  unknown world \<open>'w\<close>: the API server, its caches and the clock. Both are parameters of
  every definition that uses them. Each call through the client is appended to a trace, with
  what it was called with and, for reads, what it returned, so that theorems can speak of
  the requests a handler makes and their order for every behaviour of the server.
\<close>

section \<open>Third-party functions\<close>

text \<open>
  \<open>SortPerm gt n\<close> stands for \<open>slices.SortBy\<close> of sap/go-generics: given the comparison of
  the elements at two indices below \<open>n\<close>, the indices in the order the sort puts them.
\<close>

record platform =
  ToKebab :: "string \<Rightarrow> string"
  GroupKindString :: "GroupKind \<Rightarrow> string"
  GroupVersionKindString :: "GroupVersionKind \<Rightarrow> string"
  GroupVersionString :: "string \<Rightarrow> string \<Rightarrow> string"
  ParseGroupVersion :: "string \<Rightarrow> goerr + (string \<times> string)"
  SortPerm :: "(nat \<Rightarrow> nat \<Rightarrow> bool) \<Rightarrow> nat \<Rightarrow> nat list"
  Sha256 :: "string \<Rightarrow> string"
  MarshalObject :: "Object \<Rightarrow> goerr + string"
  ParseDuration :: "string \<Rightarrow> goerr + int"
  ToUnstructured :: "Object \<Rightarrow> goerr + Object"
  CheckStringMaps :: "Object \<Rightarrow> goerr option \<times> goerr option"
  SchemeRecognizes :: "GroupVersionKind \<Rightarrow> bool"
  SchemeNew :: "GroupVersionKind \<Rightarrow> goerr + bool"
  FromUnstructured :: "Object \<Rightarrow> goerr + Object"
  GVKForObject :: "Object \<Rightarrow> goerr + GroupVersionKind"
  AddFinalizerTo :: "string list \<Rightarrow> string \<Rightarrow> string list \<times> bool"
  RemoveFinalizerFrom :: "string list \<Rightarrow> string \<Rightarrow> string list \<times> bool"
  FieldsFromJSON :: "string \<Rightarrow> goerr + string set"
  FieldsToJSON :: "string set \<Rightarrow> goerr + string"

definition SortBy :: "platform \<Rightarrow> ('a \<Rightarrow> 'a \<Rightarrow> bool) \<Rightarrow> 'a list \<Rightarrow> 'a list" where
  "SortBy P f xs = map ((!) xs) (SortPerm P (\<lambda>i j. f (xs ! i) (xs ! j)) (length xs))"

definition AddFinalizer :: "platform \<Rightarrow> 'a Object_scheme \<Rightarrow> string \<Rightarrow> 'a Object_scheme \<times> bool" where
  "AddFinalizer P obj f = (let (fs, changed) = AddFinalizerTo P (Finalizers obj) f
     in (obj\<lparr>Finalizers := fs\<rparr>, changed))"

definition RemoveFinalizer :: "platform \<Rightarrow> 'a Object_scheme \<Rightarrow> string \<Rightarrow> 'a Object_scheme \<times> bool" where
  "RemoveFinalizer P obj f = (let (fs, changed) = RemoveFinalizerFrom P (Finalizers obj) f
     in (obj\<lparr>Finalizers := fs\<rparr>, changed))"

section \<open>String representations of keys\<close>

definition GroupKindOf :: "'a GroupKind_scheme \<Rightarrow> GroupKind" where
  "GroupKindOf k = GroupKind.truncate k"

definition GroupVersionKindOf :: "'a GroupVersionKind_scheme \<Rightarrow> GroupVersionKind" where
  "GroupVersionKindOf k = GroupVersionKind.truncate k"

definition ObjectKeyOf :: "'a ObjectKey_scheme \<Rightarrow> ObjectKey" where
  "ObjectKeyOf k = ObjectKey.truncate k"

definition TypeKeyToString :: "platform \<Rightarrow> 'a GroupVersionKind_scheme \<Rightarrow> string" where
  "TypeKeyToString P key = GroupVersionKindString P (GroupVersionKindOf key)"

definition NameKeyToString :: "'a ObjectKey_scheme \<Rightarrow> string" where
  "NameKeyToString key = (if Namespace key = '''' then Name key
     else Namespace key @ ''/'' @ Name key)"

definition ObjectKeyToString :: "platform \<Rightarrow> 'a ObjectKey_scheme \<Rightarrow> string" where
  "ObjectKeyToString P key = TypeKeyToString P key @ '' '' @ NameKeyToString key"

lemmas key_truncate_simps [simp] =
  GroupKindOf_def GroupVersionKindOf_def
  GroupKind.truncate_def GroupVersionKind.truncate_def

lemma ObjectKeyOf_simps [simp]:
  "Group (ObjectKeyOf k) = Group k" "Kind (ObjectKeyOf k) = Kind k" "Version (ObjectKeyOf k) = Version k"
  "Namespace (ObjectKeyOf k) = Namespace k" "Name (ObjectKeyOf k) = Name k"
  "object_id (ObjectKeyOf k) = object_id k"
  by (simp_all add: ObjectKeyOf_def ObjectKey.truncate_def object_id_def)

section \<open>The client\<close>

datatype RESTScope = RESTScopeNamespace | RESTScopeRoot | RESTScopeOther string

text \<open>A label selector is empty (everything) or \<open>key!=value\<close>.\<close>

datatype LabelSelector = Everything | NotEquals string string

datatype JsonPatchOp = ReplaceManagedFields "ManagedFieldsEntry list" | ReplaceResourceVersion string

record 'w client =
  Get :: "ObjectKey \<Rightarrow> 'w \<Rightarrow> (goerr + Object) \<times> 'w"
  GetCrd :: "string \<Rightarrow> 'w \<Rightarrow> (goerr + Object \<times> CustomResourceDefinitionSpec) \<times> 'w"
  GetApiService :: "string \<Rightarrow> 'w \<Rightarrow> (goerr + Object \<times> APIServiceSpec) \<times> 'w"
  Create :: "Object \<Rightarrow> string \<Rightarrow> 'w \<Rightarrow> goerr option \<times> 'w"
  Update :: "Object \<Rightarrow> string \<Rightarrow> 'w \<Rightarrow> goerr option \<times> 'w"
  ApplyPatch :: "Object \<Rightarrow> string \<Rightarrow> bool \<Rightarrow> 'w \<Rightarrow> goerr option \<times> 'w"
  JsonPatch :: "ObjectKey \<Rightarrow> JsonPatchOp list \<Rightarrow> string \<Rightarrow> 'w \<Rightarrow> (goerr + string) \<times> 'w"
  FinalizerPatch :: "ObjectKey \<Rightarrow> string \<Rightarrow> string list \<Rightarrow> string \<Rightarrow> 'w \<Rightarrow> goerr option \<times> 'w"
  Delete :: "ObjectKey \<Rightarrow> string option \<Rightarrow> 'w \<Rightarrow> goerr option \<times> 'w"
  List :: "GroupVersionKind \<Rightarrow> LabelSelector \<Rightarrow> 'w \<Rightarrow> (goerr + Object list) \<times> 'w"
  ServerPreferredResources :: "'w \<Rightarrow> (goerr + (string \<times> string list) list) \<times> 'w"
  ServerResourcesForGroupVersion :: "string \<Rightarrow> 'w \<Rightarrow> (goerr + string list) \<times> 'w"
  RESTMapping :: "GroupKind \<Rightarrow> string \<Rightarrow> 'w \<Rightarrow> (goerr + RESTScope) \<times> 'w"
  Now :: "'w \<Rightarrow> int \<times> 'w"

datatype counter = ReadCounter | CreateCounter | UpdateCounter | DeleteCounter

text \<open>One entry of the trace per call: reads with their result, writes with their error if any.\<close>

datatype event =
    EGet ObjectKey "goerr + Object"
  | EGetCrd string
  | EGetApiService string
  | ECreate Object "goerr option"
  | EUpdate Object "goerr option"
  | EApplyPatch Object bool "goerr option"
  | EJsonPatch ObjectKey "JsonPatchOp list"
  | EFinalizerPatch ObjectKey string "string list" "goerr option"
  | EDelete ObjectKey "string option" "goerr option"
  | EList GroupVersionKind LabelSelector "goerr + Object list"
  | EDiscovery
  | ERESTMapping GroupKind string
  | ENow
  | EMetric counter
  | ERecord ObjectKey string

text \<open>The requests that change something in the cluster.\<close>

fun is_write :: "event \<Rightarrow> bool" where
  "is_write (ECreate _ _) = True"
| "is_write (EUpdate _ _) = True"
| "is_write (EApplyPatch _ _ _) = True"
| "is_write (EJsonPatch _ _) = True"
| "is_write (EFinalizerPatch _ _ _ _) = True"
| "is_write (EDelete _ _ _) = True"
| "is_write _ = False"

text \<open>The object a request changes.\<close>

fun written_key :: "event \<Rightarrow> ObjectKey option" where
  "written_key (ECreate o' _) = Some (ObjectKeyOf o')"
| "written_key (EUpdate o' _) = Some (ObjectKeyOf o')"
| "written_key (EApplyPatch o' _ _) = Some (ObjectKeyOf o')"
| "written_key (EJsonPatch k _) = Some k"
| "written_key (EFinalizerPatch k _ _ _) = Some k"
| "written_key (EDelete k _ _) = Some k"
| "written_key _ = None"

lemma is_write_iff: "is_write e \<longleftrightarrow> written_key e \<noteq> None"
  by (cases e) auto

end
