(* ===== verification/Inventory.thy ===== *)
theory Inventory
  imports Api_Client
begin

text \<open>
  The data of \<open>pkg/reconciler/types.go\<close> and the methods of \<open>pkg/reconciler/inventory.go\<close>:
  the policies, the phases, and the inventory item, which extends an object key. The policy,
  phase and status types are Go strings; the constructors are the declared constants and
  \<open>\<dots>Other\<close> stands for every other non-empty string. The inventory is a Go slice of pointers
  to items that are shared by nothing else, so it is a list and a write through a pointer is
  an update at its index (\<open>getItem\<close> of \<open>pkg/reconciler/util.go\<close> gives the index).
\<close>

datatype AdoptionPolicy =
    AdoptionPolicyNever | AdoptionPolicyIfUnowned | AdoptionPolicyAlways | AdoptionPolicyOther string

datatype ReconcilePolicy =
    ReconcilePolicyOnObjectChange | ReconcilePolicyOnObjectOrComponentChange | ReconcilePolicyOnce
  | ReconcilePolicyOther string

datatype UpdatePolicy =
    UpdatePolicyRecreate | UpdatePolicyReplace | UpdatePolicySsaMerge | UpdatePolicySsaOverride
  | UpdatePolicyOther string

datatype DeletePolicy =
    DeletePolicyDelete | DeletePolicyOrphan | DeletePolicyOrphanOnApply | DeletePolicyOrphanOnDelete
  | DeletePolicyOther string

datatype MissingNamespacesPolicy =
    MissingNamespacesPolicyDoNotCreate | MissingNamespacesPolicyCreate | MissingNamespacesPolicyOther string

datatype Phase =
    PhaseNone
  | PhaseScheduledForApplication | PhaseScheduledForDeletion | PhaseScheduledForCompletion
  | PhaseCreating | PhaseUpdating | PhaseDeleting | PhaseCompleting
  | PhaseReady | PhaseCompleted
  | PhaseOther string

datatype Status =
    StatusNone
  | InProgressStatus | FailedStatus | CurrentStatus | TerminatingStatus | NotFoundStatus
  | UnknownStatus | StatusOther string

record InventoryItem = ObjectKey +
  ItemAdoptionPolicy :: AdoptionPolicy
  ItemReconcilePolicy :: ReconcilePolicy
  ItemUpdatePolicy :: UpdatePolicy
  ItemDeletePolicy :: DeletePolicy
  ItemApplyOrder :: int
  ItemDeleteOrder :: int
  ManagedTypes :: "TypeVersionInfo list"
  Digest :: string
  ItemPhase :: Phase
  ItemStatus :: Status
  LastAppliedAt :: "int option"

text \<open>The zero value \<open>InventoryItem{}\<close>.\<close>

definition emptyItem :: InventoryItem where
  "emptyItem = \<lparr>Group = '''', Kind = '''', Version = '''', Namespace = '''', Name = '''',
     ItemAdoptionPolicy = AdoptionPolicyOther '''', ItemReconcilePolicy = ReconcilePolicyOther '''',
     ItemUpdatePolicy = UpdatePolicyOther '''', ItemDeletePolicy = DeletePolicyOther '''',
     ItemApplyOrder = 0, ItemDeleteOrder = 0, ManagedTypes = [], Digest = '''',
     ItemPhase = PhaseNone, ItemStatus = StatusNone, LastAppliedAt = None\<rparr>"

text \<open>Group, kind, namespace and name are compared; the version is not.\<close>

definition Matches :: "'a ObjectKey_scheme \<Rightarrow> 'b ObjectKey_scheme \<Rightarrow> bool" where
  "Matches i key \<longleftrightarrow> GroupKindOf i = GroupKindOf key \<and> Namespace i = Namespace key \<and> Name i = Name key"

lemma Matches_iff: "Matches i key \<longleftrightarrow> object_id i = object_id key"
  by (auto simp: Matches_def object_id_def)

lemma Matches_refl [simp]: "Matches i i"
  by (simp add: Matches_iff)

text \<open>
  The well-formedness of an inventory the reconciler relies on (otherwise \<open>getItem\<close> panics):
  no two items have the same key.
\<close>

definition wf_inventory :: "InventoryItem list \<Rightarrow> bool" where
  "wf_inventory items \<longleftrightarrow> distinct (map object_id items)"

end
