(* ===== verification/Reconciler_Util.thy ===== *)
theory Reconciler_Util
  imports Inventory
begin

text \<open>
  The functions of \<open>pkg/reconciler/util.go\<close>: digests, the predicates on kinds, the managed
  types, missing namespaces, normalisation, the two sort orders, the lookup in the inventory
  and the matching of type patterns. Hashes of \<open>internal/util/util.go\<close> are here as well.
  A Go panic in a pure function is \<open>None\<close>.
\<close>

section \<open>Hashes (internal/util/util.go)\<close>

definition hex_digit :: "nat \<Rightarrow> char" where
  "hex_digit n = ''0123456789abcdef'' ! n"

definition hexEncode :: "string \<Rightarrow> string" where
  "hexEncode s = concat (map (\<lambda>c. [hex_digit (of_char c div 16), hex_digit (of_char c mod 16)]) s)"

definition Sha256hex :: "platform \<Rightarrow> string \<Rightarrow> string" where
  "Sha256hex P s = hexEncode (Sha256 P s)"

text \<open>
  \<open>base32.StdEncoding\<close> without padding, lowercased: the bits of the input, most significant
  first, in groups of five; the last group is filled up with zeros.
\<close>

fun byte_bits :: "char \<Rightarrow> bool list" where
  "byte_bits (Char b0 b1 b2 b3 b4 b5 b6 b7) = [b7, b6, b5, b4, b3, b2, b1, b0]"

definition bits_value :: "bool list \<Rightarrow> nat" where
  "bits_value bs = fold (\<lambda>b n. 2 * n + (if b then 1 else 0)) bs 0"

fun base32_groups :: "bool list \<Rightarrow> nat list" where
  "base32_groups (a # b # c # d # e # bs) = bits_value [a, b, c, d, e] # base32_groups bs"
| "base32_groups [] = []"
| "base32_groups bs = [bits_value (bs @ replicate (5 - length bs) False)]"

definition base32_lower :: "nat \<Rightarrow> char" where
  "base32_lower n = ''abcdefghijklmnopqrstuvwxyz234567'' ! n"

definition Sha256base32 :: "platform \<Rightarrow> string \<Rightarrow> string" where
  "Sha256base32 P s = map base32_lower (base32_groups (concat (map byte_bits (Sha256 P s))))"

section \<open>Digests\<close>

definition digestOnce :: string where
  "digestOnce = ''__once__''"

text \<open>
  The fields set by the API server are cleared before the object is serialised and restored
  when the function returns.
\<close>

definition calculateObjectDigest :: "platform \<Rightarrow> Object \<Rightarrow> string \<Rightarrow> ReconcilePolicy \<Rightarrow> goerr + string" where
  "calculateObjectDigest P obj componentDigest reconcilePolicy =
     (if reconcilePolicy = ReconcilePolicyOnce then Inr digestOnce
      else case MarshalObject P (obj\<lparr>ResourceVersion := '''', Generation := 0, ManagedFields := []\<rparr>) of
        Inl err \<Rightarrow> Inl (Wrapf err ''error serializing object %s'' [AStr (ObjectKeyToString P obj)])
      | Inr raw \<Rightarrow>
          (let digest = Sha256hex P raw
           in if reconcilePolicy = ReconcilePolicyOnObjectOrComponentChange
              then Inr (digest @ ''@'' @ componentDigest)
              else Inr digest))"

definition checkRange :: "int \<Rightarrow> int \<Rightarrow> int \<Rightarrow> goerr option" where
  "checkRange x lo hi = (if x < lo \<or> hi < x
     then Some (Errorf ''value %d not in allowed range [%d,%d]'' [AInt x, AInt lo, AInt hi]) else None)"

section \<open>Kinds\<close>

definition isNamespace :: "'a ObjectKey_scheme \<Rightarrow> bool" where
  "isNamespace key \<longleftrightarrow> GroupKindOf key = \<lparr>Group = '''', Kind = ''Namespace''\<rparr>"

definition isCrd :: "'a ObjectKey_scheme \<Rightarrow> bool" where
  "isCrd key \<longleftrightarrow> GroupKindOf key =
     \<lparr>Group = ''apiextensions.k8s.io'', Kind = ''CustomResourceDefinition''\<rparr>"

definition isApiService :: "'a ObjectKey_scheme \<Rightarrow> bool" where
  "isApiService key \<longleftrightarrow> GroupKindOf key =
     \<lparr>Group = ''apiregistration.k8s.io'', Kind = ''APIService''\<rparr>"

definition isSecret :: "'a ObjectKey_scheme \<Rightarrow> bool" where
  "isSecret key \<longleftrightarrow> GroupKindOf key = \<lparr>Group = '''', Kind = ''Secret''\<rparr>"

text \<open>The type assertions \<open>object.(*T)\<close>.\<close>

definition asCrd :: "Object \<Rightarrow> CustomResourceDefinitionSpec option" where
  "asCrd obj = (case (GoType obj, ObjBody obj) of (GoTyped, CrdBody spec) \<Rightarrow> Some spec | _ \<Rightarrow> None)"

definition asApiService :: "Object \<Rightarrow> APIServiceSpec option" where
  "asApiService obj = (case (GoType obj, ObjBody obj) of (GoTyped, ApiServiceBody spec) \<Rightarrow> Some spec | _ \<Rightarrow> None)"

fun getCrds :: "Object list \<Rightarrow> CustomResourceDefinitionSpec list option" where
  "getCrds [] = Some []"
| "getCrds (object # objects) =
     (if \<not> isCrd object then getCrds objects
      else case asCrd object of
        Some crd \<Rightarrow> map_option ((#) crd) (getCrds objects)
      | None \<Rightarrow> None)"

fun getApiServices :: "Object list \<Rightarrow> APIServiceSpec list option" where
  "getApiServices [] = Some []"
| "getApiServices (object # objects) =
     (if \<not> isApiService object then getApiServices objects
      else case asApiService object of
        Some apiService \<Rightarrow> map_option ((#) apiService) (getApiServices objects)
      | None \<Rightarrow> None)"

definition getManagedTypes :: "Object \<Rightarrow> TypeVersionInfo list option" where
  "getManagedTypes object =
     (if isCrd object then
        (case asCrd object of
           Some crd \<Rightarrow> Some [\<lparr>Group = CrdGroup crd, Kind = CrdKind crd, Version = ''*''\<rparr>]
         | None \<Rightarrow> None)
      else if isApiService object then
        (case asApiService object of
           Some apiService \<Rightarrow> Some [\<lparr>Group = ApiGroup apiService, Kind = ''*'', Version = ApiVersion apiService\<rparr>]
         | None \<Rightarrow> None)
      else Some [])"

text \<open>The loop of \<open>findMissingNamespaces\<close> with the namespaces found so far.\<close>

fun findMissingNamespaces_loop :: "Object list \<Rightarrow> Object list \<Rightarrow> string list \<Rightarrow> string list" where
  "findMissingNamespaces_loop all [] namespaces = namespaces"
| "findMissingNamespaces_loop all (object # objects) namespaces =
     (let namespace = Namespace object in
      if namespace \<noteq> '''' \<and> namespace \<notin> set namespaces then
        (if \<exists>obj \<in> set all. isNamespace obj \<and> Name obj = namespace
         then findMissingNamespaces_loop all objects namespaces
         else findMissingNamespaces_loop all objects (namespaces @ [namespace]))
      else findMissingNamespaces_loop all objects namespaces)"

definition findMissingNamespaces :: "Object list \<Rightarrow> string list" where
  "findMissingNamespaces objects = findMissingNamespaces_loop objects objects []"

datatype scope = scopeUnknown | scopeNamespaced | scopeCluster

definition scopeFromRestMapping :: "RESTScope \<Rightarrow> scope option" where
  "scopeFromRestMapping mapping = (case mapping of
     RESTScopeNamespace \<Rightarrow> Some scopeNamespaced
   | RESTScopeRoot \<Rightarrow> Some scopeCluster
   | RESTScopeOther _ \<Rightarrow> None)"

definition scopeFromCrd :: "CustomResourceDefinitionSpec \<Rightarrow> scope option" where
  "scopeFromCrd crd = (case CrdScope crd of
     NamespaceScoped \<Rightarrow> Some scopeNamespaced
   | ClusterScoped \<Rightarrow> Some scopeCluster
   | ScopeOther _ \<Rightarrow> None)"

section \<open>Normalisation\<close>

text \<open>
  One iteration of the loop of \<open>normalizeObjects\<close>. In the branch where the instance of a
  recognised type is not a \<open>client.Object\<close>, the code wraps the error of \<open>scheme.New\<close>, which
  is nil there; \<open>Wrapf\<close> of nil is nil, so the function returns the nil slice and no error:
  \<open>Inr None\<close>.
\<close>

definition normalizeObject :: "platform \<Rightarrow> Object \<Rightarrow> goerr + Object option" where
  "normalizeObject P object =
     (let gvk = GroupVersionKindOf object; s = ObjectKeyToString P object in
      if GoType object = GoUnstructured then
        (if Version gvk = '''' \<or> Kind gvk = '''' then
           Inl (Errorf ''unstructured object %s is missing type information'' [AStr s])
         else case CheckStringMaps P object of
           (Some err, _) \<Rightarrow> Inl (Wrapf err ''unstructured object %s has invalid labels (probably because of non-string label values)'' [AStr s])
         | (None, Some err) \<Rightarrow> Inl (Wrapf err ''unstructured object %s has invalid annotations (probably because of non-string annotation values)'' [AStr s])
         | (None, None) \<Rightarrow>
             if SchemeRecognizes P gvk then
               (case SchemeNew P gvk of
                  Inl err \<Rightarrow> Inl (Wrapf err ''error instantiating type for object %s'' [AStr s])
                | Inr isClientObject \<Rightarrow>
                    if isClientObject then
                      (case FromUnstructured P object of
                         Inl err \<Rightarrow> Inl (Wrapf err ''error converting object %s'' [AStr s])
                       | Inr typedObject \<Rightarrow> Inr (Some typedObject))
                    else Inr None)
             else if isCrd object \<or> isApiService object then
               Inl (Errorf ''scheme does not recognize type of object %s'' [AStr s])
             else Inr (Some object))
      else
        (case GVKForObject P object of
           Inl err \<Rightarrow> Inl (Wrapf err ''error retrieving scheme type information for object %s'' [AStr s])
         | Inr gvk' \<Rightarrow>
             if Version gvk = '''' \<or> Kind gvk = '''' then
               Inr (Some (object\<lparr>Group := Group gvk', Kind := Kind gvk', Version := Version gvk'\<rparr>))
             else if gvk \<noteq> gvk' then
               Inl (Errorf ''object %s specifies inconsistent type information (expected: %s)''
                 [AStr s, AStr (GroupVersionKindString P gvk')])
             else Inr (Some object)))"

fun normalizeObjects_loop :: "platform \<Rightarrow> Object list \<Rightarrow> Object list \<Rightarrow> goerr + Object list" where
  "normalizeObjects_loop P [] normalizedObjects = Inr normalizedObjects"
| "normalizeObjects_loop P (object # objects) normalizedObjects =
     (case normalizeObject P object of
        Inl err \<Rightarrow> Inl err
      | Inr None \<Rightarrow> Inr []
      | Inr (Some object') \<Rightarrow> normalizeObjects_loop P objects (normalizedObjects @ [object']))"

definition normalizeObjects :: "platform \<Rightarrow> Object list \<Rightarrow> goerr + Object list" where
  "normalizeObjects P objects = normalizeObjects_loop P objects []"

section \<open>Orders\<close>

definition applyPriorities :: "(string \<times> int) list" where
  "applyPriorities =
    [(''Namespace'', -4),
     (''ValidatingWebhookConfiguration.admissionregistration.k8s.io'', -3),
     (''MutatingWebhookConfiguration.admissionregistration.k8s.io'', -3),
     (''CustomResourceDefinition.apiextensions.k8s.io'', -2),
     (''IngressClass.networking.k8s.io'', -2),
     (''RuntimeClass.node.k8s.io'', -2),
     (''PriorityClass.scheduling.k8s.io'', -2),
     (''StorageClass.storage.k8s.io'', -2),
     (''ConfigMap'', -1),
     (''Secret'', -1),
     (''ClusterRole.rbac.authorization.k8s.io'', -2),
     (''Role.rbac.authorization.k8s.io'', -2),
     (''ClusterRoleBinding.rbac.authorization.k8s.io'', -1),
     (''RoleBinding.rbac.authorization.k8s.io'', -1),
     (''APIService.apiregistration.k8s.io'', 1)]"

definition deletePriorities :: "(string \<times> int) list" where
  "deletePriorities =
    [(''CustomResourceDefinition.apiextensions.k8s.io'', -1),
     (''APIService.apiregistration.k8s.io'', -1),
     (''ValidatingWebhookConfiguration.admissionregistration.k8s.io'', 1),
     (''MutatingWebhookConfiguration.admissionregistration.k8s.io'', 1),
     (''Service'', 2),
     (''ConfigMap'', 2),
     (''Secret'', 2),
     (''Namespace'', 3),
     (''IngressClass.networking.k8s.io'', 4),
     (''RuntimeClass.node.k8s.io'', 4),
     (''PriorityClass.scheduling.k8s.io'', 4),
     (''StorageClass.storage.k8s.io'', 4)]"

definition getInt :: "(string \<times> int) list \<Rightarrow> string \<Rightarrow> int" where
  "getInt m k = (case map_of m k of Some v \<Rightarrow> v | None \<Rightarrow> 0)"

definition applyGreater :: "platform \<Rightarrow> (Object \<Rightarrow> int) \<Rightarrow> Object \<Rightarrow> Object \<Rightarrow> bool" where
  "applyGreater P orderFunc x y =
     (let orderx = orderFunc x; ordery = orderFunc y;
          gvx = GroupKindString P (GroupKindOf x); gvy = GroupKindString P (GroupKindOf y)
      in orderx > ordery \<or> orderx = ordery \<and> getInt applyPriorities gvx > getInt applyPriorities gvy)"

definition sortObjectsForApply :: "platform \<Rightarrow> Object list \<Rightarrow> (Object \<Rightarrow> int) \<Rightarrow> Object list" where
  "sortObjectsForApply P s orderFunc = SortBy P (applyGreater P orderFunc) s"

definition deleteGreater :: "platform \<Rightarrow> InventoryItem \<Rightarrow> InventoryItem \<Rightarrow> bool" where
  "deleteGreater P x y =
     (let orderx = ItemDeleteOrder x; ordery = ItemDeleteOrder y;
          gvx = GroupKindString P (GroupKindOf x); gvy = GroupKindString P (GroupKindOf y)
      in orderx > ordery \<or> orderx = ordery \<and> getInt deletePriorities gvx > getInt deletePriorities gvy)"

definition sortObjectsForDelete :: "platform \<Rightarrow> InventoryItem list \<Rightarrow> InventoryItem list" where
  "sortObjectsForDelete P items = SortBy P (deleteGreater P) items"

section \<open>Lookup in the inventory\<close>

text \<open>
  \<open>getItem\<close> returns a pointer into the inventory, here the index of the item: outer \<open>None\<close>
  is the panic on a second match, inner \<open>None\<close> the nil pointer.
\<close>

fun getItem_loop :: "InventoryItem list \<Rightarrow> 'a ObjectKey_scheme \<Rightarrow> nat \<Rightarrow> nat option \<Rightarrow> nat option option" where
  "getItem_loop [] key k item = Some item"
| "getItem_loop (x # xs) key k item =
     (if Matches x key
      then (if item \<noteq> None then None else getItem_loop xs key (Suc k) (Some k))
      else getItem_loop xs key (Suc k) item)"

definition getItem :: "InventoryItem list \<Rightarrow> 'a ObjectKey_scheme \<Rightarrow> nat option option" where
  "getItem items key = getItem_loop items key 0 None"

definition mustGetItem :: "InventoryItem list \<Rightarrow> 'a ObjectKey_scheme \<Rightarrow> nat option" where
  "mustGetItem items key = (case getItem items key of Some (Some k) \<Rightarrow> Some k | _ \<Rightarrow> None)"

definition isNamespaceUsed :: "InventoryItem list \<Rightarrow> string \<Rightarrow> bool" where
  "isNamespaceUsed items namespace \<longleftrightarrow> (\<exists>item \<in> set items. Namespace item = namespace)"

section \<open>Managed types\<close>

definition HasPrefix :: "string \<Rightarrow> string \<Rightarrow> bool" where
  "HasPrefix s p \<longleftrightarrow> take (length p) s = p"

definition HasSuffix :: "string \<Rightarrow> string \<Rightarrow> bool" where
  "HasSuffix s p \<longleftrightarrow> length p \<le> length s \<and> drop (length s - length p) s = p"

definition matches :: "string \<Rightarrow> string \<Rightarrow> bool" where
  "matches s pattern =
     (if pattern = ''*'' then True
      else if HasPrefix pattern ''*.'' then HasSuffix s (drop 1 pattern)
      else if CHR ''*'' \<in> set pattern then False
      else s = pattern)"

definition isManagedByTypeVersions :: "TypeVersionInfo list \<Rightarrow> 'a GroupVersionKind_scheme \<Rightarrow> bool" where
  "isManagedByTypeVersions types key \<longleftrightarrow> (\<exists>t \<in> set types.
     matches (Group key) (Group t) \<and> (Version t = ''*'' \<or> Version t = Version key)
       \<and> (Kind t = ''*'' \<or> Kind t = Kind key))"

definition isManagedByTypes :: "TypeInfo list \<Rightarrow> 'a GroupVersionKind_scheme \<Rightarrow> bool" where
  "isManagedByTypes types key \<longleftrightarrow> (\<exists>t \<in> set types.
     matches (Group key) (Group t) \<and> (Kind t = ''*'' \<or> Kind t = Kind key))"

definition isManagedInstance :: "TypeInfo list \<Rightarrow> InventoryItem list \<Rightarrow> 'a GroupVersionKind_scheme \<Rightarrow> bool" where
  "isManagedInstance types items key \<longleftrightarrow> isManagedByTypes types key
     \<or> (\<exists>item \<in> set items. isManagedByTypeVersions (ManagedTypes item) key)"

end
