(* ===== verification/Ssa.thy ===== *)
theory Ssa
  imports Reconciler_Util
begin

text \<open>
  \<open>pkg/reconciler/ssa.go\<close>: the preparation of a server-side apply. The field sets of
  structured-merge-diff are sets of paths; reading and writing their JSON are parameters. A
  \<open>FieldsV1\<close> pointer is its address and the JSON it points to; a merged set gets a fresh
  address, so that Go's comparison of structs (\<open>entry == managerEntry\<close>) is equality here.
\<close>

definition fieldsToSet :: "platform \<Rightarrow> string \<Rightarrow> goerr + string set" where
  "fieldsToSet P raw = FieldsFromJSON P raw"

definition setToFields :: "platform \<Rightarrow> string set \<Rightarrow> goerr + string" where
  "setToFields P s = FieldsToJSON P s"

definition mergeManagedFieldsV1 :: "platform \<Rightarrow> nat \<Rightarrow> (nat \<times> string) option \<Rightarrow> (nat \<times> string) option
    \<Rightarrow> goerr + (nat \<times> string) option" where
  "mergeManagedFieldsV1 P fresh prevField newField = (case (prevField, newField) of
     (None, None) \<Rightarrow> Inr None
   | (None, Some _) \<Rightarrow> Inr newField
   | (Some _, None) \<Rightarrow> Inr prevField
   | (Some (_, prevRaw), Some (_, newRaw)) \<Rightarrow>
       (case fieldsToSet P prevRaw of Inl err \<Rightarrow> Inl err | Inr prevSet \<Rightarrow>
        (case fieldsToSet P newRaw of Inl err \<Rightarrow> Inl err | Inr newSet \<Rightarrow>
         (case setToFields P (prevSet \<union> newSet) of
            Inl err \<Rightarrow> Inl (Errorf ''unable to convert managed set to field: %s'' [AErr err])
          | Inr mergedRaw \<Rightarrow> Inr (Some (fresh, mergedRaw))))))"

definition emptyManagedFieldsEntry :: ManagedFieldsEntry where
  "emptyManagedFieldsEntry = \<lparr>Manager = '''', Operation = '''', APIVersion = '''', Time = None,
     FieldsType = '''', FieldsV1 = None, Subresource = ''''\<rparr>"

text \<open>The last entry of the manager with operation \<open>Apply\<close>, or the zero value.\<close>

fun findManagerEntry :: "ManagedFieldsEntry list \<Rightarrow> string \<Rightarrow> ManagedFieldsEntry \<Rightarrow> ManagedFieldsEntry" where
  "findManagerEntry [] manager managerEntry = managerEntry"
| "findManagerEntry (entry # entries) manager managerEntry =
     (if Manager entry = manager \<and> Operation entry = ''Apply''
      then findManagerEntry entries manager entry
      else findManagerEntry entries manager managerEntry)"

text \<open>The second loop, with its local variables; \<open>fresh\<close> is the next unused address.\<close>

fun replaceFieldManager_loop :: "platform \<Rightarrow> string list \<Rightarrow> string \<Rightarrow> ManagedFieldsEntry list \<Rightarrow>
    ManagedFieldsEntry list \<Rightarrow> ManagedFieldsEntry \<Rightarrow> bool \<Rightarrow> nat \<Rightarrow>
    goerr + ManagedFieldsEntry list \<times> bool" where
  "replaceFieldManager_loop P managerPrefixes manager [] entries managerEntry changed fresh =
     Inr (entries @ [managerEntry], changed)"
| "replaceFieldManager_loop P managerPrefixes manager (entry # rest) entries managerEntry changed fresh =
     (if entry = managerEntry then
        replaceFieldManager_loop P managerPrefixes manager rest entries managerEntry changed fresh
      else if Subresource entry \<noteq> '''' then
        replaceFieldManager_loop P managerPrefixes manager rest (entries @ [entry]) managerEntry changed fresh
      else if Manager entry \<noteq> manager \<and> \<not> (\<exists>s \<in> set managerPrefixes. HasPrefix (Manager entry) s) then
        replaceFieldManager_loop P managerPrefixes manager rest (entries @ [entry]) managerEntry changed fresh
      else if managerEntry = emptyManagedFieldsEntry then
        replaceFieldManager_loop P managerPrefixes manager rest entries
          (entry\<lparr>Manager := manager, Operation := ''Apply''\<rparr>) True fresh
      else case mergeManagedFieldsV1 P fresh (FieldsV1 managerEntry) (FieldsV1 entry) of
        Inl err \<Rightarrow> Inl (Wrapf err ''unable to merge managed fields'' [])
      | Inr mergedFields \<Rightarrow>
          replaceFieldManager_loop P managerPrefixes manager rest entries
            (managerEntry\<lparr>FieldsV1 := mergedFields\<rparr>) True (Suc fresh))"

definition unusedAddress :: "ManagedFieldsEntry list \<Rightarrow> nat" where
  "unusedAddress managedFields =
     Suc (fold max (map (\<lambda>e. case FieldsV1 e of Some (a, _) \<Rightarrow> a | None \<Rightarrow> 0) managedFields) 0)"

definition replaceFieldManager :: "platform \<Rightarrow> ManagedFieldsEntry list \<Rightarrow> string list \<Rightarrow> string \<Rightarrow>
    goerr + ManagedFieldsEntry list \<times> bool" where
  "replaceFieldManager P managedFields managerPrefixes manager =
     replaceFieldManager_loop P managerPrefixes manager managedFields []
       (findManagerEntry managedFields manager emptyManagedFieldsEntry) False (unusedAddress managedFields)"

end
