(* ===== verification/Reconciler_Base.thy ===== *)
theory Reconciler_Base
  imports Ssa
begin

text \<open>
  The \<open>Reconciler\<close> of \<open>pkg/reconciler/reconciler.go\<close>: its options and constructor, the
  policies and orders read from an object's annotations, and the state every method runs on:
  the world behind the client, the trace of calls, and the inventory the caller passed by
  reference.
\<close>

section \<open>State\<close>

record 'w rst =
  world :: 'w
  trace :: "event list"
  inventory :: "InventoryItem list"

type_synonym ('w, 'a) rcomp = "('w rst, goerr, 'a) comp"

definition call :: "('w \<Rightarrow> 'x \<times> 'w) \<Rightarrow> ('x \<Rightarrow> event) \<Rightarrow> ('w, 'x) rcomp" where
  "call oper ev = (\<lambda>s. let (x, w) = oper (world s)
     in (Ok x, s\<lparr>world := w, trace := trace s @ [ev x]\<rparr>))"

definition emit_state :: "event \<Rightarrow> 'w rst \<Rightarrow> 'w rst" where
  "emit_state e s = s\<lparr>trace := trace s @ [e]\<rparr>"

definition emit :: "event \<Rightarrow> ('w, unit) rcomp" where
  "emit e = modify (emit_state e)"

text \<open>A write through a pointer to the item at an index.\<close>

definition upd_item :: "nat \<Rightarrow> (InventoryItem \<Rightarrow> InventoryItem) \<Rightarrow> ('w, unit) rcomp" where
  "upd_item k f = modify (\<lambda>s. s\<lparr>inventory := (inventory s)[k := f (inventory s ! k)]\<rparr>)"

text \<open>A nil pointer or a failed type assertion panics.\<close>

definition the_or_panic :: "'x option \<Rightarrow> ('w, 'x) rcomp" where
  "the_or_panic x = (case x of Some y \<Rightarrow> ret y | None \<Rightarrow> panic ''this cannot happen'')"

text \<open>\<open>util.Must\<close>.\<close>

definition Must :: "goerr + 'x \<Rightarrow> ('w, 'x) rcomp" where
  "Must x = (case x of Inr y \<Rightarrow> ret y | Inl _ \<Rightarrow> panic ''Must'')"

section \<open>Options and constructor\<close>

record ReconcilerOptions =
  OptFieldOwner :: "string option"
  OptFinalizer :: "string option"
  OptAdoptionPolicy :: "AdoptionPolicy option"
  OptUpdatePolicy :: "UpdatePolicy option"
  OptDeletePolicy :: "DeletePolicy option"
  OptMissingNamespacesPolicy :: "MissingNamespacesPolicy option"
  OptAdditionalManagedTypes :: "TypeInfo list"
  OptReapplyInterval :: "int option"
  OptStatusAnalyzer :: "(Object \<Rightarrow> goerr + Status) option"
  OptMetrics :: "counter \<Rightarrow> bool"
  OptEnableEvents :: "bool option"

record 'w Reconciler =
  fieldOwner :: string
  finalizer :: string
  client :: "'w client"
  statusAnalyzer :: "Object \<Rightarrow> goerr + Status"
  metrics :: "counter \<Rightarrow> bool"
  adoptionPolicy :: AdoptionPolicy
  reconcilePolicy :: ReconcilePolicy
  updatePolicy :: UpdatePolicy
  deletePolicy :: DeletePolicy
  missingNamespacesPolicy :: MissingNamespacesPolicy
  additionalManagedTypes :: "TypeInfo list"
  reapplyInterval :: int
  enableEvents :: bool
  labelKeyOwnerId :: string
  annotationKeyOwnerId :: string
  annotationKeyDigest :: string
  annotationKeyAdoptionPolicy :: string
  annotationKeyReconcilePolicy :: string
  annotationKeyUpdatePolicy :: string
  annotationKeyDeletePolicy :: string
  annotationKeyReapplyInterval :: string
  annotationKeyApplyOrder :: string
  annotationKeyPurgeOrder :: string
  annotationKeyDeleteOrder :: string

text \<open>Durations are in nanoseconds.\<close>

definition Minute :: int where
  "Minute = 60 * 1000000000"

definition defaultReapplyInterval :: int where
  "defaultReapplyInterval = 60 * Minute"

definition or_default :: "'x option \<Rightarrow> 'x \<Rightarrow> 'x" where
  "or_default x d = (case x of Some y \<Rightarrow> y | None \<Rightarrow> d)"

text \<open>\<open>newStatusAnalyzer\<close> is \<open>status.NewStatusAnalyzer\<close>.\<close>

definition NewReconciler :: "(string \<Rightarrow> Object \<Rightarrow> goerr + Status) \<Rightarrow> string \<Rightarrow> 'w client \<Rightarrow>
    ReconcilerOptions \<Rightarrow> 'w Reconciler" where
  "NewReconciler newStatusAnalyzer name clnt options =
     \<lparr>fieldOwner = or_default (OptFieldOwner options) name,
      finalizer = or_default (OptFinalizer options) name,
      client = clnt,
      statusAnalyzer = or_default (OptStatusAnalyzer options) (newStatusAnalyzer name),
      metrics = OptMetrics options,
      adoptionPolicy = or_default (OptAdoptionPolicy options) AdoptionPolicyIfUnowned,
      reconcilePolicy = ReconcilePolicyOnObjectChange,
      updatePolicy = or_default (OptUpdatePolicy options) UpdatePolicyReplace,
      deletePolicy = or_default (OptDeletePolicy options) DeletePolicyDelete,
      missingNamespacesPolicy = or_default (OptMissingNamespacesPolicy options) MissingNamespacesPolicyCreate,
      additionalManagedTypes = OptAdditionalManagedTypes options,
      reapplyInterval = or_default (OptReapplyInterval options) defaultReapplyInterval,
      enableEvents = or_default (OptEnableEvents options) True,
      labelKeyOwnerId = name @ ''/'' @ LabelKeySuffixOwnerId,
      annotationKeyOwnerId = name @ ''/'' @ AnnotationKeySuffixOwnerId,
      annotationKeyDigest = name @ ''/'' @ AnnotationKeySuffixDigest,
      annotationKeyAdoptionPolicy = name @ ''/'' @ AnnotationKeySuffixAdoptionPolicy,
      annotationKeyReconcilePolicy = name @ ''/'' @ AnnotationKeySuffixReconcilePolicy,
      annotationKeyUpdatePolicy = name @ ''/'' @ AnnotationKeySuffixUpdatePolicy,
      annotationKeyDeletePolicy = name @ ''/'' @ AnnotationKeySuffixDeletePolicy,
      annotationKeyReapplyInterval = name @ ''/'' @ AnnotationKeySuffixReapplyInterval,
      annotationKeyApplyOrder = name @ ''/'' @ AnnotationKeySuffixApplyOrder,
      annotationKeyPurgeOrder = name @ ''/'' @ AnnotationKeySuffixPurgeOrder,
      annotationKeyDeleteOrder = name @ ''/'' @ AnnotationKeySuffixDeleteOrder\<rparr>"

section \<open>Policies and orders from annotations\<close>

text \<open>\<open>math.MinInt16\<close> and \<open>math.MaxInt16\<close>.\<close>

definition minOrder :: int where
  "minOrder = - 32768"

definition maxOrder :: int where
  "maxOrder = 32767"

definition invalidAnnotation :: "string \<Rightarrow> string \<Rightarrow> goerr" where
  "invalidAnnotation key val = Errorf ''invalid value for annotation %s: %s'' [AStr key, AStr val]"

definition wrapInvalidAnnotation :: "goerr \<Rightarrow> string \<Rightarrow> string \<Rightarrow> goerr" where
  "wrapInvalidAnnotation err key val = Wrapf err ''invalid value for annotation %s: %s'' [AStr key, AStr val]"

definition getAdoptionPolicy :: "platform \<Rightarrow> 'w Reconciler \<Rightarrow> Object \<Rightarrow> goerr + AdoptionPolicy" where
  "getAdoptionPolicy P r object =
     (let v = ToKebab P (getString (Annotations object) (annotationKeyAdoptionPolicy r)) in
      if v = '''' then Inr (adoptionPolicy r)
      else if v = ''never'' then Inr AdoptionPolicyNever
      else if v = ''if-unowned'' then Inr AdoptionPolicyIfUnowned
      else if v = ''always'' then Inr AdoptionPolicyAlways
      else Inl (invalidAnnotation (annotationKeyAdoptionPolicy r) v))"

definition getReconcilePolicy :: "platform \<Rightarrow> 'w Reconciler \<Rightarrow> Object \<Rightarrow> goerr + ReconcilePolicy" where
  "getReconcilePolicy P r object =
     (let v = ToKebab P (getString (Annotations object) (annotationKeyReconcilePolicy r)) in
      if v = '''' then Inr (reconcilePolicy r)
      else if v = ''on-object-change'' then Inr ReconcilePolicyOnObjectChange
      else if v = ''on-object-or-component-change'' then Inr ReconcilePolicyOnObjectOrComponentChange
      else if v = ''once'' then Inr ReconcilePolicyOnce
      else Inl (invalidAnnotation (annotationKeyReconcilePolicy r) v))"

definition getUpdatePolicy :: "platform \<Rightarrow> 'w Reconciler \<Rightarrow> Object \<Rightarrow> goerr + UpdatePolicy" where
  "getUpdatePolicy P r object =
     (let v = ToKebab P (getString (Annotations object) (annotationKeyUpdatePolicy r)) in
      if v = '''' \<or> v = ''default'' then Inr (updatePolicy r)
      else if v = ''recreate'' then Inr UpdatePolicyRecreate
      else if v = ''replace'' then Inr UpdatePolicyReplace
      else if v = ''ssa-merge'' then Inr UpdatePolicySsaMerge
      else if v = ''ssa-override'' then Inr UpdatePolicySsaOverride
      else Inl (invalidAnnotation (annotationKeyUpdatePolicy r) v))"

definition getDeletePolicy :: "platform \<Rightarrow> 'w Reconciler \<Rightarrow> Object \<Rightarrow> goerr + DeletePolicy" where
  "getDeletePolicy P r object =
     (let v = ToKebab P (getString (Annotations object) (annotationKeyDeletePolicy r)) in
      if v = '''' \<or> v = ''default'' then Inr (deletePolicy r)
      else if v = ''delete'' then Inr DeletePolicyDelete
      else if v = ''orphan'' then Inr DeletePolicyOrphan
      else if v = ''orphan-on-apply'' then Inr DeletePolicyOrphanOnApply
      else if v = ''orphan-on-delete'' then Inr DeletePolicyOrphanOnDelete
      else Inl (invalidAnnotation (annotationKeyDeletePolicy r) v))"

definition getReapplyInterval :: "platform \<Rightarrow> 'w Reconciler \<Rightarrow> Object \<Rightarrow> goerr + int" where
  "getReapplyInterval P r object =
     (case map_of (Annotations object) (annotationKeyReapplyInterval r) of
        None \<Rightarrow> Inr (reapplyInterval r)
      | Some val \<Rightarrow> (case ParseDuration P val of
          Inl err \<Rightarrow> Inl (wrapInvalidAnnotation err (annotationKeyReapplyInterval r) val)
        | Inr d \<Rightarrow> Inr d))"

text \<open>\<open>strconv.Atoi\<close>: an optional sign and decimal digits, within the range of \<open>int\<close> (64 bits).\<close>

definition is_digit :: "char \<Rightarrow> bool" where
  "is_digit c \<longleftrightarrow> 48 \<le> (of_char c :: nat) \<and> (of_char c :: nat) \<le> 57"

definition digits_value :: "string \<Rightarrow> int" where
  "digits_value s = fold (\<lambda>c n. 10 * n + (of_char c - 48)) s 0"

definition parse_digits :: "string \<Rightarrow> int option" where
  "parse_digits s = (if s \<noteq> [] \<and> (\<forall>c \<in> set s. is_digit c) then Some (digits_value s) else None)"

definition Atoi :: "string \<Rightarrow> goerr + int" where
  "Atoi s = (let v = (case s of
        CHR ''-'' # ds \<Rightarrow> map_option uminus (parse_digits ds)
      | CHR ''+'' # ds \<Rightarrow> parse_digits ds
      | _ \<Rightarrow> parse_digits s)
     in case v of
       None \<Rightarrow> Inl (Errorf ''strconv.Atoi: parsing %q: invalid syntax'' [AStr s])
     | Some n \<Rightarrow> if n < - (2 ^ 63) \<or> 2 ^ 63 \<le> n
         then Inl (Errorf ''strconv.Atoi: parsing %q: value out of range'' [AStr s])
         else Inr n)"

text \<open>
  The three getters of orders share this shape: the annotation's value must be a number in
  the range of 16-bit integers; \<open>absent\<close> is the result if there is no annotation.
\<close>

definition getOrder :: "string \<Rightarrow> int \<Rightarrow> Object \<Rightarrow> goerr + int" where
  "getOrder key absent object = (case map_of (Annotations object) key of
     None \<Rightarrow> Inr absent
   | Some val \<Rightarrow> (case Atoi val of
       Inl err \<Rightarrow> Inl (wrapInvalidAnnotation err key val)
     | Inr n \<Rightarrow> (case checkRange n minOrder maxOrder of
         Some err \<Rightarrow> Inl (wrapInvalidAnnotation err key val)
       | None \<Rightarrow> Inr n)))"

definition getApplyOrder :: "'w Reconciler \<Rightarrow> Object \<Rightarrow> goerr + int" where
  "getApplyOrder r object = getOrder (annotationKeyApplyOrder r) 0 object"

definition getPurgeOrder :: "'w Reconciler \<Rightarrow> Object \<Rightarrow> goerr + int" where
  "getPurgeOrder r object = getOrder (annotationKeyPurgeOrder r) (maxOrder + 1) object"

definition getDeleteOrder :: "'w Reconciler \<Rightarrow> Object \<Rightarrow> goerr + int" where
  "getDeleteOrder r object = getOrder (annotationKeyDeleteOrder r) 0 object"

end
