(* ===== verification/Reconciler_Ops.thy ===== *)
theory Reconciler_Ops
  imports Reconciler_Base
begin

text \<open>
  The calls of \<open>pkg/reconciler/reconciler.go\<close> on a single object: \<open>readObject\<close>,
  \<open>createObject\<close>, \<open>updateObject\<close>, \<open>deleteObject\<close>, \<open>orphanObject\<close>, the checks whether
  a type is in use, and \<open>util.UpdateFinalizers\<close>. The metric counters and the Kubernetes
  events are entries of the trace. \<open>createdObject\<close> and \<open>updatedObject\<close> are nil at every call
  and left out.
\<close>

definition count :: "'w Reconciler \<Rightarrow> counter \<Rightarrow> ('w, unit) rcomp" where
  "count r c = (if metrics r c then emit (EMetric c) else ret ())"

definition UpdateFinalizers :: "'w client \<Rightarrow> Object \<Rightarrow> string \<Rightarrow> ('w, unit) rcomp" where
  "UpdateFinalizers clnt obj owner =
     bind (call (FinalizerPatch clnt (ObjectKeyOf obj) (ResourceVersion obj) (Finalizers obj) owner)
             (EFinalizerPatch (ObjectKeyOf obj) (ResourceVersion obj) (Finalizers obj)))
       of_option"

section \<open>Read, create, update\<close>

definition readObject :: "'w Reconciler \<Rightarrow> 'a ObjectKey_scheme \<Rightarrow> ('w, Object option) rcomp" where
  "readObject r key =
     seq (count r ReadCounter)
     (bind (call (Get (client r) (ObjectKeyOf key)) (EGet (ObjectKeyOf key))) (\<lambda>res.
        case res of
          Inr object \<Rightarrow> ret (Some object)
        | Inl err \<Rightarrow> if IsNoMatchError err \<or> IsNotFound err then ret None else fail err))"

text \<open>The deferred closures see the converted object, if the conversion succeeded.\<close>

definition convertedKey :: "platform \<Rightarrow> Object \<Rightarrow> ObjectKey" where
  "convertedKey P object = (case ToUnstructured P object of
     Inr object' \<Rightarrow> ObjectKeyOf object' | Inl _ \<Rightarrow> ObjectKeyOf object)"

definition createObject_body :: "platform \<Rightarrow> 'w Reconciler \<Rightarrow> Object \<Rightarrow> UpdatePolicy \<Rightarrow> ('w, unit) rcomp" where
  "createObject_body P r object policy =
     bind (lift_sum (ToUnstructured P object)) (\<lambda>object.
       let object = (if isCrd object \<or> isApiService object
                     then fst (AddFinalizer P object (finalizer r)) else object);
           object = object\<lparr>ManagedFields := []\<rparr>
       in if policy = UpdatePolicySsaMerge \<or> policy = UpdatePolicySsaOverride then
            (let object = object\<lparr>ResourceVersion := ''1''\<rparr>
             in bind (call (ApplyPatch (client r) object (fieldOwner r) False) (EApplyPatch object False)) of_option)
          else bind (call (Create (client r) object (fieldOwner r)) (ECreate object)) of_option)"

definition createObject :: "platform \<Rightarrow> 'w Reconciler \<Rightarrow> Object \<Rightarrow> UpdatePolicy \<Rightarrow> ('w, unit) rcomp" where
  "createObject P r object policy =
     seq (count r CreateCounter)
     (with_defer (createObject_body P r object policy) (\<lambda>err s.
        if enableEvents r \<and> err = None
        then emit_state (ERecord (convertedKey P object) ''Created'') s else s))"

definition updateObject_body :: "platform \<Rightarrow> 'w Reconciler \<Rightarrow> Object \<Rightarrow> Object \<Rightarrow> UpdatePolicy \<Rightarrow> ('w, unit) rcomp" where
  "updateObject_body P r object existingObject policy =
     (if DeletionTimestamp existingObject \<noteq> None then panic ''this cannot happen''
      else bind (lift_sum (ToUnstructured P object)) (\<lambda>object.
       let object = (if isCrd object \<or> isApiService object \<or> finalizer r \<in> set (Finalizers existingObject)
                     then fst (AddFinalizer P object (finalizer r)) else object);
           object = (if ResourceVersion object = ''''
                     then object\<lparr>ResourceVersion := ResourceVersion existingObject\<rparr> else object);
           object = object\<lparr>ManagedFields := []\<rparr>
       in if policy = UpdatePolicySsaMerge \<or> policy = UpdatePolicySsaOverride then
            (let replacedFieldManagerPrefixes = (if policy = UpdatePolicySsaOverride then [''kubectl''] else [])
             in bind (lift_sum (replaceFieldManager P (ManagedFields existingObject)
                                  replacedFieldManagerPrefixes (fieldOwner r))) (\<lambda>(managedFields, changed).
                bind (if changed
                      then (let preparePatch = [ReplaceManagedFields managedFields,
                                                ReplaceResourceVersion (ResourceVersion object)]
                            in bind (call (JsonPatch (client r) (ObjectKeyOf object) preparePatch (fieldOwner r))
                                     (\<lambda>_. EJsonPatch (ObjectKeyOf object) preparePatch)) (\<lambda>res.
                               bind (lift_sum res) (\<lambda>rv.
                               ret (object\<lparr>ResourceVersion := rv\<rparr>))))
                      else ret object) (\<lambda>object.
                bind (call (ApplyPatch (client r) object (fieldOwner r) True) (EApplyPatch object True)) of_option)))
          else
            (let object = fold (\<lambda>f object. fst (AddFinalizer P object f)) (Finalizers existingObject) object
             in bind (call (Update (client r) object (fieldOwner r)) (EUpdate object)) of_option)))"

definition updateObject :: "platform \<Rightarrow> 'w Reconciler \<Rightarrow> Object \<Rightarrow> Object \<Rightarrow> UpdatePolicy \<Rightarrow> ('w, unit) rcomp" where
  "updateObject P r object existingObject policy =
     seq (count r UpdateCounter)
     (with_defer (updateObject_body P r object existingObject policy) (\<lambda>err s.
        if enableEvents r then
          (case err of
             None \<Rightarrow> emit_state (ERecord (if DeletionTimestamp existingObject = None
               then convertedKey P object else ObjectKeyOf object) ''Updated'') s
           | Some _ \<Rightarrow> emit_state (ERecord (ObjectKeyOf existingObject) ''UpdateError'') s)
        else s))"

section \<open>Types in use\<close>

definition ownerSelector :: "'w Reconciler \<Rightarrow> string \<Rightarrow> bool \<Rightarrow> LabelSelector" where
  "ownerSelector r hashedOwnerId onlyForeign =
     (if onlyForeign then NotEquals (labelKeyOwnerId r) hashedOwnerId else Everything)"

definition listNonEmpty :: "'w Reconciler \<Rightarrow> GroupVersionKind \<Rightarrow> LabelSelector \<Rightarrow> ('w, bool) rcomp" where
  "listNonEmpty r gvk labelSelector =
     bind (call (List (client r) gvk labelSelector) (EList gvk labelSelector)) (\<lambda>res.
     bind (lift_sum res) (\<lambda>items. ret (items \<noteq> [])))"

text \<open>The loop over the types: true as soon as one has an instance.\<close>

definition anyTypeUsed :: "'w Reconciler \<Rightarrow> GroupVersionKind list \<Rightarrow> LabelSelector \<Rightarrow> ('w, bool) rcomp" where
  "anyTypeUsed r gvks labelSelector =
     bind (for_each gvks () (\<lambda>gvk _.
       bind (listNonEmpty r gvk labelSelector) (\<lambda>used.
       ret (if used then Return True else Next ())))) (\<lambda>x.
     ret (case x of Return b \<Rightarrow> b | _ \<Rightarrow> False))"

text \<open>The group-version-kinds of the discovered resources that match a (pattern of a) type.\<close>

fun matchingTypes :: "platform \<Rightarrow> TypeInfo \<Rightarrow> (string \<times> string list) list \<Rightarrow> goerr + GroupVersionKind list" where
  "matchingTypes P gk [] = Inr []"
| "matchingTypes P gk ((groupVersion, kinds) # resLists) =
     (case ParseGroupVersion P groupVersion of
        Inl err \<Rightarrow> Inl err
      | Inr (grp, version) \<Rightarrow>
          (case matchingTypes P gk resLists of
             Inl err \<Rightarrow> Inl err
           | Inr gvks \<Rightarrow>
               Inr ((if matches grp (Group gk)
                     then map (\<lambda>kind. \<lparr>Group = grp, Kind = kind, Version = version\<rparr>)
                            (filter (\<lambda>kind. Kind gk = ''*'' \<or> Kind gk = kind) kinds)
                     else []) @ gvks)))"

definition isTypeUsed :: "platform \<Rightarrow> 'w Reconciler \<Rightarrow> TypeInfo \<Rightarrow> string \<Rightarrow> bool \<Rightarrow> ('w, bool) rcomp" where
  "isTypeUsed P r gk hashedOwnerId onlyForeign =
     bind (call (ServerPreferredResources (client r)) (\<lambda>_. EDiscovery)) (\<lambda>res.
     bind (lift_sum res) (\<lambda>resLists.
     bind (lift_sum (matchingTypes P gk resLists)) (\<lambda>gvks.
     anyTypeUsed r gvks (ownerSelector r hashedOwnerId onlyForeign))))"

text \<open>Indexing the empty list of served versions panics.\<close>

definition isCrdUsed :: "'w Reconciler \<Rightarrow> CustomResourceDefinitionSpec \<Rightarrow> string \<Rightarrow> bool \<Rightarrow> ('w, bool) rcomp" where
  "isCrdUsed r crd hashedOwnerId onlyForeign =
     (case filter snd (CrdVersions crd) of
        [] \<Rightarrow> panic ''index out of range''
      | (version, _) # _ \<Rightarrow>
          listNonEmpty r \<lparr>Group = CrdGroup crd, Kind = CrdKind crd, Version = version\<rparr>
            (ownerSelector r hashedOwnerId onlyForeign))"

definition isApiServiceUsed :: "platform \<Rightarrow> 'w Reconciler \<Rightarrow> APIServiceSpec \<Rightarrow> string \<Rightarrow> bool \<Rightarrow> ('w, bool) rcomp" where
  "isApiServiceUsed P r apiService hashedOwnerId onlyForeign =
     bind (call (ServerResourcesForGroupVersion (client r)
             (GroupVersionString P (ApiGroup apiService) (ApiVersion apiService))) (\<lambda>_. EDiscovery)) (\<lambda>res.
     bind (lift_sum res) (\<lambda>resKinds.
     let kinds = fold (\<lambda>kind kinds. if kind \<in> set kinds then kinds else kinds @ [kind]) resKinds []
     in anyTypeUsed r
          (map (\<lambda>kind. \<lparr>Group = ApiGroup apiService, Kind = kind, Version = ApiVersion apiService\<rparr>) kinds)
          (ownerSelector r hashedOwnerId onlyForeign)))"

section \<open>Delete and orphan\<close>

text \<open>
  The retry loop after the delete request of a custom resource definition or an API service:
  \<open>get\<close> reads the object, \<open>used\<close> checks for instances. A conflict while removing the
  finalizer is retried up to the third attempt.
\<close>

definition clearFinalizer_loop :: "platform \<Rightarrow> 'w Reconciler \<Rightarrow> goerr \<Rightarrow>
    ('w, goerr + Object \<times> 'spec) rcomp \<Rightarrow> ('spec \<Rightarrow> ('w, bool) rcomp) \<Rightarrow> ('w, unit) rcomp" where
  "clearFinalizer_loop P r inUse get used =
     bind (for_each [1, 2, 3 :: nat] () (\<lambda>i _.
       bind get (\<lambda>res. case res of
         Inl err \<Rightarrow> bind (of_option (IgnoreNotFound err)) (\<lambda>_. ret (Return ()))
       | Inr (obj, spec) \<Rightarrow>
           bind (used spec) (\<lambda>isUsed.
           if isUsed then fail inUse
           else let (obj, ok) = RemoveFinalizer P obj (finalizer r) in
             if ok then
               bind (try_comp (UpdateFinalizers (client r) obj (fieldOwner r))) (\<lambda>res. case res of
                 Inl err \<Rightarrow> if i < 3 \<and> IsConflict err then ret (Next ()) else fail err
               | Inr _ \<Rightarrow> ret (Break ()))
             else ret (Break ()))))) (\<lambda>_. ret ())"

definition deleteObject_body :: "platform \<Rightarrow> 'w Reconciler \<Rightarrow> 'a ObjectKey_scheme \<Rightarrow> Object option \<Rightarrow>
    string \<Rightarrow> ('w, unit) rcomp" where
  "deleteObject_body P r key existingObject hashedOwnerId =
     (let foreign = (case existingObject of
            Some obj \<Rightarrow> getString (Labels obj) (labelKeyOwnerId r) \<noteq> hashedOwnerId | None \<Rightarrow> False);
          precondition = map_option ResourceVersion existingObject;
          s = ObjectKeyToString P key
      in if foreign then fail (Errorf ''owner conflict; object %s has no or different owner'' [AStr s])
      else bind (call (Delete (client r) (ObjectKeyOf key) precondition)
                   (EDelete (ObjectKeyOf key) precondition)) (\<lambda>res. case res of
        Some err \<Rightarrow> if IsNoMatchError err \<or> IsNotFound err then ret () else fail err
      | None \<Rightarrow>
          if isCrd key then
            clearFinalizer_loop P r
              (Errorf ''error deleting custom resource definition %s, existing instances found'' [AStr s])
              (call (GetCrd (client r) (Name key)) (\<lambda>_. EGetCrd (Name key)))
              (\<lambda>crd. isCrdUsed r crd hashedOwnerId False)
          else if isApiService key then
            clearFinalizer_loop P r
              (Errorf ''error deleting api service %s, existing instances found'' [AStr s])
              (call (GetApiService (client r) (Name key)) (\<lambda>_. EGetApiService (Name key)))
              (\<lambda>apiService. isApiServiceUsed P r apiService hashedOwnerId False)
          else ret ()))"

definition deleteObject :: "platform \<Rightarrow> 'w Reconciler \<Rightarrow> 'a ObjectKey_scheme \<Rightarrow> Object option \<Rightarrow>
    string \<Rightarrow> ('w, unit) rcomp" where
  "deleteObject P r key existingObject hashedOwnerId =
     seq (count r DeleteCounter)
     (with_defer (deleteObject_body P r key existingObject hashedOwnerId) (\<lambda>err s.
        if enableEvents r then
          (case existingObject of
             None \<Rightarrow> s
           | Some obj \<Rightarrow> emit_state (ERecord (ObjectKeyOf obj)
               (if err = None then ''Deleted'' else ''DeleteError'')) s)
        else s))"

definition orphanObject :: "platform \<Rightarrow> 'w Reconciler \<Rightarrow> Object option \<Rightarrow> string \<Rightarrow> ('w, unit) rcomp" where
  "orphanObject P r existingObject hashedOwnerId = (case existingObject of
     None \<Rightarrow> ret ()
   | Some obj \<Rightarrow>
       if getString (Labels obj) (labelKeyOwnerId r) \<noteq> hashedOwnerId then ret ()
       else if isCrd obj \<or> isApiService obj then
         (let (object, changed) = RemoveFinalizer P obj (finalizer r)
          in if changed then UpdateFinalizers (client r) object (fieldOwner r) else ret ())
       else ret ())"

section \<open>Is the deletion allowed\<close>

definition IsDeletionAllowed_types :: "platform \<Rightarrow> 'w Reconciler \<Rightarrow> string \<Rightarrow> ('w, (unit, bool \<times> string) ctl) rcomp" where
  "IsDeletionAllowed_types P r hashedOwnerId =
     for_each (additionalManagedTypes r) () (\<lambda>gk _.
       bind (map_err (\<lambda>err. Wrapf err ''error checking usage of type %s'' [AStr (GroupKindString P gk)])
         (isTypeUsed P r gk hashedOwnerId True)) (\<lambda>used.
       ret (if used
            then Return (False, ''type '' @ GroupKindString P gk @ '' is still in use (instances exist)'')
            else Next ())))"

definition IsDeletionAllowed_item :: "platform \<Rightarrow> 'w Reconciler \<Rightarrow> string \<Rightarrow> InventoryItem \<Rightarrow>
    ('w, (unit, bool \<times> string) ctl) rcomp" where
  "IsDeletionAllowed_item P r hashedOwnerId item =
     (if isCrd item then
        bind (call (GetCrd (client r) (Name item)) (\<lambda>_. EGetCrd (Name item))) (\<lambda>res. case res of
          Inl err \<Rightarrow> if IsNotFound err then ret (Next ())
            else fail (Wrapf err ''error retrieving crd %s'' [AStr (Name item)])
        | Inr (_, crd) \<Rightarrow>
            bind (map_err (\<lambda>err. Wrapf err ''error checking usage of crd %s'' [AStr (Name item)])
              (isCrdUsed r crd hashedOwnerId True)) (\<lambda>used.
            ret (if used then Return (False, ''crd '' @ Name item @ '' is still in use (instances exist)'')
                 else Next ())))
      else if isApiService item then
        bind (call (GetApiService (client r) (Name item)) (\<lambda>_. EGetApiService (Name item))) (\<lambda>res. case res of
          Inl err \<Rightarrow> if IsNotFound err then ret (Next ())
            else fail (Wrapf err ''error retrieving api service %s'' [AStr (Name item)])
        | Inr (_, apiService) \<Rightarrow>
            bind (map_err (\<lambda>err. Wrapf err ''error checking usage of api service %s'' [AStr (Name item)])
              (isApiServiceUsed P r apiService hashedOwnerId True)) (\<lambda>used.
            ret (if used then Return (False, ''api service '' @ Name item @ '' is still in use (instances exist)'')
                 else Next ())))
      else ret (Next ()))"

definition orphanedOnDelete :: "InventoryItem \<Rightarrow> bool" where
  "orphanedOnDelete item \<longleftrightarrow>
     ItemDeletePolicy item = DeletePolicyOrphan \<or> ItemDeletePolicy item = DeletePolicyOrphanOnDelete"

definition IsDeletionAllowed :: "platform \<Rightarrow> 'w Reconciler \<Rightarrow> string \<Rightarrow> ('w, bool \<times> string) rcomp" where
  "IsDeletionAllowed P r ownerId =
     (let hashedOwnerId = Sha256base32 P ownerId in
      bind (IsDeletionAllowed_types P r hashedOwnerId) (\<lambda>x. case x of
        Return res \<Rightarrow> ret res
      | _ \<Rightarrow>
        bind (gets inventory) (\<lambda>items.
        if \<forall>item \<in> set items. orphanedOnDelete item then ret (True, '''')
        else bind (for_each items () (\<lambda>item _. IsDeletionAllowed_item P r hashedOwnerId item)) (\<lambda>x.
          ret (case x of Return res \<Rightarrow> res | _ \<Rightarrow> (True, ''''))))))"

end
