(* ===== verification/Reconciler_Apply.thy ===== *)
theory Reconciler_Apply
  imports Reconciler_Ops
begin

text \<open>
  \<open>Reconciler.Apply\<close> of \<open>pkg/reconciler/reconciler.go\<close>, section by section in the order
  of the code: validation and preparation of the objects, the new inventory and its
  validation, missing namespaces, completions, the waves of the apply loop, the waves of the
  deletion of redundant objects; \<open>Apply\<close> composes them. The closures \<open>getApplyOrder\<close> etc.
  of the code call \<open>util.Must\<close> on getters that the validation has already run without
  error; here they are the total functions \<open>\<dots>Of\<close>, which are the getters' results wherever
  these have no error.
\<close>

section \<open>Preparation of the objects\<close>

fun firstSome :: "'x option list \<Rightarrow> 'x option" where
  "firstSome [] = None"
| "firstSome (Some x # _) = Some x"
| "firstSome (None # xs) = firstSome xs"

definition checkGenerateNames :: "platform \<Rightarrow> Object list \<Rightarrow> goerr option" where
  "checkGenerateNames P objects = firstSome (map (\<lambda>object.
     if GenerateName object \<noteq> ''''
     then Some (Errorf ''object %s specifies metadata.generateName (but dependent objects are not allowed to do so)''
       [AStr (ObjectKeyToString P object)])
     else None) objects)"

text \<open>The assertion \<open>object.(*corev1.Secret)\<close> panics if it fails.\<close>

definition mergeStringData :: "Object \<Rightarrow> Object option" where
  "mergeStringData object =
     (if isSecret object then
        (case (GoType object, ObjBody object) of
           (GoTyped, SecretBody data stringData) \<Rightarrow>
             Some (object\<lparr>ObjBody := SecretBody (fold (\<lambda>(k, v) d. AList.update k v d) stringData data) []\<rparr>)
         | _ \<Rightarrow> None)
      else Some object)"

definition cleanupObject :: "'w Reconciler \<Rightarrow> Object \<Rightarrow> Object" where
  "cleanupObject r object =
     RemoveAnnotation (RemoveAnnotation (RemoveLabel object (labelKeyOwnerId r))
       (annotationKeyOwnerId r)) (annotationKeyDigest r)"

text \<open>Scope of an object's type, from the REST mapping or the objects to be applied.\<close>

definition resolveScope :: "platform \<Rightarrow> 'w Reconciler \<Rightarrow> Object list \<Rightarrow> Object \<Rightarrow> ('w, scope) rcomp" where
  "resolveScope P r objects object =
     (let wrap = (\<lambda>err. Wrapf err ''error getting rest mapping for object %s'' [AStr (ObjectKeyToString P object)]) in
      bind (call (RESTMapping (client r) (GroupKindOf object) (Version object))
              (\<lambda>_. ERESTMapping (GroupKindOf object) (Version object))) (\<lambda>res.
      bind (case res of
          Inr restMapping \<Rightarrow> bind (the_or_panic (scopeFromRestMapping restMapping)) (\<lambda>sc. ret (sc, None))
        | Inl err \<Rightarrow> if \<not> IsNoMatchError err then fail (wrap err) else ret (scopeUnknown, Some err)) (\<lambda>(sc, err).
      bind (the_or_panic (getCrds objects)) (\<lambda>crds.
      bind (case List.find (\<lambda>crd. CrdGroup crd = Group object \<and> CrdKind crd = Kind object) crds of
          Some crd \<Rightarrow> bind (the_or_panic (scopeFromCrd crd)) (\<lambda>sc. ret (sc, None))
        | None \<Rightarrow> ret (sc, err)) (\<lambda>(sc, err).
      bind (the_or_panic (getApiServices objects)) (\<lambda>apiServices.
      let err = (if \<exists>a \<in> set apiServices. ApiGroup a = Group object \<and> ApiVersion a = Version object
                 then None else err)
      in case err of Some e \<Rightarrow> fail (wrap e) | None \<Rightarrow> ret sc))))))"

definition assignNamespace :: "scope \<Rightarrow> string \<Rightarrow> Object \<Rightarrow> Object" where
  "assignNamespace sc namespace object =
     (let object = (if Namespace object = '''' \<and> sc = scopeNamespaced
                    then object\<lparr>Namespace := namespace\<rparr> else object)
      in if Namespace object \<noteq> '''' \<and> sc = scopeCluster then object\<lparr>Namespace := ''''\<rparr> else object)"

fun assignNamespaces :: "platform \<Rightarrow> 'w Reconciler \<Rightarrow> string \<Rightarrow> Object list \<Rightarrow> Object list \<Rightarrow>
    ('w, Object list) rcomp" where
  "assignNamespaces P r namespace done [] = ret done"
| "assignNamespaces P r namespace done (object # objects) =
     bind (resolveScope P r (done @ object # objects) object) (\<lambda>sc.
     assignNamespaces P r namespace (done @ [assignNamespace sc namespace object]) objects)"

definition duplicateKey :: "platform \<Rightarrow> 'a ObjectKey_scheme \<Rightarrow> string" where
  "duplicateKey P object = GroupKindString P (GroupKindOf object) @ '' '' @ Namespace object @ ''/'' @ Name object"

fun checkDuplicates :: "platform \<Rightarrow> string set \<Rightarrow> Object list \<Rightarrow> goerr option" where
  "checkDuplicates P objectKeys [] = None"
| "checkDuplicates P objectKeys (object # objects) =
     (let objectKey = duplicateKey P object in
      if objectKey \<in> objectKeys then Some (Errorf ''duplicate object %s'' [AStr objectKey])
      else checkDuplicates P (insert objectKey objectKeys) objects)"

definition errOf :: "goerr + 'x \<Rightarrow> goerr option" where
  "errOf x = (case x of Inl err \<Rightarrow> Some err | Inr _ \<Rightarrow> None)"

definition wrapValidating :: "platform \<Rightarrow> Object \<Rightarrow> goerr \<Rightarrow> goerr" where
  "wrapValidating P object err = Wrapf err ''error validating object %s'' [AStr (ObjectKeyToString P object)]"

definition validateAnnotations :: "platform \<Rightarrow> 'w Reconciler \<Rightarrow> Object \<Rightarrow> goerr option" where
  "validateAnnotations P r object = map_option (wrapValidating P object) (firstSome
     [errOf (getAdoptionPolicy P r object), errOf (getReconcilePolicy P r object),
      errOf (getUpdatePolicy P r object), errOf (getDeletePolicy P r object),
      errOf (getReapplyInterval P r object), errOf (getApplyOrder r object),
      errOf (getPurgeOrder r object), errOf (getDeleteOrder r object)])"

definition adoptionPolicyOf :: "platform \<Rightarrow> 'w Reconciler \<Rightarrow> Object \<Rightarrow> AdoptionPolicy" where
  "adoptionPolicyOf P r object = (case getAdoptionPolicy P r object of Inr v \<Rightarrow> v | Inl _ \<Rightarrow> AdoptionPolicyNever)"

definition reconcilePolicyOf :: "platform \<Rightarrow> 'w Reconciler \<Rightarrow> Object \<Rightarrow> ReconcilePolicy" where
  "reconcilePolicyOf P r object = (case getReconcilePolicy P r object of Inr v \<Rightarrow> v | Inl _ \<Rightarrow> reconcilePolicy r)"

definition updatePolicyOf :: "platform \<Rightarrow> 'w Reconciler \<Rightarrow> Object \<Rightarrow> UpdatePolicy" where
  "updatePolicyOf P r object = (case getUpdatePolicy P r object of Inr v \<Rightarrow> v | Inl _ \<Rightarrow> updatePolicy r)"

definition deletePolicyOf :: "platform \<Rightarrow> 'w Reconciler \<Rightarrow> Object \<Rightarrow> DeletePolicy" where
  "deletePolicyOf P r object = (case getDeletePolicy P r object of Inr v \<Rightarrow> v | Inl _ \<Rightarrow> deletePolicy r)"

definition reapplyIntervalOf :: "platform \<Rightarrow> 'w Reconciler \<Rightarrow> Object \<Rightarrow> int" where
  "reapplyIntervalOf P r object = (case getReapplyInterval P r object of Inr v \<Rightarrow> v | Inl _ \<Rightarrow> 0)"

definition applyOrderOf :: "'w Reconciler \<Rightarrow> Object \<Rightarrow> int" where
  "applyOrderOf r object = (case getApplyOrder r object of Inr v \<Rightarrow> v | Inl _ \<Rightarrow> 0)"

definition purgeOrderOf :: "'w Reconciler \<Rightarrow> Object \<Rightarrow> int" where
  "purgeOrderOf r object = (case getPurgeOrder r object of Inr v \<Rightarrow> v | Inl _ \<Rightarrow> 0)"

definition deleteOrderOf :: "'w Reconciler \<Rightarrow> Object \<Rightarrow> int" where
  "deleteOrderOf r object = (case getDeleteOrder r object of Inr v \<Rightarrow> v | Inl _ \<Rightarrow> 0)"

definition validatePurgeOrder :: "platform \<Rightarrow> 'w Reconciler \<Rightarrow> Object \<Rightarrow> goerr option" where
  "validatePurgeOrder P r object =
     (if isNamespace object then
        (if purgeOrderOf r object \<le> maxOrder
         then Some (wrapValidating P object (Errorf ''namespaces must not define a purge order'' [])) else None)
      else if isCrd object then
        (if purgeOrderOf r object \<le> maxOrder
         then Some (wrapValidating P object (Errorf ''custom resource definitions must not define a purge order'' [])) else None)
      else if isApiService object then
        (if purgeOrderOf r object \<le> maxOrder
         then Some (wrapValidating P object (Errorf ''api services must not define a purge order'' [])) else None)
      else None)"

text \<open>Lines 278 to 455 of the code: the objects as they are worked on from here.\<close>

definition prepareObjects :: "platform \<Rightarrow> 'w Reconciler \<Rightarrow> Object list \<Rightarrow> string \<Rightarrow> ('w, Object list) rcomp" where
  "prepareObjects P r objects namespace =
     seq (of_option (checkGenerateNames P objects))
     (bind (map_err (\<lambda>err. Wrapf err ''error normalizing objects'' []) (lift_sum (normalizeObjects P objects))) (\<lambda>objects.
      bind (the_or_panic (those (map mergeStringData objects))) (\<lambda>objects.
      bind (assignNamespaces P r namespace [] (map (cleanupObject r) objects)) (\<lambda>objects.
      seq (of_option (checkDuplicates P {} objects))
     (seq (of_option (firstSome (map (validateAnnotations P r) objects)))
     (seq (of_option (firstSome (map (validatePurgeOrder P r) objects)))
     (ret objects)))))))"

section \<open>The new inventory\<close>

definition checkOwner :: "platform \<Rightarrow> 'w Reconciler \<Rightarrow> string \<Rightarrow> Object \<Rightarrow> Object option \<Rightarrow> goerr option" where
  "checkOwner P r hashedOwnerId object existingObject = (case existingObject of
     None \<Rightarrow> None
   | Some ex \<Rightarrow>
       (let policy = adoptionPolicyOf P r object; existingOwnerId = getString (Labels ex) (labelKeyOwnerId r) in
        if existingOwnerId = '''' then
          (if policy \<noteq> AdoptionPolicyIfUnowned \<and> policy \<noteq> AdoptionPolicyAlways
           then Some (Errorf ''found existing object %s without owner'' [AStr (ObjectKeyToString P object)]) else None)
        else if existingOwnerId \<noteq> hashedOwnerId then
          (if policy \<noteq> AdoptionPolicyAlways
           then Some (Errorf ''owner conflict; object %s is owned by %s''
             [AStr (ObjectKeyToString P object), AStr (getString (Annotations ex) (annotationKeyOwnerId r))]) else None)
        else None))"

definition updateItem :: "platform \<Rightarrow> 'w Reconciler \<Rightarrow> Object \<Rightarrow> string \<Rightarrow> TypeVersionInfo list \<Rightarrow>
    InventoryItem \<Rightarrow> InventoryItem" where
  "updateItem P r object digest types item =
     (let item = item\<lparr>Group := Group object, Version := Version object, Kind := Kind object,
            Namespace := Namespace object, Name := Name object,
            ItemAdoptionPolicy := adoptionPolicyOf P r object,
            ItemReconcilePolicy := reconcilePolicyOf P r object,
            ItemUpdatePolicy := updatePolicyOf P r object,
            ItemDeletePolicy := deletePolicyOf P r object,
            ItemApplyOrder := applyOrderOf r object,
            ItemDeleteOrder := deleteOrderOf r object,
            ManagedTypes := types\<rparr>
      in if digest \<noteq> Digest item
         then item\<lparr>Digest := digest, ItemPhase := PhaseScheduledForApplication, ItemStatus := InProgressStatus\<rparr>
         else item)"

text \<open>One object: its item is looked up or, after the ownership check, appended.\<close>

definition addObject :: "platform \<Rightarrow> 'w Reconciler \<Rightarrow> string \<Rightarrow> string \<Rightarrow> Object \<Rightarrow>
    InventoryItem list \<times> nat \<Rightarrow> ('w, (InventoryItem list \<times> nat, unit) ctl) rcomp" where
  "addObject P r hashedOwnerId componentDigest object = (\<lambda>(newInventory, numAdded).
     bind (the_or_panic (getItem newInventory object)) (\<lambda>found.
     bind (map_err (\<lambda>err. Wrapf err ''error calculating digest for object %s'' [AStr (ObjectKeyToString P object)])
        (lift_sum (calculateObjectDigest P object componentDigest (reconcilePolicyOf P r object)))) (\<lambda>digest.
     bind (case found of
         Some k \<Rightarrow> ret (newInventory, k, numAdded)
       | None \<Rightarrow>
           bind (map_err (\<lambda>err. Wrapf err ''error reading object %s'' [AStr (ObjectKeyToString P object)])
              (readObject r object)) (\<lambda>existingObject.
           seq (of_option (checkOwner P r hashedOwnerId object existingObject))
           (ret (newInventory @ [emptyItem], length newInventory, Suc numAdded)))) (\<lambda>(newInventory, k, numAdded).
     bind (the_or_panic (getManagedTypes object)) (\<lambda>types.
     ret (Next (newInventory[k := updateItem P r object digest types (newInventory ! k)], numAdded)))))))"

definition markObsolete :: "Object list \<Rightarrow> InventoryItem \<Rightarrow> InventoryItem" where
  "markObsolete objects item =
     (let found = (\<exists>object \<in> set objects. Matches item object)
      in if \<not> found \<and> Digest item \<noteq> ''''
         then item\<lparr>Digest := '''', ItemPhase := PhaseScheduledForDeletion, ItemStatus := TerminatingStatus\<rparr>
         else item)"

text \<open>The checks of one item of the inventory against another one.\<close>

definition checkManagedInstance :: "platform \<Rightarrow> InventoryItem \<Rightarrow> InventoryItem \<Rightarrow> goerr option" where
  "checkManagedInstance P item item' =
     (if isManagedByTypeVersions (ManagedTypes item) item' then
        (if ItemApplyOrder item' < ItemApplyOrder item
         then Some (Errorf ''error valdidating object set (%s): managed instance must not have an apply order lesser than the one of its type'' [AStr (ObjectKeyToString P item')])
         else if ItemDeleteOrder item' > ItemDeleteOrder item
         then Some (Errorf ''error valdidating object set (%s): managed instance must not have a delete order greater than the one of its type'' [AStr (ObjectKeyToString P item')])
         else if Digest item' \<noteq> '''' \<and> Digest item = ''''
         then Some (Errorf ''error valdidating object set (%s): managed instance is not being deleted, but the managing type is'' [AStr (ObjectKeyToString P item')])
         else None)
      else None)"

definition checkNamespaced :: "platform \<Rightarrow> InventoryItem \<Rightarrow> InventoryItem \<Rightarrow> goerr option" where
  "checkNamespaced P item item' =
     (if Namespace item' = Name item then
        (if ItemApplyOrder item' < ItemApplyOrder item
         then Some (Errorf ''error valdidating object set (%s): namespaced object must not have an apply order lesser than the one of its namespace'' [AStr (ObjectKeyToString P item')])
         else if ItemDeleteOrder item' > ItemDeleteOrder item
         then Some (Errorf ''error valdidating object set (%s): namespaced object must not have a delete order greater than the one of its namespace'' [AStr (ObjectKeyToString P item')])
         else if Digest item' \<noteq> '''' \<and> Digest item = ''''
         then Some (Errorf ''error valdidating object set (%s): namespaced object is not being deleted, but the namespace is'' [AStr (ObjectKeyToString P item')])
         else None)
      else None)"

definition validateItem :: "platform \<Rightarrow> InventoryItem list \<Rightarrow> InventoryItem \<Rightarrow> goerr option" where
  "validateItem P items item = firstSome
     [if isCrd item \<or> isApiService item then firstSome (map (checkManagedInstance P item) items) else None,
      if isNamespace item then firstSome (map (checkNamespaced P item) items) else None]"

definition validateInventory :: "platform \<Rightarrow> InventoryItem list \<Rightarrow> goerr option" where
  "validateInventory P items = firstSome (map (validateItem P items) items)"

text \<open>Lines 457 to 583: the inventory is replaced only if everything before succeeded.\<close>

definition prepareInventory :: "platform \<Rightarrow> 'w Reconciler \<Rightarrow> string \<Rightarrow> string \<Rightarrow> Object list \<Rightarrow> ('w, nat) rcomp" where
  "prepareInventory P r hashedOwnerId componentDigest objects =
     bind (gets inventory) (\<lambda>items.
     bind (for_each objects (items, 0) (addObject P r hashedOwnerId componentDigest)) (\<lambda>x. case x of
       Next (newInventory, numAdded) \<Rightarrow>
         (let newInventory = map (markObsolete objects) newInventory in
          seq (of_option (validateInventory P newInventory))
         (seq (modify (\<lambda>s. s\<lparr>inventory := sortObjectsForDelete P newInventory\<rparr>))
         (ret numAdded)))
     | _ \<Rightarrow> ret 0))"

section \<open>Missing namespaces\<close>

definition namespaceObject :: "string \<Rightarrow> Object" where
  "namespaceObject namespace = \<lparr>Group = [], Kind = ''Namespace'', Version = ''v1'', Namespace = [], Name = namespace,
     GoType = GoTyped, GenerateName = [], Labels = [], Annotations = [], Finalizers = [],
     ResourceVersion = [], Generation = 0, DeletionTimestamp = None, ManagedFields = [],
     ObjBody = JsonBody []\<rparr>"

definition createMissingNamespace :: "'w Reconciler \<Rightarrow> string \<Rightarrow> ('w, unit) rcomp" where
  "createMissingNamespace r namespace =
     (let key = ObjectKeyOf (namespaceObject namespace) in
      bind (call (Get (client r) key) (EGet key)) (\<lambda>res. case res of
        Inr _ \<Rightarrow> ret ()
      | Inl err \<Rightarrow>
          if \<not> IsNotFound err then fail (Wrapf err ''error reading namespace %s'' [AStr namespace])
          else map_err (\<lambda>err. Wrapf err ''error creating namespace %s'' [AStr namespace])
            (bind (call (Create (client r) (namespaceObject namespace) (fieldOwner r))
               (ECreate (namespaceObject namespace))) of_option)))"

definition createMissingNamespaces :: "'w Reconciler \<Rightarrow> Object list \<Rightarrow> ('w, unit) rcomp" where
  "createMissingNamespaces r objects =
     (if missingNamespacesPolicy r = MissingNamespacesPolicyCreate then
        seq (for_each (findMissingNamespaces objects) () (\<lambda>namespace _.
          seq (createMissingNamespace r namespace) (ret (Next () :: (unit, unit) ctl)))) (ret ())
      else ret ())"

section \<open>Due completions\<close>

definition wrapItem :: "platform \<Rightarrow> string \<Rightarrow> 'a ObjectKey_scheme \<Rightarrow> goerr \<Rightarrow> goerr" where
  "wrapItem P fmt item err = Wrapf err fmt [AStr (ObjectKeyToString P item)]"

definition completeItem :: "platform \<Rightarrow> 'w Reconciler \<Rightarrow> string \<Rightarrow> nat \<Rightarrow> nat \<Rightarrow> ('w, (nat, unit) ctl) rcomp" where
  "completeItem P r hashedOwnerId k numToBeCompleted =
     bind (gets (\<lambda>s. inventory s ! k)) (\<lambda>item.
     if ItemPhase item = PhaseScheduledForCompletion \<or> ItemPhase item = PhaseCompleting then
       bind (map_err (wrapItem P ''error reading object %s'' item) (readObject r item)) (\<lambda>existingObject.
       if ItemPhase item = PhaseScheduledForCompletion then
         seq (map_err (wrapItem P ''error deleting object %s'' item) (deleteObject P r item existingObject hashedOwnerId))
        (seq (upd_item k (\<lambda>item. item\<lparr>ItemPhase := PhaseCompleting, ItemStatus := TerminatingStatus\<rparr>))
        (ret (Next (Suc numToBeCompleted))))
       else if existingObject = None then
         seq (upd_item k (\<lambda>item. item\<lparr>ItemPhase := PhaseCompleted, ItemStatus := StatusNone\<rparr>))
        (ret (Next numToBeCompleted))
       else ret (Next (Suc numToBeCompleted)))
     else ret (Next numToBeCompleted))"

text \<open>The result is the number of items still to be completed.\<close>

definition finishCompletions :: "platform \<Rightarrow> 'w Reconciler \<Rightarrow> string \<Rightarrow> ('w, nat) rcomp" where
  "finishCompletions P r hashedOwnerId =
     bind (gets (\<lambda>s. length (inventory s))) (\<lambda>n.
     bind (for_each [0..<n] 0 (completeItem P r hashedOwnerId)) (\<lambda>x.
     ret (case x of Next m \<Rightarrow> m | _ \<Rightarrow> 0)))"

section \<open>The apply loop\<close>

definition isManaged :: "'w Reconciler \<Rightarrow> InventoryItem list \<Rightarrow> 'a ObjectKey_scheme \<Rightarrow> bool" where
  "isManaged r items key \<longleftrightarrow> isManagedInstance (additionalManagedTypes r) items key"

definition isLate :: "'a ObjectKey_scheme \<Rightarrow> bool" where
  "isLate key \<longleftrightarrow> isApiService key"

definition isRegular :: "'w Reconciler \<Rightarrow> InventoryItem list \<Rightarrow> 'a ObjectKey_scheme \<Rightarrow> bool" where
  "isRegular r items key \<longleftrightarrow> \<not> isLate key \<and> \<not> isManaged r items key"

definition isUsedNamespace :: "InventoryItem list \<Rightarrow> 'a ObjectKey_scheme \<Rightarrow> bool" where
  "isUsedNamespace items key \<longleftrightarrow> isNamespace key \<and> isNamespaceUsed items (Name key)"

text \<open>The local variables of the loop.\<close>

record apply_counters =
  numRegularToBeApplied :: nat
  numLateToBeApplied :: nat
  numUnready :: nat

definition settled :: "Phase \<Rightarrow> bool" where
  "settled ph \<longleftrightarrow> ph = PhaseReady \<or> ph = PhaseCompleted"

text \<open>At the first object of an order: count the unsettled objects of the wave.\<close>

definition countWave :: "'w Reconciler \<Rightarrow> Object list \<Rightarrow> apply_counters \<Rightarrow> ('w, apply_counters) rcomp" where
  "countWave r wave c =
     bind (for_each wave (c\<lparr>numRegularToBeApplied := 0, numLateToBeApplied := 0\<rparr>) (\<lambda>object c.
       bind (gets inventory) (\<lambda>items.
       bind (the_or_panic (mustGetItem items object)) (\<lambda>i.
       if \<not> settled (ItemPhase (items ! i)) then
         (let c = (if isRegular r items object
                   then c\<lparr>numRegularToBeApplied := Suc (numRegularToBeApplied c)\<rparr> else c);
              c = (if isLate object
                   then c\<lparr>numLateToBeApplied := Suc (numLateToBeApplied c)\<rparr> else c)
          in ret (Next c :: (apply_counters, unit) ctl))
       else ret (Next c))))) (\<lambda>x.
     ret (case x of Next c \<Rightarrow> c | _ \<Rightarrow> c))"

definition ownedObject :: "'w Reconciler \<Rightarrow> string \<Rightarrow> string \<Rightarrow> string \<Rightarrow> Object \<Rightarrow> Object" where
  "ownedObject r hashedOwnerId ownerId digest object =
     SetAnnotation (SetAnnotation (SetLabel object (labelKeyOwnerId r) hashedOwnerId)
       (annotationKeyOwnerId r) ownerId) (annotationKeyDigest r) digest"

text \<open>Is the existing object out of sync?\<close>

definition needsUpdate :: "'w Reconciler \<Rightarrow> InventoryItem \<Rightarrow> Object \<Rightarrow> int \<Rightarrow> int \<Rightarrow> bool" where
  "needsUpdate r item existingObject interval now \<longleftrightarrow>
     (let d = getString (Annotations existingObject) (annotationKeyDigest r) in
      DeletionTimestamp existingObject = None \<and>
      (d \<noteq> digestOnce \<or> Digest item \<noteq> digestOnce) \<and>
      (d \<noteq> Digest item \<or> (case LastAppliedAt item of None \<Rightarrow> True | Some t \<Rightarrow> t < now - interval)))"

text \<open>
  The reconciliation of one object whose turn it is; the result says whether it is unready.
\<close>

definition reconcileObject :: "platform \<Rightarrow> 'w Reconciler \<Rightarrow> string \<Rightarrow> string \<Rightarrow> Object \<Rightarrow> nat \<Rightarrow>
    InventoryItem \<Rightarrow> ('w, bool) rcomp" where
  "reconcileObject P r hashedOwnerId ownerId object i item =
     bind (map_err (wrapItem P ''error reading object %s'' item) (readObject r item)) (\<lambda>existing.
     let object = ownedObject r hashedOwnerId ownerId (Digest item) object;
         policy = updatePolicyOf P r object;
         interval = reapplyIntervalOf P r object
     in bind (call (Now (client r)) (\<lambda>_. ENow)) (\<lambda>now.
     case existing of
       None \<Rightarrow>
         seq (map_err (wrapItem P ''error creating object %s'' item) (createObject P r object policy))
        (seq (upd_item i (\<lambda>item. item\<lparr>ItemPhase := PhaseCreating, ItemStatus := InProgressStatus, LastAppliedAt := Some now\<rparr>))
        (ret True))
     | Some existingObject \<Rightarrow>
         if needsUpdate r item existingObject interval now then
           seq (if policy = UpdatePolicyRecreate
                then map_err (wrapItem P ''error deleting (while recreating) object %s'' item)
                  (deleteObject P r object existing hashedOwnerId)
                else map_err (wrapItem P ''error updating object %s'' item)
                  (updateObject P r object existingObject policy))
          (seq (upd_item i (\<lambda>item. item\<lparr>ItemPhase := PhaseUpdating, ItemStatus := InProgressStatus, LastAppliedAt := Some now\<rparr>))
          (ret True))
         else
           bind (map_err (wrapItem P ''error checking status of object %s'' item)
             (lift_sum (statusAnalyzer r existingObject))) (\<lambda>existingStatus.
           if DeletionTimestamp existingObject = None \<and> existingStatus = CurrentStatus then
             seq (upd_item i (\<lambda>item. item\<lparr>ItemPhase := PhaseReady, ItemStatus := existingStatus\<rparr>)) (ret False)
           else seq (upd_item i (\<lambda>item. item\<lparr>ItemStatus := existingStatus\<rparr>)) (ret True))))"

text \<open>Is it the turn of the object, within the wave?\<close>

definition isDue :: "'w Reconciler \<Rightarrow> InventoryItem list \<Rightarrow> apply_counters \<Rightarrow> Object \<Rightarrow> bool" where
  "isDue r items c object \<longleftrightarrow>
     isRegular r items object \<or>
     isLate object \<and> numRegularToBeApplied c = 0 \<or>
     isManaged r items object \<and> numRegularToBeApplied c = 0 \<and> numLateToBeApplied c = 0"

text \<open>At the end of a ready wave: schedule the due completions; the result is their number.\<close>

definition triggerCompletions :: "'w Reconciler \<Rightarrow> Object list \<Rightarrow> nat \<Rightarrow> ('w, nat) rcomp" where
  "triggerCompletions r objects k =
     bind (for_each [0..<Suc k] 0 (\<lambda>j numPurged.
       bind (gets inventory) (\<lambda>items.
       bind (the_or_panic (mustGetItem items (objects ! j))) (\<lambda>i.
       let item = items ! i; purgeOrder = purgeOrderOf r (objects ! j) in
       if (k = length objects - 1 \<and> purgeOrder \<le> maxOrder \<or> purgeOrder \<le> applyOrderOf r (objects ! k))
          \<and> ItemPhase item \<noteq> PhaseCompleted
       then seq (upd_item i (\<lambda>item. item\<lparr>ItemPhase := PhaseScheduledForCompletion\<rparr>))
              (ret (Next (Suc numPurged) :: (nat, unit) ctl))
       else ret (Next numPurged))))) (\<lambda>x.
     ret (case x of Next n \<Rightarrow> n | _ \<Rightarrow> 0))"

text \<open>One iteration; \<open>Return ()\<close> is \<open>return false, nil\<close>.\<close>

definition applyStep :: "platform \<Rightarrow> 'w Reconciler \<Rightarrow> string \<Rightarrow> string \<Rightarrow> Object list \<Rightarrow> nat \<Rightarrow>
    apply_counters \<Rightarrow> ('w, (apply_counters, unit) ctl) rcomp" where
  "applyStep P r hashedOwnerId ownerId objects k c =
     (let object = objects ! k; applyOrder = applyOrderOf r object in
      bind (gets inventory) (\<lambda>items.
      bind (the_or_panic (mustGetItem items object)) (\<lambda>i.
      bind (if k = 0 \<or> applyOrderOf r (objects ! (k - 1)) < applyOrder
            then countWave r (takeWhile (\<lambda>o'. applyOrderOf r o' = applyOrder) (drop k objects)) c
            else ret c) (\<lambda>c.
      bind (if ItemPhase (items ! i) \<noteq> PhaseCompleted then
              (if isDue r items c object
               then reconcileObject P r hashedOwnerId ownerId object i (items ! i)
               else ret True)
            else ret False) (\<lambda>unready.
      let c = (if unready then c\<lparr>numUnready := Suc (numUnready c)\<rparr> else c) in
      if k = length objects - 1 \<or> applyOrder < applyOrderOf r (objects ! Suc k) then
        (if numUnready c = 0 then
           bind (triggerCompletions r objects k) (\<lambda>numPurged.
           ret (if 0 < numPurged then Return () else Next c))
         else ret (Return ()))
      else ret (Next c))))))"

text \<open>True if the loop ran to its end with nothing unready.\<close>

definition applyObjects :: "platform \<Rightarrow> 'w Reconciler \<Rightarrow> string \<Rightarrow> string \<Rightarrow> Object list \<Rightarrow> ('w, bool) rcomp" where
  "applyObjects P r hashedOwnerId ownerId objects =
     bind (for_each [0..<length objects]
        \<lparr>numRegularToBeApplied = 0, numLateToBeApplied = 0, numUnready = 0\<rparr>
        (applyStep P r hashedOwnerId ownerId objects)) (\<lambda>x.
     ret (case x of Next c \<Rightarrow> numUnready c = 0 | _ \<Rightarrow> False))"

section \<open>Deletion of redundant objects\<close>

definition inDeletion :: "Phase \<Rightarrow> bool" where
  "inDeletion ph \<longleftrightarrow> ph = PhaseScheduledForDeletion \<or> ph = PhaseDeleting"

text \<open>
  The object of an item in phase Deleting, shared by \<open>Apply\<close> and \<open>Delete\<close>: the result is
  whether it is still there.
\<close>

definition awaitDeletion :: "platform \<Rightarrow> 'w Reconciler \<Rightarrow> string \<Rightarrow> nat \<Rightarrow> InventoryItem \<Rightarrow> Object option \<Rightarrow>
    ('w, bool) rcomp" where
  "awaitDeletion P r hashedOwnerId k item existingObject = (case existingObject of
     None \<Rightarrow> seq (upd_item k (\<lambda>item. item\<lparr>ItemPhase := PhaseNone\<rparr>)) (ret False)
   | Some ex \<Rightarrow>
       if DeletionTimestamp ex \<noteq> None then ret True
       else if getString (Labels ex) (labelKeyOwnerId r) \<noteq> hashedOwnerId
       then seq (upd_item k (\<lambda>item. item\<lparr>ItemPhase := PhaseNone\<rparr>)) (ret False)
       else fail (Errorf ''object %s was already deleted but has no deletion timestamp''
         [AStr (ObjectKeyToString P item)]))"

text \<open>Orphan or delete, shared likewise; the result is whether something was deleted.\<close>

definition orphanOrDelete :: "platform \<Rightarrow> 'w Reconciler \<Rightarrow> string \<Rightarrow> nat \<Rightarrow> InventoryItem \<Rightarrow> Object option \<Rightarrow>
    bool \<Rightarrow> ('w, bool) rcomp" where
  "orphanOrDelete P r hashedOwnerId k item existingObject orphan =
     (if orphan then
        seq (map_err (wrapItem P ''error orphaning object %s'' item) (orphanObject P r existingObject hashedOwnerId))
       (seq (upd_item k (\<lambda>item. item\<lparr>ItemPhase := PhaseNone\<rparr>)) (ret False))
      else
        seq (map_err (wrapItem P ''error deleting object %s'' item) (deleteObject P r item existingObject hashedOwnerId))
       (seq (upd_item k (\<lambda>item. item\<lparr>ItemPhase := PhaseDeleting, ItemStatus := TerminatingStatus\<rparr>)) (ret True)))"

definition foreignOwner :: "'w Reconciler \<Rightarrow> string \<Rightarrow> Object option \<Rightarrow> bool" where
  "foreignOwner r hashedOwnerId existingObject = (case existingObject of
     None \<Rightarrow> False | Some ex \<Rightarrow> getString (Labels ex) (labelKeyOwnerId r) \<noteq> hashedOwnerId)"

record delete_counters =
  numManagedToBeDeleted :: nat
  numToBeDeleted :: nat

definition firstOfWave :: "InventoryItem list \<Rightarrow> nat \<Rightarrow> bool" where
  "firstOfWave items k \<longleftrightarrow> k = 0 \<or> ItemDeleteOrder (items ! (k - 1)) < ItemDeleteOrder (items ! k)"

definition lastOfWave :: "InventoryItem list \<Rightarrow> nat \<Rightarrow> bool" where
  "lastOfWave items k \<longleftrightarrow> k = length items - 1 \<or> ItemDeleteOrder (items ! k) < ItemDeleteOrder (items ! Suc k)"

definition deleteWave :: "InventoryItem list \<Rightarrow> nat \<Rightarrow> InventoryItem list" where
  "deleteWave items k = takeWhile (\<lambda>i. ItemDeleteOrder i = ItemDeleteOrder (items ! k)) (drop k items)"

definition deleteRedundantStep :: "platform \<Rightarrow> 'w Reconciler \<Rightarrow> string \<Rightarrow> nat \<Rightarrow> delete_counters \<Rightarrow>
    ('w, (delete_counters, unit) ctl) rcomp" where
  "deleteRedundantStep P r hashedOwnerId k c =
     bind (gets inventory) (\<lambda>items.
     let item = items ! k;
         c = (if firstOfWave items k
              then c\<lparr>numManagedToBeDeleted := length (filter (\<lambda>i. inDeletion (ItemPhase i) \<and> isManaged r items i)
                (deleteWave items k))\<rparr>
              else c)
     in bind (if inDeletion (ItemPhase item) then
           bind (map_err (wrapItem P ''error reading object %s'' item) (readObject r item)) (\<lambda>existingObject.
           if ItemPhase item = PhaseScheduledForDeletion then
             (if \<not> isUsedNamespace items item \<and> (numManagedToBeDeleted c = 0 \<or> isManaged r items item) then
                (let orphan = ItemDeletePolicy item = DeletePolicyOrphan
                       \<or> ItemDeletePolicy item = DeletePolicyOrphanOnApply
                       \<or> foreignOwner r hashedOwnerId existingObject
                 in orphanOrDelete P r hashedOwnerId k item existingObject orphan)
              else ret True)
           else awaitDeletion P r hashedOwnerId k item existingObject)
         else ret False) (\<lambda>pending.
     let c = (if pending then c\<lparr>numToBeDeleted := Suc (numToBeDeleted c)\<rparr> else c)
     in ret (if lastOfWave items k \<and> 0 < numToBeDeleted c then Break c else Next c)))"

text \<open>The items that are gone leave the inventory; the result is whether none is left to be deleted.\<close>

definition dropGoneItems :: "('w, unit) rcomp" where
  "dropGoneItems = modify (\<lambda>s. s\<lparr>inventory := filter (\<lambda>item. ItemPhase item \<noteq> PhaseNone) (inventory s)\<rparr>)"

definition deleteRedundant :: "platform \<Rightarrow> 'w Reconciler \<Rightarrow> string \<Rightarrow> ('w, bool) rcomp" where
  "deleteRedundant P r hashedOwnerId =
     bind (gets (\<lambda>s. length (inventory s))) (\<lambda>n.
     bind (for_each [0..<n] \<lparr>numManagedToBeDeleted = 0, numToBeDeleted = 0\<rparr>
        (deleteRedundantStep P r hashedOwnerId)) (\<lambda>x.
     seq dropGoneItems
     (ret (case x of Next c \<Rightarrow> numToBeDeleted c = 0 | _ \<Rightarrow> False))))"

section \<open>Apply\<close>

text \<open>
  Lines 611 to 926, once the persisted inventory has the right keys: bring the cluster in
  sync with the inventory.
\<close>

definition synchronize :: "platform \<Rightarrow> 'w Reconciler \<Rightarrow> string \<Rightarrow> string \<Rightarrow> Object list \<Rightarrow> ('w, bool) rcomp" where
  "synchronize P r hashedOwnerId ownerId objects =
     seq (createMissingNamespaces r objects)
     (let objects = sortObjectsForApply P objects (applyOrderOf r) in
      bind (finishCompletions P r hashedOwnerId) (\<lambda>numToBeCompleted.
      if 0 < numToBeCompleted then ret False
      else bind (applyObjects P r hashedOwnerId ownerId objects) (\<lambda>ready.
        if \<not> ready then ret False
        else deleteRedundant P r hashedOwnerId)))"

definition Apply :: "platform \<Rightarrow> 'w Reconciler \<Rightarrow> Object list \<Rightarrow> string \<Rightarrow> string \<Rightarrow> string \<Rightarrow> ('w, bool) rcomp" where
  "Apply P r objects namespace ownerId componentDigest =
     (let hashedOwnerId = Sha256base32 P ownerId in
      bind (prepareObjects P r objects namespace) (\<lambda>objects.
      bind (prepareInventory P r hashedOwnerId componentDigest objects) (\<lambda>numAdded.
      if 0 < numAdded then ret False
      else synchronize P r hashedOwnerId ownerId objects)))"

section \<open>Delete\<close>

definition deleteStep :: "platform \<Rightarrow> 'w Reconciler \<Rightarrow> string \<Rightarrow> nat \<Rightarrow> delete_counters \<Rightarrow>
    ('w, (delete_counters, unit) ctl) rcomp" where
  "deleteStep P r hashedOwnerId k c =
     bind (gets inventory) (\<lambda>items.
     let item = items ! k;
         c = (if firstOfWave items k
              then c\<lparr>numManagedToBeDeleted := length (filter (isManaged r items) (deleteWave items k))\<rparr>
              else c)
     in bind (map_err (wrapItem P ''error reading object %s'' item) (readObject r item)) (\<lambda>existingObject.
        bind (if ItemPhase item = PhaseDeleting then awaitDeletion P r hashedOwnerId k item existingObject
              else
                (let orphan = orphanedOnDelete item \<or> foreignOwner r hashedOwnerId existingObject in
                 if (\<not> isNamespace item \<or> \<not> isNamespaceUsed items (Name item))
                    \<and> (numManagedToBeDeleted c = 0 \<or> isManaged r items item)
                 then orphanOrDelete P r hashedOwnerId k item existingObject orphan
                 else ret True)) (\<lambda>pending.
     let c = (if pending then c\<lparr>numToBeDeleted := Suc (numToBeDeleted c)\<rparr> else c)
     in ret (if lastOfWave items k \<and> 0 < numToBeDeleted c then Break c else Next c))))"

definition DeleteAll :: "platform \<Rightarrow> 'w Reconciler \<Rightarrow> string \<Rightarrow> ('w, bool) rcomp" where
  "DeleteAll P r ownerId =
     (let hashedOwnerId = Sha256base32 P ownerId in
      bind (gets (\<lambda>s. length (inventory s))) (\<lambda>n.
      bind (for_each [0..<n] \<lparr>numManagedToBeDeleted = 0, numToBeDeleted = 0\<rparr>
         (deleteStep P r hashedOwnerId)) (\<lambda>_.
      seq dropGoneItems
      (gets (\<lambda>s. inventory s = [])))))"

end
