(* ===== verification/Go_Strings.thy ===== *)
theory Go_Strings
  imports Reconciler_Apply
begin

text \<open>
  What the code uses of Go's \<open>strings\<close>, \<open>strconv\<close> and \<open>path/filepath\<close> (on Unix): \<open>Itoa\<close>,
  \<open>Join\<close>, \<open>TrimSuffix\<close>, \<open>ReplaceAll\<close> by the empty string, and the lexical functions on slash
  separated paths.
\<close>

section \<open>Outcomes without a state\<close>

definition obind :: "('e, 'a) outcome \<Rightarrow> ('a \<Rightarrow> ('e, 'b) outcome) \<Rightarrow> ('e, 'b) outcome" where
  "obind m f = (case m of Ok x \<Rightarrow> f x | Err e \<Rightarrow> Err e | Panic p \<Rightarrow> Panic p)"

lemma obind_simps [simp]:
  "obind (Ok x) f = f x" "obind (Err e) f = Err e" "obind (Panic p) f = Panic p"
  by (simp_all add: obind_def)

lemma obind_cong [fundef_cong]: "m = m' \<Longrightarrow> (\<And>x. m' = Ok x \<Longrightarrow> f x = f' x) \<Longrightarrow> obind m f = obind m' f'"
  by (auto simp: obind_def split: outcome.split)

lemma obind_Ok: "obind m f = Ok y \<longleftrightarrow> (\<exists>x. m = Ok x \<and> f x = Ok y)"
  by (cases m) simp_all

definition of_sum :: "'e + 'a \<Rightarrow> ('e, 'a) outcome" where
  "of_sum x = (case x of Inl e \<Rightarrow> Err e | Inr y \<Rightarrow> Ok y)"

lemma of_sum_simps [simp]: "of_sum (Inl e) = Err e" "of_sum (Inr y) = Ok y"
  by (simp_all add: of_sum_def)

lemma of_sum_Ok [simp]: "of_sum x = Ok y \<longleftrightarrow> x = Inr y"
  by (cases x) simp_all

definition or_panic :: "string \<Rightarrow> 'a option \<Rightarrow> ('e, 'a) outcome" where
  "or_panic p x = (case x of None \<Rightarrow> Panic p | Some y \<Rightarrow> Ok y)"

lemma or_panic_simps [simp]: "or_panic p None = Panic p" "or_panic p (Some y) = Ok y"
  by (simp_all add: or_panic_def)

text \<open>A loop that collects the values of its iterations and stops at the first error.\<close>

fun collect :: "('i \<Rightarrow> ('e, 'a list) outcome) \<Rightarrow> 'i list \<Rightarrow> ('e, 'a list) outcome" where
  "collect f [] = Ok []"
| "collect f (i # is) = obind (f i) (\<lambda>xs. obind (collect f is) (\<lambda>ys. Ok (xs @ ys)))"

lemma collect_cong [fundef_cong]:
  "is = js \<Longrightarrow> (\<And>i. i \<in> set js \<Longrightarrow> f i = g i) \<Longrightarrow> collect f is = collect g js"
  by (induction js arbitrary: "is") auto

section \<open>Decimal numbers\<close>

definition Itoa :: "int \<Rightarrow> string" where
  "Itoa n = (if n < 0 then CHR ''-'' # digits_of (nat (- n)) else digits_of (nat n))"

lemma digits_of_not_Nil [simp]: "digits_of n \<noteq> []"
  by (subst digits_of.simps) simp

lemma of_char_digit: "d < 10 \<Longrightarrow> of_char (char_of (48 + d :: nat) :: char) = (48 + d :: nat)"
  by (simp add: of_char_of)

lemma of_char_digit_int: "d < 10 \<Longrightarrow> of_char (char_of (48 + d :: nat) :: char) = (48 + int d :: int)"
  by (metis of_char_digit of_nat_add of_nat_numeral of_nat_of_char)

lemma digits_of_digits: "c \<in> set (digits_of n) \<Longrightarrow> is_digit c"
proof (induction n rule: digits_of.induct)
  case (1 n)
  show ?case
  proof (cases "n < 10")
    case True
    then show ?thesis using "1.prems" by (simp add: digits_of.simps [of n] is_digit_def of_char_digit)
  next
    case False
    then show ?thesis using 1 by (auto simp: digits_of.simps [of n] is_digit_def of_char_digit)
  qed
qed

lemma digits_value_snoc: "digits_value (s @ [c]) = 10 * digits_value s + (of_char c - 48)"
  by (simp add: digits_value_def)

lemma digits_value_of [simp]: "digits_value (digits_of n) = int n"
proof (induction n rule: digits_of.induct)
  case (1 n)
  show ?case
  proof (cases "n < 10")
    case True
    then show ?thesis by (simp add: digits_of.simps [of n] digits_value_def of_char_digit_int)
  next
    case False
    then have "digits_value (digits_of n) = 10 * int (n div 10) + int (n mod 10)"
      using 1 by (simp add: digits_of.simps [of n] digits_value_snoc of_char_digit_int)
    then show ?thesis by (metis mult_div_mod_eq of_nat_add of_nat_mult of_nat_numeral)
  qed
qed

lemma parse_digits_of [simp]: "parse_digits (digits_of n) = Some (int n)"
  by (auto simp: parse_digits_def dest: digits_of_digits)

lemma hd_digits_of: "is_digit (hd (digits_of n))"
  by (rule digits_of_digits [of _ n]) simp

lemma Atoi_unsigned:
  assumes "c \<noteq> CHR ''-''" "c \<noteq> CHR ''+''" "parse_digits (c # cs) = Some n" "- (2 ^ 63) \<le> n" "n < 2 ^ 63"
  shows "Atoi (c # cs) = Inr n"
proof -
  have "(case c # cs of CHR ''-'' # ds \<Rightarrow> map_option uminus (parse_digits ds) | CHR ''+'' # ds \<Rightarrow> parse_digits ds
      | _ \<Rightarrow> parse_digits (c # cs)) = parse_digits (c # cs)"
    using assms(1,2) by (cases c) (auto split: bool.split)
  then show ?thesis using assms(3-5) unfolding Atoi_def Let_def by (simp only:) simp
qed

text \<open>What \<open>Itoa\<close> writes is what \<open>Atoi\<close> reads.\<close>

lemma Atoi_Itoa:
  assumes "- (2 ^ 63) \<le> n" "n < 2 ^ 63"
  shows "Atoi (Itoa n) = Inr n"
proof (cases "n < 0")
  case True
  then show ?thesis using assms by (simp add: Atoi_def Itoa_def)
next
  case False
  obtain c cs where cs: "digits_of (nat n) = c # cs" by (cases "digits_of (nat n)") simp_all
  with hd_digits_of [of "nat n"] have "c \<noteq> CHR ''-''" "c \<noteq> CHR ''+''" by (auto simp: is_digit_def)
  then have "Atoi (digits_of (nat n)) = Inr n"
    using assms False parse_digits_of [of "nat n"] unfolding cs by (intro Atoi_unsigned) simp_all
  with False show ?thesis by (simp add: Itoa_def)
qed

section \<open>Strings\<close>

text \<open>\<open>strings.Join\<close>.\<close>

fun strings_join :: "string list \<Rightarrow> string \<Rightarrow> string" where
  "strings_join [] sep = []"
| "strings_join [x] sep = x"
| "strings_join (x # y # xs) sep = x @ sep @ strings_join (y # xs) sep"

lemma splitAt_not_Nil [simp]: "splitAt c s \<noteq> []"
  by (induction s) (auto split: list.splits)

lemma splitAt_plain: "c \<notin> set s \<Longrightarrow> splitAt c s = [s]"
  by (induction s) auto

lemma splitAt_append:
  "splitAt c (s @ c # t) = splitAt c s @ splitAt c t"
  by (induction s) (auto split: list.splits)

text \<open>Splitting gives parts without the separator, and joining these gives the string back.\<close>

lemma splitAt_parts: "p \<in> set (splitAt c s) \<Longrightarrow> c \<notin> set p"
  by (induction s arbitrary: p) (auto split: if_splits list.splits)

lemma join_splitAt [simp]: "strings_join (splitAt c s) [c] = s"
proof (induction s)
  case (Cons x s)
  obtain w ws where ws: "splitAt c s = w # ws" by (cases "splitAt c s") simp_all
  then show ?case using Cons by (cases ws) auto
qed simp

lemma splitAt_join:
  "ps \<noteq> [] \<Longrightarrow> (\<And>p. p \<in> set ps \<Longrightarrow> c \<notin> set p) \<Longrightarrow> splitAt c (strings_join ps [c]) = ps"
  by (induction ps "[c]" rule: strings_join.induct) (simp_all add: splitAt_plain splitAt_append)

definition TrimSuffix :: "string \<Rightarrow> string \<Rightarrow> string" where
  "TrimSuffix s sfx = (if HasSuffix s sfx then take (length s - length sfx) s else s)"

text \<open>\<open>bytes.ReplaceAll\<close> of a non-empty text by nothing.\<close>

function removeAll_text :: "string \<Rightarrow> string \<Rightarrow> string" where
  "removeAll_text old [] = []"
| "removeAll_text old (c # s) =
     (if old \<noteq> [] \<and> HasPrefix (c # s) old then removeAll_text old (drop (length old) (c # s))
      else c # removeAll_text old s)"
  by pat_completeness auto
termination by (relation "measure (\<lambda>(old, s). length s)") auto

end
