(* ===== verification/Client_Factory.thy ===== *)
theory Client_Factory
  imports Go_Strings
begin

text \<open>
  \<open>internal/clientfactory\<close> and \<open>pkg/cluster\<close>: the clients for target clusters are cached by
  what they were asked for, and dropped some time after they were last asked for. The
  constructors of client-go and controller-runtime are parameters; what they make is of one
  unknown type \<open>'h\<close>. The mutex of the factory makes its two operations atomic.
\<close>

section \<open>Clients\<close>

record ImpersonationConfig =
  ImpUserName :: string
  ImpUID :: string
  ImpGroups :: "string list option"
  ImpExtra :: "(string \<times> string list) list option"

text \<open>A REST configuration, as far as it is looked at, and the rest of it.\<close>

record 'h RestConfig =
  Impersonate :: ImpersonationConfig
  ConfigRest :: 'h

text \<open>\<open>clientImpl\<close> of \<open>pkg/cluster\<close>, and what the factory adds to it.\<close>

record 'h ClusterClient =
  ClCtrlClient :: 'h
  ClDiscoveryClient :: 'h
  ClEventRecorder :: 'h
  ClConfig :: "'h RestConfig"
  ClHttpClient :: 'h

record 'h FactoryClient =
  FcClient :: "'h ClusterClient"
  FcEventBroadcaster :: 'h
  FcValidUntil :: int

definition NewClusterClient :: "'h \<Rightarrow> 'h \<Rightarrow> 'h \<Rightarrow> 'h RestConfig \<Rightarrow> 'h \<Rightarrow> 'h ClusterClient" where
  "NewClusterClient clnt discoveryClient eventRecorder config httpClient =
     \<lparr>ClCtrlClient = clnt, ClDiscoveryClient = discoveryClient, ClEventRecorder = eventRecorder, ClConfig = config, ClHttpClient = httpClient\<rparr>"

text \<open>What a client is asked for, as the entries of the map \<open>keyData\<close> that are set.\<close>

record KeyData =
  KeyKubeConfig :: "string option"
  KeyImpersonationUser :: "string option"
  KeyImpersonationGroups :: "string list option"

record 'h factory_lib =
  RESTConfigFromKubeConfig :: "string \<Rightarrow> goerr + 'h RestConfig"
  HTTPClientFor :: "'h RestConfig \<Rightarrow> goerr + 'h"
  NewCtrlClient :: "'h RestConfig \<Rightarrow> 'h \<Rightarrow> 'h \<Rightarrow> goerr + 'h"
  NewClientset :: "'h RestConfig \<Rightarrow> 'h \<Rightarrow> goerr + 'h"
  NewBroadcaster :: "'h \<Rightarrow> 'h"
  NewRecorder :: "'h \<Rightarrow> 'h \<Rightarrow> string \<Rightarrow> 'h"
  MarshalKeyData :: "KeyData \<Rightarrow> goerr + string"
  Sum256 :: "string \<Rightarrow> string"

definition NewClientFor :: "'h factory_lib \<Rightarrow> 'h RestConfig \<Rightarrow> 'h \<Rightarrow> string \<Rightarrow> (goerr, 'h FactoryClient) outcome" where
  "NewClientFor L config scheme name =
     obind (of_sum (HTTPClientFor L config)) (\<lambda>httpClient.
     obind (of_sum (NewCtrlClient L config httpClient scheme)) (\<lambda>ctrlClient.
     obind (of_sum (NewClientset L config httpClient)) (\<lambda>clientset.
     let eventBroadcaster = NewBroadcaster L clientset;
         eventRecorder = NewRecorder L eventBroadcaster scheme name
     in Ok \<lparr>FcClient = NewClusterClient ctrlClient clientset eventRecorder config httpClient,
            FcEventBroadcaster = eventBroadcaster, FcValidUntil = 0\<rparr>)))"

section \<open>The factory\<close>

record 'h ClientFactory =
  CfName :: string
  CfControllerName :: string
  CfConfig :: "'h RestConfig"
  CfValidity :: int
  CfScheme :: 'h
  CfClients :: "(string \<times> 'h FactoryClient) list"

definition clientValidity :: int where
  "clientValidity = 15 * Minute"

text \<open>\<open>AddToSchemes\<close> are the calls that fill the scheme.\<close>

fun addToScheme :: "('h \<Rightarrow> goerr + 'h) list \<Rightarrow> 'h \<Rightarrow> (goerr, 'h) outcome" where
  "addToScheme [] scheme = Ok scheme"
| "addToScheme (add # adds) scheme = obind (of_sum (add scheme)) (addToScheme adds)"

definition NewClientFactory :: "'h \<Rightarrow> ('h \<Rightarrow> goerr + 'h) list \<Rightarrow> string \<Rightarrow> string \<Rightarrow> 'h RestConfig \<Rightarrow> ('h \<Rightarrow> goerr + 'h) list \<Rightarrow>
    (goerr, 'h ClientFactory) outcome" where
  "NewClientFactory emptyScheme builtin name controllerName config schemeBuilders =
     obind (addToScheme (builtin @ schemeBuilders) emptyScheme) (\<lambda>scheme.
     Ok \<lparr>CfName = name, CfControllerName = controllerName, CfConfig = config, CfValidity = clientValidity,
         CfScheme = scheme, CfClients = []\<rparr>)"

text \<open>What the goroutine of the factory does every ten seconds; the result is the broadcasters that are shut down.\<close>

definition isExpired :: "int \<Rightarrow> 'h FactoryClient \<Rightarrow> bool" where
  "isExpired now clnt \<longleftrightarrow> FcValidUntil clnt < now"

definition expireClients :: "int \<Rightarrow> 'h ClientFactory \<Rightarrow> 'h list \<times> 'h ClientFactory" where
  "expireClients now f =
     (map (FcEventBroadcaster \<circ> snd) (filter (isExpired now \<circ> snd) (CfClients f)),
      f\<lparr>CfClients := filter (Not \<circ> isExpired now \<circ> snd) (CfClients f)\<rparr>)"

definition notImpersonated :: "ImpersonationConfig \<Rightarrow> bool" where
  "notImpersonated imp \<longleftrightarrow> ImpUserName imp = '''' \<and> ImpUID imp = '''' \<and> ImpGroups imp = None \<and> ImpExtra imp = None"

definition sha256sum :: "'h factory_lib \<Rightarrow> KeyData \<Rightarrow> (goerr, string) outcome" where
  "sha256sum L data = (case MarshalKeyData L data of Inl err \<Rightarrow> Panic ''error'' | Inr dataAsJson \<Rightarrow> Ok (Sum256 L dataAsJson))"

text \<open>The first part of \<open>Get\<close>: the configuration, and the data of the key.\<close>

definition clientConfig :: "'h factory_lib \<Rightarrow> 'h RestConfig \<Rightarrow> string \<Rightarrow> string \<Rightarrow> string list \<Rightarrow> (goerr, 'h RestConfig \<times> KeyData) outcome" where
  "clientConfig L own kubeConfig impersonationUser impersonationGroups =
     (let keyData = \<lparr>KeyKubeConfig = None, KeyImpersonationUser = None, KeyImpersonationGroups = None\<rparr> in
      obind (if kubeConfig = '''' then Ok (own, keyData)
        else obind (of_sum (RESTConfigFromKubeConfig L kubeConfig)) (\<lambda>config. Ok (config, keyData\<lparr>KeyKubeConfig := Some kubeConfig\<rparr>)))
        (\<lambda>(config, keyData).
      if (impersonationUser \<noteq> '''' \<or> impersonationGroups \<noteq> []) \<and> \<not> notImpersonated (Impersonate config) then
        Err (Errorf ''cannot impersonate an already impersonated configuration'' [])
      else
      let (config, keyData) = (if impersonationUser \<noteq> ''''
            then (config\<lparr>Impersonate := (Impersonate config)\<lparr>ImpUserName := impersonationUser\<rparr>\<rparr>, keyData\<lparr>KeyImpersonationUser := Some impersonationUser\<rparr>)
            else (config, keyData));
          (config, keyData) = (if impersonationGroups \<noteq> []
            then (config\<lparr>Impersonate := (Impersonate config)\<lparr>ImpGroups := Some impersonationGroups\<rparr>\<rparr>,
              keyData\<lparr>KeyImpersonationGroups := Some impersonationGroups\<rparr>)
            else (config, keyData))
      in Ok (config, keyData)))"

text \<open>The client in the map is a pointer, so that its validity is set in place.\<close>

definition GetClient :: "'h factory_lib \<Rightarrow> int \<Rightarrow> string \<Rightarrow> string \<Rightarrow> string list \<Rightarrow> 'h ClientFactory \<Rightarrow>
    (goerr, 'h FactoryClient) outcome \<times> 'h ClientFactory" where
  "GetClient L now kubeConfig impersonationUser impersonationGroups f =
     (case obind (clientConfig L (CfConfig f) kubeConfig impersonationUser impersonationGroups) (\<lambda>(config, keyData).
        obind (sha256sum L keyData) (\<lambda>key.
        obind (case map_of (CfClients f) key of
            Some clnt \<Rightarrow> Ok clnt
          | None \<Rightarrow> NewClientFor L config (CfScheme f) (CfName f)) (\<lambda>clnt.
        Ok (key, clnt\<lparr>FcValidUntil := now + CfValidity f\<rparr>)))) of
       Ok (key, clnt) \<Rightarrow> (Ok clnt, f\<lparr>CfClients := AList.update key clnt (CfClients f)\<rparr>)
     | Err err \<Rightarrow> (Err err, f)
     | Panic p \<Rightarrow> (Panic p, f))"

section \<open>What a client may be used for\<close>

text \<open>
  The specification of the configuration that is asked for: the given one, or that of the
  factory, as it is if nobody is to be impersonated, and otherwise only if it does not
  impersonate anyone, with the given user and groups.
\<close>

definition requested :: "'h factory_lib \<Rightarrow> 'h RestConfig \<Rightarrow> string \<times> string \<times> string list \<Rightarrow> 'h RestConfig \<Rightarrow> bool" where
  "requested L own = (\<lambda>(kubeConfig, user, groups) config. \<exists>base.
     (if kubeConfig = '''' then base = own else RESTConfigFromKubeConfig L kubeConfig = Inr base) \<and>
     (if user = '''' \<and> groups = [] then config = base
      else notImpersonated (Impersonate base)
        \<and> config = base\<lparr>Impersonate := \<lparr>ImpUserName = user, ImpUID = '''', ImpGroups = (if groups = [] then None else Some groups), ImpExtra = None\<rparr>\<rparr>))"

definition keyDataOf :: "string \<times> string \<times> string list \<Rightarrow> KeyData" where
  "keyDataOf = (\<lambda>(kubeConfig, user, groups).
     \<lparr>KeyKubeConfig = (if kubeConfig = '''' then None else Some kubeConfig),
      KeyImpersonationUser = (if user = '''' then None else Some user),
      KeyImpersonationGroups = (if groups = [] then None else Some groups)\<rparr>)"

lemma clientConfig_Ok:
  "clientConfig L own kubeConfig user groups = Ok (config, keyData) \<longleftrightarrow>
     requested L own (kubeConfig, user, groups) config \<and> keyData = keyDataOf (kubeConfig, user, groups)"
proof -
  have imp: "notImpersonated i \<longleftrightarrow> i = \<lparr>ImpUserName = '''', ImpUID = '''', ImpGroups = None, ImpExtra = None\<rparr>" for i
    by (cases i) (auto simp: notImpersonated_def)
  show ?thesis
    by (cases "kubeConfig = ''''"; cases "user = ''''"; cases "groups = []")
      (auto simp: clientConfig_def requested_def keyDataOf_def obind_Ok Let_def imp)
qed

lemma requested_unique: "requested L own i config \<Longrightarrow> requested L own i config' \<Longrightarrow> config = config'"
  by (cases i) (auto simp: requested_def split: if_splits)

lemma inj_keyDataOf: "keyDataOf i = keyDataOf j \<Longrightarrow> i = j"
  by (cases i; cases j) (auto simp: keyDataOf_def split: if_splits)

text \<open>The two operations, requests being for identities in \<open>K\<close>.\<close>

inductive factory_step :: "'h factory_lib \<Rightarrow> (string \<times> string \<times> string list) set \<Rightarrow> 'h ClientFactory \<Rightarrow> 'h ClientFactory \<Rightarrow> bool"
  for L K where
  get: "(kubeConfig, user, groups) \<in> K \<Longrightarrow> GetClient L now kubeConfig user groups f = (res, f') \<Longrightarrow> factory_step L K f f'"
| expire: "expireClients now f = (shut, f') \<Longrightarrow> factory_step L K f f'"

inductive_cases factory_stepE: "factory_step L K f f'"

text \<open>Every client in the cache was made for an identity with its key.\<close>

definition keyed :: "'h factory_lib \<Rightarrow> (string \<times> string \<times> string list) set \<Rightarrow> 'h RestConfig \<Rightarrow> string \<times> 'h FactoryClient \<Rightarrow> bool" where
  "keyed L K own = (\<lambda>(key, clnt). \<exists>i \<in> K. requested L own i (ClConfig (FcClient clnt)) \<and> sha256sum L (keyDataOf i) = Ok key)"

definition factory_ok :: "'h factory_lib \<Rightarrow> (string \<times> string \<times> string list) set \<Rightarrow> 'h RestConfig \<Rightarrow> 'h ClientFactory \<Rightarrow> bool" where
  "factory_ok L K own f \<longleftrightarrow> CfConfig f = own \<and> CfValidity f = clientValidity \<and> (\<forall>e \<in> set (CfClients f). keyed L K own e)"

definition collision_free :: "'h factory_lib \<Rightarrow> (string \<times> string \<times> string list) set \<Rightarrow> bool" where
  "collision_free L K \<longleftrightarrow> (\<forall>i \<in> K. \<forall>j \<in> K. \<forall>key. sha256sum L (keyDataOf i) = Ok key \<longrightarrow> sha256sum L (keyDataOf j) = Ok key \<longrightarrow> i = j)"

lemma NewClientFor_config: "NewClientFor L config scheme name = Ok clnt \<Longrightarrow> ClConfig (FcClient clnt) = config"
  by (auto simp: NewClientFor_def NewClusterClient_def obind_Ok Let_def)

lemma GetClient_cases:
  assumes "GetClient L now kubeConfig user groups f = (res, f')"
  obtains (failed) "f' = f" "\<And>clnt. res \<noteq> Ok clnt"
    | (served) config key clnt where "requested L (CfConfig f) (kubeConfig, user, groups) config"
        "sha256sum L (keyDataOf (kubeConfig, user, groups)) = Ok key"
        "(case map_of (CfClients f) key of Some clnt \<Rightarrow> Ok clnt | None \<Rightarrow> NewClientFor L config (CfScheme f) (CfName f)) = Ok clnt"
        "res = Ok (clnt\<lparr>FcValidUntil := now + CfValidity f\<rparr>)"
        "f' = f\<lparr>CfClients := AList.update key (clnt\<lparr>FcValidUntil := now + CfValidity f\<rparr>) (CfClients f)\<rparr>"
proof (cases res)
  case (Ok c)
  with assms obtain key where get: "obind (clientConfig L (CfConfig f) kubeConfig user groups) (\<lambda>(config, keyData).
        obind (sha256sum L keyData) (\<lambda>key.
        obind (case map_of (CfClients f) key of Some clnt \<Rightarrow> Ok clnt | None \<Rightarrow> NewClientFor L config (CfScheme f) (CfName f)) (\<lambda>clnt.
        Ok (key, clnt\<lparr>FcValidUntil := now + CfValidity f\<rparr>)))) = Ok (key, c)" "f' = f\<lparr>CfClients := AList.update key c (CfClients f)\<rparr>"
    by (auto simp: GetClient_def split: outcome.splits)
  then show ?thesis
    by (auto simp: obind_Ok clientConfig_Ok Ok split: prod.splits intro: served)
qed (use assms failed in \<open>auto simp: GetClient_def split: outcome.splits\<close>)

lemma served_config:
  assumes "factory_ok L K own f" "collision_free L K" "(kubeConfig, user, groups) \<in> K"
    and "requested L (CfConfig f) (kubeConfig, user, groups) config" "sha256sum L (keyDataOf (kubeConfig, user, groups)) = Ok key"
    and "(case map_of (CfClients f) key of Some clnt \<Rightarrow> Ok clnt | None \<Rightarrow> NewClientFor L config (CfScheme f) (CfName f)) = Ok clnt"
  shows "requested L own (kubeConfig, user, groups) (ClConfig (FcClient clnt))"
proof (cases "map_of (CfClients f) key")
  case None
  then show ?thesis using assms by (auto simp: factory_ok_def dest!: NewClientFor_config)
next
  case (Some c)
  then have "keyed L K own (key, clnt)" using assms(1,6) by (auto simp: factory_ok_def dest: map_of_SomeD)
  then obtain i where "i \<in> K" "requested L own i (ClConfig (FcClient clnt))" "sha256sum L (keyDataOf i) = Ok key"
    by (auto simp: keyed_def)
  with assms(2,3,5) show ?thesis unfolding collision_free_def by blast
qed

lemma factory_step_fixed:
  assumes "factory_step L K f f'"
  shows "CfConfig f' = CfConfig f" "CfValidity f' = CfValidity f"
  using assms by (cases rule: factory_step.cases; auto simp: expireClients_def elim: GetClient_cases)+

lemma factory_step_ok:
  assumes "factory_ok L K own f" "collision_free L K" "factory_step L K f f'"
  shows "factory_ok L K own f'"
  using assms(3)
proof cases
  case (get kubeConfig user groups now res)
  from get(2) show ?thesis
  proof (cases rule: GetClient_cases)
    case (served config key clnt)
    have "requested L own (kubeConfig, user, groups) (ClConfig (FcClient clnt))"
      by (rule served_config [OF assms(1,2) get(1) served(1-3)])
    then have "keyed L K own (key, clnt\<lparr>FcValidUntil := now + CfValidity f\<rparr>)"
      using get(1) served(2) by (auto simp: keyed_def)
    moreover have "set (AList.update key c es) \<subseteq> insert (key, c) (set es)" for c and es :: "(string \<times> 'a FactoryClient) list"
      by (induction es) auto
    ultimately show ?thesis using assms(1) served(5) by (auto simp: factory_ok_def)
  qed (use assms(1) in simp)
next
  case (expire now shut)
  then show ?thesis using assms(1) by (auto simp: factory_ok_def expireClients_def)
qed

lemma factory_reachable_ok:
  assumes "factory_ok L K own f0" "collision_free L K"
  shows "(factory_step L K)\<^sup>*\<^sup>* f0 f \<Longrightarrow> factory_ok L K own f"
  by (induction rule: rtranclp_induct) (auto intro: assms factory_step_ok)

lemma NewClientFactory_ok: "NewClientFactory s builtin name controllerName config builders = Ok f \<Longrightarrow> factory_ok L K config f"
  by (auto simp: NewClientFactory_def factory_ok_def obind_Ok)

text \<open>
  C35: nobody gets a client that was made for someone else. Whatever the factory was asked for
  since it was created, and whatever it has dropped from its cache, a client it returns has
  exactly the configuration asked for, with the user and the groups to be impersonated; and
  a configuration that impersonates someone already is refused. This relies on different
  requests having different keys, that is on the hash.
\<close>

theorem factory_isolates:
  assumes "collision_free L K" and "NewClientFactory s builtin name controllerName config builders = Ok f0"
    and "(factory_step L K)\<^sup>*\<^sup>* f0 f" and "(kubeConfig, user, groups) \<in> K"
    and "GetClient L now kubeConfig user groups f = (Ok clnt, f')"
  shows "requested L config (kubeConfig, user, groups) (ClConfig (FcClient clnt))"
proof -
  have ok: "factory_ok L K config f" by (rule factory_reachable_ok [OF NewClientFactory_ok [OF assms(2)] assms(1,3)])
  from assms(5) show ?thesis
  proof (cases rule: GetClient_cases)
    case (served cfg key c)
    show ?thesis using served_config [OF ok assms(1,4) served(1-3)] served(4) by simp
  qed blast
qed

text \<open>
  A client that was returned stays in the cache for the validity of 15 minutes, and is not
  shut down before; every client that was not asked for in this time is dropped, and its
  broadcaster shut down.
\<close>

theorem factory_expires:
  assumes "NewClientFactory s builtin name controllerName config builders = Ok f0" and "(factory_step L UNIV)\<^sup>*\<^sup>* f0 f"
    and "GetClient L now kubeConfig user groups f = (Ok clnt, f')" and "expireClients later f' = (shut, f'')"
  shows "FcValidUntil clnt = now + 900 * 1000000000
    \<and> (later \<le> now + 900 * 1000000000 \<longrightarrow> clnt \<in> snd ` set (CfClients f''))
    \<and> (now + 900 * 1000000000 < later \<longrightarrow> FcEventBroadcaster clnt \<in> set shut)
    \<and> (\<forall>c \<in> snd ` set (CfClients f''). later \<le> FcValidUntil c)"
proof -
  have "CfValidity f = clientValidity"
    using assms(2) by (induction rule: rtranclp_induct) (use assms(1) in \<open>auto simp: NewClientFactory_def obind_Ok dest: factory_step_fixed\<close>)
  then have v: "CfValidity f = 900 * 1000000000" by (simp add: clientValidity_def Minute_def)
  from assms(3) show ?thesis
  proof (cases rule: GetClient_cases)
    case (served cfg key c)
    then have "(key, clnt) \<in> set (CfClients f')" by (auto dest!: map_of_SomeD [of "CfClients f'" key] simp: update_conv' intro: map_of_SomeD)
    then show ?thesis
      using served(4) v assms(4) by (force simp: expireClients_def isExpired_def)
  qed blast
qed

section \<open>A factory that was asked twice\<close>

definition plainConfig :: "string RestConfig" where
  "plainConfig = \<lparr>Impersonate = \<lparr>ImpUserName = '''', ImpUID = '''', ImpGroups = None, ImpExtra = None\<rparr>, ConfigRest = ''host''\<rparr>"

definition sampleFactoryLib :: "string factory_lib" where
  "sampleFactoryLib = \<lparr>RESTConfigFromKubeConfig = (\<lambda>raw. Inl (Errorf ''invalid kubeconfig'' [])), HTTPClientFor = (\<lambda>config. Inr ''http''),
     NewCtrlClient = (\<lambda>config http scheme. Inr ''client''), NewClientset = (\<lambda>config http. Inr ''clientset''),
     NewBroadcaster = (\<lambda>clientset. ''broadcaster''), NewRecorder = (\<lambda>broadcaster scheme name. name),
     MarshalKeyData = (\<lambda>keyData. Inr (case KeyImpersonationUser keyData of None \<Rightarrow> '''' | Some user \<Rightarrow> user)), Sum256 = (\<lambda>str. str)\<rparr>"

definition sampleFactory :: "string ClientFactory" where
  "sampleFactory = \<lparr>CfName = ''op'', CfControllerName = ''ctrl'', CfConfig = plainConfig, CfValidity = clientValidity, CfScheme = ''scheme'', CfClients = []\<rparr>"

definition usedFactory :: "string ClientFactory" where
  "usedFactory = snd (GetClient sampleFactoryLib 0 '''' '''' [] sampleFactory)"

definition sampleIdentities :: "(string \<times> string \<times> string list) set" where
  "sampleIdentities = {('''', '''', []), ('''', ''alice'', [])}"

definition aliceClient :: "int \<Rightarrow> string FactoryClient" where
  "aliceClient now = \<lparr>FcClient = NewClusterClient ''client'' ''clientset'' ''op''
       (plainConfig\<lparr>Impersonate := (Impersonate plainConfig)\<lparr>ImpUserName := ''alice''\<rparr>\<rparr>) ''http'',
     FcEventBroadcaster = ''broadcaster'', FcValidUntil = now + clientValidity\<rparr>"

lemma sampleFactory_new: "NewClientFactory '''' [\<lambda>s. Inr ''scheme''] ''op'' ''ctrl'' plainConfig [] = Ok sampleFactory"
  by (simp add: NewClientFactory_def sampleFactory_def)

lemma sampleFactory_used:
  assumes "('''', '''', []) \<in> K"
  shows "(factory_step sampleFactoryLib K)\<^sup>*\<^sup>* sampleFactory usedFactory"
proof (rule r_into_rtranclp, rule factory_step.get)
  show "GetClient sampleFactoryLib 0 '''' '''' [] sampleFactory = (fst (GetClient sampleFactoryLib 0 '''' '''' [] sampleFactory), usedFactory)"
    by (simp add: usedFactory_def)
qed (rule assms)

lemma alice_served:
  "GetClient sampleFactoryLib 5 '''' ''alice'' [] usedFactory =
     (Ok (aliceClient 5), usedFactory\<lparr>CfClients := AList.update ''alice'' (aliceClient 5) (CfClients usedFactory)\<rparr>)"
  by code_simp

theorem factory_isolates_witness:
  "requested sampleFactoryLib plainConfig ('''', ''alice'', []) (ClConfig (FcClient (aliceClient 5)))"
proof (rule factory_isolates [OF _ sampleFactory_new sampleFactory_used _ alice_served])
  show "collision_free sampleFactoryLib sampleIdentities"
    by (simp add: collision_free_def sampleIdentities_def sha256sum_def sampleFactoryLib_def keyDataOf_def)
qed (simp_all add: sampleIdentities_def)

theorem factory_expires_witness:
  "aliceClient 5 \<in> snd ` set (CfClients (snd (expireClients 100
     (usedFactory\<lparr>CfClients := AList.update ''alice'' (aliceClient 5) (CfClients usedFactory)\<rparr>))))"
  using factory_expires [OF sampleFactory_new sampleFactory_used alice_served surjective_pairing, of 100] by simp

end
