(* ===== verification/Walk.thy ===== *)
theory Walk
  imports Api_Objects
begin

text \<open>
  \<open>internal/walk/walk.go\<close>: the traversal of a Go value by reflection. The value is a tree
  whose nodes carry what the callback is passed; the callback is a computation that yields an
  error or nil. The paths passed around are Go slices, and \<open>append(path, x)\<close> writes into
  the backing array of \<open>path\<close> if there is room, so arrays are kept in a heap and a slice is
  an array with a length; the errors hold slices that are read when the message is built.
\<close>

section \<open>Slices of strings\<close>

text \<open>An array of the heap has as many elements as its capacity; the zero slice has none.\<close>

type_synonym heap = "string list list"

record slice =
  slice_array :: nat
  slice_len :: nat

definition slice_read :: "heap \<Rightarrow> slice \<Rightarrow> string list" where
  "slice_read h sl = take (slice_len sl) (h ! slice_array sl)"

text \<open>
  Go's \<open>append\<close> of one element; \<open>grow n\<close> is the capacity of the new array if a slice of
  length and capacity \<open>n\<close> is full (the language only asks for more than \<open>n\<close>).
\<close>

definition slice_append :: "(nat \<Rightarrow> nat) \<Rightarrow> heap \<Rightarrow> slice \<Rightarrow> string \<Rightarrow> heap \<times> slice" where
  "slice_append grow h sl x =
     (let arr = h ! slice_array sl; n = slice_len sl in
      if n < length arr
      then (h[slice_array sl := arr[n := x]], sl\<lparr>slice_len := Suc n\<rparr>)
      else (h @ [take n arr @ [x] @ replicate (grow n - Suc n) ''''],
            \<lparr>slice_array = length h, slice_len = Suc n\<rparr>))"

section \<open>Values\<close>

text \<open>
  The kinds of \<open>reflect.Value\<close> the code distinguishes. A struct field is its name,
  whether it is exported, its tag (as key-value pairs) and its value; a map lists its entries in the order of
  the iteration; unsupported kinds are those the code panics on.
\<close>

type_synonym StructTag = "(string \<times> string) list"

datatype 'x gvalue =
    GBasic 'x
  | GList 'x "'x gvalue list"
  | GMap 'x "(string \<times> 'x gvalue) list"
  | GStruct 'x "(string \<times> bool \<times> StructTag \<times> 'x gvalue) list"
  | GNilPointer 'x
  | GPointer "'x gvalue"
  | GNilInterface 'x
  | GInterface "'x gvalue"
  | GUnsupported

record 's walk_state =
  heap :: heap
  env :: 's

type_synonym ('s, 'a) wcomp = "('s walk_state, goerr, 'a) comp"

text \<open>The callback gets the node, the path and the tag; its effects are on the caller's state.\<close>

type_synonym ('s, 'x) walkfunc = "'x \<Rightarrow> string list \<Rightarrow> StructTag \<Rightarrow> 's \<Rightarrow> (goerr, goerr option) outcome \<times> 's"

definition in_env :: "('s \<Rightarrow> (goerr, 'a) outcome \<times> 's) \<Rightarrow> ('s, 'a) wcomp" where
  "in_env m = (\<lambda>s. let (res, e) = m (env s) in (res, s\<lparr>env := e\<rparr>))"

definition append_path :: "(nat \<Rightarrow> nat) \<Rightarrow> slice \<Rightarrow> string \<Rightarrow> ('s, slice) wcomp" where
  "append_path grow path x = (\<lambda>s. let (h, sl) = slice_append grow (heap s) path x in (Ok sl, s\<lparr>heap := h\<rparr>))"

text \<open>The errors of a node, each with the path of the node.\<close>

definition callback :: "('s, 'x) walkfunc \<Rightarrow> 'x \<Rightarrow> slice \<Rightarrow> StructTag \<Rightarrow> ('s, (goerr \<times> slice) list) wcomp" where
  "callback f x path tag =
     bind (gets (\<lambda>s. slice_read (heap s) path)) (\<lambda>p.
     bind (in_env (f x p tag)) (\<lambda>err.
     ret (case err of None \<Rightarrow> [] | Some e \<Rightarrow> [(e, path)])))"

text \<open>
  The nodes below a list, a map or a struct, in the order of the loops of the code: what is
  appended to the path, the tag, and the value.
\<close>

fun children :: "'x gvalue \<Rightarrow> StructTag \<Rightarrow> (string \<times> StructTag \<times> 'x gvalue) list" where
  "children (GList x vs) tag = map (\<lambda>(i, v). (digits_of i, tag, v)) (enumerate 0 vs)"
| "children (GMap x kvs) tag = map (\<lambda>(k, v). (k, tag, v)) kvs"
| "children (GStruct x fs) tag = map (\<lambda>(name, exported, tag', v). (name, tag', v)) (filter (\<lambda>(name, exported, tag', v). exported) fs)"
| "children v tag = []"

definition weight :: "(string \<times> StructTag \<times> 'x gvalue) list \<Rightarrow> nat" where
  "weight cs = sum_list (map (\<lambda>(p, t, v). Suc (size v)) cs)"

lemma weight_simps [simp]: "weight [] = 0" "weight ((p, t, v) # cs) = Suc (size v + weight cs)"
  by (simp_all add: weight_def)

lemma weight_children:
  "weight (children (GList x vs) tag) < size (GList x vs)"
  "weight (children (GMap x kvs) tag) < size (GMap x kvs)"
  "weight (children (GStruct x fs) tag) < size (GStruct x fs)"
proof -
  have "weight (map (\<lambda>(i, v). (digits_of i, tag, v)) (enumerate n vs)) \<le> size_list size vs" for n
    by (induction vs arbitrary: n) auto
  moreover have "weight (map (\<lambda>(k, v). (k, tag, v)) kvs) \<le> size_list (size_prod (\<lambda>_. 0) size) kvs"
    by (induction kvs) auto
  moreover have "weight (map (\<lambda>(name, exported, tag', v). (name, tag', v)) (filter (\<lambda>(name, exported, tag', v). exported) fs)) \<le>
      size_list (size_prod (\<lambda>_. 0) (size_prod (\<lambda>_. 0) (size_prod (\<lambda>_. 0) size))) fs"
    by (induction fs) auto
  ultimately show "weight (children (GList x vs) tag) < size (GList x vs)"
    "weight (children (GMap x kvs) tag) < size (GMap x kvs)"
    "weight (children (GStruct x fs) tag) < size (GStruct x fs)" by (simp_all add: less_Suc_eq_le)
qed

declare children.simps [simp del]

lemmas weight_bounds [simp] = weight_children [simplified]

function walk :: "(nat \<Rightarrow> nat) \<Rightarrow> ('s, 'x) walkfunc \<Rightarrow> 'x gvalue \<Rightarrow> slice \<Rightarrow> StructTag \<Rightarrow> ('s, (goerr \<times> slice) list) wcomp"
  and walk_children :: "(nat \<Rightarrow> nat) \<Rightarrow> ('s, 'x) walkfunc \<Rightarrow> (string \<times> StructTag \<times> 'x gvalue) list \<Rightarrow> slice \<Rightarrow> ('s, (goerr \<times> slice) list) wcomp"
  where
  "walk grow f v path tag = (case v of
       GBasic x \<Rightarrow> callback f x path tag
     | GNilPointer x \<Rightarrow> callback f x path tag
     | GNilInterface x \<Rightarrow> callback f x path tag
     | GPointer v' \<Rightarrow> walk grow f v' path tag
     | GInterface v' \<Rightarrow> walk grow f v' path tag
     | GUnsupported \<Rightarrow> panic ''unrecognized type''
     | GList x _ \<Rightarrow> bind (callback f x path tag) (\<lambda>errs.
         bind (walk_children grow f (children v tag) path) (\<lambda>errs'. ret (errs @ errs')))
     | GMap x _ \<Rightarrow> bind (callback f x path tag) (\<lambda>errs.
         bind (walk_children grow f (children v tag) path) (\<lambda>errs'. ret (errs @ errs')))
     | GStruct x _ \<Rightarrow> bind (callback f x path tag) (\<lambda>errs.
         bind (walk_children grow f (children v tag) path) (\<lambda>errs'. ret (errs @ errs'))))"
| "walk_children grow f [] path = ret []"
| "walk_children grow f ((elem, tag, v) # cs) path =
     bind (append_path grow path elem) (\<lambda>p.
     bind (walk grow f v p tag) (\<lambda>errs.
     bind (walk_children grow f cs path) (\<lambda>errs'. ret (errs @ errs'))))"
  by pat_completeness auto

termination
  by (relation "measure (\<lambda>x. case x of Inl (grow, f, v, path, tag) \<Rightarrow> size v | Inr (grow, f, cs, path) \<Rightarrow> weight cs)") auto

declare walk.simps [simp del]

text \<open>\<open>strings.Join\<close>.\<close>

fun Join :: "string list \<Rightarrow> string \<Rightarrow> string" where
  "Join [] sep = ''''"
| "Join [x] sep = x"
| "Join (x # y # ys) sep = x @ sep @ Join (y # ys) sep"

text \<open>The error message, built from the path as it is when the message is read.\<close>

definition walkError :: "heap \<Rightarrow> goerr \<times> slice \<Rightarrow> goerr" where
  "walkError h e = Wrapf (fst e) ''/%s'' [AStr (Join (slice_read h (snd e)) ''/'')]"

text \<open>\<open>Walk\<close> takes a non-nil pointer.\<close>

definition Walk :: "(nat \<Rightarrow> nat) \<Rightarrow> 'x gvalue \<Rightarrow> ('s, 'x) walkfunc \<Rightarrow> 's \<Rightarrow> (goerr, goerr option) outcome \<times> 's" where
  "Walk grow v f = (\<lambda>s.
     (case v of
        GPointer _ \<Rightarrow>
          (case walk grow f v \<lparr>slice_array = 0, slice_len = 0\<rparr> [] \<lparr>heap = [[]], env = s\<rparr> of
             (Ok errs, s') \<Rightarrow> (Ok (if errs = [] then None else Some (JoinError (map (walkError (heap s')) errs))), env s')
           | (Err e, s') \<Rightarrow> (Err e, env s')
           | (Panic p, s') \<Rightarrow> (Panic p, env s'))
      | _ \<Rightarrow> (Panic ''non-nil pointer expected'', s)))"

section \<open>Traversal in preorder\<close>

text \<open>
  The specification: the nodes in preorder, with paths as values; \<open>None\<close> is an unsupported
  value. The callback is run on each of them until one panics.
\<close>

function visits :: "'x gvalue \<Rightarrow> string list \<Rightarrow> StructTag \<Rightarrow> ('x \<times> string list \<times> StructTag) option list"
  and visits_children :: "(string \<times> StructTag \<times> 'x gvalue) list \<Rightarrow> string list \<Rightarrow> ('x \<times> string list \<times> StructTag) option list"
  where
  "visits v path tag = (case v of
       GBasic x \<Rightarrow> [Some (x, path, tag)]
     | GNilPointer x \<Rightarrow> [Some (x, path, tag)]
     | GNilInterface x \<Rightarrow> [Some (x, path, tag)]
     | GPointer v' \<Rightarrow> visits v' path tag
     | GInterface v' \<Rightarrow> visits v' path tag
     | GUnsupported \<Rightarrow> [None]
     | GList x _ \<Rightarrow> Some (x, path, tag) # visits_children (children v tag) path
     | GMap x _ \<Rightarrow> Some (x, path, tag) # visits_children (children v tag) path
     | GStruct x _ \<Rightarrow> Some (x, path, tag) # visits_children (children v tag) path)"
| "visits_children [] path = []"
| "visits_children ((elem, tag, v) # cs) path = visits v (path @ [elem]) tag @ visits_children cs path"
  by pat_completeness auto

termination
  by (relation "measure (\<lambda>x. case x of Inl (v, path, tag) \<Rightarrow> size v | Inr (cs, path) \<Rightarrow> weight cs)") auto

declare visits.simps [simp del]

fun run_visits :: "('s, 'x) walkfunc \<Rightarrow> ('x \<times> string list \<times> StructTag) option list \<Rightarrow> ('s, goerr, goerr list) comp" where
  "run_visits f [] = ret []"
| "run_visits f (None # vs) = panic ''unrecognized type''"
| "run_visits f (Some (x, path, tag) # vs) =
     bind (f x path tag) (\<lambda>err.
     bind (run_visits f vs) (\<lambda>errs.
     ret ((case err of None \<Rightarrow> [] | Some e \<Rightarrow> [e]) @ errs)))"

lemma bind_ret_right [simp]: "bind m ret = m"
  by (auto simp: bind_def ret_def fun_eq_iff split: prod.splits outcome.splits)

lemma run_visits_append:
  "run_visits f (xs @ ys) = bind (run_visits f xs) (\<lambda>errs. bind (run_visits f ys) (\<lambda>errs'. ret (errs @ errs')))"
  by (induction f xs rule: run_visits.induct) (simp_all add: bind_assoc)

text \<open>
  The traversal below a slice writes only behind it: arrays other than the slice's own one
  are as before, and so is the slice.
\<close>

definition behind :: "slice \<Rightarrow> heap \<Rightarrow> heap \<Rightarrow> bool" where
  "behind sl h h' \<longleftrightarrow> length h \<le> length h' \<and>
     (\<forall>i < length h. length (h' ! i) = length (h ! i) \<and> (i \<noteq> slice_array sl \<longrightarrow> h' ! i = h ! i)) \<and>
     slice_read h' sl = slice_read h sl"

definition valid_slice :: "heap \<Rightarrow> slice \<Rightarrow> bool" where
  "valid_slice h sl \<longleftrightarrow> slice_array sl < length h \<and> slice_len sl \<le> length (h ! slice_array sl)"

lemma behind_refl [simp]: "behind sl h h"
  by (simp add: behind_def)

lemma behind_trans: "behind sl h h' \<Longrightarrow> behind sl h' h'' \<Longrightarrow> behind sl h h''"
  unfolding behind_def by (metis order.strict_trans2 order_trans)

lemma valid_behind: "valid_slice h sl \<Longrightarrow> behind sl h h' \<Longrightarrow> valid_slice h' sl"
  by (auto simp: valid_slice_def behind_def)

lemma slice_append_behind:
  assumes "slice_append grow h sl x = (h', p)" and "valid_slice h sl"
  shows "behind sl h h'" "valid_slice h' p" "slice_read h' p = slice_read h sl @ [x]"
    "behind p h' h'' \<Longrightarrow> behind sl h h''"
proof -
  let ?arr = "h ! slice_array sl" and ?n = "slice_len sl"
  have "behind sl h h' \<and> valid_slice h' p \<and> slice_read h' p = slice_read h sl @ [x] \<and> (behind p h' h'' \<longrightarrow> behind sl h h'')"
  proof (cases "?n < length ?arr")
    case True
    then have h': "h' = h[slice_array sl := ?arr[?n := x]]" "p = sl\<lparr>slice_len := Suc ?n\<rparr>"
      using assms(1) by (simp_all add: slice_append_def Let_def)
    have read: "take (Suc ?n) (?arr[?n := x]) = take ?n ?arr @ [x]" using True by (simp add: take_Suc_conv_app_nth)
    have "behind sl h h''" if "behind p h' h''"
    proof -
      have "take (Suc ?n) (h'' ! slice_array sl) = take ?n ?arr @ [x]"
        using that assms(2) read unfolding h' by (auto simp: behind_def slice_read_def valid_slice_def)
      then have "take ?n (take (Suc ?n) (h'' ! slice_array sl)) = take ?n ?arr" using True by simp
      then have "take ?n (h'' ! slice_array sl) = take ?n ?arr" by (simp add: min_def)
      then show ?thesis
        using that unfolding h' by (auto simp: behind_def slice_read_def nth_list_update split: if_splits)
    qed
    moreover have "behind sl h h'"
      using True assms(2) unfolding h' by (auto simp: behind_def slice_read_def valid_slice_def nth_list_update)
    moreover have "valid_slice h' p" "slice_read h' p = slice_read h sl @ [x]"
      using assms(2) True read unfolding h' by (auto simp: valid_slice_def slice_read_def)
    ultimately show ?thesis by blast
  next
    case False
    then have h': "h' = h @ [take ?n ?arr @ [x] @ replicate (grow ?n - Suc ?n) '''']" "p = \<lparr>slice_array = length h, slice_len = Suc ?n\<rparr>"
      using assms(1) by (simp_all add: slice_append_def Let_def)
    have "behind sl h h''" if "behind p h' h''"
      using that assms(2) unfolding h' by (auto simp: behind_def valid_slice_def slice_read_def nth_append)
    moreover have "behind sl h h'" "valid_slice h' p" "slice_read h' p = slice_read h sl @ [x]"
      using assms(2) unfolding h' by (auto simp: behind_def valid_slice_def slice_read_def nth_append)
    ultimately show ?thesis by blast
  qed
  then show "behind sl h h'" "valid_slice h' p" "slice_read h' p = slice_read h sl @ [x]"
    "behind p h' h'' \<Longrightarrow> behind sl h h''" by blast+
qed

text \<open>A computation on the state of the walk that implements one on values, below a slice.\<close>

definition forget :: "(goerr, (goerr \<times> slice) list) outcome \<Rightarrow> (goerr, goerr list) outcome" where
  "forget res = map_outcome id (map fst) res"

lemma forget_simps [simp]: "forget (Ok errs) = Ok (map fst errs)" "forget (Err e) = Err e" "forget (Panic p) = Panic p"
  by (simp_all add: forget_def)

definition implements :: "slice \<Rightarrow> string list \<Rightarrow> ('s, (goerr \<times> slice) list) wcomp \<Rightarrow> ('s, goerr, goerr list) comp \<Rightarrow> bool" where
  "implements sl path m m' \<longleftrightarrow> (\<forall>h e. valid_slice h sl \<longrightarrow> slice_read h sl = path \<longrightarrow>
     (\<exists>res h'. m \<lparr>heap = h, env = e\<rparr> = (res, \<lparr>heap = h', env = snd (m' e)\<rparr>) \<and>
       behind sl h h' \<and> fst (m' e) = forget res))"

lemma implementsI:
  assumes "\<And>h e. valid_slice h sl \<Longrightarrow> slice_read h sl = path \<Longrightarrow>
     \<exists>res h'. m \<lparr>heap = h, env = e\<rparr> = (res, \<lparr>heap = h', env = snd (m' e)\<rparr>) \<and> behind sl h h' \<and> fst (m' e) = forget res"
  shows "implements sl path m m'"
  using assms by (auto simp: implements_def)

lemma implementsE:
  assumes "implements sl path m m'" and "valid_slice h sl" and "slice_read h sl = path"
  obtains res h' where "m \<lparr>heap = h, env = e\<rparr> = (res, \<lparr>heap = h', env = snd (m' e)\<rparr>)" "behind sl h h'" "fst (m' e) = forget res"
  using assms unfolding implements_def by blast

lemma implements_bind:
  assumes m: "implements sl path m m'" and f: "\<And>errs. implements sl path (f errs) (f' (map fst errs))"
  shows "implements sl path (bind m f) (bind m' f')"
proof (rule implementsI)
  fix h e assume s: "valid_slice h sl" "slice_read h sl = path"
  obtain res h' where run: "m \<lparr>heap = h, env = e\<rparr> = (res, \<lparr>heap = h', env = snd (m' e)\<rparr>)" "behind sl h h'" "fst (m' e) = forget res"
    using implementsE [OF m s] by blast
  show "\<exists>res h'. bind m f \<lparr>heap = h, env = e\<rparr> = (res, \<lparr>heap = h', env = snd (bind m' f' e)\<rparr>) \<and> behind sl h h' \<and> fst (bind m' f' e) = forget res"
  proof (cases res)
    case (Ok errs)
    have "valid_slice h' sl" "slice_read h' sl = path"
      using s run(2) valid_behind by (auto simp: behind_def)
    then obtain res' h'' where "f errs \<lparr>heap = h', env = snd (m' e)\<rparr> = (res', \<lparr>heap = h'', env = snd (f' (map fst errs) (snd (m' e)))\<rparr>)"
        "behind sl h' h''" "fst (f' (map fst errs) (snd (m' e))) = forget res'"
      using implementsE [OF f] by blast
    then show ?thesis
      using run Ok behind_trans by (cases "m' e") (auto simp: bind_def)
  qed (use run in \<open>cases "m' e", auto simp: bind_def\<close>)+
qed

lemma implements_ret: "map fst errs = errs' \<Longrightarrow> implements sl path (ret errs) (ret errs')"
  by (rule implementsI) (simp add: ret_def)

lemma implements_panic: "implements sl path (panic p) (panic p)"
  by (rule implementsI) (simp add: panic_def)

lemma implements_callback:
  "implements sl path (callback f x sl tag) (bind (f x path tag) (\<lambda>err. ret (case err of None \<Rightarrow> [] | Some e \<Rightarrow> [e])))"
proof (rule implementsI)
  fix h e assume "slice_read h sl = path"
  then show "\<exists>res h'. callback f x sl tag \<lparr>heap = h, env = e\<rparr> =
      (res, \<lparr>heap = h', env = snd (bind (f x path tag) (\<lambda>err. ret (case err of None \<Rightarrow> [] | Some e \<Rightarrow> [e])) e)\<rparr>) \<and>
      behind sl h h' \<and> fst (bind (f x path tag) (\<lambda>err. ret (case err of None \<Rightarrow> [] | Some e \<Rightarrow> [e])) e) = forget res"
    by (cases "f x path tag e"; cases "fst (f x path tag e)")
      (auto simp: callback_def bind_def in_env_def ret_def intro!: exI [of _ h] split: option.splits)
qed

lemma implements_child:
  assumes "\<And>p. implements p (path @ [elem]) (m p) m'"
  shows "implements sl path (bind (append_path grow sl elem) m) m'"
proof (rule implementsI)
  fix h e assume s: "valid_slice h sl" "slice_read h sl = path"
  obtain h1 p where app: "slice_append grow h sl elem = (h1, p)" by force
  note app' = slice_append_behind [OF app s(1)]
  have "slice_read h1 p = path @ [elem]" using app'(3) s(2) by simp
  then obtain res h' where "m p \<lparr>heap = h1, env = e\<rparr> = (res, \<lparr>heap = h', env = snd (m' e)\<rparr>)" "behind p h1 h'" "fst (m' e) = forget res"
    by (rule implementsE [OF assms app'(2)])
  moreover have "bind (append_path grow sl elem) m \<lparr>heap = h, env = e\<rparr> = m p \<lparr>heap = h1, env = e\<rparr>"
    using app by (simp add: bind_def append_path_def)
  ultimately show "\<exists>res h'. bind (append_path grow sl elem) m \<lparr>heap = h, env = e\<rparr> = (res, \<lparr>heap = h', env = snd (m' e)\<rparr>) \<and>
      behind sl h h' \<and> fst (m' e) = forget res"
    using app'(4) by auto
qed

lemma walk_implements:
  "implements sl path (walk grow f v sl tag) (run_visits f (visits v path tag))"
  "implements sl path (walk_children grow f cs sl) (run_visits f (visits_children cs path))"
proof (induction grow f v sl tag and grow f cs sl arbitrary: path and path rule: walk_walk_children.induct)
  case (1 grow f v sl tag)
  have node: "implements sl path (bind (callback f x sl tag) (\<lambda>errs.
         bind (walk_children grow f (children v tag) sl) (\<lambda>errs'. ret (errs @ errs'))))
      (run_visits f (Some (x, path, tag) # visits_children (children v tag) path))"
    if "implements sl path (walk_children grow f (children v tag) sl) (run_visits f (visits_children (children v tag) path))" for x
  proof -
    have "implements sl path (bind (callback f x sl tag) (\<lambda>errs.
         bind (walk_children grow f (children v tag) sl) (\<lambda>errs'. ret (errs @ errs'))))
      (bind (bind (f x path tag) (\<lambda>err. ret (case err of None \<Rightarrow> [] | Some e \<Rightarrow> [e])))
        (\<lambda>errs. bind (run_visits f (visits_children (children v tag) path)) (\<lambda>errs'. ret (errs @ errs'))))"
      by (intro implements_bind implements_callback that implements_ret) simp
    then show ?thesis by (simp add: bind_assoc)
  qed
  have leaf: "implements sl path (callback f x sl tag) (run_visits f [Some (x, path, tag)])" for x
    using implements_callback [of sl path f x tag] by simp
  note unfold = walk.simps [of grow f v] visits.simps [of v]
  show ?case
  proof (cases v)
    case (GPointer w) show ?thesis unfolding unfold using GPointer 1(4) by simp
  next
    case (GInterface w) show ?thesis unfolding unfold using GInterface 1(5) by simp
  next
    case (GList x vs) show ?thesis unfolding unfold using node [OF 1(1), of x] GList by simp
  next
    case (GMap x kvs) show ?thesis unfolding unfold using node [OF 1(2), of x] GMap by simp
  next
    case (GStruct x fs) show ?thesis unfolding unfold using node [OF 1(3), of x] GStruct by simp
  next
    case GUnsupported show ?thesis unfolding unfold using GUnsupported implements_panic by simp
  next
    case (GBasic x) show ?thesis unfolding unfold using leaf [of x] GBasic by simp
  next
    case (GNilPointer x) show ?thesis unfolding unfold using leaf [of x] GNilPointer by simp
  next
    case (GNilInterface x) show ?thesis unfolding unfold using leaf [of x] GNilInterface by simp
  qed
next
  case (2 grow f sl)
  then show ?case by (simp add: implements_ret)
next
  case (3 grow f elem tag v cs sl)
  have "implements sl path (bind (bind (append_path grow sl elem) (\<lambda>p. walk grow f v p tag)) (\<lambda>errs.
        bind (walk_children grow f cs sl) (\<lambda>errs'. ret (errs @ errs'))))
      (bind (run_visits f (visits v (path @ [elem]) tag)) (\<lambda>errs.
        bind (run_visits f (visits_children cs path)) (\<lambda>errs'. ret (errs @ errs'))))"
    using 3 by (intro implements_bind implements_child implements_ret) simp_all
  then show ?case by (simp add: bind_assoc run_visits_append)
qed

section \<open>Walk\<close>

text \<open>The errors without the paths of their nodes.\<close>

fun causes :: "goerr option \<Rightarrow> goerr list" where
  "causes (Some (JoinError errs)) = map (\<lambda>err. case err of Wrapf e _ _ \<Rightarrow> e | e \<Rightarrow> e) errs"
| "causes _ = []"

lemma Walk_visits:
  "case (Walk grow (GPointer v) f s, run_visits f (visits v [] []) s) of
     ((Ok err, t), (Ok errs, t')) \<Rightarrow> t = t' \<and> (err = None) = (errs = []) \<and> causes err = errs
   | ((Err e, t), (Err e', t')) \<Rightarrow> e = e' \<and> t = t'
   | ((Panic p, t), (Panic p', t')) \<Rightarrow> p = p' \<and> t = t'
   | _ \<Rightarrow> False"
proof -
  let ?sl = "\<lparr>slice_array = 0, slice_len = 0\<rparr>"
  have walk: "walk grow f (GPointer v) ?sl [] = walk grow f v ?sl []" by (subst walk.simps) simp
  have "valid_slice [[]] ?sl" "slice_read [[]] ?sl = []" by (simp_all add: valid_slice_def slice_read_def)
  then obtain res h where "walk grow f v ?sl [] \<lparr>heap = [[]], env = s\<rparr> =
      (res, \<lparr>heap = h, env = snd (run_visits f (visits v [] []) s)\<rparr>)" "fst (run_visits f (visits v [] []) s) = forget res"
    by (rule implementsE [OF walk_implements(1)])
  moreover have "map ((\<lambda>err. case err of Wrapf e _ _ \<Rightarrow> e | e \<Rightarrow> e) \<circ> walkError h) errs = map fst errs" for errs
    by (simp add: walkError_def)
  ultimately show ?thesis
    by (cases res; cases "run_visits f (visits v [] []) s") (auto simp: Walk_def walk comp_def)
qed

text \<open>
  C22: \<open>Walk\<close> runs the callback on the nodes of the value in preorder, each with its own
  path and the tag of the innermost struct field (although the slices of the paths share
  their arrays), collects the errors in this order, goes on after an error, and panics at
  the first unsupported value.
\<close>

theorem Walk_preorder:
  "case (Walk grow (GPointer v) f s, run_visits f (visits v [] []) s) of
     ((Ok err, t), (Ok errs, t')) \<Rightarrow> t = t' \<and> (err = None) = (errs = []) \<and> causes err = errs
   | ((Err e, t), (Err e', t')) \<Rightarrow> e = e' \<and> t = t'
   | ((Panic p, t), (Panic p', t')) \<Rightarrow> p = p' \<and> t = t'
   | _ \<Rightarrow> False"
  by (rule Walk_visits)

text \<open>
  C11: the paths in the messages can be wrong. If capacities are doubled, as Go does for
  short slices, the slices of siblings four levels deep share their array, and the message
  of the first one's error shows the path of the last one, because it is read at the end.
\<close>

definition deepStruct :: "string gvalue" where
  "deepStruct = (let field = (\<lambda>name v. (name, True, [], v)) in
     GStruct [] [field ''A'' (GStruct [] [field ''B'' (GStruct [] [field ''C'' (GStruct []
       [field ''first'' (GBasic ''x''), field ''last'' (GBasic ''y'')])])])])"

theorem Walk_stale_path:
  "fst (Walk (\<lambda>n. if n = 0 then 1 else 2 * n) (GPointer deepStruct)
      (\<lambda>x path tag s. (Ok (if x = ''x'' then Some (Errorf ''bad'' [AStr (Join path ''/'')]) else None), s)) ()) =
    Ok (Some (JoinError [Wrapf (Errorf ''bad'' [AStr ''A/B/C/first'']) ''/%s'' [AStr ''A/B/C/last'']]))"
  by (simp add: deepStruct_def Let_def Walk_def walk.simps children.simps callback_def append_path_def slice_append_def
      slice_read_def bind_def in_env_def run_simps walkError_def)

end
