(* ===== verification/Component_Types.thy ===== *)
theory Component_Types
  imports Inventory Walk
begin

text \<open>
  The types of \<open>pkg/component/types.go\<close> and the methods of \<open>pkg/component/component.go\<close>: the
  status of a component with its conditions, the optional interfaces through which a
  component or its spec configures the reconciler, and the ready-made specs that implement
  them. The references of \<open>pkg/component/reference.go\<close> occur in a spec as nodes with an
  address; what they have loaded is kept in a store.
\<close>

section \<open>Status\<close>

datatype ConditionStatus = ConditionTrue | ConditionFalse | ConditionUnknown | ConditionStatusOther string

datatype State =
    StateReady | StatePending | StateProcessing | StateDeletionPending | StateDeleting | StateError
  | StateOther string

record Condition =
  CondType :: string
  CondStatus :: ConditionStatus
  LastTransitionTime :: "int option"
  CondReason :: string
  CondMessage :: string

record ComponentStatus =
  ObservedGeneration :: int
  AppliedGeneration :: int
  LastObservedAt :: "int option"
  StatusLastAppliedAt :: "int option"
  ProcessingDigest :: string
  ProcessingSince :: "int option"
  LastProcessingDigest :: string
  Revision :: int
  Conditions :: "Condition list"
  CompState :: State
  StatusInventory :: "InventoryItem list"

abbreviation "ConditionTypeReady \<equiv> ''Ready''"

definition IsReady :: "ComponentStatus \<Rightarrow> bool" where
  "IsReady s \<longleftrightarrow> CompState s = StateReady"

text \<open>The first condition of a type; a pointer into the slice is its index.\<close>

fun findCondition :: "Condition list \<Rightarrow> string \<Rightarrow> nat option" where
  "findCondition [] condType = None"
| "findCondition (c # cs) condType =
     (if CondType c = condType then Some 0 else map_option Suc (findCondition cs condType))"

definition getCondition :: "ComponentStatus \<Rightarrow> string \<Rightarrow> Condition option" where
  "getCondition s condType = map_option ((!) (Conditions s)) (findCondition (Conditions s) condType)"

definition getOrAddCondition :: "ComponentStatus \<Rightarrow> string \<Rightarrow> ComponentStatus \<times> nat" where
  "getOrAddCondition s condType = (case findCondition (Conditions s) condType of
     Some i \<Rightarrow> (s, i)
   | None \<Rightarrow> (s\<lparr>Conditions := Conditions s @ [\<lparr>CondType = condType, CondStatus = ConditionUnknown,
         LastTransitionTime = None, CondReason = '''', CondMessage = ''''\<rparr>]\<rparr>, length (Conditions s)))"

definition GetState :: "ComponentStatus \<Rightarrow> State \<times> string \<times> string" where
  "GetState s = (case getCondition s ConditionTypeReady of
     None \<Rightarrow> (CompState s, '''', '''')
   | Some cond \<Rightarrow> (CompState s, CondReason cond, CondMessage cond))"

text \<open>The switch of \<open>SetState\<close>.\<close>

definition readyStatus :: "State \<Rightarrow> ConditionStatus" where
  "readyStatus state = (case state of
     StateReady \<Rightarrow> ConditionTrue | StateError \<Rightarrow> ConditionFalse | _ \<Rightarrow> ConditionUnknown)"

definition SetState :: "State \<Rightarrow> string \<Rightarrow> string \<Rightarrow> ComponentStatus \<Rightarrow> ComponentStatus" where
  "SetState state reason message s =
     (let (s, i) = getOrAddCondition s ConditionTypeReady;
          cond = Conditions s ! i
      in s\<lparr>Conditions := (Conditions s)[i := cond\<lparr>CondStatus := readyStatus state, CondReason := reason, CondMessage := message\<rparr>],
           CompState := state\<rparr>)"

section \<open>References in specs\<close>

datatype specnode =
    PlainNode string
  | NilReference
  | ConfigMapReference nat string
  | ConfigMapKeyReference nat string string
  | SecretReference nat string
  | SecretKeyReference nat string string
  | GenericReference nat

datatype refdata = LoadedMap "(string \<times> string) list" | LoadedValue string

type_synonym refstore = "nat \<Rightarrow> refdata option"

section \<open>Configurations\<close>

record PolicyValues =
  GetAdoptionPolicy :: AdoptionPolicy
  GetUpdatePolicy :: UpdatePolicy
  GetDeletePolicy :: DeletePolicy
  GetMissingNamespacesPolicy :: MissingNamespacesPolicy

text \<open>
  The optional interfaces a value implements (\<open>None\<close>: it does not) with what their methods
  return. A kubeconfig may come from a reference, so it depends on what was loaded.
\<close>

record Configuration =
  PlacementConfiguration :: "(string \<times> string) option"
  ClientConfiguration :: "(refstore \<Rightarrow> string) option"
  ImpersonationConfiguration :: "(string \<times> string list) option"
  SuspensionConfiguration :: "bool option"
  RequeueConfiguration :: "int option"
  RetryConfiguration :: "int option"
  TimeoutConfiguration :: "int option"
  PolicyConfiguration :: "PolicyValues option"
  TypeConfiguration :: "TypeInfo list option"
  ReapplyConfiguration :: "int option"
  EventAnnotationProvider :: "(string \<Rightarrow> (string \<times> string) list) option"

record Component = Object +
  Uid :: string
  Spec :: "specnode gvalue"
  CompStatus :: ComponentStatus
  ComponentImpl :: Configuration
  SpecImpl :: Configuration

text \<open>The component itself is asked first, then its spec.\<close>

definition assertConfiguration :: "(Configuration \<Rightarrow> 'c option) \<Rightarrow> Component \<Rightarrow> 'c option" where
  "assertConfiguration f component = (case f (ComponentImpl component) of
     Some c \<Rightarrow> Some c
   | None \<Rightarrow> f (SpecImpl component))"

definition assertPlacementConfiguration :: "Component \<Rightarrow> (string \<times> string) option" where
  "assertPlacementConfiguration = assertConfiguration PlacementConfiguration"

definition assertClientConfiguration :: "Component \<Rightarrow> (refstore \<Rightarrow> string) option" where
  "assertClientConfiguration = assertConfiguration ClientConfiguration"

definition assertImpersonationConfiguration :: "Component \<Rightarrow> (string \<times> string list) option" where
  "assertImpersonationConfiguration = assertConfiguration ImpersonationConfiguration"

definition assertSuspensionConfiguration :: "Component \<Rightarrow> bool option" where
  "assertSuspensionConfiguration = assertConfiguration SuspensionConfiguration"

definition assertRequeueConfiguration :: "Component \<Rightarrow> int option" where
  "assertRequeueConfiguration = assertConfiguration RequeueConfiguration"

definition assertRetryConfiguration :: "Component \<Rightarrow> int option" where
  "assertRetryConfiguration = assertConfiguration RetryConfiguration"

definition assertTimeoutConfiguration :: "Component \<Rightarrow> int option" where
  "assertTimeoutConfiguration = assertConfiguration TimeoutConfiguration"

definition assertPolicyConfiguration :: "Component \<Rightarrow> PolicyValues option" where
  "assertPolicyConfiguration = assertConfiguration PolicyConfiguration"

definition assertTypeConfiguration :: "Component \<Rightarrow> TypeInfo list option" where
  "assertTypeConfiguration = assertConfiguration TypeConfiguration"

definition assertReapplyConfiguration :: "Component \<Rightarrow> int option" where
  "assertReapplyConfiguration = assertConfiguration ReapplyConfiguration"

section \<open>The ready-made specs\<close>

text \<open>The specs of \<open>types.go\<close> a component's spec may embed; \<open>None\<close> is a nil pointer.\<close>

record EmbeddedSpecs =
  SpecNamespace :: string
  SpecName :: string
  KubeConfigRef :: "nat option"
  ServiceAccountName :: string
  Suspend :: bool
  RequeueInterval :: "int option"
  RetryInterval :: "int option"
  Timeout :: "int option"
  Policies :: PolicyValues
  AdditionalManagedTypes :: "TypeInfo list"
  ReapplyInterval :: "int option"

definition GetKubeConfig :: "EmbeddedSpecs \<Rightarrow> refstore \<Rightarrow> string" where
  "GetKubeConfig s refs = (case KubeConfigRef s of
     None \<Rightarrow> ''''
   | Some addr \<Rightarrow> (case refs addr of Some (LoadedValue v) \<Rightarrow> v | _ \<Rightarrow> ''''))"

definition GetImpersonationUser :: "EmbeddedSpecs \<Rightarrow> string" where
  "GetImpersonationUser s = (if ServiceAccountName s = '''' then ''''
     else ''system:serviceaccount:'' @ '''' @ '':'' @ ServiceAccountName s)"

definition durationOf :: "int option \<Rightarrow> int" where
  "durationOf d = (case d of Some x \<Rightarrow> x | None \<Rightarrow> 0)"

definition embeddedConfiguration :: "EmbeddedSpecs \<Rightarrow> Configuration" where
  "embeddedConfiguration s =
     \<lparr>PlacementConfiguration = Some (SpecNamespace s, SpecName s),
      ClientConfiguration = Some (GetKubeConfig s),
      ImpersonationConfiguration = Some (GetImpersonationUser s, []),
      SuspensionConfiguration = Some (Suspend s),
      RequeueConfiguration = Some (durationOf (RequeueInterval s)),
      RetryConfiguration = Some (durationOf (RetryInterval s)),
      TimeoutConfiguration = Some (durationOf (Timeout s)),
      PolicyConfiguration = Some (Policies s),
      TypeConfiguration = Some (AdditionalManagedTypes s),
      ReapplyConfiguration = Some (durationOf (ReapplyInterval s)),
      EventAnnotationProvider = None\<rparr>"

section \<open>Conditions\<close>

lemma findCondition_Some: "findCondition cs t = Some i \<Longrightarrow> i < length cs \<and> CondType (cs ! i) = t \<and> (\<forall>j < i. CondType (cs ! j) \<noteq> t)"
proof (induction cs arbitrary: i)
  case (Cons c cs)
  show ?case
  proof (cases "CondType c = t")
    case False
    then obtain j where j: "findCondition cs t = Some j" "i = Suc j" using Cons.prems by auto
    then show ?thesis using Cons.IH [OF j(1)] False by (auto simp: nth_Cons' less_Suc_eq_0_disj)
  qed (use Cons.prems in auto)
qed simp

lemma findCondition_None: "findCondition cs t = None \<longleftrightarrow> t \<notin> CondType ` set cs"
  by (induction cs) auto

lemma findCondition_types: "map CondType cs = map CondType cs' \<Longrightarrow> findCondition cs t = findCondition cs' t"
proof (induction cs arbitrary: cs')
  case (Cons c cs)
  then show ?case by (cases cs') auto
qed simp

lemma findCondition_append: "t \<notin> CondType ` set cs \<Longrightarrow> CondType c = t \<Longrightarrow> findCondition (cs @ [c]) t = Some (length cs)"
  by (induction cs) auto

lemma filter_update: "i < length xs \<Longrightarrow> \<not> p (xs ! i) \<Longrightarrow> \<not> p y \<Longrightarrow> filter p (xs[i := y]) = filter p xs"
  by (induction xs arbitrary: i) (auto split: nat.splits simp: nth_Cons')

text \<open>The status after \<open>SetState\<close>, on both branches.\<close>

lemma SetState_cases:
  obtains i where "findCondition (Conditions s) ConditionTypeReady = Some i"
      "Conditions (SetState st r m s) = (Conditions s)[i := (Conditions s ! i)\<lparr>CondStatus := readyStatus st, CondReason := r, CondMessage := m\<rparr>]"
  | "findCondition (Conditions s) ConditionTypeReady = None"
      "Conditions (SetState st r m s) = Conditions s @ [\<lparr>CondType = ConditionTypeReady, CondStatus = readyStatus st,
         LastTransitionTime = None, CondReason = r, CondMessage = m\<rparr>]"
  by (cases "findCondition (Conditions s) ConditionTypeReady") (auto simp: SetState_def getOrAddCondition_def)

lemma SetState_simps [simp]:
  "ObservedGeneration (SetState st r m s) = ObservedGeneration s" "AppliedGeneration (SetState st r m s) = AppliedGeneration s"
  "LastObservedAt (SetState st r m s) = LastObservedAt s" "StatusLastAppliedAt (SetState st r m s) = StatusLastAppliedAt s"
  "ProcessingDigest (SetState st r m s) = ProcessingDigest s" "ProcessingSince (SetState st r m s) = ProcessingSince s"
  "LastProcessingDigest (SetState st r m s) = LastProcessingDigest s" "Revision (SetState st r m s) = Revision s"
  "CompState (SetState st r m s) = st" "StatusInventory (SetState st r m s) = StatusInventory s"
  by (simp_all add: SetState_def getOrAddCondition_def split: option.splits)

lemma SetState_effect:
  "GetState (SetState st r m s) = (st, r, m) \<and>
   filter (\<lambda>c. CondType c \<noteq> ConditionTypeReady) (Conditions (SetState st r m s)) =
     filter (\<lambda>c. CondType c \<noteq> ConditionTypeReady) (Conditions s) \<and>
   map CondType (Conditions (SetState st r m s)) = map CondType (Conditions s) @
     (if ConditionTypeReady \<in> CondType ` set (Conditions s) then [] else [ConditionTypeReady]) \<and>
   (case getCondition (SetState st r m s) ConditionTypeReady of
      Some c \<Rightarrow> (CondStatus c = ConditionTrue) = (st = StateReady) \<and> (CondStatus c = ConditionFalse) = (st = StateError)
    | None \<Rightarrow> False)"
proof -
  let ?cond = "getCondition (SetState st r m s) ConditionTypeReady"
  have ready: "(readyStatus st = ConditionTrue) = (st = StateReady) \<and> (readyStatus st = ConditionFalse) = (st = StateError)"
    by (cases st) (simp_all add: readyStatus_def)
  have "(\<exists>c. ?cond = Some c \<and> CondStatus c = readyStatus st \<and> CondReason c = r \<and> CondMessage c = m) \<and>
      filter (\<lambda>c. CondType c \<noteq> ConditionTypeReady) (Conditions (SetState st r m s)) =
        filter (\<lambda>c. CondType c \<noteq> ConditionTypeReady) (Conditions s) \<and>
      map CondType (Conditions (SetState st r m s)) = map CondType (Conditions s) @
        (if ConditionTypeReady \<in> CondType ` set (Conditions s) then [] else [ConditionTypeReady])"
  proof (cases rule: SetState_cases [of s st r m])
    case (1 i)
    let ?c = "(Conditions s ! i)\<lparr>CondStatus := readyStatus st, CondReason := r, CondMessage := m\<rparr>"
    note i = findCondition_Some [OF 1(1)]
    have types: "map CondType ((Conditions s)[i := ?c]) = map CondType (Conditions s)"
      using i by (simp add: map_update list_update_same_conv)
    then have "?cond = Some ?c" using findCondition_types [OF types] 1(1) i by (simp add: getCondition_def 1(2))
    moreover have "ConditionTypeReady \<in> CondType ` set (Conditions s)"
      using 1(1) by (metis findCondition_None option.distinct(1))
    moreover have "filter (\<lambda>c. CondType c \<noteq> ConditionTypeReady) ((Conditions s)[i := ?c]) =
        filter (\<lambda>c. CondType c \<noteq> ConditionTypeReady) (Conditions s)"
      using i by (intro filter_update) simp_all
    ultimately show ?thesis using types unfolding 1(2) by simp
  next
    case 2
    then have "ConditionTypeReady \<notin> CondType ` set (Conditions s)" by (simp add: findCondition_None)
    then show ?thesis by (simp add: getCondition_def 2 findCondition_append)
  qed
  moreover have "CompState (SetState st r m s) = st" by simp
  ultimately show ?thesis using ready by (auto simp: GetState_def)
qed

lemma GetState_SetState [simp]: "GetState (SetState st r m s) = (st, r, m)"
  using SetState_effect by blast

text \<open>
  \<open>SetState\<close> and \<open>GetState\<close> are inverse; the other conditions stay as they are, and so
  do the types of the conditions, except that a missing Ready condition is added at the end;
  the Ready condition is true exactly in state Ready and false exactly in state Error.
\<close>

theorem SetState_GetState:
  "GetState (SetState st r m s) = (st, r, m) \<and>
   filter (\<lambda>c. CondType c \<noteq> ConditionTypeReady) (Conditions (SetState st r m s)) =
     filter (\<lambda>c. CondType c \<noteq> ConditionTypeReady) (Conditions s) \<and>
   map CondType (Conditions (SetState st r m s)) = map CondType (Conditions s) @
     (if ConditionTypeReady \<in> CondType ` set (Conditions s) then [] else [ConditionTypeReady]) \<and>
   (case getCondition (SetState st r m s) ConditionTypeReady of
      Some c \<Rightarrow> (CondStatus c = ConditionTrue) = (st = StateReady) \<and> (CondStatus c = ConditionFalse) = (st = StateError)
    | None \<Rightarrow> False)"
  by (rule SetState_effect)

end
