(* ===== verification/Clm_Release.thy ===== *)
theory Clm_Release
  imports Component_Types Go_Strings
begin

text \<open>
  Releases, the state of the command line tool (\<open>clm/internal/release/release.go\<close>): what a
  release keeps is written into the data of a config map and read back from there. Also the
  naming of the config maps, from \<open>clm/internal/release/client.go\<close>.
\<close>

section \<open>Releases\<close>

record ConfigMap =
  CmNamespace :: string
  CmName :: string
  CmUID :: string
  CmResourceVersion :: string
  CmDeletionTimestamp :: "int option"
  CmLabels :: "(string \<times> string) list"
  CmFinalizers :: "string list"
  CmData :: "(string \<times> string) list"

record Release =
  RelNamespace :: string
  RelName :: string
  creationTimestamp :: "int option"
  updateTimestamp :: "int option"
  configMap :: ConfigMap
  RelRevision :: int
  RelInventory :: "InventoryItem list"
  RelState :: State

abbreviation "dataKeyVersion \<equiv> ''version''"
abbreviation "dataKeyCreationTimestamp \<equiv> ''creationTimestamp''"
abbreviation "dataKeyUpdateTimestamp \<equiv> ''updateTimestamp''"
abbreviation "dataKeyRevision \<equiv> ''revision''"
abbreviation "dataKeyInventory \<equiv> ''inventory''"
abbreviation "dataKeyState \<equiv> ''state''"

definition emptyConfigMap :: ConfigMap where
  "emptyConfigMap = \<lparr>CmNamespace = '''', CmName = '''', CmUID = '''', CmResourceVersion = '''', CmDeletionTimestamp = None,
     CmLabels = [], CmFinalizers = [], CmData = []\<rparr>"

text \<open>The states of \<open>pkg/component/types.go\<close> as strings; any other string is a state as well.\<close>

fun stateText :: "State \<Rightarrow> string" where
  "stateText StateReady = ''Ready''"
| "stateText StatePending = ''Pending''"
| "stateText StateProcessing = ''Processing''"
| "stateText StateDeletionPending = ''DeletionPending''"
| "stateText StateDeleting = ''Deleting''"
| "stateText StateError = ''Error''"
| "stateText (StateOther str) = str"

definition namedStates :: "State list" where
  "namedStates = [StateReady, StatePending, StateProcessing, StateDeletionPending, StateDeleting, StateError]"

definition stateOf :: "string \<Rightarrow> State" where
  "stateOf str = or_default (List.find (\<lambda>state. stateText state = str) namedStates) (StateOther str)"

text \<open>\<open>NewRelease\<close> leaves the pointer to the config map nil; the client fills it in.\<close>

definition newReleaseFor :: "string \<Rightarrow> string \<Rightarrow> ConfigMap \<Rightarrow> Release" where
  "newReleaseFor namespace name cm =
     \<lparr>RelNamespace = namespace, RelName = name, creationTimestamp = None, updateTimestamp = None, configMap = cm,
      RelRevision = 0, RelInventory = [], RelState = StateOther ''''\<rparr>"

definition GetDigest :: "platform \<Rightarrow> Release \<Rightarrow> string" where
  "GetDigest P r = Sha256hex P (Itoa (RelRevision r))"

definition IsDeleting :: "Release \<Rightarrow> bool" where
  "IsDeleting r \<longleftrightarrow> CmDeletionTimestamp (configMap r) \<noteq> None"

section \<open>The data of the config map\<close>

text \<open>The formats of time (RFC3339, of seconds) and of YAML are those of the standard library and of \<open>sigs.k8s.io/yaml\<close>.\<close>

record release_lib =
  FormatTime :: "int \<Rightarrow> string"
  ParseTime :: "string \<Rightarrow> goerr + int"
  MarshalInventory :: "InventoryItem list \<Rightarrow> goerr + string"
  UnmarshalInventory :: "string \<Rightarrow> goerr + InventoryItem list"

definition importTime :: "release_lib \<Rightarrow> (string \<times> string) list \<Rightarrow> string \<Rightarrow> goerr + int option" where
  "importTime L data key = (case map_of data key of
     None \<Rightarrow> Inr None
   | Some str \<Rightarrow> (case ParseTime L str of Inl err \<Rightarrow> Inl err | Inr t \<Rightarrow> Inr (Some t)))"

text \<open>\<open>strconv.ParseInt\<close> differs from \<open>Atoi\<close> in the name in its error.\<close>

definition ParseInt64 :: "string \<Rightarrow> goerr + int" where
  "ParseInt64 str = (case Atoi str of
     Inl (Errorf format args) \<Rightarrow> Inl (Errorf (''strconv.ParseInt'' @ drop (length ''strconv.Atoi'') format) args)
   | res \<Rightarrow> res)"

lemma ParseInt64_Inr: "Atoi str = Inr n \<Longrightarrow> ParseInt64 str = Inr n"
  by (simp add: ParseInt64_def)

definition importData :: "release_lib \<Rightarrow> Release \<Rightarrow> goerr + Release" where
  "importData L r =
     (let data = CmData (configMap r) in
      case importTime L data dataKeyCreationTimestamp of
        Inl err \<Rightarrow> Inl err
      | Inr created \<Rightarrow>
     (case importTime L data dataKeyUpdateTimestamp of
        Inl err \<Rightarrow> Inl err
      | Inr updated \<Rightarrow>
     (case (case map_of data dataKeyRevision of None \<Rightarrow> Inr 0 | Some str \<Rightarrow> ParseInt64 str) of
        Inl err \<Rightarrow> Inl err
      | Inr revision \<Rightarrow>
     (case (case map_of data dataKeyInventory of None \<Rightarrow> Inr [] | Some str \<Rightarrow> UnmarshalInventory L str) of
        Inl err \<Rightarrow> Inl err
      | Inr items \<Rightarrow>
          Inr (r\<lparr>creationTimestamp := created, updateTimestamp := updated, RelRevision := revision, RelInventory := items,
            RelState := (case map_of data dataKeyState of None \<Rightarrow> StateOther '''' | Some str \<Rightarrow> stateOf str)\<rparr>)))))"

definition setOrDelete :: "string \<Rightarrow> string option \<Rightarrow> (string \<times> string) list \<Rightarrow> (string \<times> string) list" where
  "setOrDelete key val data = (case val of Some str \<Rightarrow> AList.update key str data | None \<Rightarrow> AList.delete key data)"

definition setData :: "(string \<times> string) list \<Rightarrow> Release \<Rightarrow> Release" where
  "setData data r = r\<lparr>configMap := (configMap r)\<lparr>CmData := data\<rparr>\<rparr>"

text \<open>If the inventory cannot be marshalled, the keys set before stay.\<close>

definition exportData :: "release_lib \<Rightarrow> Release \<Rightarrow> goerr option \<times> Release" where
  "exportData L r =
     (let data = AList.update dataKeyVersion ''1'' (CmData (configMap r));
          data = setOrDelete dataKeyCreationTimestamp (map_option (FormatTime L) (creationTimestamp r)) data;
          data = setOrDelete dataKeyUpdateTimestamp (map_option (FormatTime L) (updateTimestamp r)) data;
          data = AList.update dataKeyRevision (Itoa (RelRevision r)) data
      in case (if RelInventory r = [] then Inr None else
                 (case MarshalInventory L (RelInventory r) of Inl err \<Rightarrow> Inl err | Inr str \<Rightarrow> Inr (Some str))) of
           Inl err \<Rightarrow> (Some err, setData data r)
         | Inr items \<Rightarrow>
             let data = setOrDelete dataKeyInventory items data;
                 data = setOrDelete dataKeyState
                   (if stateText (RelState r) = '''' then None else Some (stateText (RelState r))) data
             in (None, setData data r))"

lemma setOrDelete_lookup [simp]: "map_of (setOrDelete key val data) = (map_of data)(key := val)"
  by (cases val) (simp_all add: setOrDelete_def update_conv' delete_conv')

lemma stateOf_stateText:
  assumes "\<And>str. state = StateOther str \<Longrightarrow> str \<notin> set (map stateText namedStates)"
  shows "stateOf (stateText state) = state"
proof (cases state)
  case (StateOther str)
  then have "List.find (\<lambda>s. stateText s = str) namedStates = None"
    using assms [of str] by (auto simp: find_None_iff)
  then show ?thesis using StateOther by (simp add: stateOf_def or_default_def)
qed (simp_all add: stateOf_def namedStates_def or_default_def)

lemma exportData_form: "\<exists>data. snd (exportData L r) = setData data r"
  by (cases "if RelInventory r = [] then Inr None else
      (case MarshalInventory L (RelInventory r) of Inl err \<Rightarrow> Inl err | Inr str \<Rightarrow> Inr (Some str))")
    (auto simp: exportData_def Let_def)

lemma exportData_sel:
  assumes "exportData L r = (err, r')"
  shows "RelInventory r' = RelInventory r" "RelState r' = RelState r" "RelRevision r' = RelRevision r"
    "RelName r' = RelName r" "RelNamespace r' = RelNamespace r" "creationTimestamp r' = creationTimestamp r"
    "updateTimestamp r' = updateTimestamp r" "CmFinalizers (configMap r') = CmFinalizers (configMap r)"
proof -
  from exportData_form [of L r] obtain data where "r' = setData data r" using assms by auto
  then show "RelInventory r' = RelInventory r" "RelState r' = RelState r" "RelRevision r' = RelRevision r"
    "RelName r' = RelName r" "RelNamespace r' = RelNamespace r" "creationTimestamp r' = creationTimestamp r"
    "updateTimestamp r' = updateTimestamp r" "CmFinalizers (configMap r') = CmFinalizers (configMap r)"
    by (simp_all add: setData_def)
qed

lemma exportData_lookup:
  assumes "exportData L r = (None, r')"
  shows "map_of (CmData (configMap r')) dataKeyState = (if stateText (RelState r) = '''' then None else Some (stateText (RelState r)))"
    and "map_of (CmData (configMap r')) dataKeyRevision = Some (Itoa (RelRevision r))"
    and "map_of (CmData (configMap r')) dataKeyCreationTimestamp = map_option (FormatTime L) (creationTimestamp r)"
    and "map_of (CmData (configMap r')) dataKeyUpdateTimestamp = map_option (FormatTime L) (updateTimestamp r)"
    and "RelInventory r = [] \<Longrightarrow> map_of (CmData (configMap r')) dataKeyInventory = None"
    and "RelInventory r \<noteq> [] \<Longrightarrow> \<exists>str. MarshalInventory L (RelInventory r) = Inr str \<and>
      map_of (CmData (configMap r')) dataKeyInventory = Some str"
  using assms
  by (cases "RelInventory r = []"; cases "MarshalInventory L (RelInventory r)";
      force simp: exportData_def Let_def setData_def update_conv')+

text \<open>
  What the formats are relied on for: reading back what was written. RFC3339, in which the
  items have their times as well, drops the fraction of a second (times are in nanoseconds).
\<close>

definition wholeSeconds :: "int \<Rightarrow> int" where
  "wholeSeconds t = t - t mod 1000000000"

definition storedItem :: "InventoryItem \<Rightarrow> InventoryItem" where
  "storedItem item = item\<lparr>LastAppliedAt := map_option wholeSeconds (LastAppliedAt item)\<rparr>"

lemma object_id_storedItem [simp]: "object_id (storedItem item) = object_id item"
  by (simp add: storedItem_def object_id_def)

lemma object_id_stored [simp]: "object_id ` storedItem ` items = object_id ` items"
  by (simp add: image_image)

definition formats_roundtrip :: "release_lib \<Rightarrow> bool" where
  "formats_roundtrip L \<longleftrightarrow> (\<forall>t. ParseTime L (FormatTime L t) = Inr (wholeSeconds t)) \<and>
     (\<forall>items str. MarshalInventory L items = Inr str \<longrightarrow> UnmarshalInventory L str = Inr (map storedItem items))"

text \<open>
  Reading back the data that a release was exported to gives the release again: its
  revision, its state and its inventory, with times cut to whole seconds, whatever the
  config map contained before. (A revision is a 64 bit integer; a state that is not one of
  the named ones must not be spelled like one, which is a matter of the representation.)
\<close>

theorem release_roundtrip:
  assumes "formats_roundtrip L" and "exportData L r = (None, r')"
    and "- (2 ^ 63) \<le> RelRevision r" "RelRevision r < 2 ^ 63"
    and "\<And>str. RelState r = StateOther str \<Longrightarrow> str \<notin> set (map stateText namedStates)"
  shows "importData L (newReleaseFor (RelNamespace r) (RelName r) (configMap r')) =
    Inr (r'\<lparr>creationTimestamp := map_option wholeSeconds (creationTimestamp r), updateTimestamp := map_option wholeSeconds (updateTimestamp r),
      RelInventory := map storedItem (RelInventory r)\<rparr>)"
proof -
  note e = exportData_lookup [OF assms(2)] and f = exportData_sel [OF assms(2)]
  have "stateText (RelState r) = '''' \<Longrightarrow> RelState r = StateOther ''''" by (cases "RelState r") simp_all
  then show ?thesis
    using e assms(1) ParseInt64_Inr [OF Atoi_Itoa [OF assms(3,4)]] stateOf_stateText [OF assms(5)]
    by (cases "RelInventory r = []"; cases "creationTimestamp r"; cases "updateTimestamp r")
      (auto simp: importData_def importTime_def newReleaseFor_def formats_roundtrip_def Let_def f intro!: Release.equality)
qed

section \<open>Names\<close>

text \<open>\<open>reverse\<close> is \<open>slices.Reverse\<close> of sap/go-generics.\<close>

definition configMapName :: "(string list \<Rightarrow> string list) \<Rightarrow> string \<Rightarrow> string \<Rightarrow> string" where
  "configMapName reverse name releaseName =
     strings_join (reverse (splitAt (CHR ''.'') name)) ''.'' @ ''.release.'' @ releaseName"

text \<open>What follows the last dot.\<close>

definition releaseNameOf :: "string \<Rightarrow> string" where
  "releaseNameOf name = rev (takeWhile (\<lambda>c. c \<noteq> CHR ''.'') (rev name))"

lemma releaseNameOf_configMapName:
  "releaseNameOf (configMapName reverse name rel) = rel \<longleftrightarrow> CHR ''.'' \<notin> set rel"
proof
  assume "releaseNameOf (configMapName reverse name rel) = rel"
  then have "rel = rev (takeWhile (\<lambda>c. c \<noteq> CHR ''.'') (rev rel @ rev (strings_join (reverse (splitAt (CHR ''.'') name)) ''.'' @ ''.release.'')))"
    by (simp add: releaseNameOf_def configMapName_def)
  moreover have "CHR ''.'' \<notin> set (takeWhile (\<lambda>c. c \<noteq> CHR ''.'') xs)" for xs by (induction xs) auto
  ultimately show "CHR ''.'' \<notin> set rel" by (metis set_rev)
next
  assume "CHR ''.'' \<notin> set rel"
  then have "takeWhile (\<lambda>c. c \<noteq> CHR ''.'') (rev rel @ CHR ''.'' # xs) = rev rel" for xs
    by (subst takeWhile_append2) auto
  then show "releaseNameOf (configMapName reverse name rel) = rel"
    by (simp add: releaseNameOf_def configMapName_def)
qed

end
