(* ===== verification/Json_Values.thy ===== *)
theory Json_Values
  imports Go_Strings
begin

text \<open>
  The values in a \<open>map[string]any\<close> that was read from JSON or YAML, and the deep merge of
  \<open>pkg/manifests/util.go\<close>. A map is the list of its entries; a nil map is \<open>None\<close>, which
  reads like an empty map but must not be written to. Numbers are never looked at and are
  kept as text. \<open>runtime.DeepCopyJSON\<close> is the identity here, because values are immutable
  in the model and its panic on other than JSON values cannot occur.
\<close>

datatype json =
    JNull | JBool bool | JNum string | JStr string | JList "json list" | JMap "(string \<times> json) list option"

type_synonym jmap = "(string \<times> json) list"

definition jentries :: "jmap option \<Rightarrow> jmap" where
  "jentries m = (case m of None \<Rightarrow> [] | Some es \<Rightarrow> es)"

lemma jentries_simps [simp]: "jentries None = []" "jentries (Some es) = es"
  by (simp_all add: jentries_def)

section \<open>Merging\<close>

text \<open>
  \<open>MergeMapInto x y\<close> returns the map \<open>x\<close> after the call, \<open>None\<close> if it panics because it writes
  to a nil map. In the third branch the code stores the variable \<open>w\<close> of the failed type
  assertion, which is a nil map.
\<close>

lemma size_entry [termination_simp]:
  "(k, v) \<in> set (jentries m) \<Longrightarrow> size v < Suc (size_option (size_list (\<lambda>x. Suc (size (snd x)))) m)"
proof (cases m)
  case (Some es)
  assume "(k, v) \<in> set (jentries m)"
  then have "(k, v) \<in> set es" using Some by simp
  then have "size v < size_list (\<lambda>x. Suc (size (snd x))) es" by (induction es) auto
  with Some show ?thesis by simp
qed simp

lemma size_JMap: "(k, v) \<in> set (jentries m) \<Longrightarrow> size v < size (JMap m)"
proof -
  have "size_prod (\<lambda>_. 0) size = (\<lambda>x :: string \<times> json. Suc (size (snd x)))"
    by (rule ext) (auto simp: prod.size_gen_o_map split: prod.split)
  then show "(k, v) \<in> set (jentries m) \<Longrightarrow> size v < size (JMap m)" using size_entry by simp
qed

lemma size_map_of [termination_simp]:
  "map_of (jentries m) k = Some v \<Longrightarrow> size v < Suc (size_option (size_list (\<lambda>x. Suc (size (snd x)))) m)"
  by (rule size_entry) (rule map_of_SomeD)

text \<open>\<open>mergeValue u v\<close> is what is stored at a key of \<open>y\<close> with the value \<open>v\<close>, where \<open>x\<close> has \<open>u\<close>.\<close>

function (sequential) MergeMapInto :: "jmap option \<Rightarrow> jmap \<Rightarrow> jmap option option"
  and mergeValue :: "json option \<Rightarrow> json \<Rightarrow> json option" where
  "MergeMapInto x [] = Some x"
| "MergeMapInto x ((k, v) # y) =
     (case x of
        None \<Rightarrow> None
      | Some es \<Rightarrow>
         (case mergeValue (map_of es k) v of
            None \<Rightarrow> None
          | Some v' \<Rightarrow> MergeMapInto (Some (AList.update k v' es)) y))"
| "mergeValue (Some (JMap m)) v =
     (case v of JMap w \<Rightarrow> map_option JMap (MergeMapInto m (jentries w)) | _ \<Rightarrow> Some (JMap None))"
| "mergeValue u v = Some v"
  by pat_completeness auto
termination
  by (relation "measure (\<lambda>x. case x of Inl (x, y) \<Rightarrow> size_list (size_prod (\<lambda>_. 0) size) y | Inr (u, v) \<Rightarrow> size v)")
     (auto simp: jentries_def split: option.splits)

definition MergeMaps :: "jmap option \<Rightarrow> jmap option \<Rightarrow> jmap option" where
  "MergeMaps x y = map_option jentries (MergeMapInto (Some (jentries x)) (jentries y))"

section \<open>The logic of merging\<close>

text \<open>
  A value as a tree: a map is the function from its keys to subtrees, everything else is a
  leaf. \<open>overlay s t\<close> lays \<open>t\<close> over \<open>s\<close>: where both are nodes their children are merged,
  otherwise \<open>t\<close> wins.
\<close>

datatype jtree = Leaf json | Node "string \<Rightarrow> jtree option"

fun tree_of :: "json \<Rightarrow> jtree" where
  "tree_of (JMap m) = Node (\<lambda>k. map_option tree_of (map_of (jentries m) k))"
| "tree_of v = Leaf v"

primrec overlay :: "jtree \<Rightarrow> jtree \<Rightarrow> jtree" where
  "overlay (Leaf v) t = t"
| "overlay (Node f) t = (case t of
     Leaf v \<Rightarrow> Leaf v
   | Node g \<Rightarrow> Node (\<lambda>k. case g k of
        None \<Rightarrow> f k
      | Some t' \<Rightarrow> Some (case (map_option overlay \<circ> f) k of None \<Rightarrow> t' | Some o' \<Rightarrow> o' t')))"

text \<open>Keys are distinct on all levels; there are no nil maps; no map meets something else.\<close>

fun distinct_keys :: "json \<Rightarrow> bool" where
  "distinct_keys (JMap m) \<longleftrightarrow> distinct (map fst (jentries m)) \<and> (\<forall>(k, v) \<in> set (jentries m). distinct_keys v)"
| "distinct_keys _ \<longleftrightarrow> True"

fun no_nil_maps :: "json \<Rightarrow> bool" where
  "no_nil_maps (JMap m) \<longleftrightarrow> m \<noteq> None \<and> (\<forall>(k, v) \<in> set (jentries m). no_nil_maps v)"
| "no_nil_maps _ \<longleftrightarrow> True"

fun clash :: "json \<Rightarrow> json \<Rightarrow> bool" where
  "clash (JMap m) (JMap w) \<longleftrightarrow> (\<exists>(k, v) \<in> set (jentries w). \<exists>u. map_of (jentries m) k = Some u \<and> clash u v)"
| "clash (JMap m) _ \<longleftrightarrow> True"
| "clash _ _ \<longleftrightarrow> False"

lemma merge_lookup_other:
  "MergeMapInto x y = Some m \<Longrightarrow> k \<notin> fst ` set y \<Longrightarrow> map_of (jentries m) k = map_of (jentries x) k"
  by (induction x y arbitrary: m and m rule: MergeMapInto_mergeValue.induct(1) [where Q = "\<lambda>_ _. True"])
    (auto simp: update_conv' split: option.splits)

lemma merge_keys:
  "MergeMapInto x y = Some m \<Longrightarrow> fst ` set (jentries m) = fst ` set (jentries x) \<union> fst ` set y"
proof (induction x y arbitrary: m rule: MergeMapInto_mergeValue.induct(1) [where Q = "\<lambda>_ _. True"])
  case (2 x k v y)
  then show ?case by (auto simp: dom_update split: option.splits)
qed auto

text \<open>The entry at every key of the result, if there is one.\<close>

lemma merge_lookup:
  assumes "MergeMapInto x y = Some m" "distinct (map fst y)"
  shows "map_of (jentries m) k = (case map_of y k of None \<Rightarrow> map_of (jentries x) k
           | Some v \<Rightarrow> mergeValue (map_of (jentries x) k) v)"
  using assms
proof (induction x y arbitrary: m rule: MergeMapInto_mergeValue.induct(1) [where Q = "\<lambda>_ _. True"])
  case (2 x k' v y)
  then obtain es v' where es: "x = Some es" "mergeValue (map_of es k') v = Some v'"
      "MergeMapInto (Some (AList.update k' v' es)) y = Some m" by (auto split: option.splits)
  show ?case
  proof (cases "k = k'")
    case True
    then have "map_of (jentries m) k = map_of (AList.update k' v' es) k"
      using merge_lookup_other [OF es(3), of k] 2(4) by auto
    then show ?thesis using True es by (simp add: update_conv')
  next
    case False
    then show ?thesis using 2(2) [OF es(1,2,3)] 2(4) es(1) by (simp add: update_conv' split: option.split)
  qed
qed auto

lemma merge_total:
  assumes "distinct (map fst y)" "\<And>k v. (k, v) \<in> set y \<Longrightarrow> mergeValue (map_of es k) v \<noteq> None"
  shows "\<exists>m. MergeMapInto (Some es) y = Some (Some m)"
  using assms
proof (induction y arbitrary: es)
  case (Cons e y)
  obtain k v where e: "e = (k, v)" by (cases e)
  obtain v' where v': "mergeValue (map_of es k) v = Some v'" using Cons.prems(2) e by fastforce
  have "\<exists>m. MergeMapInto (Some (AList.update k v' es)) y = Some (Some m)"
  proof (rule Cons.IH)
    fix k2 v2 assume kv: "(k2, v2) \<in> set y"
    then have "k2 \<noteq> k" using Cons.prems(1) e by force
    then show "mergeValue (map_of (AList.update k v' es) k2) v2 \<noteq> None"
      using kv Cons.prems(2) by (simp add: update_conv')
  qed (use Cons.prems in simp)
  then show ?case using e v' by simp
qed simp

lemma mergeValue_total:
  "distinct_keys v \<Longrightarrow> (\<And>u'. u = Some u' \<Longrightarrow> no_nil_maps u') \<Longrightarrow> mergeValue u v \<noteq> None"
proof (induction "size v" arbitrary: u v rule: less_induct)
  case less
  show ?case
  proof (cases "\<exists>m w. u = Some (JMap m) \<and> v = JMap w")
    case True
    then obtain m w where uv: "u = Some (JMap m)" "v = JMap w" by blast
    then obtain es where es: "m = Some es" using less.prems(2) by auto
    have "\<exists>m'. MergeMapInto (Some es) (jentries w) = Some (Some m')"
    proof (rule merge_total)
      fix k v' assume kv: "(k, v') \<in> set (jentries w)"
      then have "size v' < size v" using uv size_JMap by simp
      moreover have "distinct_keys v'" using kv less.prems(1) uv by auto
      moreover have "no_nil_maps u'" if "map_of es k = Some u'" for u'
        using map_of_SomeD [OF that] less.prems(2) [OF uv(1)] es by auto
      ultimately show "mergeValue (map_of es k) v' \<noteq> None" using less.hyps by blast
    qed (use less.prems(1) uv in simp)
    then show ?thesis using uv es by auto
  next
    case False
    then show ?thesis
    proof (cases u)
      case (Some u')
      with False show ?thesis by (cases u'; cases v) auto
    qed simp
  qed
qed

lemma overlay_maps:
  "overlay (tree_of (JMap m)) (tree_of (JMap w)) = Node (\<lambda>k. case map_of (jentries w) k of
     None \<Rightarrow> map_option tree_of (map_of (jentries m) k)
   | Some v \<Rightarrow> Some (case map_of (jentries m) k of None \<Rightarrow> tree_of v | Some u \<Rightarrow> overlay (tree_of u) (tree_of v)))"
  by (auto simp: fun_eq_iff split: option.split)

lemma mergeValue_overlay:
  "distinct_keys v \<Longrightarrow> \<not> clash u v \<Longrightarrow> mergeValue (Some u) v = Some r \<Longrightarrow> tree_of r = overlay (tree_of u) (tree_of v)"
proof (induction "size v" arbitrary: u v r rule: less_induct)
  case less
  show ?case
  proof (cases "\<exists>m w. u = JMap m \<and> v = JMap w")
    case True
    then obtain m w where uv: "u = JMap m" "v = JMap w" by blast
    then obtain m' where m': "MergeMapInto m (jentries w) = Some m'" "r = JMap m'" using less.prems(3) by auto
    have "map_option tree_of (map_of (jentries m') k) = (case map_of (jentries w) k of
       None \<Rightarrow> map_option tree_of (map_of (jentries m) k)
     | Some v \<Rightarrow> Some (case map_of (jentries m) k of None \<Rightarrow> tree_of v | Some u \<Rightarrow> overlay (tree_of u) (tree_of v)))" for k
    proof (cases "map_of (jentries w) k")
      case None
      then show ?thesis using merge_lookup [OF m'(1), of k] less.prems(1) uv by simp
    next
      case (Some v')
      show ?thesis
      proof (cases "map_of (jentries m) k")
        case None
        then show ?thesis using merge_lookup [OF m'(1), of k] less.prems(1) uv Some by simp
      next
        case (Some u')
        note v' = \<open>map_of (jentries w) k = Some v'\<close>
        have mv: "mergeValue (Some u') v' = map_of (jentries m') k"
          using merge_lookup [OF m'(1), of k] less.prems(1) uv Some v' by simp
        have "map_of (jentries m') k \<noteq> None"
          unfolding map_of_eq_None_iff merge_keys [OF m'(1)] using map_of_SomeD [OF v'] by force
        then obtain r' where r': "map_of (jentries m') k = Some r'" by (auto simp only: not_None_eq)
        have "size v' < size v" using size_JMap [OF map_of_SomeD [OF v']] uv by simp
        moreover have "distinct_keys v'" "\<not> clash u' v'"
          using map_of_SomeD [OF v'] Some less.prems(1,2) uv by (auto simp only: distinct_keys.simps clash.simps)
        ultimately have "tree_of r' = overlay (tree_of u') (tree_of v')" using less.hyps mv r' by simp
        then show ?thesis using r' v' Some by simp
      qed
    qed
    then show ?thesis unfolding uv overlay_maps m'(2) by simp
  next
    case False
    then show ?thesis using less.prems by (cases u; cases v) auto
  qed
qed

section \<open>Properties\<close>

lemma MergeMaps_mergeValue:
  "MergeMaps x y = Some m \<Longrightarrow> mergeValue (Some (JMap (Some (jentries x)))) (JMap y) = Some (JMap (Some m))"
proof -
  have "MergeMapInto x y = Some (Some m)" if "MergeMapInto x y = Some m'" "jentries m' = m" "x \<noteq> None" for x y m' m
    using that by (induction x y arbitrary: m' rule: MergeMapInto_mergeValue.induct(1) [where Q = "\<lambda>_ _. True"])
      (auto split: option.splits)
  then show "MergeMaps x y = Some m \<Longrightarrow> mergeValue (Some (JMap (Some (jentries x)))) (JMap y) = Some (JMap (Some m))"
    by (auto simp: MergeMaps_def)
qed

lemma MergeMaps_total:
  assumes "distinct_keys (JMap y)" "no_nil_maps (JMap (Some (jentries x)))"
  shows "\<exists>m. MergeMaps x y = Some m"
  using mergeValue_total [OF assms(1), of "Some (JMap (Some (jentries x)))"] assms(2)
  by (auto simp: MergeMaps_def)

text \<open>
  C27: for maps whose keys are distinct on all levels, where the first has no nil maps, and no
  map in the first meets something else in the second, \<open>MergeMaps\<close> does not panic, and as
  a tree its result is the second laid over the first; either may be nil.
\<close>

theorem MergeMaps_overlays:
  assumes "distinct_keys (JMap y)" "no_nil_maps (JMap (Some (jentries x)))" "\<not> clash (JMap x) (JMap y)"
  shows "\<exists>m. MergeMaps x y = Some m \<and>
           tree_of (JMap (Some m)) = overlay (tree_of (JMap x)) (tree_of (JMap y))"
proof -
  obtain m where m: "MergeMaps x y = Some m" using MergeMaps_total [OF assms(1,2)] by blast
  have "\<not> clash (JMap (Some (jentries x))) (JMap y)" using assms(3) by simp
  from mergeValue_overlay [OF assms(1) this MergeMaps_mergeValue [OF m]] m show ?thesis by simp
qed

text \<open>
  Where a map in the first meets something else in the second, that value is dropped:
  the result has a nil map there.
\<close>

theorem MergeMaps_drops:
  assumes "distinct_keys (JMap y)" "no_nil_maps (JMap (Some (jentries x)))"
    and "map_of (jentries x) k = Some (JMap u)" "map_of (jentries y) k = Some v" "\<And>w. v \<noteq> JMap w"
  shows "\<exists>m. MergeMaps x y = Some m \<and> map_of m k = Some (JMap None)"
proof -
  obtain m where m: "MergeMaps x y = Some m" using MergeMaps_total [OF assms(1,2)] by blast
  then obtain m' where m': "MergeMapInto (Some (jentries x)) (jentries y) = Some m'" "jentries m' = m"
    by (auto simp: MergeMaps_def)
  from merge_lookup [OF m'(1), of k] assms have "map_of m k = mergeValue (Some (JMap u)) v" by (simp add: m'(2))
  with assms(5) m show ?thesis by (cases v) auto
qed

text \<open>
  Default values with a map, and values that change one entry of it and add another; then
  values that replace the map by a text.
\<close>

abbreviation (input) "sampleDefaults \<equiv> [(''image'', JMap (Some [(''repo'', JStr ''r''), (''tag'', JStr ''1'')]))]"

theorem MergeMaps_overlays_witness:
  "\<exists>m. MergeMaps (Some sampleDefaults) (Some [(''image'', JMap (Some [(''tag'', JStr ''2'')])), (''replicas'', JNum ''3'')]) = Some m
     \<and> tree_of (JMap (Some m)) = overlay (tree_of (JMap (Some sampleDefaults)))
         (tree_of (JMap (Some [(''image'', JMap (Some [(''tag'', JStr ''2'')])), (''replicas'', JNum ''3'')])))"
  by (rule MergeMaps_overlays) auto

theorem MergeMaps_drops_witness:
  "\<exists>m. MergeMaps (Some sampleDefaults) (Some [(''image'', JStr ''r:2'')]) = Some m \<and> map_of m ''image'' = Some (JMap None)"
  by (rule MergeMaps_drops) auto

end
