(* ===== verification/Helm_Values.thy ===== *)
theory Helm_Values
  imports Json_Values
begin

text \<open>
  \<open>internal/helm/util.go\<close>: reading values at a key or a path of keys, and writing to a path.
  The Go functions return a value with two flags, whether it exists and whether it has the
  type asked for. A path is given in parts, each a text with dots.
\<close>

definition getMap :: "jmap option \<Rightarrow> string \<Rightarrow> jmap option \<times> bool \<times> bool" where
  "getMap data key = (case map_of (jentries data) key of
     Some v \<Rightarrow> (case v of JMap m \<Rightarrow> (m, True, True) | _ \<Rightarrow> (None, True, False))
   | None \<Rightarrow> (None, False, False))"

definition splitPath :: "string \<Rightarrow> string list" where
  "splitPath s = (if s = '''' then [] else splitAt (CHR ''.'') s)"

definition pathKeys :: "string list \<Rightarrow> string list" where
  "pathKeys paths = concat (map splitPath paths)"

fun dig_keys :: "jmap option \<Rightarrow> string list \<Rightarrow> json option" where
  "dig_keys data [] = Some (JMap data)"
| "dig_keys data [key] = map_of (jentries data) key"
| "dig_keys data (key # k # keys) = (case map_of (jentries data) key of
     Some v \<Rightarrow> (case v of JMap m \<Rightarrow> dig_keys m (k # keys) | _ \<Rightarrow> None)
   | None \<Rightarrow> None)"

definition dig :: "jmap option \<Rightarrow> string list \<Rightarrow> json option" where
  "dig data paths = dig_keys data (pathKeys paths)"

definition digBool :: "jmap option \<Rightarrow> string list \<Rightarrow> bool \<times> bool \<times> bool" where
  "digBool data paths = (case dig data paths of
     Some v \<Rightarrow> (case v of JBool b \<Rightarrow> (b, True, True) | _ \<Rightarrow> (False, True, False))
   | None \<Rightarrow> (False, False, False))"

definition digMap :: "jmap option \<Rightarrow> string list \<Rightarrow> jmap option \<times> bool \<times> bool" where
  "digMap data paths = (case dig data paths of
     Some v \<Rightarrow> (case v of JMap m \<Rightarrow> (m, True, True) | _ \<Rightarrow> (None, True, False))
   | None \<Rightarrow> (None, False, False))"

text \<open>Writing into a nil map is a panic, as is an empty path.\<close>

definition setKey :: "jmap option \<Rightarrow> string \<Rightarrow> json \<Rightarrow> (goerr, jmap option) outcome" where
  "setKey data key v = (case data of
     None \<Rightarrow> Panic ''assignment to entry in nil map'' | Some es \<Rightarrow> Ok (Some (AList.update key v es)))"

fun undig_keys :: "jmap option \<Rightarrow> json \<Rightarrow> string list \<Rightarrow> (goerr, jmap option) outcome" where
  "undig_keys data v [] = Panic ''cannot undig into an empty path''"
| "undig_keys data v [key] = setKey data key v"
| "undig_keys data v (key # k # keys) =
     (case map_of (jentries data) key of
        Some u \<Rightarrow>
          (case u of
             JMap m \<Rightarrow>
               (case undig_keys m v (k # keys) of
                  Ok m' \<Rightarrow> setKey data key (JMap m') | Err err \<Rightarrow> Err err | Panic p \<Rightarrow> Panic p)
           | _ \<Rightarrow> Err (Errorf ''cannot undig into fields which are not a string-keyed map'' []))
      | None \<Rightarrow>
          (if data = None then Panic ''assignment to entry in nil map''
           else case undig_keys (Some []) v (k # keys) of
               Ok m' \<Rightarrow> setKey data key (JMap m') | Err err \<Rightarrow> Err err | Panic p \<Rightarrow> Panic p))"

definition undig :: "jmap option \<Rightarrow> json \<Rightarrow> string list \<Rightarrow> (goerr, jmap option) outcome" where
  "undig data v paths = undig_keys data v (pathKeys paths)"

section \<open>Reading what was written\<close>

lemma setKey_Ok [simp]: "setKey data key v = Ok d \<longleftrightarrow> (\<exists>es. data = Some es \<and> d = Some (AList.update key v es))"
  by (auto simp: setKey_def split: option.split)

text \<open>Two paths are apart if neither continues the other.\<close>

definition apart :: "string list \<Rightarrow> string list \<Rightarrow> bool" where
  "apart p q \<longleftrightarrow> \<not> prefix p q \<and> \<not> prefix q p"

lemma apart_Cons [simp]: "apart (x # p) (y # q) \<longleftrightarrow> x \<noteq> y \<or> apart p q" "\<not> apart [] q" "\<not> apart p []"
  by (auto simp: apart_def)

lemma dig_keys_map: "dig_keys data (key # keys) = (if keys = [] then map_of (jentries data) key
   else case map_of (jentries data) key of Some (JMap m) \<Rightarrow> dig_keys m keys | _ \<Rightarrow> None)"
  by (cases keys) (auto split: option.split json.split)

lemma undig_keys_dig: "undig_keys data v keys = Ok data' \<Longrightarrow> dig_keys data' keys = Some v"
  by (induction data v keys arbitrary: data' rule: undig_keys.induct)
    (auto simp: update_conv' split: option.splits json.splits outcome.splits if_splits)

lemma undig_keys_other:
  "undig_keys data v keys = Ok data' \<Longrightarrow> apart keys keys' \<Longrightarrow> dig_keys data' keys' = dig_keys data keys'"
proof (induction data v keys arbitrary: data' keys' rule: undig_keys.induct)
  case (2 data v key)
  then obtain k ks where ks: "keys' = k # ks" "k \<noteq> key" by (cases keys') auto
  with 2 show ?case by (auto simp: dig_keys_map update_conv')
next
  case (3 data v key k keys)
  then obtain k' ks where ks: "keys' = k' # ks" by (cases keys') auto
  show ?case
  proof (cases "k' = key")
    case False
    with 3 ks show ?thesis
      by (auto simp: dig_keys_map update_conv' split: option.splits json.splits outcome.splits if_splits)
  next
    case True
    then have ap: "apart (k # keys) ks" using 3(4) ks by simp
    then have ne: "ks \<noteq> []" by (cases ks) auto
    show ?thesis
    proof (cases "map_of (jentries data) key")
      case None
      then obtain m' where m': "undig_keys (Some []) v (k # keys) = Ok m'" "data' = Some (AList.update key (JMap m') (jentries data))"
        using 3(3) by (auto split: if_splits outcome.splits)
      have "data \<noteq> None" using 3(3) None by (auto split: if_splits)
      from 3(1) [OF None this m'(1) ap] have "dig_keys m' ks = dig_keys (Some []) ks" .
      also have "\<dots> = None" using ne by (cases ks) (simp_all add: dig_keys_map)
      finally show ?thesis using m' ks True ne None by (simp add: dig_keys_map update_conv')
    next
      case (Some u)
      then obtain m m' where m': "u = JMap m" "undig_keys m v (k # keys) = Ok m'"
          "data' = Some (AList.update key (JMap m') (jentries data))"
        using 3(3) by (auto split: json.splits outcome.splits)
      from 3(2) [OF Some m'(1,2) ap] show ?thesis
        using m' ks True ne Some by (simp add: dig_keys_map update_conv')
    qed
  qed
qed simp

text \<open>
  after a successful \<open>undig\<close>, the value is what \<open>dig\<close> finds at the path, however the path is
  split into parts, and at every path apart from it \<open>dig\<close> finds what it found before.
\<close>

theorem undig_dig:
  assumes "undig data v paths = Ok data'"
  shows "(\<forall>paths'. pathKeys paths' = pathKeys paths \<longrightarrow> dig data' paths' = Some v) \<and>
         (\<forall>paths'. apart (pathKeys paths) (pathKeys paths') \<longrightarrow> dig data' paths' = dig data paths')"
  using assms undig_keys_dig undig_keys_other by (simp add: undig_def dig_def)

theorem undig_dig_witness:
  "\<exists>data'. undig (Some [(''image'', JMap (Some [(''tag'', JStr ''1'')]))]) (JStr ''r'') [''image'', ''spec.repo''] = Ok data'
     \<and> dig data' [''image.spec.repo''] = Some (JStr ''r'') \<and> dig data' [''image'', ''tag''] = Some (JStr ''1'')"
proof -
  let ?data = "Some [(''image'', JMap (Some [(''tag'', JStr ''1'')]))]"
  have p: "pathKeys [''image'', ''spec.repo''] = [''image'', ''spec'', ''repo'']"
      "pathKeys [''image.spec.repo''] = [''image'', ''spec'', ''repo'']" "pathKeys [''image'', ''tag''] = [''image'', ''tag'']"
    by code_simp+
  obtain data' where d: "undig ?data (JStr ''r'') [''image'', ''spec.repo''] = Ok data'"
    unfolding undig_def p by (simp add: setKey_def)
  have "dig data' [''image.spec.repo''] = Some (JStr ''r'')" "dig data' [''image'', ''tag''] = dig ?data [''image'', ''tag'']"
    by (insert undig_dig [OF d]) (simp_all add: p)
  then show ?thesis using d by (auto simp: dig_def p)
qed

end
