(* ===== verification/Go_Paths.thy ===== *)
theory Go_Paths
  imports Go_Strings
begin

text \<open>
  Go's \<open>path\<close> and \<open>path/filepath\<close> on Unix, as far as the code uses them: \<open>Clean\<close>, \<open>Join\<close> of
  two elements, \<open>Base\<close>, \<open>Dir\<close>, \<open>IsAbs\<close>, and the patterns of \<open>path.Match\<close>. Strings are
  sequences of bytes; a pattern or a name with a multi-byte rune is matched byte by byte.
\<close>

section \<open>Lexical functions\<close>

text \<open>The elements seen so far are kept in reverse.\<close>

fun cleanElems :: "bool \<Rightarrow> string list \<Rightarrow> string list \<Rightarrow> string list" where
  "cleanElems rooted acc [] = rev acc"
| "cleanElems rooted acc (e # es) =
     (if e = '''' \<or> e = ''.'' then cleanElems rooted acc es
      else if e = ''..'' then
        (case acc of
           a # acc' \<Rightarrow> if a \<noteq> ''..'' then cleanElems rooted acc' es else cleanElems rooted (e # acc) es
         | [] \<Rightarrow> if rooted then cleanElems rooted [] es else cleanElems rooted [e] es)
      else cleanElems rooted (e # acc) es)"

definition IsAbs :: "string \<Rightarrow> bool" where
  "IsAbs p \<longleftrightarrow> HasPrefix p ''/''"

definition Clean :: "string \<Rightarrow> string" where
  "Clean p =
     (let body = strings_join (cleanElems (IsAbs p) [] (splitAt (CHR ''/'') p)) ''/''
      in if IsAbs p then CHR ''/'' # body else if body = '''' then ''.'' else body)"

definition path_join :: "string \<Rightarrow> string \<Rightarrow> string" where
  "path_join a b =
     (if a \<noteq> '''' then Clean (a @ ''/'' @ b) else if b \<noteq> '''' then Clean b else '''')"

definition path_base :: "string \<Rightarrow> string" where
  "path_base p =
     (if p = '''' then ''.''
      else let q = rev (dropWhile (\<lambda>c. c = CHR ''/'') (rev p))
        in if q = '''' then ''/'' else rev (takeWhile (\<lambda>c. c \<noteq> CHR ''/'') (rev q)))"

definition path_dir :: "string \<Rightarrow> string" where
  "path_dir p = Clean (rev (dropWhile (\<lambda>c. c \<noteq> CHR ''/'') (rev p)))"

section \<open>Patterns\<close>

text \<open>
  A pattern as a list of tokens. \<open>parseClass\<close> reads a character class after its opening
  bracket (and the negation), \<open>parseEsc\<close> one character of it; a malformed pattern is
  \<open>None\<close>, which \<open>path.Match\<close> reports for every name.
\<close>

datatype pattern_token = Star | AnyChar | Lit char | Class bool "(char \<times> char) list"

fun parseEsc :: "string \<Rightarrow> (char \<times> string) option" where
  "parseEsc [] = None"
| "parseEsc (c # s) =
     (if c = CHR ''-'' \<or> c = CHR '']'' then None
      else if c = CHR 0x5C then (case s of c' # d # s' \<Rightarrow> Some (c', d # s') | _ \<Rightarrow> None)
      else if s = [] then None else Some (c, s))"

lemma parseEsc_length : "parseEsc s = Some (c, t) \<Longrightarrow> length t < length s"
  by (cases s) (auto split: if_splits list.splits)

function parseClass :: "(char \<times> char) list \<Rightarrow> string \<Rightarrow> ((char \<times> char) list \<times> string) option" where
  "parseClass rs s =
     (if s \<noteq> [] \<and> hd s = CHR '']'' \<and> rs \<noteq> [] then Some (rev rs, tl s)
      else case parseEsc s of
          None \<Rightarrow> None
        | Some (lo, t) \<Rightarrow>
            (if hd t = CHR ''-'' then
               (case parseEsc (tl t) of
                  None \<Rightarrow> None
                | Some (hi, u) \<Rightarrow> parseClass ((lo, hi) # rs) u)
             else parseClass ((lo, lo) # rs) t))"
  by pat_completeness auto
termination by (relation "measure (\<lambda>(rs, s). length s)") (auto dest!: parseEsc_length)

declare parseClass.simps [simp del]

lemma parseClass_length: "parseClass rs s = Some (rs', t) \<Longrightarrow> length t < length s"
proof (induction rs s arbitrary: rs' t rule: parseClass.induct)
  case (1 rs s)
  show ?case using 1(3) 1(1,2)
    by (subst (asm) parseClass.simps) (fastforce split: if_splits option.splits dest: parseEsc_length)
qed

function parsePattern :: "string \<Rightarrow> pattern_token list option" where
  "parsePattern [] = Some []"
| "parsePattern (c # s) =
     (if c = CHR ''*'' then map_option (Cons Star) (parsePattern s)
      else if c = CHR ''?'' then map_option (Cons AnyChar) (parsePattern s)
      else if c = CHR 0x5C then
        (case s of [] \<Rightarrow> None | d # s' \<Rightarrow> map_option (Cons (Lit d)) (parsePattern s'))
      else if c = CHR ''['' then
        (let negated = HasPrefix s ''^'' in
         case parseClass [] (if negated then drop 1 s else s) of
           None \<Rightarrow> None
         | Some (rs, t) \<Rightarrow> map_option (Cons (Class negated rs)) (parsePattern t))
      else map_option (Cons (Lit c)) (parsePattern s))"
  by pat_completeness auto
termination
  by (relation "measure length") (auto dest!: parseClass_length split: if_splits)

fun patternMatches :: "pattern_token list \<Rightarrow> string \<Rightarrow> bool" where
  "patternMatches [] s \<longleftrightarrow> s = []"
| "patternMatches (Star # p) s \<longleftrightarrow> patternMatches p s
     \<or> (case s of [] \<Rightarrow> False | c # s' \<Rightarrow> c \<noteq> CHR ''/'' \<and> patternMatches (Star # p) s')"
| "patternMatches (AnyChar # p) s \<longleftrightarrow>
     (case s of [] \<Rightarrow> False | c # s' \<Rightarrow> c \<noteq> CHR ''/'' \<and> patternMatches p s')"
| "patternMatches (Lit d # p) s \<longleftrightarrow> (case s of [] \<Rightarrow> False | c # s' \<Rightarrow> c = d \<and> patternMatches p s')"
| "patternMatches (Class negated rs # p) s \<longleftrightarrow>
     (case s of [] \<Rightarrow> False | c # s' \<Rightarrow>
        ((\<exists>(lo, hi) \<in> set rs. (of_char lo :: nat) \<le> of_char c \<and> (of_char c :: nat) \<le> of_char hi) \<noteq> negated)
        \<and> patternMatches p s')"

definition ErrBadPattern :: goerr where
  "ErrBadPattern = Errorf ''syntax error in pattern'' []"

definition path_Match :: "string \<Rightarrow> string \<Rightarrow> goerr + bool" where
  "path_Match pat name = (case parsePattern pat of
     None \<Rightarrow> Inl ErrBadPattern | Some p \<Rightarrow> Inr (patternMatches p name))"

lemma path_Match_total: "parsePattern pat = Some p \<Longrightarrow> path_Match pat name = Inr (patternMatches p name)"
  by (simp add: path_Match_def)

text \<open>The pattern of the manifests of a chart, on two names.\<close>

lemma path_Match_samples:
  "path_Match ''[^_]*.yaml'' ''cm.yaml'' = Inr True" "path_Match ''[^_]*.yaml'' ''_cm.yaml'' = Inr False"
  "path_Match ''*'' ''cm.yaml'' = Inr True" "path_Match ''[a'' ''a'' = Inl ErrBadPattern"
  by code_simp+

end
