(* ===== verification/File_Search.thy ===== *)
theory File_Search
  imports Go_Paths "HOL-Library.Word"
begin

unbundle bit_operations_syntax

text \<open>
  \<open>internal/fileutils/find.go\<close>. A file system (\<open>fs.FS\<close>) is a record of functions, so
  nothing is assumed about it, not even that its directories form a tree; \<open>Find\<close> ends
  because of its depth. File types and modes are machine words.
\<close>

section \<open>File systems\<close>

record DirEntry =
  EntryName :: string
  EntryType :: "32 word"
  EntryIsDir :: bool

record filesystem =
  ReadDir :: "string \<Rightarrow> goerr + DirEntry list"
  ReadFile :: "string \<Rightarrow> goerr + string"
  StatIsDir :: "string \<Rightarrow> goerr + bool"

definition ErrNotExist :: goerr where
  "ErrNotExist = Errorf ''file does not exist'' []"

text \<open>\<open>errors.Is(err, fs.ErrNotExist)\<close>.\<close>

fun IsErrNotExist :: "goerr \<Rightarrow> bool" where
  "IsErrNotExist (Wrapf err _ _) \<longleftrightarrow> IsErrNotExist err"
| "IsErrNotExist err \<longleftrightarrow> err = ErrNotExist"

text \<open>The type bits of \<open>fs.FileMode\<close>.\<close>

definition ModeDir :: "32 word" where "ModeDir = push_bit 31 1"
definition ModeSymlink :: "32 word" where "ModeSymlink = push_bit 27 1"
definition ModeDevice :: "32 word" where "ModeDevice = push_bit 26 1"
definition ModeNamedPipe :: "32 word" where "ModeNamedPipe = push_bit 25 1"
definition ModeSocket :: "32 word" where "ModeSocket = push_bit 24 1"
definition ModeCharDevice :: "32 word" where "ModeCharDevice = push_bit 21 1"
definition ModeIrregular :: "32 word" where "ModeIrregular = push_bit 19 1"

definition ModeType :: "32 word" where
  "ModeType = ModeDir OR ModeSymlink OR ModeNamedPipe OR ModeSocket OR ModeDevice OR ModeCharDevice OR ModeIrregular"

definition FileTypeRegular :: "64 word" where "FileTypeRegular = push_bit 0 1"
definition FileTypeDir :: "64 word" where "FileTypeDir = push_bit 1 1"
definition FileTypeSymlink :: "64 word" where "FileTypeSymlink = push_bit 2 1"
definition FileTypeNamedPipe :: "64 word" where "FileTypeNamedPipe = push_bit 3 1"
definition FileTypeSocket :: "64 word" where "FileTypeSocket = push_bit 4 1"
definition FileTypeDevice :: "64 word" where "FileTypeDevice = push_bit 5 1"
definition FileTypeCharDevice :: "64 word" where "FileTypeCharDevice = push_bit 6 1"
definition FileTypeIrregular :: "64 word" where "FileTypeIrregular = push_bit 7 1"

definition FileTypeAny :: "64 word" where
  "FileTypeAny = FileTypeRegular OR FileTypeDir OR FileTypeSymlink OR FileTypeNamedPipe OR FileTypeSocket
     OR FileTypeDevice OR FileTypeCharDevice OR FileTypeIrregular"

lemmas mode_defs = ModeDir_def ModeSymlink_def ModeDevice_def ModeNamedPipe_def ModeSocket_def
  ModeCharDevice_def ModeIrregular_def

lemmas file_type_defs = FileTypeRegular_def FileTypeDir_def FileTypeSymlink_def FileTypeNamedPipe_def
  FileTypeSocket_def FileTypeDevice_def FileTypeCharDevice_def FileTypeIrregular_def

definition fileTypeFromMode :: "32 word \<Rightarrow> 64 word" where
  "fileTypeFromMode mode =
     (let fileType = (0 :: 64 word);
          fileType = (if mode AND ModeType = 0 then fileType OR FileTypeRegular else fileType);
          fileType = (if mode AND ModeDir \<noteq> 0 then fileType OR FileTypeDir else fileType);
          fileType = (if mode AND ModeSymlink \<noteq> 0 then fileType OR FileTypeSymlink else fileType);
          fileType = (if mode AND ModeNamedPipe \<noteq> 0 then fileType OR FileTypeNamedPipe else fileType);
          fileType = (if mode AND ModeSocket \<noteq> 0 then fileType OR FileTypeSocket else fileType);
          fileType = (if mode AND ModeDevice \<noteq> 0 then fileType OR FileTypeDevice else fileType);
          fileType = (if mode AND ModeCharDevice \<noteq> 0 then fileType OR FileTypeCharDevice else fileType)
      in if mode AND ModeIrregular \<noteq> 0 then fileType OR FileTypeIrregular else fileType)"

section \<open>Find\<close>

definition entryPath :: "string \<Rightarrow> DirEntry \<Rightarrow> string" where
  "entryPath dir entry = Clean (dir @ ''/'' @ EntryName entry)"

text \<open>The call and, in \<open>findEntries\<close>, its loop over the entries of the directory.\<close>

function (sequential) Find :: "filesystem \<Rightarrow> string \<Rightarrow> string \<Rightarrow> 64 word \<Rightarrow> nat \<Rightarrow> (goerr, string list) outcome"
  and findEntries :: "filesystem \<Rightarrow> string \<Rightarrow> string \<Rightarrow> 64 word \<Rightarrow> nat \<Rightarrow> string list \<Rightarrow> DirEntry list \<Rightarrow>
    (goerr, string list) outcome" where
  "Find fsys dir namePattern fileType maxDepth =
     (let dir = (if dir = '''' then ''.'' else dir) in
      if namePattern \<noteq> '''' \<and> CHR ''/'' \<in> set namePattern
      then Panic ''invalid name pattern; must not contain slashes''
      else let namePattern = (if namePattern = '''' then ''*'' else namePattern) in
      if fileType \<noteq> 0 \<and> fileType AND FileTypeAny \<noteq> fileType then Panic ''invalid file type''
      else let fileType = (if fileType = 0 then FileTypeAny else fileType) in
      if 10000 < maxDepth then Err (Errorf ''invalid maximum depth; must not exceed 10000'' [])
      else let maxDepth = (if maxDepth = 0 then 10000 else maxDepth) in
      case ReadDir fsys dir of
        Inl err \<Rightarrow> if IsErrNotExist err then Ok [] else Err err
      | Inr entries \<Rightarrow> findEntries fsys dir namePattern fileType maxDepth [] entries)"
| "findEntries fsys dir namePattern fileType maxDepth result [] = Ok result"
| "findEntries fsys dir namePattern fileType maxDepth result (entry # entries) =
     (case path_Match namePattern (EntryName entry) of
        Inl err \<Rightarrow> Err err
      | Inr match \<Rightarrow>
          (let result = (if match \<and> fileTypeFromMode (EntryType entry) AND fileType \<noteq> 0
                         then result @ [entryPath dir entry] else result) in
           if EntryIsDir entry \<and> 1 < maxDepth then
             (case Find fsys (entryPath dir entry) namePattern fileType (maxDepth - 1) of
                Ok entryResult \<Rightarrow> findEntries fsys dir namePattern fileType maxDepth (result @ entryResult) entries
              | Err err \<Rightarrow> Err err
              | Panic p \<Rightarrow> Panic p)
           else findEntries fsys dir namePattern fileType maxDepth result entries))"
  by pat_completeness auto
termination
  by (relation "measures [\<lambda>x. case x of Inl (_, _, _, _, d) \<Rightarrow> if d = 0 then 10000 else d | Inr (_, _, _, _, d, _) \<Rightarrow> d,
                          \<lambda>x. case x of Inl _ \<Rightarrow> 1 | Inr _ \<Rightarrow> 0,
                          \<lambda>x. case x of Inl _ \<Rightarrow> 0 | Inr (_, _, _, _, _, _, es) \<Rightarrow> length es]")
     (auto split: if_splits)

declare Find.simps [simp del]

section \<open>What is found\<close>

text \<open>
  The directories a search descends into, with the depth that is left there. A directory that
  cannot be read has no entries here; that it must be missing is the matter of \<open>search_error\<close>.
\<close>

definition entries_of :: "filesystem \<Rightarrow> string \<Rightarrow> DirEntry list" where
  "entries_of fsys dir = (case ReadDir fsys dir of Inr es \<Rightarrow> es | Inl _ \<Rightarrow> [])"

inductive descends :: "filesystem \<Rightarrow> string \<Rightarrow> nat \<Rightarrow> string \<Rightarrow> nat \<Rightarrow> bool"
  for fsys :: filesystem where
  here: "descends fsys dir d dir d"
| down: "entry \<in> set (entries_of fsys dir) \<Longrightarrow> EntryIsDir entry \<Longrightarrow> 1 < d \<Longrightarrow>
     descends fsys (entryPath dir entry) (d - 1) dir' d' \<Longrightarrow> descends fsys dir d dir' d'"

text \<open>Entries that are asked for: by the pattern, and by a type that is one of those given.\<close>

definition wanted :: "string \<Rightarrow> 64 word \<Rightarrow> DirEntry \<Rightarrow> bool" where
  "wanted namePattern fileType entry \<longleftrightarrow> path_Match namePattern (EntryName entry) = Inr True
     \<and> fileTypeFromMode (EntryType entry) AND fileType \<noteq> 0"

definition found :: "filesystem \<Rightarrow> string \<Rightarrow> string \<Rightarrow> 64 word \<Rightarrow> nat \<Rightarrow> string set" where
  "found fsys dir namePattern fileType d =
     {entryPath dir' entry | dir' d' entry. descends fsys dir d dir' d' \<and> entry \<in> set (entries_of fsys dir')
        \<and> wanted namePattern fileType entry}"

text \<open>
  The reasons for a search to fail: a directory that cannot be read, for another reason than
  that it is missing, or a malformed pattern to be matched with an entry.
\<close>

definition search_error :: "filesystem \<Rightarrow> string \<Rightarrow> string \<Rightarrow> nat \<Rightarrow> goerr \<Rightarrow> bool" where
  "search_error fsys dir namePattern d err \<longleftrightarrow>
     (\<exists>dir' d'. descends fsys dir d dir' d' \<and>
        ((ReadDir fsys dir' = Inl err \<and> \<not> IsErrNotExist err)
         \<or> (entries_of fsys dir' \<noteq> [] \<and> parsePattern namePattern = None \<and> err = ErrBadPattern)))"

lemma entryPath_not_Nil [simp]: "entryPath dir entry \<noteq> ''''"
  by (simp add: entryPath_def Clean_def Let_def)

lemma descends_1 [simp]: "descends fsys dir (Suc 0) dir' d' \<longleftrightarrow> dir' = dir \<and> d' = Suc 0"
  by (auto elim: descends.cases intro: descends.intros)

lemma descends_iff:
  "descends fsys dir d dir' d' \<longleftrightarrow> (dir' = dir \<and> d' = d) \<or>
     (1 < d \<and> (\<exists>entry \<in> set (entries_of fsys dir). EntryIsDir entry
        \<and> descends fsys (entryPath dir entry) (d - 1) dir' d'))"
  by (subst descends.simps) auto

text \<open>What one entry contributes: itself, if it is wanted, and what is found below it.\<close>

definition contribution :: "filesystem \<Rightarrow> string \<Rightarrow> string \<Rightarrow> 64 word \<Rightarrow> nat \<Rightarrow> DirEntry \<Rightarrow> string set" where
  "contribution fsys dir namePattern fileType d entry =
     (if wanted namePattern fileType entry then {entryPath dir entry} else {})
     \<union> (if EntryIsDir entry \<and> 1 < d then found fsys (entryPath dir entry) namePattern fileType (d - 1) else {})"

lemma found_contributions:
  "found fsys dir namePattern fileType d = (\<Union>entry \<in> set (entries_of fsys dir). contribution fsys dir namePattern fileType d entry)"
  (is "?l = ?r")
proof (intro set_eqI iffI)
  fix p assume "p \<in> ?l"
  then obtain dir' d' entry where p: "p = entryPath dir' entry" "descends fsys dir d dir' d'"
      "entry \<in> set (entries_of fsys dir')" "wanted namePattern fileType entry" unfolding found_def by blast
  from p(2) show "p \<in> ?r"
  proof cases
    case here
    then show ?thesis using p by (auto simp: contribution_def)
  next
    case (down e)
    then have "p \<in> found fsys (entryPath dir e) namePattern fileType (d - 1)" using p unfolding found_def by blast
    then show ?thesis using down by (auto simp: contribution_def)
  qed
next
  fix p assume "p \<in> ?r"
  then obtain e where e: "e \<in> set (entries_of fsys dir)" "p \<in> contribution fsys dir namePattern fileType d e" by blast
  then show "p \<in> ?l"
    unfolding contribution_def found_def by (auto split: if_splits intro: here) (metis One_nat_def down)+
qed

text \<open>The reasons to fail that come from some of the entries.\<close>

definition entries_error :: "filesystem \<Rightarrow> string \<Rightarrow> string \<Rightarrow> nat \<Rightarrow> DirEntry list \<Rightarrow> goerr \<Rightarrow> bool" where
  "entries_error fsys dir namePattern d es err \<longleftrightarrow>
     (es \<noteq> [] \<and> parsePattern namePattern = None \<and> err = ErrBadPattern) \<or>
     (\<exists>entry \<in> set es. EntryIsDir entry \<and> 1 < d \<and> search_error fsys (entryPath dir entry) namePattern (d - 1) err)"

lemma search_error_iff:
  "search_error fsys dir namePattern d err \<longleftrightarrow> (ReadDir fsys dir = Inl err \<and> \<not> IsErrNotExist err) \<or>
     entries_error fsys dir namePattern d (entries_of fsys dir) err"
  unfolding search_error_def entries_error_def by (subst descends_iff) blast

lemma entries_error_Cons:
  "entries_error fsys dir namePattern d (entry # es) err \<longleftrightarrow>
     (parsePattern namePattern = None \<and> err = ErrBadPattern) \<or>
     (EntryIsDir entry \<and> 1 < d \<and> search_error fsys (entryPath dir entry) namePattern (d - 1) err) \<or>
     entries_error fsys dir namePattern d es err"
  by (auto simp: entries_error_def)

lemma entries_error_Nil [simp]: "\<not> entries_error fsys dir namePattern d [] err"
  by (simp add: entries_error_def)

text \<open>The result of a search, or of the rest of the loop.\<close>

definition search_result :: "string set \<Rightarrow> (goerr \<Rightarrow> bool) \<Rightarrow> (goerr, string list) outcome \<Rightarrow> bool" where
  "search_result ps fails r \<longleftrightarrow> (case r of Ok xs \<Rightarrow> set xs = ps \<and> (\<forall>e. \<not> fails e) | Err e \<Rightarrow> fails e | Panic _ \<Rightarrow> False)"

lemma search_result_simps [simp]:
  "search_result ps E (Ok xs) \<longleftrightarrow> set xs = ps \<and> (\<forall>e. \<not> E e)" "search_result ps E (Err e) \<longleftrightarrow> E e" "\<not> search_result ps E (Panic p)"
  by (simp_all add: search_result_def)

lemma Find_and_entries:
  "namePattern \<noteq> '''' \<Longrightarrow> CHR ''/'' \<notin> set namePattern \<Longrightarrow> fileType \<noteq> 0 \<Longrightarrow> fileType AND FileTypeAny = fileType \<Longrightarrow>
   0 < d \<Longrightarrow> d \<le> 10000 \<Longrightarrow> dir \<noteq> '''' \<Longrightarrow>
   search_result (found fsys dir namePattern fileType d) (search_error fsys dir namePattern d)
     (Find fsys dir namePattern fileType d)"
  "namePattern \<noteq> '''' \<Longrightarrow> CHR ''/'' \<notin> set namePattern \<Longrightarrow> fileType \<noteq> 0 \<Longrightarrow> fileType AND FileTypeAny = fileType \<Longrightarrow>
   0 < d \<Longrightarrow> d \<le> 10000 \<Longrightarrow>
   search_result (set result \<union> (\<Union>entry \<in> set es. contribution fsys dir namePattern fileType d entry))
     (entries_error fsys dir namePattern d es) (findEntries fsys dir namePattern fileType d result es)"
proof (induction fsys dir namePattern fileType d and fsys dir namePattern fileType d result es rule: Find_findEntries.induct)
  case (1 fsys dir namePattern fileType d)
  show ?case
  proof (cases "ReadDir fsys dir")
    case (Inl err)
    then show ?thesis using "1.prems"
      by (auto simp: Find.simps [of fsys dir] found_contributions [of fsys dir] entries_of_def search_error_iff [of fsys dir])
  next
    case (Inr es)
    then have "search_error fsys dir namePattern d = entries_error fsys dir namePattern d es"
      by (intro ext) (simp add: search_error_iff [of fsys dir] entries_of_def)
    then show ?thesis using 1 Inr
      by (auto simp: Find.simps [of fsys dir] found_contributions [of fsys dir] entries_of_def)
  qed
next
  case (3 fsys dir namePattern fileType d result entry entries)
  show ?case
  proof (cases "parsePattern namePattern")
    case None
    then show ?thesis by (simp add: path_Match_def entries_error_Cons)
  next
    case (Some p)
    let ?m = "patternMatches p (EntryName entry)"
    let ?r = "if ?m \<and> fileTypeFromMode (EntryType entry) AND fileType \<noteq> 0
                         then result @ [entryPath dir entry] else result"
    have m: "path_Match namePattern (EntryName entry) = Inr ?m" by (rule path_Match_total [OF Some])
    have w: "set ?r = set result \<union> (if wanted namePattern fileType entry then {entryPath dir entry} else {})"
      by (auto simp: wanted_def m)
    show ?thesis
    proof (cases "EntryIsDir entry \<and> 1 < d")
      case False
      then have "contribution fsys dir namePattern fileType d entry
          = (if wanted namePattern fileType entry then {entryPath dir entry} else {})" by (auto simp: contribution_def)
      moreover have "entries_error fsys dir namePattern d (entry # entries) = entries_error fsys dir namePattern d entries"
        using False Some by (auto simp: entries_error_Cons [abs_def] fun_eq_iff)
      moreover have "search_result (set ?r \<union> (\<Union>entry \<in> set entries. contribution fsys dir namePattern fileType d entry))
          (entries_error fsys dir namePattern d entries) (findEntries fsys dir namePattern fileType d ?r entries)"
        using "3.IH"(3) [OF m refl False] "3.prems" by simp
      moreover have "findEntries fsys dir namePattern fileType d result (entry # entries) = findEntries fsys dir namePattern fileType d ?r entries"
        using False by (auto simp: m)
      ultimately show ?thesis by (simp only: w UN_insert list.set(2) Un_assoc)
    next
      case True
      have sub: "search_result (found fsys (entryPath dir entry) namePattern fileType (d - 1))
          (search_error fsys (entryPath dir entry) namePattern (d - 1))
          (Find fsys (entryPath dir entry) namePattern fileType (d - 1))"
        using "3.IH"(1) [OF m refl True] "3.prems" True by simp
      show ?thesis
      proof (cases "Find fsys (entryPath dir entry) namePattern fileType (d - 1)")
        case (Ok xs)
        have "search_result (set (?r @ xs) \<union> (\<Union>entry \<in> set entries. contribution fsys dir namePattern fileType d entry))
            (entries_error fsys dir namePattern d entries) (findEntries fsys dir namePattern fileType d (?r @ xs) entries)"
          using "3.IH"(2) [OF m refl True Ok] "3.prems" by simp
        moreover have xs: "set xs = found fsys (entryPath dir entry) namePattern fileType (d - 1)" using sub Ok by simp
        moreover have "entries_error fsys dir namePattern d (entry # entries) = entries_error fsys dir namePattern d entries"
          using sub Ok Some by (intro ext) (simp add: entries_error_Cons)
        moreover have "contribution fsys dir namePattern fileType d entry
            = (if wanted namePattern fileType entry then {entryPath dir entry} else {}) \<union> set xs"
          using True xs by (simp add: contribution_def)
        moreover have "findEntries fsys dir namePattern fileType d result (entry # entries)
            = findEntries fsys dir namePattern fileType d (?r @ xs) entries"
          using True Ok by (simp add: m)
        ultimately show ?thesis by (simp only: w UN_insert list.set(2) set_append Un_assoc)
      next
        case (Err e)
        then show ?thesis using sub True by (simp add: m entries_error_Cons)
      next
        case (Panic p)
        then show ?thesis using sub by simp
      qed
    qed
  qed
qed simp

section \<open>Properties\<close>

text \<open>Every entry has a type, so that the type \<open>FileTypeAny\<close> excludes none.\<close>

lemma word_or_eq_0 [simp]: "x OR y = 0 \<longleftrightarrow> x = 0 \<and> y = (0 :: 64 word)"
  by (auto simp: bit_eq_iff bit_simps)

lemma fileTypeFromMode_any: "fileTypeFromMode mode \<noteq> 0"
proof
  assume *: "fileTypeFromMode mode = 0"
  then have "mode AND ModeDir = 0" "mode AND ModeSymlink = 0" "mode AND ModeNamedPipe = 0" "mode AND ModeSocket = 0"
    "mode AND ModeDevice = 0" "mode AND ModeCharDevice = 0" "mode AND ModeIrregular = 0"
    by (auto simp: fileTypeFromMode_def Let_def file_type_defs split: if_splits)
  then have "mode AND ModeType = 0" by (simp add: ModeType_def bit.conj_disj_distrib)
  with * show False by (auto simp: fileTypeFromMode_def Let_def file_type_defs split: if_splits)
qed

text \<open>
  C26: what \<open>Find\<close> returns. A pattern with a slash or an unknown type is a panic, a depth of
  more than 10000 an error. Otherwise it fails exactly if a directory it has to descend into
  cannot be read (a missing one counts as empty) or a malformed pattern is to be matched,
  and with such an error; and if it succeeds, it has found exactly the entries that match,
  have one of the types, and lie in a directory at most so many levels down, without
  following symlinks. Zero values stand for everything and for the depth 10000.
\<close>

theorem Find_finds:
  "if CHR ''/'' \<in> set namePattern then Find fsys dir namePattern fileType maxDepth = Panic ''invalid name pattern; must not contain slashes''
   else if fileType AND FileTypeAny \<noteq> fileType then Find fsys dir namePattern fileType maxDepth = Panic ''invalid file type''
   else if 10000 < maxDepth then Find fsys dir namePattern fileType maxDepth = Err (Errorf ''invalid maximum depth; must not exceed 10000'' [])
   else let dir' = (if dir = '''' then ''.'' else dir);
            namePattern' = (if namePattern = '''' then ''*'' else namePattern);
            fileType' = (if fileType = 0 then FileTypeAny else fileType);
            d = (if maxDepth = 0 then 10000 else maxDepth)
        in case Find fsys dir namePattern fileType maxDepth of
             Ok paths \<Rightarrow> set paths = found fsys dir' namePattern' fileType' d \<and> (\<forall>err. \<not> search_error fsys dir' namePattern' d err)
           | Err err \<Rightarrow> search_error fsys dir' namePattern' d err
           | Panic _ \<Rightarrow> False"
proof -
  let ?dir = "if dir = '''' then ''.'' else dir" and ?np = "if namePattern = '''' then ''*'' else namePattern"
    and ?ft = "if fileType = 0 then FileTypeAny else fileType" and ?d = "if maxDepth = 0 then 10000 else maxDepth"
  have ne: "?dir \<noteq> ''''" "?np \<noteq> ''''" "?ft \<noteq> 0" "?d \<noteq> 0" by (auto simp: FileTypeAny_def file_type_defs)
  have guards: "Find fsys dir namePattern fileType maxDepth = Panic ''invalid name pattern; must not contain slashes''"
    if "CHR ''/'' \<in> set namePattern"
    using that by (auto simp: Find.simps [of fsys dir] Let_def)
  have types: "Find fsys dir namePattern fileType maxDepth = Panic ''invalid file type''"
    if "CHR ''/'' \<notin> set namePattern" "fileType AND FileTypeAny \<noteq> fileType"
    using that by (auto simp: Find.simps [of fsys dir] Let_def)
  have depths: "Find fsys dir namePattern fileType maxDepth = Err (Errorf ''invalid maximum depth; must not exceed 10000'' [])"
    if "CHR ''/'' \<notin> set namePattern" "fileType AND FileTypeAny = fileType" "10000 < maxDepth"
    using that by (simp add: Find.simps [of fsys dir] Let_def)
  have "search_result (found fsys ?dir ?np ?ft ?d) (search_error fsys ?dir ?np ?d) (Find fsys dir namePattern fileType maxDepth)"
    if "CHR ''/'' \<notin> set namePattern" "fileType AND FileTypeAny = fileType" "maxDepth \<le> 10000"
  proof -
    have "Find fsys dir namePattern fileType maxDepth = Find fsys ?dir ?np ?ft ?d"
      using that ne by (simp only: Find.simps [of fsys dir] Find.simps [of fsys ?dir] Let_def if_False if_True) auto
    moreover have "search_result (found fsys ?dir ?np ?ft ?d) (search_error fsys ?dir ?np ?d) (Find fsys ?dir ?np ?ft ?d)"
      by (rule Find_and_entries) (use that ne in \<open>auto simp: FileTypeAny_def\<close>)
    ultimately show ?thesis by simp
  qed
  then show ?thesis
    using guards types depths by (auto simp: search_result_def Let_def split: outcome.split)
qed

definition sampleFiles :: filesystem where
  "sampleFiles = \<lparr>
     ReadDir = (\<lambda>dir. if dir = ''chart'' then Inr [\<lparr>EntryName = ''a.yaml'', EntryType = 0, EntryIsDir = False\<rparr>,
                                               \<lparr>EntryName = ''sub'', EntryType = ModeDir, EntryIsDir = True\<rparr>]
       else if dir = ''chart/sub'' then Inr [\<lparr>EntryName = ''_b.yaml'', EntryType = 0, EntryIsDir = False\<rparr>,
                                           \<lparr>EntryName = ''c.yaml'', EntryType = 0, EntryIsDir = False\<rparr>]
       else Inl ErrNotExist),
     ReadFile = (\<lambda>_. Inl ErrNotExist), StatIsDir = (\<lambda>_. Inl ErrNotExist)\<rparr>"

lemma sample_types [simp]:
  "FileTypeRegular AND FileTypeAny = FileTypeRegular" "FileTypeRegular \<noteq> 0"
  "fileTypeFromMode 0 AND FileTypeRegular \<noteq> 0" "fileTypeFromMode ModeDir AND FileTypeRegular = 0"
  by (simp_all add: file_type_defs FileTypeAny_def fileTypeFromMode_def mode_defs ModeType_def)

lemma sample_matches [simp]:
  "path_Match ''[^_]*.yaml'' ''a.yaml'' = Inr True" "path_Match ''[^_]*.yaml'' ''sub'' = Inr False"
  "path_Match ''[^_]*.yaml'' ''_b.yaml'' = Inr False" "path_Match ''[^_]*.yaml'' ''c.yaml'' = Inr True"
  by code_simp+

lemma sample_paths [simp]:
  "Clean ''chart/a.yaml'' = ''chart/a.yaml''" "Clean ''chart/sub'' = ''chart/sub''"
  "Clean ''chart/sub/c.yaml'' = ''chart/sub/c.yaml''"
  by code_simp+

lemma ReadDir_sampleFiles [simp]:
  "ReadDir sampleFiles ''chart'' = Inr [\<lparr>EntryName = ''a.yaml'', EntryType = 0, EntryIsDir = False\<rparr>,
     \<lparr>EntryName = ''sub'', EntryType = ModeDir, EntryIsDir = True\<rparr>]"
  "ReadDir sampleFiles ''chart/sub'' = Inr [\<lparr>EntryName = ''_b.yaml'', EntryType = 0, EntryIsDir = False\<rparr>,
     \<lparr>EntryName = ''c.yaml'', EntryType = 0, EntryIsDir = False\<rparr>]"
  by (simp_all add: sampleFiles_def)

lemma Find_sample: "Find sampleFiles ''chart'' ''[^_]*.yaml'' FileTypeRegular 0 = Ok [''chart/a.yaml'', ''chart/sub/c.yaml'']"
  by (simp add: Find.simps [of sampleFiles] entryPath_def)

theorem Find_finds_witness:
  "found sampleFiles ''chart'' ''[^_]*.yaml'' FileTypeRegular 10000 = {''chart/a.yaml'', ''chart/sub/c.yaml''}"
  using Find_finds [of "''[^_]*.yaml''" sampleFiles "''chart''" FileTypeRegular 0]
  by (simp add: Find_sample Let_def)


end
