(* ===== verification/Helm_Types.thy ===== *)
theory Helm_Types
  imports Helm_Values File_Search
begin

text \<open>
  \<open>internal/helm/types.go\<close>, \<open>files.go\<close> and \<open>capabilities.go\<close>: the data of charts and of
  what is passed to their templates, with the operations on them.
\<close>

section \<open>Types\<close>

record ChartImportValue =
  ImportChild :: string
  ImportParent :: string

record ChartDependency =
  DepName :: string
  DepAlias :: string
  DepCondition :: string
  DepTags :: "string list"
  DepImportValues :: "ChartImportValue list"

record ChartMetadata =
  MetaName :: string
  MetaVersion :: string
  MetaType :: string
  MetaAppVersion :: string
  MetaDependencies :: "ChartDependency list"

definition ChartTypeApplication :: string where "ChartTypeApplication = ''application''"
definition ChartTypeLibrary :: string where "ChartTypeLibrary = ''library''"

text \<open>
  \<open>ChartImportValue.UnmarshalJSON\<close>: a string is short for an entry under \<open>exports\<close>; the
  parent is then left as it was.
\<close>

datatype import_json = ImportString string | ImportObject "string option" "string option"

definition UnmarshalImportValue :: "import_json \<Rightarrow> ChartImportValue \<Rightarrow> ChartImportValue" where
  "UnmarshalImportValue j v = (case j of
     ImportString s \<Rightarrow> v\<lparr>ImportChild := ''exports.'' @ s\<rparr>
   | ImportObject child parent \<Rightarrow>
       v\<lparr>ImportChild := case_option (ImportChild v) (\<lambda>s. s) child,
         ImportParent := case_option (ImportParent v) (\<lambda>s. s) parent\<rparr>)"

record Template =
  TemplateName :: string
  TemplateBasePath :: string

record Release =
  RelNamespace :: string
  RelName :: string
  RelService :: string
  RelIsInstall :: bool
  RelIsUpgrade :: bool
  RelRevision :: int

record KubeVersion =
  KubeVersionString :: string
  KubeMajor :: string
  KubeMinor :: string
  KubeGitVersion :: string

type_synonym ApiVersions = "string list"

record Capabilities =
  CapKubeVersion :: KubeVersion
  CapAPIVersions :: ApiVersions

text \<open>\<open>ApiVersions.Has\<close>.\<close>

fun ApiVersions_Has :: "ApiVersions \<Rightarrow> string \<Rightarrow> bool" where
  "ApiVersions_Has [] version \<longleftrightarrow> False"
| "ApiVersions_Has (v # vs) version \<longleftrightarrow> (if v = version then True else ApiVersions_Has vs version)"

lemma ApiVersions_Has_iff [simp]: "ApiVersions_Has vs version \<longleftrightarrow> version \<in> set vs"
  by (induction vs) auto

section \<open>Capabilities\<close>

record version_info =
  InfoMajor :: string
  InfoMinor :: string
  InfoGitVersion :: string

text \<open>
  The discovery client: the version of the server, and its groups with the kinds of their
  resources. \<open>Uniq\<close> is that of sap/go-generics.
\<close>

record discovery =
  ServerVersion :: "goerr + version_info"
  ServerGroupsAndResources :: "goerr + (string \<times> string list) list"
  Uniq :: "string list \<Rightarrow> string list"

definition GetCapabilities :: "discovery \<Rightarrow> goerr + Capabilities" where
  "GetCapabilities D = (case ServerVersion D of
     Inl err \<Rightarrow> Inl err
   | Inr info \<Rightarrow> (case ServerGroupsAndResources D of
       Inl err \<Rightarrow> Inl err
     | Inr resourceLists \<Rightarrow>
         Inr \<lparr>CapKubeVersion = \<lparr>KubeVersionString = InfoGitVersion info, KubeMajor = InfoMajor info,
                 KubeMinor = InfoMinor info, KubeGitVersion = InfoGitVersion info\<rparr>,
              CapAPIVersions = Uniq D (concat (map (\<lambda>(groupVersion, kinds).
                 groupVersion # map (\<lambda>kind. groupVersion @ ''/'' @ kind) kinds) resourceLists))\<rparr>))"

section \<open>Files\<close>

type_synonym Files = "(string \<times> string) list"

definition isIgnored :: "string \<Rightarrow> bool" where
  "isIgnored name \<longleftrightarrow> name = ''Chart.yaml'' \<or> name = ''Chart.lock'' \<or> name = ''LICENSE'' \<or> name = ''README.md''
     \<or> name = ''values.yaml'' \<or> name = ''values.schema.json'' \<or> name = ''.helmignore''
     \<or> HasPrefix name ''charts/'' \<or> HasPrefix name ''crds/'' \<or> HasPrefix name ''templates/''"

definition Files_add :: "Files \<Rightarrow> string \<Rightarrow> string \<Rightarrow> Files" where
  "Files_add f name data = (if isIgnored name then f else AList.update name data f)"

definition Files_GetBytes :: "Files \<Rightarrow> string \<Rightarrow> string" where
  "Files_GetBytes f name = (case map_of f name of Some data \<Rightarrow> data | None \<Rightarrow> '''')"

definition Files_Get :: "Files \<Rightarrow> string \<Rightarrow> string" where
  "Files_Get f name = Files_GetBytes f name"

text \<open>\<open>Lines\<close> looks at the last byte of the file, and panics if there is none.\<close>

definition Files_Lines :: "Files \<Rightarrow> string \<Rightarrow> (goerr, string list) outcome" where
  "Files_Lines f name = (case map_of f name of
     None \<Rightarrow> Ok []
   | Some s \<Rightarrow>
       (if s = '''' then Panic ''index out of range''
        else Ok (splitAt (CHR 0x0A) (if last s = CHR 0x0A then butlast s else s))))"

text \<open>The compiled glob of gobwas/glob is a parameter.\<close>

definition Files_Glob :: "(string \<Rightarrow> goerr + (string \<Rightarrow> bool)) \<Rightarrow> Files \<Rightarrow> string \<Rightarrow> goerr + Files" where
  "Files_Glob compile f pattern = (case compile pattern of
     Inl err \<Rightarrow> Inl err | Inr g \<Rightarrow> Inr (filter (\<lambda>(name, data). g name) f))"

text \<open>\<open>AsConfig\<close> and \<open>AsSecrets\<close> render a map keyed by base names. Of several files with one base
  name, the one that wins depends on Go's order of iteration; here it is the last one.\<close>

definition Files_byBase :: "(string \<Rightarrow> string) \<Rightarrow> Files \<Rightarrow> (string \<times> string) list" where
  "Files_byBase enc f = fold (\<lambda>(name, data) m. AList.update (path_base name) (enc data) m) f []"

definition Files_AsConfig :: "((string \<times> string) list \<Rightarrow> string) \<Rightarrow> Files \<Rightarrow> string" where
  "Files_AsConfig marshal f = marshal (Files_byBase (\<lambda>data. data) f)"

definition Files_AsSecrets :: "((string \<times> string) list \<Rightarrow> string) \<Rightarrow> (string \<Rightarrow> string) \<Rightarrow> Files \<Rightarrow> string" where
  "Files_AsSecrets marshal base64 f = marshal (Files_byBase base64 f)"

lemma Files_add_get:
  "Files_Get (Files_add f name data) n = (if n = name \<and> \<not> isIgnored name then data else Files_Get f n)"
  by (simp add: Files_add_def Files_Get_def Files_GetBytes_def update_conv')

text \<open>The lines of a file, each followed by a newline, are the file, up to a missing last one.\<close>

lemma Files_Lines_join:
  assumes "map_of f name = Some s" "s \<noteq> ''''"
  shows "\<exists>ls. Files_Lines f name = Ok ls \<and> strings_join ls [CHR 0x0A] = (if last s = CHR 0x0A then butlast s else s)"
  using assms by (simp add: Files_Lines_def)

end
