(* ===== verification/Helm_Chart.thy ===== *)
theory Helm_Chart
  imports Helm_Types
begin

text \<open>
  \<open>internal/helm/chart.go\<close>: rendering a chart with its dependencies. The templates are
  executed by text/template, and documents decoded by a YAML decoder: parameters. A
  template is assumed not to change the data it is given.
\<close>

section \<open>Charts\<close>

text \<open>
  The template set \<open>t0\<close> of a chart is a pointer; a sub-chart that is parsed while the set of
  its parent is nil gets a set of its own, which the parent does not see.
\<close>

datatype 't Chart = Chart
  (metadata: ChartMetadata) (subCharts: "(string \<times> 't Chart) list") (chart_values: "jmap option")
  (crds: "string list") (t0: "'t option") (templates: "string list") (files: Files)

record template_data =
  DataChart :: ChartMetadata
  DataCapabilities :: Capabilities
  DataRelease :: Release
  DataValues :: jmap
  DataFiles :: Files
  DataTemplate :: Template

record 't helm_lib =
  CloneTemplates :: "'t \<Rightarrow> goerr + 't"
  ExecuteTemplate :: "'t \<Rightarrow> string \<Rightarrow> template_data \<Rightarrow> goerr + string"
  DecodeDocuments :: "string \<Rightarrow> (goerr + Object option) list"

text \<open>\<open>templatex.AdjustTemplateOutput\<close>.\<close>

definition AdjustTemplateOutput :: "string \<Rightarrow> string" where
  "AdjustTemplateOutput = removeAll_text ''<no value>''"

text \<open>The decoding loop: up to the first error, empty documents are skipped.\<close>

fun decodeLoop :: "(goerr + Object option) list \<Rightarrow> (goerr, Object list) outcome" where
  "decodeLoop [] = Ok []"
| "decodeLoop (Inl err # docs) = Err err"
| "decodeLoop (Inr None # docs) = decodeLoop docs"
| "decodeLoop (Inr (Some object) # docs) = obind (decodeLoop docs) (\<lambda>objects. Ok (object # objects))"

definition decodeAll :: "('t, 'b) helm_lib_scheme \<Rightarrow> string \<Rightarrow> (goerr, Object list) outcome" where
  "decodeAll L text = decodeLoop (DecodeDocuments L text)"

section \<open>Dependencies\<close>

text \<open>
  The loop over the tags carries whether the dependency is enabled and whether a tag matched;
  a condition that matches ends the loop over the conditions.
\<close>

fun evalTags :: "jmap \<Rightarrow> string list \<Rightarrow> bool \<times> bool \<Rightarrow> goerr + bool \<times> bool" where
  "evalTags values [] st = Inr st"
| "evalTags values (tag # tags) (enabled, haveMatchingTag) =
     (let (v, exists, ok) = digBool (Some values) [''tags'', tag] in
      if ok then evalTags values tags (if v then True else if \<not> haveMatchingTag then False else enabled, True)
      else if exists then Inl (Errorf ''tag references a non-boolean value'' [])
      else evalTags values tags (enabled, haveMatchingTag))"

fun evalConditions :: "jmap \<Rightarrow> string list \<Rightarrow> bool \<Rightarrow> goerr + bool" where
  "evalConditions values [] enabled = Inr enabled"
| "evalConditions values (cond # conds) enabled =
     (let (v, exists, ok) = digBool (Some values) [cond] in
      if ok then Inr v
      else if exists then Inl (Errorf ''condition references a non-boolean value'' [])
      else evalConditions values conds enabled)"

definition isEnabled :: "jmap \<Rightarrow> ChartDependency \<Rightarrow> goerr + bool" where
  "isEnabled values dep = (case evalTags values (DepTags dep) (True, False) of
     Inl err \<Rightarrow> Inl err
   | Inr (enabled, _) \<Rightarrow>
       (if DepCondition dep \<noteq> '''' then evalConditions values (splitAt (CHR '','') (DepCondition dep)) enabled
        else Inr enabled))"

text \<open>
  The blocks for \<open>global\<close> and \<open>tags\<close>: the values of the chart at this key are merged over
  those of the dependency.
\<close>

definition passDown :: "string \<Rightarrow> jmap \<Rightarrow> jmap \<Rightarrow> (goerr, jmap) outcome" where
  "passDown key values depValues =
     (let notMap = Errorf (''values key '' @ [CHR 0x27] @ key @ [CHR 0x27] @ '' exists but is not a map'') [];
          (v, exists, ok) = getMap (Some values) key in
      if ok then
        (let (w, exists', ok') = getMap (Some depValues) key in
         if ok' then obind (or_panic ''assignment to entry in nil map'' (MergeMaps w v))
                (\<lambda>m. Ok (AList.update key (JMap (Some m)) depValues))
         else if exists' then Err notMap
         else Ok (AList.update key (JMap v) depValues))
      else if exists then Err notMap
      else Ok depValues)"

definition dependencyValues :: "jmap \<Rightarrow> ChartDependency \<Rightarrow> (goerr, jmap) outcome" where
  "dependencyValues values dep =
     (let (depValues, _, _) = getMap (Some values) (DepAlias dep) in
      obind (passDown ''global'' values (jentries depValues)) (passDown ''tags'' values))"

text \<open>
  The values of a dependency are a map inside the values of the chart, if they have one for
  its alias, and these maps are updated in place. \<open>writeBack\<close> is this update; \<open>shared x y
  merged\<close> is what becomes of the map \<open>y\<close>, which \<open>MergeMaps x y\<close> put in parts into its
  result, when the result has become \<open>merged\<close>: a part is shared if \<open>x\<close> has no map to merge
  it into. (The maps at \<open>global\<close> and \<open>tags\<close> are never written to, as long as no dependency
  has such an alias.)
\<close>

definition writeBack :: "jmap \<Rightarrow> ChartDependency \<Rightarrow> jmap \<Rightarrow> jmap" where
  "writeBack values dep depValues = (case map_of values (DepAlias dep) of
     Some (JMap (Some _)) \<Rightarrow> AList.update (DepAlias dep) (JMap (Some depValues)) values
   | _ \<Rightarrow> values)"

function shared :: "jmap \<Rightarrow> jmap \<Rightarrow> jmap \<Rightarrow> jmap" where
  "shared x [] merged = []"
| "shared x ((k, v) # y) merged =
     (k, if k = ''global'' \<or> k = ''tags'' then v
         else case map_of x k of
             Some (JMap m) \<Rightarrow>
               (case (v, map_of merged k) of
                  (JMap (Some w), Some (JMap (Some mm))) \<Rightarrow> JMap (Some (shared (jentries m) w mm))
                | _ \<Rightarrow> v)
           | _ \<Rightarrow> (case map_of merged k of Some v' \<Rightarrow> v' | None \<Rightarrow> v)) # shared x y merged"
  by pat_completeness auto
termination
  by (relation "measure (\<lambda>(x, y, merged). size_list (size_prod (\<lambda>_. 0) size) y)") (auto simp: jentries_def)

section \<open>Rendering\<close>

text \<open>
  The base path of a template is the nearest directory above it that is called \<open>templates\<close>.
  Every step shortens the path, so its length is enough fuel.
\<close>

fun basePath :: "nat \<Rightarrow> string \<Rightarrow> string option" where
  "basePath 0 path = None"
| "basePath (Suc n) path =
     (if path = ''.'' \<or> path = ''/'' then None
      else if path_base (path_dir path) = ''templates'' then Some (path_dir path)
      else basePath n (path_dir path))"

definition renderTemplate :: "('t, 'b) helm_lib_scheme \<Rightarrow> 't \<Rightarrow> (Template \<Rightarrow> template_data) \<Rightarrow> string \<Rightarrow>
    (goerr, Object list) outcome" where
  "renderTemplate L t data name =
     obind (or_panic ''this cannot happen'' (basePath (Suc (length name)) name)) (\<lambda>base.
     obind (of_sum (ExecuteTemplate L t name (data \<lparr>TemplateName = name, TemplateBasePath = base\<rparr>))) (\<lambda>text.
     decodeAll L (AdjustTemplateOutput text)))"

text \<open>
  \<open>render\<close> returns the objects, and the values it was given as they are afterwards. A
  dependency without a sub-chart is a nil pointer, which panics.
\<close>

lemma size_subChart [termination_simp]:
  "map_of subs k = Some c \<Longrightarrow> size c < Suc (size_list (size_prod (\<lambda>_. 0) size) subs)"
  by (induction subs) (auto split: if_splits)

lemma size_subChart' [termination_simp]:
  "map_of subs k = Some c \<Longrightarrow> size c < Suc (size_list (\<lambda>x. Suc (size (snd x))) subs + n)"
  by (induction subs) (auto split: if_splits)

function (sequential) render :: "('t, 'b) helm_lib_scheme \<Rightarrow> string \<Rightarrow> 't option \<Rightarrow> Capabilities \<Rightarrow> Release \<Rightarrow>
    't Chart \<Rightarrow> jmap option \<Rightarrow> (goerr, Object list \<times> jmap) outcome"
  and renderDependencies :: "('t, 'b) helm_lib_scheme \<Rightarrow> 't option \<Rightarrow> Capabilities \<Rightarrow> Release \<Rightarrow>
    (string \<times> 't Chart) list \<Rightarrow> ChartDependency list \<Rightarrow> jmap \<Rightarrow> (goerr, Object list \<times> jmap) outcome" where
  "render L name t capabilities release (Chart md subs vals crds' _ tmpls fs) input =
     (let md = (if name \<noteq> '''' then md\<lparr>MetaName := name\<rparr> else md) in
      obind (or_panic ''assignment to entry in nil map'' (MergeMaps vals input)) (\<lambda>values.
      obind (renderDependencies L t capabilities release subs (MetaDependencies md) values) (\<lambda>(objects, values).
      obind (collect (decodeAll L) crds') (\<lambda>crdObjects.
      obind (case t of
          None \<Rightarrow> Ok []
        | Some ts \<Rightarrow> collect (renderTemplate L ts (\<lambda>tmpl.
            \<lparr>DataChart = md, DataCapabilities = capabilities, DataRelease = release, DataValues = values,
             DataFiles = fs, DataTemplate = tmpl\<rparr>)) tmpls) (\<lambda>tmplObjects.
      Ok (objects @ crdObjects @ tmplObjects, shared (jentries vals) (jentries input) values))))))"
| "renderDependencies L t capabilities release subs [] values = Ok ([], values)"
| "renderDependencies L t capabilities release subs (dep # deps) values =
     obind (of_sum (isEnabled values dep)) (\<lambda>enabled.
     if \<not> enabled then renderDependencies L t capabilities release subs deps values
     else obind (dependencyValues values dep) (\<lambda>depValues.
       case map_of subs (DepName dep) of
         None \<Rightarrow> Panic ''invalid memory address or nil pointer dereference''
       | Some depChart \<Rightarrow>
           obind (render L (DepAlias dep) t capabilities release depChart (Some depValues)) (\<lambda>(depObjects, depValues).
           obind (renderDependencies L t capabilities release subs deps (writeBack values dep depValues)) (\<lambda>(objects, values).
           Ok (depObjects @ objects, values)))))"
  by pat_completeness auto
termination
  by (relation "measures [\<lambda>x. case x of Inl (_, _, _, _, _, c, _) \<Rightarrow> size c
        | Inr (_, _, _, _, subs, _, _) \<Rightarrow> size_list (size_prod (\<lambda>_. 0) size) subs,
      \<lambda>x. case x of Inl _ \<Rightarrow> 0 | Inr (_, _, _, _, _, deps, _) \<Rightarrow> Suc (length deps)]")
    (auto dest: size_subChart)

text \<open>\<open>RenderValues\<close> also returns what has become of the values it was given.\<close>

definition RenderValues :: "('t, 'b) helm_lib_scheme \<Rightarrow> discovery \<Rightarrow> 't Chart \<Rightarrow> Release \<Rightarrow> jmap option \<Rightarrow>
    (goerr, Object list \<times> jmap) outcome" where
  "RenderValues L D chart release values =
     obind (of_sum (GetCapabilities D)) (\<lambda>capabilities.
     obind (case t0 chart of
         None \<Rightarrow> Ok None
       | Some t \<Rightarrow> obind (of_sum (CloneTemplates L t)) (\<lambda>t'. Ok (Some t'))) (\<lambda>t.
     render L '''' t capabilities release chart values))"

definition Render :: "('t, 'b) helm_lib_scheme \<Rightarrow> discovery \<Rightarrow> 't Chart \<Rightarrow> Release \<Rightarrow> jmap option \<Rightarrow>
    (goerr, Object list) outcome" where
  "Render L D chart release values = obind (RenderValues L D chart release values) (\<lambda>(objects, _). Ok objects)"

section \<open>Which dependencies are enabled\<close>

text \<open>What tags and conditions refer to: the values that exist at these paths.\<close>

definition valuesAt :: "jmap \<Rightarrow> string list list \<Rightarrow> json list" where
  "valuesAt values paths = List.map_filter (dig (Some values)) paths"

definition isBool :: "json \<Rightarrow> bool" where
  "isBool v \<longleftrightarrow> (\<exists>b. v = JBool b)"

lemma isBool_simps [simp]: "isBool (JBool b)"
  by (simp add: isBool_def)

lemma valuesAt_simps [simp]:
  "valuesAt values [] = []"
  "valuesAt values (p # ps) = (case dig (Some values) p of None \<Rightarrow> valuesAt values ps | Some v \<Rightarrow> v # valuesAt values ps)"
  by (simp_all add: valuesAt_def map_filter_simps split: option.split)

lemma digBool_cases:
  "digBool data p = (case dig data p of None \<Rightarrow> (False, False, False)
     | Some v \<Rightarrow> if isBool v then (v = JBool True, True, True) else (False, True, False))"
  by (auto simp: digBool_def isBool_def split: option.split json.split)

lemma evalTags_spec:
  "evalTags values tags (enabled, matching) =
     (let vs = valuesAt values (map (\<lambda>tag. [''tags'', tag]) tags) in
      if \<exists>v \<in> set vs. \<not> isBool v then Inl (Errorf ''tag references a non-boolean value'' [])
      else Inr (if JBool True \<in> set vs then True else if matching \<or> vs = [] then enabled else False,
                matching \<or> vs \<noteq> []))"
  by (induction tags arbitrary: enabled matching) (auto simp: digBool_cases Let_def isBool_def split: option.split)

lemma evalConditions_spec:
  "evalConditions values conds enabled =
     (case valuesAt values (map (\<lambda>c. [c]) conds) of
        [] \<Rightarrow> Inr enabled
      | v # _ \<Rightarrow> (case v of JBool b \<Rightarrow> Inr b | _ \<Rightarrow> Inl (Errorf ''condition references a non-boolean value'' [])))"
  by (induction conds) (auto simp: digBool_cases isBool_def split: option.split json.split)

text \<open>
  C28: a tag that refers to something that is no boolean is an error. Otherwise the first
  condition that refers to anything decides, and it is an error if that is no boolean; if
  there is none, the dependency is enabled exactly if none of its tags refers to anything or
  one of them refers to true.
\<close>

theorem isEnabled_spec:
  "isEnabled values dep =
     (let tagVals = valuesAt values (map (\<lambda>tag. [''tags'', tag]) (DepTags dep));
          condVals = valuesAt values (map (\<lambda>c. [c])
            (if DepCondition dep = '''' then [] else splitAt (CHR '','') (DepCondition dep)))
      in if \<exists>v \<in> set tagVals. \<not> isBool v then Inl (Errorf ''tag references a non-boolean value'' [])
         else case condVals of
             [] \<Rightarrow> Inr (tagVals = [] \<or> JBool True \<in> set tagVals)
           | v # _ \<Rightarrow> (case v of JBool b \<Rightarrow> Inr b
               | _ \<Rightarrow> Inl (Errorf ''condition references a non-boolean value'' [])))"
  by (auto simp: isEnabled_def evalTags_spec evalConditions_spec Let_def split: list.split json.split)

section \<open>A chart without templates of its own\<close>

lemma MetaDependencies_renamed [simp]:
  "MetaDependencies (if c then md\<lparr>MetaName := name\<rparr> else md) = MetaDependencies md"
  by simp

lemma decodeAll_ExecuteTemplate [simp]: "decodeAll (L\<lparr>ExecuteTemplate := ex\<rparr>) = decodeAll L"
  by (simp add: decodeAll_def [abs_def])

lemma render_no_templates:
  "t = None \<Longrightarrow> render (L\<lparr>ExecuteTemplate := ex\<rparr>) name t capabilities release c input
     = render L name t capabilities release c input"
  "t = None \<Longrightarrow> renderDependencies (L\<lparr>ExecuteTemplate := ex\<rparr>) t capabilities release subs deps values
     = renderDependencies L t capabilities release subs deps values"
proof (induction L name t capabilities release c input
    and L t capabilities release subs deps "values" rule: render_renderDependencies.induct)
  case 1
  show ?case unfolding render.simps Let_def
    by (rule obind_cong [OF refl]) (use 1 in simp)
next
  case 3
  show ?case unfolding renderDependencies.simps
    by (rule obind_cong [OF refl], rule if_cong [OF refl], use 3 in simp, rule obind_cong [OF refl])
      (use 3 in \<open>auto split: option.split intro!: obind_cong\<close>)
qed simp

end
