(* ===== verification/Helm_Parse.thy ===== *)
theory Helm_Parse
  imports Helm_Chart
begin

text \<open>
  \<open>internal/helm/chart.go\<close>: parsing a chart from a file system. The YAML decoder and the
  parser of text/template are parameters. The recursion into \<open>charts\<close> directories has no
  bound in the code; its fuel stands for the stack, and running out of it is a stack
  overflow. For file systems in which directories do not contain themselves some amount is
  enough (\<open>ParseChart_stack\<close>).
\<close>

section \<open>The parts of a chart\<close>

record 't parse_lib = "'t helm_lib" +
  NewTemplate :: "string \<Rightarrow> 't"
  AddTemplate :: "'t \<Rightarrow> string \<Rightarrow> 't"
  ParseText :: "'t \<Rightarrow> string \<Rightarrow> string \<Rightarrow> goerr + 't"
  UnmarshalMetadata :: "string \<Rightarrow> goerr + ChartMetadata \<times> bool"
  UnmarshalRequirements :: "string \<Rightarrow> goerr + ChartDependency list"
  UnmarshalValues :: "string \<Rightarrow> goerr + jmap option"
  OsFS :: filesystem
  AbsPath :: "string \<Rightarrow> goerr + string"

text \<open>
  \<open>UnmarshalMetadata\<close> also tells whether the dependencies are nil, in which case
  \<open>requirements.yaml\<close> is read.
\<close>

definition readMetadata :: "'t parse_lib \<Rightarrow> filesystem \<Rightarrow> string \<Rightarrow> string option \<Rightarrow> (goerr, ChartMetadata) outcome" where
  "readMetadata L fsys chartPath parentType =
     obind (of_sum (ReadFile fsys (Clean (chartPath @ ''/Chart.yaml'')))) (\<lambda>chartRaw.
     obind (of_sum (UnmarshalMetadata L chartRaw)) (\<lambda>(md, isNil).
     obind (if \<not> isNil then Ok md
       else case ReadFile fsys (Clean (chartPath @ ''/requirements.yaml'')) of
           Inr raw \<Rightarrow> obind (of_sum (UnmarshalRequirements L raw)) (\<lambda>deps. Ok (md\<lparr>MetaDependencies := deps\<rparr>))
         | Inl err \<Rightarrow> if \<not> IsErrNotExist err then Err err else Ok md) (\<lambda>md.
     let md = (if MetaType md = '''' then md\<lparr>MetaType := ChartTypeApplication\<rparr> else md) in
     if parentType = Some ChartTypeLibrary \<and> MetaType md = ChartTypeApplication
     then Err (Errorf ''library chart cannot have application subchart'' [])
     else Ok md)))"

definition parseTemplate :: "'t parse_lib \<Rightarrow> filesystem \<Rightarrow> bool \<Rightarrow> string \<Rightarrow> 't option \<times> string list \<Rightarrow>
    (goerr, 't option \<times> string list) outcome" where
  "parseTemplate L fsys isInclude path = (\<lambda>(ts, tmpls).
     obind (of_sum (ReadFile fsys path)) (\<lambda>raw.
     let t = (case ts of None \<Rightarrow> NewTemplate L path | Some ts \<Rightarrow> AddTemplate L ts path) in
     obind (of_sum (ParseText L t path raw)) (\<lambda>ts.
     Ok (Some ts, if isInclude then tmpls else tmpls @ [path]))))"

fun parseTemplates :: "'t parse_lib \<Rightarrow> filesystem \<Rightarrow> bool \<Rightarrow> string list \<Rightarrow> 't option \<times> string list \<Rightarrow>
    (goerr, 't option \<times> string list) outcome" where
  "parseTemplates L fsys isInclude [] st = Ok st"
| "parseTemplates L fsys isInclude (path # paths) st =
     obind (parseTemplate L fsys isInclude path st) (parseTemplates L fsys isInclude paths)"

text \<open>The path of a file below the chart, relative to it (\<open>filepath.Rel\<close> in this case).\<close>

definition relativeTo :: "string \<Rightarrow> string \<Rightarrow> string" where
  "relativeTo dir file = (if dir = ''.'' then file
     else if HasPrefix file (dir @ ''/'') then drop (Suc (length dir)) file else file)"

fun readFiles :: "filesystem \<Rightarrow> string \<Rightarrow> string list \<Rightarrow> Files \<Rightarrow> (goerr, Files) outcome" where
  "readFiles fsys chartPath [] f = Ok f"
| "readFiles fsys chartPath (file # fls) f =
     obind (of_sum (ReadFile fsys file)) (\<lambda>raw. readFiles fsys chartPath fls (Files_add f (relativeTo chartPath file) raw))"

definition readValues :: "'t parse_lib \<Rightarrow> filesystem \<Rightarrow> string \<Rightarrow> (goerr, jmap option) outcome" where
  "readValues L fsys chartPath = (case ReadFile fsys (Clean (chartPath @ ''/values.yaml'')) of
     Inr raw \<Rightarrow> of_sum (UnmarshalValues L raw)
   | Inl err \<Rightarrow> if IsErrNotExist err then Ok (Some []) else Err err)"

definition readCrds :: "filesystem \<Rightarrow> string \<Rightarrow> (goerr, string list) outcome" where
  "readCrds fsys chartPath =
     obind (Find fsys (Clean (chartPath @ ''/crds'')) ''*.yaml'' FileTypeRegular 0)
       (collect (\<lambda>file. obind (of_sum (ReadFile fsys file)) (\<lambda>raw. Ok [raw])))"

section \<open>Dependencies\<close>

text \<open>Values that a dependency exports are put under a path of the values of the chart.\<close>

fun importEntries :: "string \<Rightarrow> jmap \<Rightarrow> jmap option \<Rightarrow> (goerr, jmap option) outcome" where
  "importEntries parent [] vals = Ok vals"
| "importEntries parent ((k, v) # es) vals = obind (undig vals v [parent, k]) (importEntries parent es)"

fun importValues :: "jmap option \<Rightarrow> ChartImportValue list \<Rightarrow> jmap option \<Rightarrow> (goerr, jmap option) outcome" where
  "importValues subVals [] vals = Ok vals"
| "importValues subVals (val # vs) vals =
     (let (m, exists, ok) = digMap subVals [ImportChild val] in
      obind (if ok then importEntries (ImportParent val) (jentries m) vals else Ok vals) (importValues subVals vs))"

definition withAlias :: "ChartDependency \<Rightarrow> ChartDependency" where
  "withAlias dep = (if DepAlias dep = '''' then dep\<lparr>DepAlias := DepName dep\<rparr> else dep)"

fun resolveDependencies :: "(string \<times> 't Chart) list \<Rightarrow> ChartDependency list \<Rightarrow> jmap option \<Rightarrow> (goerr, jmap option) outcome" where
  "resolveDependencies subs [] vals = Ok vals"
| "resolveDependencies subs (dep # deps) vals = (case map_of subs (DepName dep) of
     None \<Rightarrow> Err (Errorf ''dependent chart %s not found'' [AStr (DepName dep)])
   | Some subChart \<Rightarrow>
       obind (importValues (chart_values subChart) (DepImportValues dep) vals) (resolveDependencies subs deps))"

definition addDependency :: "string \<Rightarrow> ChartDependency list \<Rightarrow> ChartDependency list" where
  "addDependency name deps = (if \<exists>dep \<in> set deps. DepName dep = name then deps
     else deps @ [\<lparr>DepName = name, DepAlias = '''', DepCondition = '''', DepTags = [], DepImportValues = []\<rparr>])"

text \<open>The loop over the directories in \<open>charts\<close>, with the recursive call as a parameter.\<close>

fun parseSubCharts :: "(string \<Rightarrow> 't option \<Rightarrow> (goerr, 't Chart) outcome) \<Rightarrow> string list \<Rightarrow>
    't option \<times> (string \<times> 't Chart) list \<times> ChartDependency list \<Rightarrow>
    (goerr, 't option \<times> (string \<times> 't Chart) list \<times> ChartDependency list) outcome" where
  "parseSubCharts parse [] st = Ok st"
| "parseSubCharts parse (path # paths) (ts, subs, deps) =
     obind (parse path ts) (\<lambda>subChart.
     parseSubCharts parse paths
       (if ts = None then None else t0 subChart, AList.update (path_base path) subChart subs, addDependency (path_base path) deps))"

section \<open>ParseChart\<close>

text \<open>Only applications have custom resource definitions and templates; both kinds have includes.\<close>

definition readTemplates :: "'t parse_lib \<Rightarrow> filesystem \<Rightarrow> string \<Rightarrow> string \<Rightarrow> 't option \<Rightarrow>
    (goerr, string list \<times> 't option \<times> string list) outcome" where
  "readTemplates L fsys chartType chartPath ts =
     obind (if chartType = ChartTypeApplication then
         obind (readCrds fsys chartPath) (\<lambda>crds'.
         obind (Find fsys (Clean (chartPath @ ''/templates'')) ''[^_]*.yaml'' FileTypeRegular 0) (\<lambda>manifests.
         obind (parseTemplates L fsys False manifests (ts, [])) (\<lambda>st. Ok (crds', st))))
       else Ok ([], (ts, []))) (\<lambda>(crds', st).
     obind (Find fsys (Clean (chartPath @ ''/templates'')) ''_*'' FileTypeRegular 0) (\<lambda>includes.
     obind (parseTemplates L fsys True includes st) (\<lambda>st. Ok (crds', st))))"

definition normalPath :: "string \<Rightarrow> string" where
  "normalPath chartPath = Clean (if IsAbs chartPath then drop 1 chartPath else chartPath)"

fun parseChart :: "'t parse_lib \<Rightarrow> filesystem \<Rightarrow> nat \<Rightarrow> string \<Rightarrow> string option \<Rightarrow> 't option \<Rightarrow> (goerr, 't Chart) outcome" where
  "parseChart L fsys 0 chartPath parentType ts = Panic ''stack overflow''"
| "parseChart L fsys (Suc n) chartPath parentType ts =
     (let chartPath = normalPath chartPath in
      obind (readMetadata L fsys chartPath parentType) (\<lambda>md.
      obind (readTemplates L fsys (MetaType md) chartPath ts) (\<lambda>(crds', ts, tmpls).
      obind (Find fsys chartPath '''' FileTypeRegular 0) (\<lambda>fls.
      obind (readFiles fsys chartPath fls []) (\<lambda>chartFiles.
      obind (readValues L fsys chartPath) (\<lambda>vals.
      obind (Find fsys (Clean (chartPath @ ''/charts'')) ''*'' FileTypeDir 1) (\<lambda>paths.
      obind (parseSubCharts (\<lambda>path ts. parseChart L fsys n path (Some (MetaType md)) ts) paths
          (ts, [], MetaDependencies md)) (\<lambda>(ts, subs, deps).
      obind (resolveDependencies subs deps vals) (\<lambda>vals.
      Ok (Chart (md\<lparr>MetaDependencies := map withAlias deps\<rparr>) subs vals crds' ts tmpls chartFiles))))))))))"

definition ParseChart :: "'t parse_lib \<Rightarrow> nat \<Rightarrow> filesystem option \<Rightarrow> string \<Rightarrow> (goerr, 't Chart) outcome" where
  "ParseChart L stack fsys chartPath = (case fsys of
     None \<Rightarrow> obind (of_sum (AbsPath L chartPath)) (\<lambda>abspath. parseChart L (OsFS L) stack (drop 1 abspath) None None)
   | Some fs \<Rightarrow> parseChart L fs stack chartPath None None)"

section \<open>Parsed charts\<close>

text \<open>Every dependency has its sub-chart, on all levels.\<close>

fun chart_resolved :: "'t Chart \<Rightarrow> bool" where
  "chart_resolved (Chart md subs vals crds' ts tmpls fs) \<longleftrightarrow>
     (\<forall>dep \<in> set (MetaDependencies md). map_of subs (DepName dep) \<noteq> None) \<and>
     (\<forall>k c. map_of subs k = Some c \<longrightarrow> chart_resolved c)"

lemma parseChart_Ok:
  assumes "parseChart L fsys (Suc n) chartPath parentType ts = Ok c"
  shows "\<exists>md crds' ts1 tmpls f vals paths ts2 subs deps vals'.
    readTemplates L fsys (MetaType md) (normalPath chartPath) ts = Ok (crds', ts1, tmpls) \<and>
    Find fsys (Clean (normalPath chartPath @ ''/charts'')) ''*'' FileTypeDir 1 = Ok paths \<and>
    parseSubCharts (\<lambda>path ts. parseChart L fsys n path (Some (MetaType md)) ts) paths (ts1, [], MetaDependencies md)
      = Ok (ts2, subs, deps) \<and>
    resolveDependencies subs deps vals = Ok vals' \<and>
    c = Chart (md\<lparr>MetaDependencies := map withAlias deps\<rparr>) subs vals' crds' ts2 tmpls f"
  using assms by (simp add: Let_def obind_Ok split_beta) (metis surjective_pairing)

lemma resolveDependencies_found:
  "resolveDependencies subs deps vals = Ok vals' \<Longrightarrow> dep \<in> set deps \<Longrightarrow> map_of subs (DepName dep) \<noteq> None"
  by (induction deps arbitrary: vals) (auto simp: obind_Ok split: option.splits)

lemma parseSubCharts_resolved:
  assumes "parseSubCharts parse paths (ts, subs, deps) = Ok (ts', subs', deps')"
    and "\<And>path ts c. parse path ts = Ok c \<Longrightarrow> chart_resolved c"
    and "\<And>k c. map_of subs k = Some c \<Longrightarrow> chart_resolved c"
  shows "map_of subs' k = Some c \<Longrightarrow> chart_resolved c"
  using assms(1,3)
proof (induction paths arbitrary: ts subs deps)
  case (Cons path paths)
  then obtain sub where sub: "parse path ts = Ok sub"
      "parseSubCharts parse paths (if ts = None then None else t0 sub, AList.update (path_base path) sub subs,
         addDependency (path_base path) deps) = Ok (ts', subs', deps')"
    by (auto simp: obind_Ok)
  show ?case
    by (rule Cons.IH [OF Cons.prems(1) sub(2)])
      (use Cons.prems(3) assms(2) [OF sub(1)] in \<open>auto simp: update_conv' split: if_splits\<close>)
qed simp

lemma DepName_withAlias [simp]: "DepName (withAlias dep) = DepName dep"
  by (simp add: withAlias_def)

lemma parseChart_resolved: "parseChart L fsys n chartPath parentType ts = Ok c \<Longrightarrow> chart_resolved c"
proof (induction n arbitrary: chartPath parentType ts c)
  case (Suc n)
  from parseChart_Ok [OF Suc.prems] obtain md ts2 paths ts3 subs deps vals vals' crds' tmpls f where p:
      "parseSubCharts (\<lambda>path ts. parseChart L fsys n path (Some (MetaType md)) ts) paths (ts2, [], MetaDependencies md) = Ok (ts3, subs, deps)"
      "resolveDependencies subs deps vals = Ok vals'"
      "c = Chart (md\<lparr>MetaDependencies := map withAlias deps\<rparr>) subs vals' crds' ts3 tmpls f"
    by metis
  have "chart_resolved c'" if "map_of subs k = Some c'" for k c'
    by (rule parseSubCharts_resolved [OF p(1) _ _ that]) (use Suc.IH in auto)
  with resolveDependencies_found [OF p(2)] show ?case by (auto simp: p(3))
qed simp

abbreviation (input) nilPointer :: string where
  "nilPointer \<equiv> ''invalid memory address or nil pointer dereference''"

text \<open>A computation that does not dereference a nil pointer.\<close>

definition safe :: "('e, 'a) outcome \<Rightarrow> bool" where
  "safe r \<longleftrightarrow> r \<noteq> Panic nilPointer"

lemma safe_simps [simp]:
  "safe (Ok x)" "safe (Err e)" "safe (of_sum s)" "safe (Panic p) \<longleftrightarrow> p \<noteq> nilPointer"
  "safe (or_panic p o') \<longleftrightarrow> o' \<noteq> None \<or> p \<noteq> nilPointer"
  by (auto simp: safe_def of_sum_def or_panic_def split: sum.splits option.splits)

lemma safe_obind: "safe m \<Longrightarrow> (\<And>x. m = Ok x \<Longrightarrow> safe (f x)) \<Longrightarrow> safe (obind m f)"
  by (auto simp: safe_def obind_def split: outcome.splits)

lemma safe_collect: "(\<And>i. i \<in> set is \<Longrightarrow> safe (f i)) \<Longrightarrow> safe (collect f is)"
  by (induction "is") (auto intro!: safe_obind)

lemma safe_decodeLoop: "safe (decodeLoop docs)"
  by (induction docs rule: decodeLoop.induct) (auto intro!: safe_obind)

lemma safe_decodeAll: "safe (decodeAll L text)"
  by (simp add: decodeAll_def safe_decodeLoop)

lemma safe_renderTemplate: "safe (renderTemplate L t data name)"
  by (auto simp: renderTemplate_def intro!: safe_obind safe_decodeAll)

lemma safe_passDown: "safe (passDown key values depValues)"
  by (auto simp: passDown_def Let_def split: prod.split intro!: safe_obind)

lemma safe_dependencyValues: "safe (dependencyValues values dep)"
  by (auto simp: dependencyValues_def split: prod.split intro!: safe_obind safe_passDown)

lemma render_safe:
  "chart_resolved c \<Longrightarrow> safe (render L name t capabilities release c input)"
  "(\<forall>dep \<in> set deps. map_of subs (DepName dep) \<noteq> None) \<Longrightarrow> (\<forall>k c. map_of subs k = Some c \<longrightarrow> chart_resolved c) \<Longrightarrow>
     safe (renderDependencies L t capabilities release subs deps values)"
proof (induction L name t capabilities release c input
    and L t capabilities release subs deps "values" rule: render_renderDependencies.induct)
  case (1 L name t capabilities release md subs vals crds' ts tmpls fs input)
  then show ?case unfolding render.simps Let_def
    by (intro safe_obind) (auto intro!: safe_collect safe_decodeAll safe_renderTemplate safe_obind split: option.split)
next
  case (3 L t capabilities release subs dep deps "values")
  show ?case unfolding renderDependencies.simps
  proof (intro safe_obind)
    fix enabled assume en: "of_sum (isEnabled values dep) = Ok enabled"
    have rest: "safe (renderDependencies L t capabilities release subs deps values)" if "\<not> enabled"
      using 3(1) [OF en that] 3(4,5) by simp
    have "safe (case map_of subs (DepName dep) of None \<Rightarrow> Panic nilPointer
        | Some depChart \<Rightarrow> obind (render L (DepAlias dep) t capabilities release depChart (Some depValues))
            (\<lambda>(depObjects, depValues). obind (renderDependencies L t capabilities release subs deps (writeBack values dep depValues))
              (\<lambda>(objects, values). Ok (depObjects @ objects, values))))"
      if en': "\<not> \<not> enabled" and dv: "dependencyValues values dep = Ok depValues" for depValues
    proof -
      obtain depChart where dc: "map_of subs (DepName dep) = Some depChart" using 3(4) by auto
      then have "safe (render L (DepAlias dep) t capabilities release depChart (Some depValues))"
        using 3(2) [OF en en' dv dc] 3(5) by blast
      moreover have "safe (renderDependencies L t capabilities release subs deps (writeBack values dep dv'))"
        if "render L (DepAlias dep) t capabilities release depChart (Some depValues) = Ok (os, dv')" for os dv'
        using 3(3) [OF en en' dv dc that refl] 3(4,5) by simp
      ultimately show ?thesis using dc by (auto intro!: safe_obind)
    qed
    with rest show "safe (if \<not> enabled then renderDependencies L t capabilities release subs deps values
        else obind (dependencyValues values dep) (\<lambda>depValues. case map_of subs (DepName dep) of None \<Rightarrow> Panic nilPointer
        | Some depChart \<Rightarrow> obind (render L (DepAlias dep) t capabilities release depChart (Some depValues))
            (\<lambda>(depObjects, depValues). obind (renderDependencies L t capabilities release subs deps (writeBack values dep depValues))
              (\<lambda>(objects, values). Ok (depObjects @ objects, values)))))"
      by (auto intro!: safe_obind [OF safe_dependencyValues])
  qed simp
qed simp

section \<open>The stack\<close>

lemma parseSubCharts_cong:
  "(\<And>path ts. path \<in> set paths \<Longrightarrow> f path ts = g path ts) \<Longrightarrow> parseSubCharts f paths st = parseSubCharts g paths st"
proof (induction paths arbitrary: st)
  case (Cons path paths)
  then show ?case by (cases st) (auto intro!: obind_cong)
qed simp

text \<open>
  If every directory in a \<open>charts\<close> directory is smaller than the chart that has it, then a
  stack larger than the chart is enough: what is returned does not depend on it.
\<close>

lemma ParseChart_stack:
  assumes h: "\<And>p paths q. Find fsys (Clean (normalPath p @ ''/charts'')) ''*'' FileTypeDir 1 = Ok paths \<Longrightarrow>
      q \<in> set paths \<Longrightarrow> h (normalPath q) < (h (normalPath p) :: nat)"
  shows "h (normalPath p) < n \<Longrightarrow> h (normalPath p) < m \<Longrightarrow>
      parseChart L fsys n p parentType ts = parseChart L fsys m p parentType ts"
proof (induction "h (normalPath p)" arbitrary: p n m parentType ts rule: less_induct)
  case less
  then obtain n' m' where nm: "n = Suc n'" "m = Suc m'" by (metis less_nat_zero_code not0_implies_Suc)
  have sub: "parseSubCharts (\<lambda>path ts. parseChart L fsys n' path ty ts) paths st
      = parseSubCharts (\<lambda>path ts. parseChart L fsys m' path ty ts) paths st"
    if "Find fsys (Clean (normalPath p @ ''/charts'')) ''*'' FileTypeDir 1 = Ok paths" for paths ty st
  proof (rule parseSubCharts_cong)
    fix path ts assume "path \<in> set paths"
    then have "h (normalPath path) < h (normalPath p)" using h that by blast
    then show "parseChart L fsys n' path ty ts = parseChart L fsys m' path ty ts"
      using less.hyps less.prems nm by (meson less_trans_Suc not_less_eq order_less_le_trans less_Suc_eq_le)
  qed
  show ?case unfolding nm parseChart.simps Let_def
    by (intro obind_cong refl) (auto intro!: obind_cong sub)
qed

section \<open>Properties\<close>

lemma parseTemplates_None:
  "parseTemplates L fsys b paths (ts, tmpls) = Ok (ts', tmpls') \<Longrightarrow> ts' = None \<longleftrightarrow> ts = None \<and> paths = []"
  by (induction paths arbitrary: ts tmpls) (auto simp: parseTemplate_def obind_Ok Let_def)

lemma parseSubCharts_None:
  "parseSubCharts parse paths (None, subs, deps) = Ok (ts', subs', deps') \<Longrightarrow> ts' = None"
  by (induction paths arbitrary: subs deps) (auto simp: obind_Ok)

lemma parseChart_without_templates:
  assumes "parseChart L fsys n chartPath parentType None = Ok c"
    and "Find fsys (Clean (normalPath chartPath @ ''/templates'')) ''[^_]*.yaml'' FileTypeRegular 0 = Ok []"
    and "Find fsys (Clean (normalPath chartPath @ ''/templates'')) ''_*'' FileTypeRegular 0 = Ok []"
  shows "t0 c = None"
proof (cases n)
  case (Suc n')
  from parseChart_Ok [OF assms(1) [unfolded Suc]] obtain ty crds' ts1 tmpls md paths ts2 subs deps vals' f where p:
      "readTemplates L fsys ty (normalPath chartPath) None = Ok (crds', ts1, tmpls)"
      "parseSubCharts (\<lambda>path ts. parseChart L fsys n' path (Some (MetaType md)) ts) paths (ts1, [], MetaDependencies md) = Ok (ts2, subs, deps)"
      "c = Chart (md\<lparr>MetaDependencies := map withAlias deps\<rparr>) subs vals' crds' ts2 tmpls f"
    by metis
  from p(1) have "ts1 = None" using assms(2,3) by (auto simp: readTemplates_def obind_Ok split: if_splits)
  then show ?thesis using parseSubCharts_None p(2,3) by (metis Chart.sel(5))
qed (use assms in simp)

text \<open>
  C30: if a chart has no template and no include file of its own, then the templates of its
  dependencies do not matter either: the chart that is parsed renders to the same objects,
  whatever text these templates would produce.
\<close>

theorem umbrella_renders_no_templates:
  assumes "ParseChart L stack (Some fsys) chartPath = Ok chart"
    and "Find fsys (Clean (normalPath chartPath @ ''/templates'')) ''[^_]*.yaml'' FileTypeRegular 0 = Ok []"
    and "Find fsys (Clean (normalPath chartPath @ ''/templates'')) ''_*'' FileTypeRegular 0 = Ok []"
  shows "Render (L\<lparr>ExecuteTemplate := ex\<rparr>) D chart release vals = Render L D chart release vals"
  using parseChart_without_templates [of L fsys stack chartPath None chart] assms
  by (simp add: Render_def RenderValues_def render_no_templates ParseChart_def)

text \<open>
  C29: a chart that was parsed can be rendered, with any values and any behaviour of the
  templates, without dereferencing a nil pointer: \<open>render\<close> uses the sub-chart of a dependency
  without a check, but parsing has made sure that there is one, on all levels.
\<close>

theorem Render_no_nil_pointer:
  assumes "ParseChart L stack fsys chartPath = Ok chart"
  shows "Render L' D chart release vals \<noteq> Panic ''invalid memory address or nil pointer dereference''"
proof -
  have "chart_resolved chart"
    using assms parseChart_resolved by (auto simp: ParseChart_def obind_Ok split: option.splits)
  then have "safe (Render L' D chart release vals)"
    by (auto simp: Render_def RenderValues_def split: option.split intro!: safe_obind render_safe)
  then show ?thesis by (simp add: safe_def)
qed

end
