(* ===== verification/Component_Context.thy ===== *)
theory Component_Context
  imports Component_Types
begin

text \<open>
  \<open>pkg/component/context.go\<close>: the values the reconciler passes to hooks and generators in a
  context. A context is the list of its values, the latest first, each under a key of its
  own; the getters assert the type of the value found. The clients are of a type \<open>'c\<close>.
\<close>

datatype contextKey =
    reconcilerNameContextKey | localClientContextKey | clientContextKey | componentContextKey
  | componentNameContextKey | componentNamespaceContextKey | componentDigestContextKey | componentRevisionContextKey

datatype 'c contextValue = VString string | VInt64 int | VClient 'c | VComponent Component

type_synonym 'c Context = "(contextKey \<times> 'c contextValue) list"

definition NewContext :: "'c Context" where
  "NewContext = []"

definition WithValue :: "contextKey \<Rightarrow> 'c contextValue \<Rightarrow> 'c Context \<Rightarrow> 'c Context" where
  "WithValue key val ctx = (key, val) # ctx"

definition WithReconcilerName :: "string \<Rightarrow> 'c Context \<Rightarrow> 'c Context" where
  "WithReconcilerName reconcilerName = WithValue reconcilerNameContextKey (VString reconcilerName)"

definition WithLocalClient :: "'c \<Rightarrow> 'c Context \<Rightarrow> 'c Context" where
  "WithLocalClient clnt = WithValue localClientContextKey (VClient clnt)"

definition WithClient :: "'c \<Rightarrow> 'c Context \<Rightarrow> 'c Context" where
  "WithClient clnt = WithValue clientContextKey (VClient clnt)"

definition WithComponent :: "Component \<Rightarrow> 'c Context \<Rightarrow> 'c Context" where
  "WithComponent component = WithValue componentContextKey (VComponent component)"

definition WithComponentName :: "string \<Rightarrow> 'c Context \<Rightarrow> 'c Context" where
  "WithComponentName componentName = WithValue componentNameContextKey (VString componentName)"

definition WithComponentNamespace :: "string \<Rightarrow> 'c Context \<Rightarrow> 'c Context" where
  "WithComponentNamespace componentNamespace = WithValue componentNamespaceContextKey (VString componentNamespace)"

definition WithComponentDigest :: "string \<Rightarrow> 'c Context \<Rightarrow> 'c Context" where
  "WithComponentDigest componentDigest = WithValue componentDigestContextKey (VString componentDigest)"

definition WithComponentRevision :: "int \<Rightarrow> 'c Context \<Rightarrow> 'c Context" where
  "WithComponentRevision componentRevision = WithValue componentRevisionContextKey (VInt64 componentRevision)"

definition stringFromContext :: "contextKey \<Rightarrow> string \<Rightarrow> 'c Context \<Rightarrow> goerr + string" where
  "stringFromContext key what ctx = (case map_of ctx key of
     Some (VString x) \<Rightarrow> Inr x | _ \<Rightarrow> Inl (Errorf (what @ '' not found in context'') []))"

definition ReconcilerNameFromContext :: "'c Context \<Rightarrow> goerr + string" where
  "ReconcilerNameFromContext = stringFromContext reconcilerNameContextKey ''reconciler name''"

definition LocalClientFromContext :: "'c Context \<Rightarrow> goerr + 'c" where
  "LocalClientFromContext ctx = (case map_of ctx localClientContextKey of
     Some (VClient clnt) \<Rightarrow> Inr clnt | _ \<Rightarrow> Inl (Errorf ''local client not found in context'' []))"

definition ClientFromContext :: "'c Context \<Rightarrow> goerr + 'c" where
  "ClientFromContext ctx = (case map_of ctx clientContextKey of
     Some (VClient clnt) \<Rightarrow> Inr clnt | _ \<Rightarrow> Inl (Errorf ''client not found in context'' []))"

definition ComponentFromContext :: "'c Context \<Rightarrow> goerr + Component" where
  "ComponentFromContext ctx = (case map_of ctx componentContextKey of
     Some (VComponent component) \<Rightarrow> Inr component | _ \<Rightarrow> Inl (Errorf ''component not found in context'' []))"

definition ComponentNameFromContext :: "'c Context \<Rightarrow> goerr + string" where
  "ComponentNameFromContext = stringFromContext componentNameContextKey ''component name''"

definition ComponentNamespaceFromContext :: "'c Context \<Rightarrow> goerr + string" where
  "ComponentNamespaceFromContext = stringFromContext componentNamespaceContextKey ''component namespace''"

definition ComponentDigestFromContext :: "'c Context \<Rightarrow> goerr + string" where
  "ComponentDigestFromContext = stringFromContext componentDigestContextKey ''component digest''"

definition ComponentRevisionFromContext :: "'c Context \<Rightarrow> goerr + int" where
  "ComponentRevisionFromContext ctx = (case map_of ctx componentRevisionContextKey of
     Some (VInt64 x) \<Rightarrow> Inr x | _ \<Rightarrow> Inl (Errorf ''component revision not found in context'' []))"

lemmas context_defs = NewContext_def WithValue_def WithReconcilerName_def WithLocalClient_def WithClient_def
  WithComponent_def WithComponentName_def WithComponentNamespace_def WithComponentDigest_def
  WithComponentRevision_def stringFromContext_def ReconcilerNameFromContext_def LocalClientFromContext_def
  ClientFromContext_def ComponentFromContext_def ComponentNameFromContext_def
  ComponentNamespaceFromContext_def ComponentDigestFromContext_def ComponentRevisionFromContext_def

text \<open>
  what a context was given last for a key is what it returns for it, and nothing else is
  affected; a key that was not given is an error. This covers the context that the target
  passes to the generator.
\<close>

theorem context_roundtrip:
  "let ctx = WithComponentRevision revision (WithComponentDigest digest (WithComponentNamespace ns (WithComponentName name
       (WithComponent component (WithClient clnt (WithLocalClient lclnt (WithReconcilerName reconciler (NewContext :: 'c Context))))))))
   in ReconcilerNameFromContext ctx = Inr reconciler \<and> LocalClientFromContext ctx = Inr lclnt \<and>
      ClientFromContext ctx = Inr clnt \<and> ComponentFromContext ctx = Inr component \<and> ComponentNameFromContext ctx = Inr name \<and>
      ComponentNamespaceFromContext ctx = Inr ns \<and> ComponentDigestFromContext ctx = Inr digest \<and>
      ComponentRevisionFromContext ctx = Inr revision \<and>
      ComponentNameFromContext (WithComponentName name' ctx) = Inr name' \<and>
      (\<exists>e. ComponentFromContext (WithReconcilerName reconciler (NewContext :: 'c Context)) = Inl e)"
  by (simp add: context_defs)

end
