(* ===== verification/Reconciler_Steps.thy ===== *)
theory Reconciler_Steps
  imports Reconciler_Apply
begin

text \<open>
  How the methods of the reconciler move the state. The locale \<open>rst_relation\<close> is the
  contract of a relation that every call through the client respects as long as the
  requests it sends are \<open>allowed\<close>; \<open>item_relation\<close> adds that changes of phase, status and
  time of an item respect it. The lemmas of the locales take such a relation through every
  method; the interpretations at the end are the relations the properties use: the
  inventory stays the same, all but phase, status and time of its items stays the same, and
  all requests satisfy a predicate.
\<close>

section \<open>Locales\<close>

text \<open>An item without what the apply and delete loops change.\<close>

definition core :: "InventoryItem \<Rightarrow> InventoryItem" where
  "core item = item\<lparr>ItemPhase := PhaseNone, ItemStatus := StatusNone, LastAppliedAt := None\<rparr>"

lemma core_simps [simp]:
  "core (item\<lparr>ItemPhase := p\<rparr>) = core item"
  "core (item\<lparr>ItemStatus := st\<rparr>) = core item"
  "core (item\<lparr>LastAppliedAt := t\<rparr>) = core item"
  "core (core item) = core item"
  by (simp_all add: core_def)

lemma core_sel [simp]:
  "Group (core item) = Group item" "Kind (core item) = Kind item" "Version (core item) = Version item"
  "Namespace (core item) = Namespace item" "Name (core item) = Name item"
  "ItemDeletePolicy (core item) = ItemDeletePolicy item" "Digest (core item) = Digest item"
  "ItemDeleteOrder (core item) = ItemDeleteOrder item" "ItemApplyOrder (core item) = ItemApplyOrder item"
  "ManagedTypes (core item) = ManagedTypes item" "object_id (core item) = object_id item"
  by (simp_all add: core_def object_id_def)

lemma step_if [step_rules]:
  "(b \<Longrightarrow> steps R m) \<Longrightarrow> (\<not> b \<Longrightarrow> steps R n) \<Longrightarrow> steps R (if b then m else n)"
  by simp

lemma step_option [step_rules]:
  "(x = None \<Longrightarrow> steps R m) \<Longrightarrow> (\<And>y. x = Some y \<Longrightarrow> steps R (f y)) \<Longrightarrow>
    steps R (case x of None \<Rightarrow> m | Some y \<Rightarrow> f y)"
  by (cases x) simp_all

lemma step_sum [step_rules]:
  "(\<And>y. x = Inl y \<Longrightarrow> steps R (f y)) \<Longrightarrow> (\<And>y. x = Inr y \<Longrightarrow> steps R (g y)) \<Longrightarrow>
    steps R (case x of Inl y \<Rightarrow> f y | Inr y \<Rightarrow> g y)"
  by (cases x) simp_all

lemma step_prod [step_rules]:
  "(\<And>a b. x = (a, b) \<Longrightarrow> steps R (f a b)) \<Longrightarrow> steps R (case x of (a, b) \<Rightarrow> f a b)"
  by (cases x) simp

lemma step_ctl [step_rules]:
  "(\<And>y. x = Next y \<Longrightarrow> steps R (f y)) \<Longrightarrow> (\<And>y. x = Break y \<Longrightarrow> steps R (g y)) \<Longrightarrow>
    (\<And>y. x = Return y \<Longrightarrow> steps R (h y)) \<Longrightarrow>
    steps R (case x of Next y \<Rightarrow> f y | Break y \<Rightarrow> g y | Return y \<Rightarrow> h y)"
  by (cases x) simp_all

lemma step_list [step_rules]:
  "(x = [] \<Longrightarrow> steps R m) \<Longrightarrow> (\<And>y ys. x = y # ys \<Longrightarrow> steps R (f y ys)) \<Longrightarrow>
    steps R (case x of [] \<Rightarrow> m | y # ys \<Rightarrow> f y ys)"
  by (cases x) simp_all

lemma step_Let [step_rules]: "(\<And>x. x = t \<Longrightarrow> steps R (f x)) \<Longrightarrow> steps R (Let t f)"
  by simp

text \<open>Where the pointer a function returns was not nil, more is known of it.\<close>

named_theorems step_binds \<open>rules for a bind that remember its first computation\<close>

lemma the_or_panic_simps [simp]:
  "the_or_panic (Some x) = ret x" "the_or_panic None = panic ''this cannot happen''"
  by (simp_all add: the_or_panic_def)

lemma the_or_panic_Ok [run_iffs]: "the_or_panic x s = (Ok y, s') \<longleftrightarrow> x = Some y \<and> s' = s"
  by (auto simp: the_or_panic_def run_simps split: option.splits)

text \<open>
  What the code relies on in third-party code: converting an object keeps its key, and a
  read returns the object with the requested key.
\<close>

definition unstructured_keeps :: "platform \<Rightarrow> bool" where
  "unstructured_keeps P \<longleftrightarrow> (\<forall>a b. ToUnstructured P a = Inr b \<longrightarrow> object_id b = object_id a)"

definition reads_keep :: "'w client \<Rightarrow> bool" where
  "reads_keep c \<longleftrightarrow>
     (\<forall>k w obj w'. Get c k w = (Inr obj, w') \<longrightarrow> object_id obj = object_id k) \<and>
     (\<forall>n w obj spec w'. GetCrd c n w = (Inr (obj, spec), w') \<longrightarrow> isCrd obj \<and> Name obj = n) \<and>
     (\<forall>n w obj spec w'. GetApiService c n w = (Inr (obj, spec), w') \<longrightarrow> isApiService obj \<and> Name obj = n)"

lemma reads_keepD:
  assumes "reads_keep c"
  shows "Get c k w = (Inr obj, w') \<Longrightarrow> object_id obj = object_id k"
    and "GetCrd c n w = (Inr (obj, crd), w') \<Longrightarrow> isCrd obj \<and> Name obj = n"
    and "GetApiService c n w = (Inr (obj, apiService), w') \<Longrightarrow> isApiService obj \<and> Name obj = n"
  using assms unfolding reads_keep_def by blast+

text \<open>Which requests a predicate on requests has to allow for a call to respect it.\<close>

fun is_delete :: "event \<Rightarrow> bool" where
  "is_delete (EDelete _ _ _) = True"
| "is_delete _ = False"

definition may_modify :: "(event \<Rightarrow> bool) \<Rightarrow> platform \<Rightarrow> 'a ObjectKey_scheme \<Rightarrow> bool" where
  "may_modify ok P key \<longleftrightarrow> (\<forall>e k. written_key e = Some k \<longrightarrow> \<not> is_delete e \<longrightarrow>
     (unstructured_keeps P \<longrightarrow> object_id k = object_id key) \<longrightarrow> ok e)"

definition may_release :: "(event \<Rightarrow> bool) \<Rightarrow> 'w client \<Rightarrow> 'a ObjectKey_scheme \<Rightarrow> bool" where
  "may_release ok c key \<longleftrightarrow> (\<forall>k rv fs e. (reads_keep c \<longrightarrow> GroupKindOf k = GroupKindOf key \<and> Name k = Name key)
     \<longrightarrow> ok (EFinalizerPatch k rv fs e))"

definition may_delete :: "(event \<Rightarrow> bool) \<Rightarrow> 'w Reconciler \<Rightarrow> string \<Rightarrow> 'a ObjectKey_scheme \<Rightarrow> Object option \<Rightarrow> bool" where
  "may_delete ok r hashedOwnerId key existing \<longleftrightarrow> \<not> foreignOwner r hashedOwnerId existing \<longrightarrow>
     (\<forall>e. ok (EDelete (ObjectKeyOf key) (map_option ResourceVersion existing) e))"

lemma may_modifyD: "may_modify ok P key \<Longrightarrow> written_key e = Some k \<Longrightarrow> \<not> is_delete e \<Longrightarrow>
    (unstructured_keeps P \<Longrightarrow> object_id k = object_id key) \<Longrightarrow> ok e"
  by (auto simp: may_modify_def)

lemma object_id_updates [simp]:
  "object_id (obj\<lparr>ManagedFields := m\<rparr>) = object_id obj"
  "object_id (obj\<lparr>ResourceVersion := rv\<rparr>) = object_id obj"
  "object_id (obj\<lparr>Finalizers := fs\<rparr>) = object_id obj"
  by (simp_all add: object_id_def)

lemma AddFinalizer_id [simp]: "object_id (fst (AddFinalizer P obj f)) = object_id obj"
  by (simp add: AddFinalizer_def split: prod.split)

lemma AddFinalizers_id [simp]:
  "object_id (fold (\<lambda>f obj. fst (AddFinalizer P obj f)) fs obj) = object_id obj"
  by (induction fs arbitrary: obj) simp_all

lemma RemoveFinalizer_key: "RemoveFinalizer P obj f = (obj', b) \<Longrightarrow> ObjectKeyOf obj' = ObjectKeyOf obj"
  by (auto simp: RemoveFinalizer_def ObjectKeyOf_def ObjectKey.truncate_def split: prod.splits)

locale rst_relation = step_relation R
  for R :: "'w rst \<Rightarrow> 'w rst \<Rightarrow> bool" +
  fixes allowed :: "event \<Rightarrow> bool"
  assumes allow_reads: "\<not> is_write e \<Longrightarrow> allowed e"
    and event: "allowed e \<Longrightarrow> R s (s\<lparr>world := w, trace := trace s @ [e]\<rparr>)"
begin

lemma steps_bind_the [step_binds]:
  "(\<And>x. y = Some x \<Longrightarrow> steps R (f x)) \<Longrightarrow> steps R (bind (the_or_panic y) f)"
  by (cases y) (simp_all add: steps_panic)

lemma steps_bind_sum [step_binds]:
  "(\<And>x. y = Inr x \<Longrightarrow> steps R (f x)) \<Longrightarrow> steps R (bind (lift_sum y) f)"
  by (cases y) (simp_all add: steps_fail)

lemma steps_the_or_panic [step_rules]: "steps R (the_or_panic y)"
  by (cases y) (simp_all add: steps_panic steps_ret)

lemma R_emit: "allowed e \<Longrightarrow> R s (emit_state e s)"
  using event [of e s "world s"] by (simp add: emit_state_def)

lemma R_record: "R s (emit_state (ERecord k t) s)"
  by (rule R_emit, rule allow_reads) simp

lemma steps_call: "(\<And>x. allowed (ev x)) \<Longrightarrow> steps R (call oper ev)"
  by (auto simp: steps_def call_def event split: prod.splits)

lemma steps_read [step_rules]: "(\<And>x. \<not> is_write (ev x)) \<Longrightarrow> steps R (call oper ev)"
  by (rule steps_call, rule allow_reads)

lemma steps_count [step_rules]: "steps R (count r c)"
  by (auto simp: count_def emit_def steps_def run_simps intro!: refl R_emit allow_reads)

lemma steps_defer_record [step_rules]:
  "steps R m \<Longrightarrow> (\<And>e s. d e s = s \<or> (\<exists>k t. d e s = emit_state (ERecord k t) s)) \<Longrightarrow>
    steps R (with_defer m d)"
  by (rule steps_defer) (metis R_record refl)+

lemma steps_readObject [step_rules]: "steps R (readObject r key)"
  unfolding readObject_def by ((rule step_rules)+, simp?)+

lemma steps_anyTypeUsed [step_rules]: "steps R (anyTypeUsed r gvks sel)"
  unfolding anyTypeUsed_def listNonEmpty_def by ((rule step_rules)+, simp?)+

lemma steps_isTypeUsed [step_rules]: "steps R (isTypeUsed P r gk h f)"
  unfolding isTypeUsed_def by ((rule step_rules)+, simp?)+

lemma steps_isCrdUsed [step_rules]: "steps R (isCrdUsed r crd h f)"
  unfolding isCrdUsed_def listNonEmpty_def by ((rule step_rules)+, simp?)+

lemma steps_isApiServiceUsed [step_rules]: "steps R (isApiServiceUsed P r a h f)"
  unfolding isApiServiceUsed_def by ((rule step_rules)+, simp?)+

lemma steps_UpdateFinalizers:
  "(\<And>e. allowed (EFinalizerPatch (ObjectKeyOf obj) (ResourceVersion obj) (Finalizers obj) e)) \<Longrightarrow>
    steps R (UpdateFinalizers c obj f)"
  unfolding UpdateFinalizers_def by (intro steps_bind steps_call steps_of_option)

lemma steps_modify_call:
  assumes "may_modify allowed P key" and "\<And>x. \<exists>k. written_key (ev x) = Some k \<and> \<not> is_delete (ev x) \<and>
      (unstructured_keeps P \<longrightarrow> object_id k = object_id key)"
  shows "steps R (call oper ev)"
  using assms by (intro steps_call) (metis may_modifyD)

lemma steps_convert:
  "(\<And>obj. (unstructured_keeps P \<Longrightarrow> object_id obj = object_id object) \<Longrightarrow> steps R (f obj)) \<Longrightarrow>
    steps R (bind (lift_sum (ToUnstructured P object)) f)"
  by (rule steps_bind_sum) (simp add: unstructured_keeps_def)

lemma steps_createObject:
  assumes "may_modify allowed P object"
  shows "steps R (createObject P r object policy)"
  unfolding createObject_def createObject_body_def Let_def
  by (intro steps_seq steps_count steps_defer_record steps_convert)
    (auto intro!: steps_bind [of "call _ _"] steps_of_option steps_modify_call [OF assms])

lemma steps_updateObject:
  assumes ok: "may_modify allowed P object"
  shows "steps R (updateObject P r object existing policy)"
proof -
  have patch: "steps R (bind (if b then bind m (\<lambda>res. bind (lift_sum res) (\<lambda>rv. ret (o'\<lparr>ResourceVersion := rv\<rparr>))) else ret o') f)"
    if "steps R m" "\<And>x. object_id x = object_id o' \<Longrightarrow> steps R (f x)"
    for b o' m and f :: "Object \<Rightarrow> ('w, unit) rcomp"
    using that by (auto simp: bind_assoc intro!: steps_bind steps_lift_sum)
  have "steps R (updateObject_body P r object existing policy)"
    unfolding updateObject_body_def Let_def
    by (intro step_if steps_panic steps_convert)
      (auto intro!: steps_bind [of "call _ _"] steps_bind [of "lift_sum (replaceFieldManager _ _ _ _)"] patch
        steps_lift_sum steps_of_option steps_modify_call [OF ok] split: prod.split)
  then show ?thesis
    unfolding updateObject_def
    by (intro steps_seq steps_count steps_defer_record) (auto split: option.split)
qed

lemma steps_removed:
  "RemoveFinalizer P obj f = (obj', b) \<Longrightarrow>
    (\<And>rv fs e. allowed (EFinalizerPatch (ObjectKeyOf obj) rv fs e)) \<Longrightarrow> steps R (UpdateFinalizers c obj' g)"
  by (drule RemoveFinalizer_key) (simp add: steps_UpdateFinalizers)

lemma steps_clearFinalizer:
  assumes get: "steps R get" and used: "\<And>sp. steps R (used sp)"
    and rel: "\<And>s obj sp s' rv fs e. get s = (Ok (Inr (obj, sp)), s') \<Longrightarrow> allowed (EFinalizerPatch (ObjectKeyOf obj) rv fs e)"
  shows "steps R (clearFinalizer_loop P r err get used)"
  unfolding clearFinalizer_loop_def Let_def
proof (intro steps_bind [OF steps_for_each] steps_bind_res [OF get] steps_ret step_sum step_prod step_if
    steps_bind used steps_fail steps_of_option steps_try)
  fix s res s' obj_sp obj sp obj' b
  assume "get s = (Ok res, s')" "res = Inr obj_sp" "obj_sp = (obj, sp)" "RemoveFinalizer P obj (finalizer r) = (obj', b)"
  then show "steps R (UpdateFinalizers (client r) obj' (fieldOwner r))"
    using rel by (auto intro: steps_removed)
qed

lemma call_result: "call oper ev s = (Ok x, s') \<Longrightarrow> \<exists>w w'. oper w = (x, w')"
  by (auto simp: call_def split: prod.splits)

lemma steps_deleteObject:
  assumes del: "may_delete allowed r h key existing" and rel: "may_release allowed (client r) key"
  shows "steps R (deleteObject P r key existing h)"
proof -
  have crd: "steps R (clearFinalizer_loop P r err (call (GetCrd (client r) (Name key)) (\<lambda>_. EGetCrd (Name key)))
      (\<lambda>crd. isCrdUsed r crd h False))" if "isCrd key" for err
  proof (intro steps_clearFinalizer steps_read steps_isCrdUsed)
    fix s obj sp s' rv fs e
    assume "call (GetCrd (client r) (Name key)) (\<lambda>_. EGetCrd (Name key)) s = (Ok (Inr (obj, sp)), s')"
    then have "reads_keep (client r) \<longrightarrow> isCrd obj \<and> Name obj = Name key"
      by (auto dest!: call_result dest: reads_keepD)
    then show "allowed (EFinalizerPatch (ObjectKeyOf obj) rv fs e)"
      using that rel by (auto simp: may_release_def isCrd_def)
  qed simp
  have api: "steps R (clearFinalizer_loop P r err (call (GetApiService (client r) (Name key)) (\<lambda>_. EGetApiService (Name key)))
      (\<lambda>a. isApiServiceUsed P r a h False))" if "isApiService key" for err
  proof (intro steps_clearFinalizer steps_read steps_isApiServiceUsed)
    fix s obj sp s' rv fs e
    assume "call (GetApiService (client r) (Name key)) (\<lambda>_. EGetApiService (Name key)) s = (Ok (Inr (obj, sp)), s')"
    then have "reads_keep (client r) \<longrightarrow> isApiService obj \<and> Name obj = Name key"
      by (auto dest!: call_result dest: reads_keepD)
    then show "allowed (EFinalizerPatch (ObjectKeyOf obj) rv fs e)"
      using that rel by (auto simp: may_release_def isApiService_def)
  qed simp
  have call: "steps R (call (Delete (client r) (ObjectKeyOf key) (map_option ResourceVersion existing))
      (EDelete (ObjectKeyOf key) (map_option ResourceVersion existing)))"
    if "\<not> foreignOwner r h existing"
    using del that by (intro steps_call) (simp add: may_delete_def)
  have "steps R (deleteObject_body P r key existing h)"
    using call
    unfolding deleteObject_body_def Let_def foreignOwner_def [symmetric]
    by (intro step_if steps_fail steps_bind step_option steps_ret crd api)
  then show ?thesis
    unfolding deleteObject_def
    by (intro steps_seq steps_count steps_defer_record) (auto split: option.split)
qed

lemma steps_orphanObject:
  assumes "\<And>obj rv fs e. existing = Some obj \<Longrightarrow> allowed (EFinalizerPatch (ObjectKeyOf obj) rv fs e)"
  shows "steps R (orphanObject P r existing h)"
  unfolding orphanObject_def Let_def
  by (intro step_option steps_ret step_if step_prod) (erule steps_removed, simp add: assms)+

lemma steps_IsDeletionAllowed [step_rules]: "steps R (IsDeletionAllowed P r ownerId)"
  unfolding IsDeletionAllowed_def IsDeletionAllowed_types_def IsDeletionAllowed_item_def Let_def
  by ((rule step_rules)+, simp?)+

lemma steps_resolveScope [step_rules]: "steps R (resolveScope P r objects object)"
  unfolding resolveScope_def Let_def by ((rule step_rules)+, simp?)+

lemma steps_assignNamespaces [step_rules]: "steps R (assignNamespaces P r namespace done objects)"
  by (induction objects arbitrary: "done") (simp_all add: steps_ret steps_bind steps_resolveScope)

lemma steps_prepareObjects [step_rules]: "steps R (prepareObjects P r objects namespace)"
  unfolding prepareObjects_def by ((rule step_rules)+, simp?)+

lemma steps_addObject [step_rules]: "steps R (addObject P r h cd object c)"
  unfolding addObject_def by ((rule step_rules)+, simp?)+

lemma steps_createMissingNamespaces:
  assumes "\<And>n e. n \<in> set (findMissingNamespaces objects) \<Longrightarrow> allowed (ECreate (namespaceObject n) e)"
  shows "steps R (createMissingNamespaces r objects)"
  unfolding createMissingNamespaces_def createMissingNamespace_def Let_def
  by (intro step_if steps_seq steps_for_each steps_bind step_sum steps_ret steps_fail steps_map_err
      steps_of_option steps_read steps_call assms) simp_all

end

end
