(* ===== verification/Inventory_Lookup.thy ===== *)
theory Inventory_Lookup
  imports Reconciler_Util
begin

text \<open>
  The contract of the lookup in the inventory (\<open>getItem\<close> of \<open>pkg/reconciler/util.go\<close>) that
  the reconciler relies on, as the locale \<open>keyed_list\<close>: what it proves once and for all
  about replacing and appending items is used by \<open>Apply\<close>. The interpretation shows
  that \<open>getItem\<close> implements it for keys made of group, kind, namespace and name.
\<close>

locale keyed_list =
  fixes find :: "'i list \<Rightarrow> 'k \<Rightarrow> nat option option"
    and idof :: "'i \<Rightarrow> 'd" and idkey :: "'k \<Rightarrow> 'd"
  assumes found: "find xs key = Some (Some i) \<Longrightarrow> i < length xs \<and> idof (xs ! i) = idkey key"
    and missing: "find xs key = Some None \<longleftrightarrow> idkey key \<notin> idof ` set xs"
    and unique: "distinct (map idof xs) \<Longrightarrow> find xs key \<noteq> None"
begin

lemma found_iff:
  assumes "distinct (map idof xs)"
  shows "find xs key = Some (Some i) \<longleftrightarrow> i < length xs \<and> idof (xs ! i) = idkey key"
proof
  assume i: "i < length xs \<and> idof (xs ! i) = idkey key"
  then have "idkey key \<in> idof ` set xs" by (metis image_eqI nth_mem)
  then obtain j where "find xs key = Some (Some j)"
    using missing [of xs key] unique [OF assms, of key] by (cases "find xs key") auto
  moreover from this found have "j < length xs" "idof (xs ! j) = idkey key" by blast+
  then have "j = i" using i assms nth_eq_iff_index_eq [of "map idof xs" j i] by simp
  ultimately show "find xs key = Some (Some i)" by simp
qed (rule found)

lemma present:
  assumes "distinct (map idof xs)" and "idkey key \<in> idof ` set xs"
  obtains i where "find xs key = Some (Some i)" "i < length xs" "idof (xs ! i) = idkey key"
  using assms found_iff [of xs key] by (metis imageE in_set_conv_nth)

lemma ids_replace:
  assumes "find xs key = Some (Some i)" and "idof y = idkey key"
  shows "map idof (xs[i := y]) = map idof xs"
  using found [OF assms(1)] assms(2) by (simp add: map_update list_update_same_conv)

lemma distinct_append:
  assumes "find xs key = Some None" and "idof y = idkey key" and "distinct (map idof xs)"
  shows "distinct (map idof (xs @ [y]))"
  using assms missing [of xs key] by simp

end

lemma getItem_loop_Some: "getItem_loop items key k (Some j) =
    (if \<exists>item \<in> set items. Matches item key then None else Some (Some j))"
  by (induction items key k "Some j" rule: getItem_loop.induct) auto

lemma getItem_loop_None:
  "getItem_loop items key k None = Some (Some i) \<Longrightarrow> k \<le> i \<and> i - k < length items \<and> Matches (items ! (i - k)) key"
  "getItem_loop items key k None = Some None \<longleftrightarrow> (\<forall>item \<in> set items. \<not> Matches item key)"
  "distinct (map object_id items) \<Longrightarrow> getItem_loop items key k None \<noteq> None"
proof (induction items arbitrary: k)
  case (Cons item items)
  { case 1
    then show ?case
      using Cons.IH(1) [of "Suc k"]
      by (auto simp: getItem_loop_Some nth_Cons' Suc_diff_le split: if_splits)
  next
    case 2
    then show ?case using Cons.IH(2) [of "Suc k"] by (auto simp: getItem_loop_Some)
  next
    case 3
    then show ?case
      using Cons.IH(3) [of "Suc k"] by (auto simp: getItem_loop_Some Matches_iff) (metis imageI)
  }
qed simp_all

interpretation inv_list: keyed_list getItem object_id object_id
proof
  show "i < length xs \<and> object_id (xs ! i) = object_id key"
    if "getItem xs key = Some (Some i)" for xs i and key :: "'a ObjectKey_scheme"
    using that getItem_loop_None(1) [of xs key 0 i] by (simp add: getItem_def Matches_iff)
  show "getItem xs key = Some None \<longleftrightarrow> object_id key \<notin> object_id ` set xs"
    for xs and key :: "'a ObjectKey_scheme"
    using getItem_loop_None(2) [of xs key 0] by (auto simp: getItem_def Matches_iff image_iff dest: sym)
qed (simp add: getItem_def getItem_loop_None(3))

lemma mustGetItem_Some:
  "mustGetItem items key = Some i \<Longrightarrow> i < length items \<and> object_id (items ! i) = object_id key"
  using inv_list.found [of items key i] by (auto simp: mustGetItem_def split: option.splits)

lemma mustGetItem_present:
  assumes "wf_inventory items" and "object_id key \<in> object_id ` set items"
  obtains i where "mustGetItem items key = Some i"
proof -
  obtain i where "getItem items key = Some (Some i)"
    using assms by (auto simp: wf_inventory_def elim!: inv_list.present)
  then show ?thesis by (intro that [of i]) (simp add: mustGetItem_def)
qed

end
