(* ===== verification/Reconciler_Guard.thy ===== *)
theory Reconciler_Guard
  imports Reconciler_Steps Inventory_Lookup
begin

text \<open>
  What the methods of the reconciler ask of the API server. A guard \<open>ok K e\<close> says whether
  the request \<open>e\<close> may be sent when \<open>K\<close> is what has been read so far; \<open>safe\<close> extends it to the
  calls of a whole method. The locale \<open>guard\<close> is the contract of such a predicate,
  \<open>purge_guard\<close> and \<open>apply_guard\<close> what the deletion of redundant objects and the apply
  loop need of it; their lemmas take the guard through the loops, for every inventory.
  The interpretations are the guards the properties are about.
\<close>

section \<open>Traces\<close>

type_synonym facts = "((string \<times> string \<times> string \<times> string) \<times> Object option) set"

text \<open>What \<open>readObject\<close> makes of the answer to a read.\<close>

fun learn :: "event \<Rightarrow> facts \<Rightarrow> facts" where
  "learn (EGet k (Inr obj)) K = insert (object_id k, Some obj) K"
| "learn (EGet k (Inl err)) K =
     (if IsNoMatchError err \<or> IsNotFound err then insert (object_id k, None) K else K)"
| "learn _ K = K"

fun safe :: "(facts \<Rightarrow> event \<Rightarrow> bool) \<Rightarrow> facts \<Rightarrow> event list \<Rightarrow> bool" where
  "safe ok K [] = True"
| "safe ok K (e # es) = (ok K e \<and> safe ok (learn e K) es)"

lemma learn_mono: "K \<subseteq> learn e K"
  by (induction e K rule: learn.induct) auto

lemma learns_mono: "K \<subseteq> fold learn es K"
  by (induction es arbitrary: K) (use learn_mono in \<open>auto\<close>, blast)

lemma safe_append: "safe ok K (es @ fs) \<longleftrightarrow> safe ok K es \<and> safe ok (fold learn es K) fs"
  by (induction es arbitrary: K) auto

lemma safe_nth: "safe ok K es \<Longrightarrow> i < length es \<Longrightarrow> ok (fold learn (take i es) K) (es ! i)"
proof (induction es arbitrary: K i)
  case (Cons e es)
  then show ?case by (cases i) auto
qed simp

text \<open>What is known was read.\<close>

lemma learn_origin:
  "(i, x) \<in> fold learn es K \<Longrightarrow> (i, x) \<in> K \<or> (\<exists>j < length es. \<exists>k res. es ! j = EGet k res \<and> object_id k = i \<and>
     (case x of Some obj \<Rightarrow> res = Inr obj | None \<Rightarrow> \<exists>err. res = Inl err \<and> (IsNoMatchError err \<or> IsNotFound err)))"
proof (induction es arbitrary: K)
  case (Cons e es)
  consider "(i, x) \<in> learn e K"
    | j k res where "j < length es" "es ! j = EGet k res" "object_id k = i"
      "case x of Some obj \<Rightarrow> res = Inr obj | None \<Rightarrow> \<exists>err. res = Inl err \<and> (IsNoMatchError err \<or> IsNotFound err)"
    using Cons.IH [of "learn e K"] Cons.prems by auto
  then show ?case
  proof cases
    case 1
    then show ?thesis
      by (cases "(e, K)" rule: learn.cases) (fastforce split: if_splits)+
  next
    case 2
    then show ?thesis by (intro disjI2 exI [of _ "Suc j"]) auto
  qed
qed simp

section \<open>The relations\<close>

text \<open>
  \<open>tracked\<close>: starting from an inventory with the given cores, the cores stay and the calls
  are safe. \<open>quiet\<close>: the inventory is untouched and the calls are safe.
\<close>

definition tracked :: "(facts \<Rightarrow> event \<Rightarrow> bool) \<Rightarrow> facts \<Rightarrow> InventoryItem list \<Rightarrow> 'w rst \<Rightarrow> 'w rst \<Rightarrow> bool" where
  "tracked ok K cores s s' \<longleftrightarrow> map core (inventory s) = cores \<longrightarrow>
     map core (inventory s') = cores \<and> (\<exists>es. trace s' = trace s @ es \<and> safe ok K es)"

definition quiet :: "(facts \<Rightarrow> event \<Rightarrow> bool) \<Rightarrow> facts \<Rightarrow> 'w rst \<Rightarrow> 'w rst \<Rightarrow> bool" where
  "quiet ok K s s' \<longleftrightarrow> inventory s' = inventory s \<and> (\<exists>es. trace s' = trace s @ es \<and> safe ok K es)"

text \<open>What a read does.\<close>

lemma readObject_run:
  obtains res w ms where "Get (client r) (ObjectKeyOf key) (world s) = (res, w)"
    "ms = [] \<or> ms = [EMetric ReadCounter]"
    "readObject r key s = (case res of Inr obj \<Rightarrow> Ok (Some obj)
       | Inl err \<Rightarrow> if IsNoMatchError err \<or> IsNotFound err then Ok None else Err err,
       s\<lparr>world := w, trace := trace s @ ms @ [EGet (ObjectKeyOf key) res]\<rparr>)"
proof -
  obtain res w where "Get (client r) (ObjectKeyOf key) (world s) = (res, w)" by force
  then show ?thesis
    by (intro that [of res w "if metrics r ReadCounter then [EMetric ReadCounter] else []"])
      (auto simp: readObject_def seq_def bind_def count_def emit_def emit_state_def call_def run_simps
        split: sum.split)
qed

locale guard =
  fixes ok :: "facts \<Rightarrow> event \<Rightarrow> bool"
  assumes mono: "K \<subseteq> K' \<Longrightarrow> ok K e \<Longrightarrow> ok K' e"
    and reads: "\<not> is_write e \<Longrightarrow> ok K e"
begin

lemma safe_mono: "K \<subseteq> K' \<Longrightarrow> safe ok K es \<Longrightarrow> safe ok K' es"
proof (induction es arbitrary: K K')
  case (Cons e es)
  have "learn e K \<subseteq> learn e K'"
    using Cons.prems(1) by (cases "(e, K)" rule: learn.cases) auto
  then show ?case using Cons mono by auto
qed simp

lemma safe_reads: "\<forall>e \<in> set es. \<not> is_write e \<Longrightarrow> safe ok K es"
  by (induction es arbitrary: K) (simp_all add: reads)

lemma safe_trans: "safe ok K es \<Longrightarrow> safe ok K fs \<Longrightarrow> safe ok K (es @ fs)"
  using safe_mono [OF learns_mono] by (simp add: safe_append)

end

sublocale guard \<subseteq> q: rst_relation "quiet ok K" "ok K" for K
proof
  show "quiet ok K s u" if "quiet ok K s t" "quiet ok K t u" for s t u :: "'w rst"
    using that safe_trans by (fastforce simp: quiet_def)
qed (auto simp: quiet_def reads intro: exI [of _ "[]"])

sublocale guard \<subseteq> t: rst_relation "tracked ok K cores" "ok K" for K cores
proof
  show "tracked ok K cores s u" if "tracked ok K cores s t" "tracked ok K cores t u" for s t u :: "'w rst"
    using that safe_trans unfolding tracked_def by (metis append_assoc)
qed (auto simp: tracked_def reads intro: exI [of _ "[]"])

context guard begin

lemma tracked_gets [step_binds]:
  "(\<And>s :: 'w rst. map core (inventory s) = cores \<Longrightarrow> steps (tracked ok K cores) (f (g s))) \<Longrightarrow>
    steps (tracked ok K cores) (bind (gets g) f)"
  by (auto simp: steps_def bind_def tracked_def)

lemma tracked_upd [step_rules]:
  assumes "\<And>item. core (f item) = core item"
  shows "steps (tracked ok K cores) (upd_item k f)"
proof -
  have "map core (xs[k := f (xs ! k)]) = map core xs" for xs
    using assms by (cases "k < length xs") (simp_all add: map_update list_update_same_conv list_update_beyond)
  then show ?thesis
    by (auto simp: steps_def tracked_def upd_item_def intro!: exI [of _ "[]"])
qed

text \<open>After a read, its answer is known.\<close>

lemma tracked_read [step_binds]:
  fixes r :: "'w Reconciler"
  assumes "\<And>x. (\<And>obj. x = Some obj \<Longrightarrow> reads_keep (client r) \<Longrightarrow> object_id obj = object_id key) \<Longrightarrow>
    steps (tracked ok (insert (object_id key, x) K) cores) (f x)"
  shows "steps (tracked ok K cores) (bind (map_err w (readObject r key)) f)"
  unfolding steps_def
proof
  fix s :: "'w rst"
  obtain res w' ms where g: "Get (client r) (ObjectKeyOf key) (world s) = (res, w')"
    and ms: "ms = [] \<or> ms = [EMetric ReadCounter]"
    and run: "readObject r key s = (case res of Inr obj \<Rightarrow> Ok (Some obj)
       | Inl err \<Rightarrow> if IsNoMatchError err \<or> IsNotFound err then Ok None else Err err,
       s\<lparr>world := w', trace := trace s @ ms @ [EGet (ObjectKeyOf key) res]\<rparr>)" (is "_ = (_, ?t)")
    by (rule readObject_run)
  have es: "safe ok K (ms @ [EGet (ObjectKeyOf key) res])"
    using ms by (auto simp: reads)
  then have t: "tracked ok K cores s ?t" by (auto simp: tracked_def)
  have K': "fold learn (ms @ [EGet (ObjectKeyOf key) res]) K = learn (EGet (ObjectKeyOf key) res) K"
    using ms by auto
  have go: "tracked ok K cores s u"
    if "tracked ok (learn (EGet (ObjectKeyOf key) res) K) cores ?t u" for u :: "'w rst"
    using that es by (auto simp: tracked_def safe_append simp flip: K')
  show "tracked ok K cores s (snd (bind (map_err w (readObject r key)) f s))"
  proof (cases res)
    case (Inr obj)
    have "reads_keep (client r) \<Longrightarrow> object_id obj = object_id key"
      using g Inr by (auto dest: reads_keepD)
    then have "tracked ok (insert (object_id key, Some obj) K) cores ?t (snd (f (Some obj) ?t))"
      using assms [of "Some obj"] by (simp add: steps_def)
    then show ?thesis
      using go Inr by (auto simp: bind_def map_err_def run)
  next
    case (Inl err)
    then show ?thesis
      using go t assms [of None] by (auto simp: bind_def map_err_def run steps_def)
  qed
qed

end

section \<open>Deletion in waves\<close>

text \<open>
  What the two deletion loops need: a delete request for an item that is not to be kept,
  after a read that shows it is ours or gone, and the removal of the finalizer of an item's
  object, are allowed.
\<close>

locale purge_guard = guard ok for ok +
  fixes P :: platform and r :: "'w Reconciler" and h :: string and cores :: "InventoryItem list"
    and keep :: "InventoryItem \<Rightarrow> bool"
  assumes del: "core item \<in> set cores \<Longrightarrow> \<not> keep item \<Longrightarrow> object_id k = object_id item \<Longrightarrow>
      (object_id item, x) \<in> K \<Longrightarrow> \<not> foreignOwner r h x \<Longrightarrow> ok K (EDelete k (map_option ResourceVersion x) e)"
    and release: "core item \<in> set cores \<Longrightarrow>
      (reads_keep (client r) \<Longrightarrow> GroupKindOf k = GroupKindOf item \<and> Name k = Name item) \<Longrightarrow>
      ok K (EFinalizerPatch k rv fs e)"
begin

lemma steps_awaitDeletion: "steps (tracked ok K cores) (awaitDeletion P r h k item existing)"
  unfolding awaitDeletion_def by ((rule step_rules)+, simp?)+

lemma steps_orphanOrDelete:
  assumes item: "core item \<in> set cores" "(object_id item, existing) \<in> K"
    and keep: "keep item \<or> foreignOwner r h existing \<Longrightarrow> orphan"
    and id: "\<And>obj. existing = Some obj \<Longrightarrow> reads_keep (client r) \<Longrightarrow> object_id obj = object_id item"
  shows "steps (tracked ok K cores) (orphanOrDelete P r h k item existing orphan)"
proof -
  have "may_delete (ok K) r h item existing" if "\<not> orphan"
    using that keep item unfolding may_delete_def by (intro impI allI del) auto
  moreover have "may_release (ok K) (client r) item"
    using release item(1) by (auto simp: may_release_def)
  ultimately have "steps (tracked ok K cores) (deleteObject P r item existing h)" if "\<not> orphan"
    using that by (intro t.steps_deleteObject)
  moreover have "steps (tracked ok K cores) (orphanObject P r existing h)"
    using id by (intro t.steps_orphanObject release [OF item(1)]) (auto simp: object_id_def)
  ultimately show ?thesis
    unfolding orphanOrDelete_def
    by (intro step_if t.steps_seq t.steps_map_err t.steps_ret tracked_upd) auto
qed

lemma core_nth: "map core items = cores \<Longrightarrow> k < length cores \<Longrightarrow> core (items ! k) \<in> set cores"
  by auto

lemma steps_deleteRedundantStep:
  assumes k: "k < length cores"
    and keep: "\<And>item. keep item \<Longrightarrow> ItemDeletePolicy item = DeletePolicyOrphan \<or> ItemDeletePolicy item = DeletePolicyOrphanOnApply"
  shows "steps (tracked ok K cores) (deleteRedundantStep P r h k c)"
  unfolding deleteRedundantStep_def Let_def
  by (intro tracked_gets t.steps_bind step_if tracked_read steps_orphanOrDelete t.steps_ret steps_awaitDeletion
      core_nth [OF _ k]) (auto dest: keep)

lemma steps_deleteStep:
  assumes k: "k < length cores" and keep: "\<And>item. keep item \<Longrightarrow> orphanedOnDelete item"
  shows "steps (tracked ok K cores) (deleteStep P r h k c)"
  unfolding deleteStep_def Let_def
  by (intro tracked_gets t.steps_bind step_if tracked_read steps_orphanOrDelete t.steps_ret steps_awaitDeletion
      core_nth [OF _ k]) (auto dest: keep)

end

section \<open>Apply in waves\<close>

text \<open>
  What the completions and the apply loop need: requests on the objects of the inventory,
  deletions as before but irrespective of the delete policy.
\<close>

locale apply_guard = guard ok for ok +
  fixes P :: platform and r :: "'w Reconciler" and h :: string and cores :: "InventoryItem list"
  assumes modify: "core item \<in> set cores \<Longrightarrow> written_key e = Some k \<Longrightarrow> \<not> is_delete e \<Longrightarrow>
      (unstructured_keeps P \<Longrightarrow> object_id k = object_id item) \<Longrightarrow> ok K e"
    and del: "core item \<in> set cores \<Longrightarrow> object_id k = object_id item \<Longrightarrow>
      (object_id item, x) \<in> K \<Longrightarrow> \<not> foreignOwner r h x \<Longrightarrow> ok K (EDelete k (map_option ResourceVersion x) err)"
    and release: "core item \<in> set cores \<Longrightarrow>
      (reads_keep (client r) \<Longrightarrow> GroupKindOf k = GroupKindOf item \<and> Name k = Name item) \<Longrightarrow>
      ok K (EFinalizerPatch k rv fs err)"
begin

lemma core_nth: "map core items = cores \<Longrightarrow> k < length cores \<Longrightarrow> core (items ! k) \<in> set cores"
  by auto

lemma steps_delete:
  assumes item: "core item \<in> set cores" "object_id key = object_id item" "(object_id item, existing) \<in> K"
  shows "steps (tracked ok K cores) (deleteObject P r key existing h)"
proof (rule t.steps_deleteObject)
  show "may_delete (ok K) r h key existing"
    using item unfolding may_delete_def by (intro impI allI del) auto
  show "may_release (ok K) (client r) key"
    using item(2) unfolding may_release_def by (intro impI allI release [OF item(1)]) (auto simp: object_id_def)
qed

lemma steps_completeItem:
  "k < length cores \<Longrightarrow> steps (tracked ok K cores) (completeItem P r h k n)"
  unfolding completeItem_def
  by (intro tracked_gets step_if tracked_read t.steps_seq t.steps_map_err t.steps_ret tracked_upd
      steps_delete core_nth) auto

lemma steps_finishCompletions: "steps (tracked ok K cores) (finishCompletions P r h)"
  unfolding finishCompletions_def
  by (intro tracked_gets t.steps_bind t.steps_for_each t.steps_ret steps_completeItem) auto

lemma steps_reconcileObject:
  assumes item: "core item \<in> set cores" and id: "object_id object = object_id item"
  shows "steps (tracked ok K cores) (reconcileObject P r h ownerId object i item)"
proof -
  have [simp]: "object_id (ownedObject r h ownerId d object) = object_id item" for d
    using id by (simp add: ownedObject_def SetLabel_def SetAnnotation_def object_id_def)
  have "may_modify (ok K) P (ownedObject r h ownerId d object)" for K d
    unfolding may_modify_def by (auto intro: modify [OF item])
  then have "steps (tracked ok K cores) (createObject P r (ownedObject r h ownerId d object) p)"
      "steps (tracked ok K cores) (updateObject P r (ownedObject r h ownerId d object) ex p)" for K d p ex
    by (intro t.steps_createObject t.steps_updateObject; blast)+
  then show ?thesis
    unfolding reconcileObject_def Let_def
    by (intro tracked_read t.steps_bind [of K cores "call _ _"] t.steps_bind [of _ cores "call _ _"]
        t.steps_bind [of _ cores "map_err _ (lift_sum _)"]
        t.steps_read step_option t.steps_seq t.steps_map_err tracked_upd
        t.steps_ret step_if steps_delete [OF item] t.steps_lift_sum) auto
qed

lemma steps_countWave: "steps (tracked ok K cores) (countWave r wave c)"
  unfolding countWave_def Let_def
  by (intro t.steps_bind t.steps_for_each t.steps_gets t.steps_the_or_panic step_if t.steps_ret)

lemma steps_triggerCompletions: "steps (tracked ok K cores) (triggerCompletions r objects k)"
  unfolding triggerCompletions_def Let_def
  by (intro t.steps_bind t.steps_for_each t.steps_gets t.steps_the_or_panic step_if t.steps_ret
      t.steps_seq tracked_upd) simp

lemma steps_applyStep: "steps (tracked ok K cores) (applyStep P r h ownerId objects k c)"
  unfolding applyStep_def Let_def
  by (intro tracked_gets t.steps_bind_the t.steps_bind step_if steps_countWave t.steps_ret
      steps_reconcileObject steps_triggerCompletions core_nth) (auto dest: mustGetItem_Some)

lemma steps_applyObjects: "steps (tracked ok K cores) (applyObjects P r h ownerId objects)"
  unfolding applyObjects_def by (intro t.steps_bind t.steps_for_each steps_applyStep t.steps_ret)

end

text \<open>The deletion of redundant objects asks for less.\<close>

sublocale apply_guard \<subseteq> p: purge_guard ok P r h cores keep for keep
  by unfold_locales (blast intro: del release)+

context purge_guard begin

text \<open>A deletion loop followed by the removal of the items that are gone.\<close>

definition purged :: "'w rst \<Rightarrow> 'w rst \<Rightarrow> bool" where
  "purged s s' \<longleftrightarrow> map core (inventory s) = cores \<longrightarrow>
     subseq (map core (inventory s')) cores \<and> (\<exists>es. trace s' = trace s @ es \<and> safe ok {} es)"

lemma purged_loop:
  assumes "\<And>k c. k < length cores \<Longrightarrow> steps (tracked ok {} cores) (step k c)"
    and fin: "\<And>x s. snd (f x s) = s"
  shows "steps purged (bind (gets (\<lambda>s. length (inventory s))) (\<lambda>n.
    bind (for_each [0..<n] c step) (\<lambda>x. seq dropGoneItems (f x))))"
proof -
  have loop: "steps (tracked ok {} cores) (for_each [0..<length cores] c step)"
    using assms by (intro t.steps_for_each) simp
  have sub: "subseq (map core (filter g xs)) (map core xs)" for g xs
    by (simp add: subseq_map subseq_filter_left)
  show ?thesis
    unfolding steps_def
  proof
    fix s :: "'w rst"
    show "purged s (snd (bind (gets (\<lambda>s. length (inventory s))) (\<lambda>n.
      bind (for_each [0..<n] c step) (\<lambda>x. seq dropGoneItems (f x))) s))"
    proof (cases "map core (inventory s) = cores")
      case True
      obtain res t where run: "for_each [0..<length cores] c step s = (res, t)" by force
      have "tracked ok {} cores s t" using loop run by (rule stepsD)
      with True have "map core (inventory t) = cores" "\<exists>es. trace t = trace s @ es \<and> safe ok {} es"
        by (simp_all add: tracked_def)
      moreover have "length (inventory s) = length cores" using True by auto
      ultimately show ?thesis
        using run sub [of "\<lambda>item. ItemPhase item \<noteq> PhaseNone" "inventory t"]
        by (cases res) (auto simp: purged_def bind_def seq_def dropGoneItems_def fin)
    qed (simp add: purged_def)
  qed
qed

lemma purged_deleteRedundant:
  assumes "\<And>item. keep item \<Longrightarrow> ItemDeletePolicy item = DeletePolicyOrphan \<or> ItemDeletePolicy item = DeletePolicyOrphanOnApply"
  shows "steps purged (deleteRedundant P r h)"
  unfolding deleteRedundant_def using assms
  by (intro purged_loop steps_deleteRedundantStep) (auto simp: ret_def)

lemma purged_DeleteAll:
  assumes "\<And>item. keep item \<Longrightarrow> orphanedOnDelete item" and "h = Sha256base32 P ownerId"
  shows "steps purged (DeleteAll P r ownerId)"
  unfolding DeleteAll_def Let_def assms(2) [symmetric] using assms(1)
  by (intro purged_loop steps_deleteStep) auto

end

context apply_guard begin

lemma tracked_purged: "tracked ok {} cores s t \<Longrightarrow> p.purged s t"
  by (auto simp: tracked_def p.purged_def)

lemma purged_bind:
  fixes f :: "'x \<Rightarrow> ('w, 'y) rcomp"
  assumes m: "steps (tracked ok {} cores) m" and f: "\<And>x. steps p.purged (f x)"
  shows "steps p.purged (bind m f)"
  unfolding steps_def
proof
  fix s :: "'w rst"
  obtain res t where run: "m s = (res, t)" by force
  have st: "tracked ok {} cores s t" using m run by (rule stepsD)
  have "p.purged s u" if "p.purged t u" for u
    using st that unfolding tracked_def p.purged_def by (metis append_assoc safe_trans)
  then show "p.purged s (snd (bind m f s))"
    using tracked_purged [OF st] f by (cases res) (simp_all add: bind_def run steps_def)
qed

lemma purged_synchronize:
  assumes "\<And>n e. n \<in> set (findMissingNamespaces objects) \<Longrightarrow> ok {} (ECreate (namespaceObject n) e)"
  shows "steps p.purged (synchronize P r h ownerId objects)"
proof -
  have ret: "steps p.purged (ret x)" for x :: bool
    by (auto simp: steps_def ret_def p.purged_def intro: exI [of _ "[]"])
  show ?thesis
    unfolding synchronize_def Let_def seq_def
    by (intro purged_bind step_if ret p.purged_deleteRedundant [of "\<lambda>_. False"] steps_finishCompletions steps_applyObjects
        t.steps_createMissingNamespaces assms) auto
qed

end

end
