(* ===== verification/Prepare_Inventory.thy ===== *)
theory Prepare_Inventory
  imports Reconciler_Guard
begin

text \<open>
  The new inventory computed by \<open>Apply\<close>: what one object does to it (\<open>addObject\<close>), the
  keys and the well-formedness of the result, and the states in which the preparation ends.
\<close>

section \<open>One object\<close>

lemma object_id_updateItem [simp]: "object_id (updateItem P r object digest types item) = object_id object"
  by (simp add: updateItem_def object_id_def Let_def)

definition adds :: "platform \<Rightarrow> 'w Reconciler \<Rightarrow> string \<Rightarrow> string \<Rightarrow> Object \<Rightarrow>
    InventoryItem list \<times> nat \<Rightarrow> InventoryItem list \<times> nat \<Rightarrow> bool" where
  "adds P r h cd object = (\<lambda>(items, n) (items', n').
     \<exists>digest types. calculateObjectDigest P object cd (reconcilePolicyOf P r object) = Inr digest \<and>
       getManagedTypes object = Some types \<and>
       (case getItem items object of
          Some (Some k) \<Rightarrow> items' = items[k := updateItem P r object digest types (items ! k)] \<and> n' = n
        | Some None \<Rightarrow> items' = items @ [updateItem P r object digest types emptyItem] \<and> n' = Suc n
        | None \<Rightarrow> False))"

lemma addObject_Ok:
  assumes "addObject P r h cd object (items, n) s = (Ok x, s')"
  shows "\<exists>c'. x = Next c' \<and> adds P r h cd object (items, n) c'"
  using assms unfolding addObject_def
  by (auto simp: run_iffs adds_def elim!: run_elims split: option.splits)

text \<open>All objects.\<close>

definition addsAll :: "platform \<Rightarrow> 'w Reconciler \<Rightarrow> string \<Rightarrow> string \<Rightarrow> Object list \<Rightarrow>
    InventoryItem list \<times> nat \<Rightarrow> InventoryItem list \<times> nat \<Rightarrow> bool" where
  "addsAll P r h cd = chain (adds P r h cd)"

lemma addObjects_Ok:
  assumes "for_each objects (items, n) (addObject P r h cd) s = (Ok x, s')"
  shows "\<exists>items' n'. x = Next (items', n') \<and> addsAll P r h cd objects (items, n) (items', n')"
proof -
  have "\<exists>c'. x = Next c' \<and> chain (adds P r h cd) objects (items, n) c'"
    using assms by (rule for_each_chain) (use addObject_Ok in \<open>fastforce\<close>)
  then show ?thesis by (auto simp: addsAll_def)
qed

lemma adds_ids:
  assumes "adds P r h cd object (items, n) (items', n')"
  shows "map object_id items' = map object_id items \<and> n' = n \<and> object_id object \<in> object_id ` set items \<or>
    map object_id items' = map object_id items @ [object_id object] \<and> n' = Suc n \<and> object_id object \<notin> object_id ` set items"
proof (cases "getItem items object")
  case (Some found)
  show ?thesis
  proof (cases found)
    case None
    then show ?thesis using assms Some inv_list.missing [of items object] by (auto simp: adds_def)
  next
    case (Some k)
    with \<open>getItem items object = Some found\<close> have k: "getItem items object = Some (Some k)" by simp
    moreover have "object_id object \<in> object_id ` set items"
      using inv_list.found [OF k] by (metis image_eqI nth_mem)
    ultimately show ?thesis
      using assms inv_list.ids_replace [OF k] by (auto simp: adds_def)
  qed
qed (use assms in \<open>auto simp: adds_def\<close>)

lemma addsAll_ids:
  assumes "addsAll P r h cd objects (items, n) (items', n')"
  shows "n \<le> n'" and "n' = n \<Longrightarrow> map object_id items' = map object_id items"
    and "object_id ` set items' = object_id ` set items \<union> object_id ` set objects"
    and "wf_inventory items \<Longrightarrow> wf_inventory items'"
proof -
  have "n \<le> n' \<and> (n' = n \<longrightarrow> map object_id items' = map object_id items) \<and>
      object_id ` set items' = object_id ` set items \<union> object_id ` set objects \<and>
      (wf_inventory items \<longrightarrow> wf_inventory items')"
    using assms unfolding addsAll_def
  proof (induction objects arbitrary: items n)
    case (Cons object objects)
    then obtain items1 n1 where 1: "adds P r h cd object (items, n) (items1, n1)"
        and rest: "chain (adds P r h cd) objects (items1, n1) (items', n')"
      by auto
    have ids: "object_id ` set items1 = insert (object_id object) (object_id ` set items)"
      using adds_ids [OF 1] by (metis (no_types, lifting) insert_absorb list.simps(15) list.set_map rotate1.simps(2) set_rotate1)
    then show ?case
      using Cons.IH [OF rest] adds_ids [OF 1] by (auto simp: wf_inventory_def)
  qed simp
  then show "n \<le> n'" "n' = n \<Longrightarrow> map object_id items' = map object_id items"
    "object_id ` set items' = object_id ` set items \<union> object_id ` set objects"
    "wf_inventory items \<Longrightarrow> wf_inventory items'" by blast+
qed

section \<open>Sorting\<close>

text \<open>
  The documented behaviour of \<open>slices.SortBy\<close>: the result is a permutation, and with a
  comparison that is a strict weak order no element is greater than a later one.
\<close>

definition strict_weak :: "('a \<Rightarrow> 'a \<Rightarrow> bool) \<Rightarrow> bool" where
  "strict_weak gt \<longleftrightarrow> (\<forall>x. \<not> gt x x) \<and> (\<forall>x y z. gt x y \<longrightarrow> gt y z \<longrightarrow> gt x z)
     \<and> (\<forall>x y z. gt x z \<longrightarrow> gt x y \<or> gt y z)"

definition sorts :: "platform \<Rightarrow> bool" where
  "sorts P \<longleftrightarrow> (\<forall>gt n. distinct (SortPerm P gt n) \<and> set (SortPerm P gt n) = {..<n} \<and>
     (strict_weak gt \<longrightarrow> (\<forall>j < n. \<forall>i < j. \<not> gt (SortPerm P gt n ! i) (SortPerm P gt n ! j))))"

lemma SortPerm_perm: "sorts P \<Longrightarrow> mset (SortPerm P gt n) = mset [0..<n]"
  unfolding sorts_def by (subst set_eq_iff_mset_eq_distinct [symmetric]) auto

lemma mset_SortBy: "sorts P \<Longrightarrow> mset (SortBy P f xs) = mset xs"
proof -
  assume "sorts P"
  then have "mset (SortBy P f xs) = image_mset ((!) xs) (mset [0..<length xs])"
    by (simp add: SortBy_def SortPerm_perm)
  also have "\<dots> = mset (map ((!) xs) [0..<length xs])" by simp
  finally show ?thesis by (simp add: map_nth)
qed

lemma set_SortBy: "sorts P \<Longrightarrow> set (SortBy P f xs) = set xs"
  by (metis mset_SortBy set_mset_mset)

lemma length_SortBy: "sorts P \<Longrightarrow> length (SortBy P f xs) = length xs"
  by (metis mset_SortBy size_mset)

lemma SortBy_sorted:
  assumes "sorts P" and "strict_weak f" and "i < j" and "j < length xs"
  shows "\<not> f (SortBy P f xs ! i) (SortBy P f xs ! j)"
proof -
  have len: "length (SortPerm P gt n) = n" for gt n
    using SortPerm_perm [OF assms(1), of gt n] by (metis diff_zero length_upt size_mset)
  let ?gt = "\<lambda>i j. f (xs ! i) (xs ! j)"
  have "strict_weak ?gt" using assms(2) unfolding strict_weak_def by metis
  then have "\<not> ?gt (SortPerm P ?gt (length xs) ! i) (SortPerm P ?gt (length xs) ! j)"
    using assms(1,3,4) unfolding sorts_def by metis
  then show ?thesis using assms(3,4) by (simp add: SortBy_def len)
qed

lemma strict_weak_lex:
  fixes f g :: "'a \<Rightarrow> int"
  shows "strict_weak (\<lambda>x y. f x > f y \<or> f x = f y \<and> g x > g y)"
  by (auto simp: strict_weak_def)

lemma deleteGreater_strict_weak: "strict_weak (deleteGreater P)"
  using strict_weak_lex [of ItemDeleteOrder "\<lambda>x. getInt deletePriorities (GroupKindString P (GroupKindOf x))"]
  by (simp add: deleteGreater_def [abs_def] Let_def)

lemma applyGreater_strict_weak: "strict_weak (applyGreater P orderFunc)"
  using strict_weak_lex [of orderFunc "\<lambda>x. getInt applyPriorities (GroupKindString P (GroupKindOf x))"]
  by (simp add: applyGreater_def [abs_def] Let_def)

lemma wf_sortObjectsForDelete: "sorts P \<Longrightarrow> wf_inventory (sortObjectsForDelete P items) \<longleftrightarrow> wf_inventory items"
  unfolding wf_inventory_def sortObjectsForDelete_def
  by (metis mset_SortBy mset_map mset_eq_imp_distinct_iff)

section \<open>The preparation as a whole\<close>

lemma object_id_markObsolete [simp]: "object_id (markObsolete objects item) = object_id item"
  by (simp add: markObsolete_def object_id_def)

text \<open>The guard that allows reads only.\<close>

definition no_write :: "facts \<Rightarrow> event \<Rightarrow> bool" where
  "no_write K e \<longleftrightarrow> \<not> is_write e"

interpretation rd: guard no_write
  by unfold_locales (simp_all add: no_write_def)

lemma safe_no_write: "safe no_write K es \<longleftrightarrow> (\<forall>e \<in> set es. \<not> is_write e)"
  by (induction es arbitrary: K) (auto simp: no_write_def)

lemma quiet_reads:
  assumes "steps (quiet no_write {}) m" and "m s = (res, t)"
  obtains es where "inventory t = inventory s" "trace t = trace s @ es" "\<forall>e \<in> set es. \<not> is_write e"
  using stepsD [OF assms] by (auto simp: quiet_def safe_no_write)

definition newInventoryOf :: "platform \<Rightarrow> Object list \<Rightarrow> InventoryItem list \<Rightarrow> InventoryItem list" where
  "newInventoryOf P objects items = sortObjectsForDelete P (map (markObsolete objects) items)"

lemma prepareInventory_cases:
  assumes "prepareInventory P r h cd objects s = (res, t)"
  obtains (failed) es where "\<forall>n. res \<noteq> Ok n" "inventory t = inventory s"
      "trace t = trace s @ es" "\<forall>e \<in> set es. \<not> is_write e"
  | (accepted) n items es where "res = Ok n" "addsAll P r h cd objects (inventory s, 0) (items, n)"
      "validateInventory P (map (markObsolete objects) items) = None"
      "inventory t = newInventoryOf P objects items"
      "trace t = trace s @ es" "\<forall>e \<in> set es. \<not> is_write e"
proof -
  let ?loop = "for_each objects (inventory s, 0) (addObject P r h cd)"
  obtain x u where loop: "?loop s = (x, u)" by force
  have "steps (quiet no_write {}) ?loop" by (intro rd.q.steps_for_each rd.q.steps_addObject)
  then obtain es where es: "inventory u = inventory s" "trace u = trace s @ es" "\<forall>e \<in> set es. \<not> is_write e"
    using loop by (rule quiet_reads)
  have run: "prepareInventory P r h cd objects s = bind (\<lambda>_. (x, u)) (\<lambda>x. case x of
       Next (newInventory, numAdded) \<Rightarrow>
         (let newInventory = map (markObsolete objects) newInventory in
          seq (of_option (validateInventory P newInventory))
         (seq (modify (\<lambda>s. s\<lparr>inventory := sortObjectsForDelete P newInventory\<rparr>))
         (ret numAdded)))
     | _ \<Rightarrow> ret 0) s"
    unfolding prepareInventory_def by (simp add: bind_def loop)
  show ?thesis
  proof (cases x)
    case (Ok y)
    then obtain items n where y: "y = Next (items, n)" and adds: "addsAll P r h cd objects (inventory s, 0) (items, n)"
      using addObjects_Ok [of objects "inventory s" 0] loop by blast
    show ?thesis
    proof (cases "validateInventory P (map (markObsolete objects) items)")
      case None
      then show ?thesis
        using assms run Ok y adds es
        by (intro accepted [of n items es]) (auto simp: bind_def seq_def run_simps newInventoryOf_def)
    next
      case (Some e)
      then show ?thesis
        using assms run Ok y es by (intro failed [of es]) (auto simp: bind_def seq_def run_simps)
    qed
  qed (use assms run es in \<open>auto simp: bind_def intro!: failed [of es]\<close>)
qed

end
