(* ===== verification/Sample_Cluster.thy ===== *)
theory Sample_Cluster
  imports Prepare_Inventory
begin

text \<open>
  A concrete instance of the parameters: \<open>samplePlatform\<close> for the third-party functions and
  \<open>sampleClient\<close> for an API server that keeps a list of objects. It shows that the
  assumptions the theorems make on third-party code can hold, and the witnesses of the
  properties are evaluated on it. Nothing else depends on it.
\<close>

section \<open>Third-party functions\<close>

fun insortBy :: "('a \<Rightarrow> 'a \<Rightarrow> bool) \<Rightarrow> 'a \<Rightarrow> 'a list \<Rightarrow> 'a list" where
  "insortBy gt x [] = [x]"
| "insortBy gt x (y # ys) = (if gt x y then y # insortBy gt x ys else x # y # ys)"

definition insertionSort :: "('a \<Rightarrow> 'a \<Rightarrow> bool) \<Rightarrow> 'a list \<Rightarrow> 'a list" where
  "insertionSort gt xs = foldr (insortBy gt) xs []"

lemma mset_insortBy [simp]: "mset (insortBy gt x ys) = add_mset x (mset ys)"
  by (induction gt x ys rule: insortBy.induct) auto

lemma set_insortBy [simp]: "set (insortBy gt x ys) = insert x (set ys)"
  by (metis mset_insortBy set_mset_add_mset_insert set_mset_mset)

lemma mset_insertionSort [simp]: "mset (insertionSort gt xs) = mset xs"
  by (induction xs) (simp_all add: insertionSort_def)

lemma insertionSort_sorted:
  assumes "strict_weak gt"
  shows "sorted_wrt (\<lambda>x y. \<not> gt x y) (insertionSort gt xs)"
proof -
  have nt: "\<not> gt x y \<Longrightarrow> \<not> gt y z \<Longrightarrow> \<not> gt x z" for x y z
    using assms unfolding strict_weak_def by blast
  have asym: "gt x y \<Longrightarrow> \<not> gt y x" for x y
    using assms unfolding strict_weak_def by blast
  have "sorted_wrt (\<lambda>x y. \<not> gt x y) (insortBy gt x ys)" if "sorted_wrt (\<lambda>x y. \<not> gt x y) ys" for x ys
    using that
  proof (induction ys)
    case (Cons y ys)
    then show ?case using asym [of x y] nt [of x y] by auto
  qed simp
  then show ?thesis by (induction xs) (simp_all add: insertionSort_def)
qed

definition samplePlatform :: platform where
  "samplePlatform = \<lparr>ToKebab = (\<lambda>s. s),
     GroupKindString = (\<lambda>k. if Group k = '''' then Kind k else Kind k @ ''.'' @ Group k),
     GroupVersionKindString = (\<lambda>k. Group k @ ''/'' @ Version k @ '', Kind='' @ Kind k),
     GroupVersionString = (\<lambda>g v. if g = '''' then v else g @ ''/'' @ v),
     ParseGroupVersion = (\<lambda>s. Inr (takeWhile (\<lambda>c. c \<noteq> CHR ''/'') s, drop 1 (dropWhile (\<lambda>c. c \<noteq> CHR ''/'') s))),
     SortPerm = (\<lambda>gt n. insertionSort gt [0..<n]),
     Sha256 = (\<lambda>s. take 32 (s @ replicate 32 (CHR ''.''))),
     MarshalObject = (\<lambda>obj. Inr (Kind obj @ ''/'' @ Name obj)),
     ParseDuration = (\<lambda>s. Inl (Errorf ''time: invalid duration'' [AStr s])),
     ToUnstructured = Inr,
     CheckStringMaps = (\<lambda>_. (None, None)),
     SchemeRecognizes = (\<lambda>gvk. Kind gvk = ''ConfigMapList''),
     SchemeNew = (\<lambda>gvk. Inr (Kind gvk \<noteq> ''ConfigMapList'')),
     FromUnstructured = (\<lambda>obj. Inr (obj\<lparr>GoType := GoTyped\<rparr>)),
     GVKForObject = (\<lambda>obj. Inr (GroupVersionKindOf obj)),
     AddFinalizerTo = (\<lambda>fs f. if f \<in> set fs then (fs, False) else (fs @ [f], True)),
     RemoveFinalizerFrom = (\<lambda>fs f. (filter (\<lambda>x. x \<noteq> f) fs, f \<in> set fs)),
     FieldsFromJSON = (\<lambda>s. Inr {s}),
     FieldsToJSON = (\<lambda>_. Inr ''{}'')\<rparr>"

lemma samplePlatform_sorts: "sorts samplePlatform"
  unfolding sorts_def
proof (intro allI conjI impI)
  fix gt :: "nat \<Rightarrow> nat \<Rightarrow> bool" and n
  have [simp]: "SortPerm samplePlatform gt n = insertionSort gt [0..<n]" for gt n
    by (simp add: samplePlatform_def)
  have perm: "mset (insertionSort gt [0..<n]) = mset [0..<n]" by simp
  show "distinct (SortPerm samplePlatform gt n)"
    using mset_eq_imp_distinct_iff [OF perm] by simp
  show "set (SortPerm samplePlatform gt n) = {..<n}"
    using mset_eq_setD [OF perm] by (simp add: lessThan_atLeast0)
  fix i j assume "strict_weak gt" "i < j" "j < n"
  moreover have "length (insertionSort gt [0..<n]) = n"
    using mset_eq_length [OF perm] by simp
  ultimately show "\<not> gt (SortPerm samplePlatform gt n ! i) (SortPerm samplePlatform gt n ! j)"
    using insertionSort_sorted [of gt "[0..<n]"] by (simp add: sorted_wrt_iff_nth_less)
qed

lemma samplePlatform_keeps: "unstructured_keeps samplePlatform"
  by (simp add: unstructured_keeps_def samplePlatform_def)

section \<open>An API server\<close>

type_synonym cluster = "Object list \<times> int"

definition notFound :: goerr where
  "notFound = ApiError ReasonNotFound ''not found''"

definition lookup :: "ObjectKey \<Rightarrow> Object list \<Rightarrow> Object option" where
  "lookup k = List.find (\<lambda>obj. object_id obj = object_id k)"

definition store :: "Object \<Rightarrow> Object list \<Rightarrow> Object list" where
  "store obj objs = obj # filter (\<lambda>o'. object_id o' \<noteq> object_id obj) objs"

definition sampleClient :: "cluster client" where
  "sampleClient = \<lparr>Get = (\<lambda>k w. (case lookup k (fst w) of Some obj \<Rightarrow> Inr obj | None \<Rightarrow> Inl notFound, w)),
     GetCrd = (\<lambda>n w. (case List.find (\<lambda>obj. isCrd obj \<and> Name obj = n) (fst w) of
        Some obj \<Rightarrow> (case ObjBody obj of CrdBody spec \<Rightarrow> Inr (obj, spec) | _ \<Rightarrow> Inl notFound)
      | None \<Rightarrow> Inl notFound, w)),
     GetApiService = (\<lambda>n w. (case List.find (\<lambda>obj. isApiService obj \<and> Name obj = n) (fst w) of
        Some obj \<Rightarrow> (case ObjBody obj of ApiServiceBody spec \<Rightarrow> Inr (obj, spec) | _ \<Rightarrow> Inl notFound)
      | None \<Rightarrow> Inl notFound, w)),
     Create = (\<lambda>obj owner w. case lookup (ObjectKeyOf obj) (fst w) of
        Some _ \<Rightarrow> (Some (ApiError (ReasonOther 409) ''already exists''), w)
      | None \<Rightarrow> (None, store (obj\<lparr>ResourceVersion := ''1''\<rparr>) (fst w), snd w)),
     Update = (\<lambda>obj owner w. (None, store obj (fst w), snd w)),
     ApplyPatch = (\<lambda>obj owner force w. (None, store obj (fst w), snd w)),
     JsonPatch = (\<lambda>k patches owner w. (Inr ''2'', w)),
     FinalizerPatch = (\<lambda>k rv fs owner w. (None, w)),
     Delete = (\<lambda>k pre w. case lookup k (fst w) of
        Some _ \<Rightarrow> (None, filter (\<lambda>o'. object_id o' \<noteq> object_id k) (fst w), snd w)
      | None \<Rightarrow> (Some notFound, w)),
     List = (\<lambda>gvk sel w. (Inr (filter (\<lambda>obj. GroupVersionKindOf obj = gvk) (fst w)), w)),
     ServerPreferredResources = (\<lambda>w. (Inr [], w)),
     ServerResourcesForGroupVersion = (\<lambda>gv w. (Inr [], w)),
     RESTMapping = (\<lambda>gk v w. (Inr (if Kind gk = ''Namespace'' then RESTScopeRoot else RESTScopeNamespace), w)),
     Now = (\<lambda>w. (snd w, w))\<rparr>"

lemma sampleClient_keeps: "reads_keep sampleClient"
  unfolding reads_keep_def sampleClient_def lookup_def
  by (auto simp: find_Some_iff split: option.splits Body.splits)

definition sampleReconciler :: "cluster Reconciler" where
  "sampleReconciler = NewReconciler (\<lambda>_ _. Inr CurrentStatus) ''test.io'' sampleClient
     \<lparr>OptFieldOwner = None, OptFinalizer = None, OptAdoptionPolicy = None, OptUpdatePolicy = None,
      OptDeletePolicy = None, OptMissingNamespacesPolicy = Some MissingNamespacesPolicyDoNotCreate,
      OptAdditionalManagedTypes = [], OptReapplyInterval = None, OptStatusAnalyzer = None,
      OptMetrics = (\<lambda>_. False), OptEnableEvents = None\<rparr>"

definition sampleConfigMap :: "string \<Rightarrow> Object" where
  "sampleConfigMap name = \<lparr>Group = [], Kind = ''ConfigMap'', Version = ''v1'', Namespace = ''ns'', Name = name,
     GoType = GoTyped, GenerateName = [], Labels = [], Annotations = [], Finalizers = [],
     ResourceVersion = [], Generation = 0, DeletionTimestamp = None, ManagedFields = [],
     ObjBody = JsonBody []\<rparr>"

definition emptyState :: "cluster rst" where
  "emptyState = \<lparr>world = ([], 0), trace = [], inventory = []\<rparr>"

definition sampleApply :: "Object list \<Rightarrow> (cluster, bool) rcomp" where
  "sampleApply objs = Apply samplePlatform sampleReconciler objs ''ns'' ''owner'' ''d''"

text \<open>The state after the first \<open>Apply\<close> of one config map: it is in the inventory, nothing is written.\<close>

definition storedState :: "cluster rst" where
  "storedState = snd (sampleApply [sampleConfigMap ''a''] emptyState)"

lemma sampleReconciler_client [simp]: "client sampleReconciler = sampleClient"
  by (simp add: sampleReconciler_def NewReconciler_def)

text \<open>A state with two applied config maps, in two delete orders, and one that is gone.\<close>

definition sampleItem :: "string \<Rightarrow> int \<Rightarrow> InventoryItem" where
  "sampleItem name order = emptyItem\<lparr>Kind := ''ConfigMap'', Version := ''v1'', Namespace := ''ns'', Name := name,
     ItemDeletePolicy := DeletePolicyDelete, ItemDeleteOrder := order, Digest := ''d'', ItemPhase := PhaseReady\<rparr>"

definition sampleOwned :: "string \<Rightarrow> Object" where
  "sampleOwned name = (sampleConfigMap name)\<lparr>ResourceVersion := ''7'',
     Labels := [(''test.io/owner-id'', Sha256base32 samplePlatform ''owner'')]\<rparr>"

definition appliedState :: "cluster rst" where
  "appliedState = \<lparr>world = ([sampleOwned ''b''], 0), trace = [],
     inventory = [sampleItem ''a'' 0 \<lparr>ItemPhase := PhaseDeleting\<rparr>, sampleItem ''b'' 1]\<rparr>"

definition goneState :: "cluster rst" where
  "goneState = \<lparr>world = ([], 0), trace = [], inventory = [sampleItem ''a'' 0 \<lparr>ItemPhase := PhaseDeleting\<rparr>]\<rparr>"

end
