(* ===== verification/Helm_Hooks.thy ===== *)
theory Helm_Hooks
  imports Helm_Parse Component_Context Sample_Cluster
begin

text \<open>
  \<open>internal/helm/hooks.go\<close>, \<open>resources.go\<close>, and the generator of
  \<open>pkg/manifests/helm/generator.go\<close>: helm's annotations for hooks and resource policies are
  translated to the annotations by which the inner reconciler is controlled.
\<close>

section \<open>Hook and resource metadata\<close>

record HookMetadata =
  HookTypes :: "string list"
  HookWeight :: int
  HookDeletePolicies :: "string list"

record ResourceMetadata =
  ResourcePolicy :: string

abbreviation "HookTypePreInstall \<equiv> ''pre-install''"
abbreviation "HookTypePostInstall \<equiv> ''post-install''"
abbreviation "HookTypePreUpgrade \<equiv> ''pre-upgrade''"
abbreviation "HookTypePostUpgrade \<equiv> ''post-upgrade''"
abbreviation "HookTypePreDelete \<equiv> ''pre-delete''"
abbreviation "HookTypePostDelete \<equiv> ''post-delete''"
abbreviation "HookTypePreRollback \<equiv> ''pre-rollback''"
abbreviation "HookTypePostRollback \<equiv> ''post-rollback''"
abbreviation "HookTypeTest \<equiv> ''test''"
abbreviation "HookTypeTestSuccess \<equiv> ''test-success''"

abbreviation "HookDeletePolicyBeforeHookCreation \<equiv> ''before-hook-creation''"
abbreviation "HookDeletePolicyHookSucceeded \<equiv> ''hook-succeeded''"
abbreviation "HookDeletePolicyHookFailed \<equiv> ''hook-failed''"

definition HookMinWeight :: int where "HookMinWeight = - 100"
definition HookMaxWeight :: int where "HookMaxWeight = 100"

definition hookTypes :: "string list" where
  "hookTypes = [HookTypePreInstall, HookTypePostInstall, HookTypePreUpgrade, HookTypePostUpgrade, HookTypePreDelete,
     HookTypePostDelete, HookTypePreRollback, HookTypePostRollback, HookTypeTest, HookTypeTestSuccess]"

definition hookDeletePolicies :: "string list" where
  "hookDeletePolicies = [HookDeletePolicyBeforeHookCreation, HookDeletePolicyHookSucceeded, HookDeletePolicyHookFailed]"

definition checkValues :: "string \<Rightarrow> string list \<Rightarrow> string list \<Rightarrow> goerr option" where
  "checkValues msg valid xs = map_option (\<lambda>x. Errorf msg [AStr x]) (List.find (\<lambda>x. x \<notin> set valid) xs)"

definition hookWeightOf :: "(string \<times> string) list \<Rightarrow> goerr + int" where
  "hookWeightOf annotations = (case map_of annotations ''helm.sh/hook-weight'' of
     None \<Rightarrow> Inr 0
   | Some val \<Rightarrow> (case Atoi val of
       Inl err \<Rightarrow> Inl (Wrapf err ''invalid hook weight: %s'' [AStr val])
     | Inr hookWeight \<Rightarrow>
         (if hookWeight < HookMinWeight \<or> HookMaxWeight < hookWeight
          then Inl (Errorf ''invalid hook weight: %d (allowed range: %d..%d)'' [AInt hookWeight, AInt HookMinWeight, AInt HookMaxWeight])
          else Inr hookWeight)))"

definition ParseHookMetadata :: "Object \<Rightarrow> goerr + HookMetadata option" where
  "ParseHookMetadata object =
     (let annotations = Annotations object in
      case map_of annotations ''helm.sh/hook'' of
        None \<Rightarrow> Inr None
      | Some val \<Rightarrow>
          (let types = splitAt (CHR '','') val in
           case checkValues ''invalid hook type: %s'' hookTypes types of
             Some err \<Rightarrow> Inl err
           | None \<Rightarrow> (case hookWeightOf annotations of
               Inl err \<Rightarrow> Inl err
             | Inr hookWeight \<Rightarrow>
                 (let policies = (case map_of annotations ''helm.sh/hook-delete-policy'' of
                        Some p \<Rightarrow> splitAt (CHR '','') p | None \<Rightarrow> [HookDeletePolicyBeforeHookCreation]) in
                  case (if map_of annotations ''helm.sh/hook-delete-policy'' = None then None
                        else checkValues ''invalid hook deletion policy: %s'' hookDeletePolicies policies) of
                    Some err \<Rightarrow> Inl err
                  | None \<Rightarrow> Inr (Some \<lparr>HookTypes = types, HookWeight = hookWeight, HookDeletePolicies = policies\<rparr>)))))"

definition ResourcePolicyKeep :: string where "ResourcePolicyKeep = ''keep''"

text \<open>The result is never nil, although the comment says so.\<close>

definition ParseResourceMetadata :: "Object \<Rightarrow> goerr + ResourceMetadata option" where
  "ParseResourceMetadata object = (case map_of (Annotations object) ''helm.sh/resource-policy'' of
     None \<Rightarrow> Inr (Some \<lparr>ResourcePolicy = ''''\<rparr>)
   | Some policy \<Rightarrow> if policy = ResourcePolicyKeep then Inr (Some \<lparr>ResourcePolicy = policy\<rparr>)
       else Inl (Errorf ''invalid resource policy: %s'' [AStr policy]))"

section \<open>Translation\<close>

type_synonym annotations = "(string \<times> string) list"

text \<open>The policy, the order and, if the hook is to be deleted when it succeeded, the purge order.\<close>

definition setOrders :: "string \<Rightarrow> string \<Rightarrow> int \<Rightarrow> int option \<Rightarrow> annotations \<Rightarrow> annotations" where
  "setOrders reconcilerName policy applyOrder purgeOrder annotations =
     (let annotations = AList.update (reconcilerName @ ''/'' @ AnnotationKeySuffixReconcilePolicy) policy annotations;
          annotations = AList.update (reconcilerName @ ''/'' @ AnnotationKeySuffixApplyOrder) (Itoa applyOrder) annotations
      in case purgeOrder of
           None \<Rightarrow> annotations
         | Some n \<Rightarrow> AList.update (reconcilerName @ ''/'' @ AnnotationKeySuffixPurgeOrder) (Itoa n) annotations)"

definition preOrder :: "HookMetadata \<Rightarrow> int" where
  "preOrder md = HookWeight md - HookMaxWeight - 1"

definition postOrder :: "HookMetadata \<Rightarrow> int" where
  "postOrder md = HookWeight md - HookMinWeight + 1"

definition lastOrder :: int where
  "lastOrder = HookMaxWeight - HookMinWeight + 1"

definition purgeOrder :: "HookMetadata \<Rightarrow> int \<Rightarrow> int option" where
  "purgeOrder md n = (if HookDeletePolicyHookSucceeded \<in> set (HookDeletePolicies md) then Some n else None)"

text \<open>One switch, for the pair of hook types \<open>pre\<close> and \<open>post\<close>: \<open>None\<close> if neither is there.\<close>

definition hookSwitch :: "string \<Rightarrow> HookMetadata \<Rightarrow> string \<Rightarrow> string \<Rightarrow> string \<Rightarrow> annotations \<Rightarrow> annotations option" where
  "hookSwitch reconcilerName md pre post policy annotations =
     (let types = set (HookTypes md) in
      if pre \<in> types \<and> post \<in> types
      then Some (setOrders reconcilerName policy (preOrder md) (purgeOrder md lastOrder) annotations)
      else if pre \<in> types then Some (setOrders reconcilerName policy (preOrder md) (purgeOrder md (- 1)) annotations)
      else if post \<in> types then Some (setOrders reconcilerName policy (postOrder md) (purgeOrder md lastOrder) annotations)
      else None)"

text \<open>
  The part for hooks: \<open>None\<close> if the object is to be left out. \<open>remove\<close> stands for \<open>Remove\<close>
  of sap/go-generics.
\<close>

definition translateHook :: "(string list \<Rightarrow> string \<Rightarrow> string list) \<Rightarrow> string \<Rightarrow> string \<Rightarrow> bool \<Rightarrow> HookMetadata \<Rightarrow> annotations \<Rightarrow>
    goerr + annotations option" where
  "translateHook remove reconcilerName objectKey isInstall md annotations =
     (if HookTypePreDelete \<in> set (HookTypes md)
      then Inl (Errorf ''helm hook type %s not supported (object: %s)'' [AStr HookTypePreDelete, AStr objectKey])
      else if HookTypePostDelete \<in> set (HookTypes md)
      then Inl (Errorf ''helm hook type %s not supported (object: %s)'' [AStr HookTypePostDelete, AStr objectKey])
      else let md = md\<lparr>HookTypes := remove (remove (remove (remove (HookTypes md) HookTypePreRollback) HookTypePostRollback)
                        HookTypeTest) HookTypeTestSuccess\<rparr> in
      if HookTypes md = [] then Inr None
      else if HookDeletePolicyHookFailed \<in> set (HookDeletePolicies md)
      then Inl (Errorf ''helm delete policy %s is not supported (object: %s)'' [AStr HookDeletePolicyHookFailed, AStr objectKey])
      else let annotations = (if HookDeletePolicyBeforeHookCreation \<in> set (HookDeletePolicies md)
                 then AList.update (reconcilerName @ ''/'' @ AnnotationKeySuffixUpdatePolicy) ''recreate'' annotations else annotations);
               install = hookSwitch reconcilerName md HookTypePreInstall HookTypePostInstall ''once'' annotations in
      if install = None \<and> isInstall then Inr None
      else let annotations = (case install of Some a \<Rightarrow> a | None \<Rightarrow> annotations) in
      if isInstall then Inr (Some annotations)
      else Inr (Some (case hookSwitch reconcilerName md HookTypePreUpgrade HookTypePostUpgrade ''on-object-or-component-change'' annotations of
          Some a \<Rightarrow> a | None \<Rightarrow> annotations)))"

text \<open>The body of the loop over the rendered objects.\<close>

definition translateObject :: "platform \<Rightarrow> (string list \<Rightarrow> string \<Rightarrow> string list) \<Rightarrow> string \<Rightarrow> bool \<Rightarrow> Object \<Rightarrow> goerr + Object option" where
  "translateObject P remove reconcilerName isInstall object =
     (let annotations = Annotations object in
      case List.find (\<lambda>(key, _). HasPrefix key (reconcilerName @ ''/'')) annotations of
        Some (key, _) \<Rightarrow> Inl (Errorf ''annotation %s must not be set (object: %s)'' [AStr key, AStr (ObjectKeyToString P object)])
      | None \<Rightarrow>
     (case ParseResourceMetadata object of
        Inl err \<Rightarrow> Inl err
      | Inr resourceMetadata \<Rightarrow>
          (let annotations = (case resourceMetadata of
               Some rm \<Rightarrow> if ResourcePolicy rm = ResourcePolicyKeep
                 then AList.update (reconcilerName @ ''/'' @ AnnotationKeySuffixDeletePolicy) ''orphan'' annotations else annotations
             | None \<Rightarrow> annotations);
               object = object\<lparr>Annotations := annotations\<rparr> in
     (case ParseHookMetadata object of
        Inl err \<Rightarrow> Inl err
      | Inr None \<Rightarrow> Inr (Some object)
      | Inr (Some md) \<Rightarrow> (case translateHook remove reconcilerName (ObjectKeyToString P object) isInstall md annotations of
          Inl err \<Rightarrow> Inl err
        | Inr None \<Rightarrow> Inr None
        | Inr (Some annotations) \<Rightarrow> Inr (Some (object\<lparr>Annotations := annotations\<rparr>)))))))"

fun translateObjects :: "platform \<Rightarrow> (string list \<Rightarrow> string \<Rightarrow> string list) \<Rightarrow> string \<Rightarrow> bool \<Rightarrow> Object list \<Rightarrow> goerr + Object list" where
  "translateObjects P remove reconcilerName isInstall [] = Inr []"
| "translateObjects P remove reconcilerName isInstall (object # objects) =
     (case translateObject P remove reconcilerName isInstall object of
        Inl err \<Rightarrow> Inl err
      | Inr translated \<Rightarrow> (case translateObjects P remove reconcilerName isInstall objects of
          Inl err \<Rightarrow> Inl err
        | Inr rest \<Rightarrow> Inr (case translated of None \<Rightarrow> rest | Some obj \<Rightarrow> obj # rest)))"

section \<open>The generator\<close>

text \<open>
  The template library depends on the two clients, for the functions that read from the
  cluster; \<open>discoveryOf\<close> is \<open>DiscoveryClient()\<close> of a client.
\<close>

definition Generate_helm_values :: "platform \<Rightarrow> (string list \<Rightarrow> string \<Rightarrow> string list) \<Rightarrow> ('c \<Rightarrow> 'c \<Rightarrow> 't helm_lib) \<Rightarrow> ('c \<Rightarrow> discovery) \<Rightarrow>
    't Chart \<Rightarrow> 'c Context \<Rightarrow> string \<Rightarrow> string \<Rightarrow> jmap option \<Rightarrow> (goerr, Object list \<times> jmap) outcome" where
  "Generate_helm_values P remove lib discoveryOf chart ctx namespace name parameters =
     obind (of_sum (ReconcilerNameFromContext ctx)) (\<lambda>reconcilerName.
     obind (of_sum (LocalClientFromContext ctx)) (\<lambda>localClient.
     obind (of_sum (ClientFromContext ctx)) (\<lambda>clnt.
     obind (of_sum (ComponentRevisionFromContext ctx)) (\<lambda>componentRevision.
     let isInstall = (componentRevision = 1) in
     obind (RenderValues (lib localClient clnt) (discoveryOf clnt) chart
        \<lparr>RelNamespace = namespace, RelName = name, RelService = reconcilerName, RelIsInstall = isInstall,
         RelIsUpgrade = \<not> isInstall, RelRevision = componentRevision\<rparr> parameters) (\<lambda>(renderedObjects, parameters).
     obind (of_sum (translateObjects P remove reconcilerName isInstall renderedObjects)) (\<lambda>objects.
     Ok (objects, parameters)))))))"

text \<open>The generator itself; who called it may see that the parameters have changed.\<close>

definition Generate_helm :: "platform \<Rightarrow> (string list \<Rightarrow> string \<Rightarrow> string list) \<Rightarrow> ('c \<Rightarrow> 'c \<Rightarrow> 't helm_lib) \<Rightarrow> ('c \<Rightarrow> discovery) \<Rightarrow>
    't Chart \<Rightarrow> 'c Context \<Rightarrow> string \<Rightarrow> string \<Rightarrow> jmap option \<Rightarrow> (goerr, Object list) outcome" where
  "Generate_helm P remove lib discoveryOf chart ctx namespace name parameters =
     obind (Generate_helm_values P remove lib discoveryOf chart ctx namespace name parameters) (\<lambda>(objects, _). Ok objects)"

section \<open>What the inner reconciler makes of it\<close>

text \<open>
  \<open>r\<close> is a reconciler with the name the generator uses. Its getters read the annotations
  at the keys with this name, where a rendered object must not have any.
\<close>

abbreviation (input) annotated :: "string \<Rightarrow> annotations \<Rightarrow> string \<Rightarrow> string option" where
  "annotated name ann sfx \<equiv> map_of ann (name @ ''/'' @ sfx)"

lemma unannotated:
  assumes "List.find (\<lambda>(key, _). HasPrefix key (name @ ''/'')) ann = None"
  shows "annotated name ann sfx = None"
proof (rule ccontr)
  assume "\<not> ?thesis"
  then obtain v where "(name @ ''/'' @ sfx, v) \<in> set ann" by (auto dest: map_of_SomeD)
  then show False using assms by (auto simp: find_None_iff HasPrefix_def)
qed

text \<open>The hook metadata of an object are those of its annotations, in particular the weight.\<close>

lemma ParseHookMetadata_weight:
  "ParseHookMetadata object = Inr (Some md) \<Longrightarrow> HookMinWeight \<le> HookWeight md \<and> HookWeight md \<le> HookMaxWeight"
  by (auto simp: ParseHookMetadata_def hookWeightOf_def Let_def HookMinWeight_def HookMaxWeight_def
      split: option.splits sum.splits if_splits)

lemma ParseHookMetadata_types:
  "ParseHookMetadata object = Inr (Some md) \<Longrightarrow> set (HookTypes md) \<subseteq> set hookTypes"
  by (auto simp: ParseHookMetadata_def checkValues_def Let_def find_None_iff split: option.splits sum.splits if_splits)

lemma ParseHookMetadata_cong:
  assumes "\<And>k. k \<in> {''helm.sh/hook'', ''helm.sh/hook-weight'', ''helm.sh/hook-delete-policy''} \<Longrightarrow>
      map_of ann k = map_of (Annotations object) k"
  shows "ParseHookMetadata (object\<lparr>Annotations := ann\<rparr>) = ParseHookMetadata object"
proof -
  have f: "map_of ann ''helm.sh/hook'' = map_of (Annotations object) ''helm.sh/hook''"
    "map_of ann ''helm.sh/hook-weight'' = map_of (Annotations object) ''helm.sh/hook-weight''"
    "map_of ann ''helm.sh/hook-delete-policy'' = map_of (Annotations object) ''helm.sh/hook-delete-policy''"
    by (rule assms; simp)+
  have ann: "Annotations (object\<lparr>Annotations := ann\<rparr>) = ann" by simp
  show ?thesis unfolding ParseHookMetadata_def hookWeightOf_def Let_def ann f ..
qed

text \<open>
  The types of a hook that are not ignored; whether a hook is one for upgrades in this run,
  and whether it runs before the other objects.
\<close>

definition activeTypes :: "HookMetadata \<Rightarrow> string set" where
  "activeTypes md = set (HookTypes md) - {HookTypePreRollback, HookTypePostRollback, HookTypeTest, HookTypeTestSuccess}"

definition isUpgradeHook :: "bool \<Rightarrow> HookMetadata \<Rightarrow> bool" where
  "isUpgradeHook isInstall md \<longleftrightarrow> \<not> isInstall \<and> activeTypes md \<inter> {HookTypePreUpgrade, HookTypePostUpgrade} \<noteq> {}"

definition isPreHook :: "bool \<Rightarrow> HookMetadata \<Rightarrow> bool" where
  "isPreHook isInstall md \<longleftrightarrow>
     (if isUpgradeHook isInstall md then HookTypePreUpgrade else HookTypePreInstall) \<in> activeTypes md"

text \<open>What a hook is translated to, by suffix.\<close>

definition hook_annotated :: "string \<Rightarrow> bool \<Rightarrow> HookMetadata \<Rightarrow> annotations \<Rightarrow> bool" where
  "hook_annotated name isInstall md ann \<longleftrightarrow>
     annotated name ann AnnotationKeySuffixReconcilePolicy =
       Some (if isUpgradeHook isInstall md then ''on-object-or-component-change'' else ''once'') \<and>
     annotated name ann AnnotationKeySuffixApplyOrder =
       Some (Itoa (if isPreHook isInstall md then preOrder md else postOrder md)) \<and>
     annotated name ann AnnotationKeySuffixUpdatePolicy =
       (if HookDeletePolicyBeforeHookCreation \<in> set (HookDeletePolicies md) then Some ''recreate'' else None) \<and>
     (if HookDeletePolicyHookSucceeded \<in> set (HookDeletePolicies md)
      then annotated name ann AnnotationKeySuffixPurgeOrder \<in> Some ` Itoa ` {- 1, lastOrder} \<and>
           (\<not> isPreHook isInstall md \<longrightarrow> annotated name ann AnnotationKeySuffixPurgeOrder = Some (Itoa lastOrder))
      else annotated name ann AnnotationKeySuffixPurgeOrder = None)"

lemma setOrders_lookup:
  "map_of (setOrders name policy n m ann) k =
     (if k = name @ ''/purge-order'' \<and> m \<noteq> None then map_option Itoa m
      else if k = name @ ''/apply-order'' then Some (Itoa n)
      else if k = name @ ''/reconcile-policy'' then Some policy else map_of ann k)"
  by (auto simp: setOrders_def Let_def update_conv' split: option.split)

lemma hookSwitch_eq:
  "hookSwitch name md pre post policy ann =
     (if pre \<in> set (HookTypes md) \<or> post \<in> set (HookTypes md)
      then Some (setOrders name policy (if pre \<in> set (HookTypes md) then preOrder md else postOrder md)
        (purgeOrder md (if pre \<in> set (HookTypes md) \<and> post \<notin> set (HookTypes md) then - 1 else lastOrder)) ann)
      else None)"
  by (simp add: hookSwitch_def)

lemma orders_types [simp]:
  "preOrder (md\<lparr>HookTypes := ts\<rparr>) = preOrder md" "postOrder (md\<lparr>HookTypes := ts\<rparr>) = postOrder md"
  "purgeOrder (md\<lparr>HookTypes := ts\<rparr>) n = purgeOrder md n"
  by (simp_all add: preOrder_def postOrder_def purgeOrder_def)

lemma active_remaining:
  assumes "\<And>xs x. set (remove xs x) = set xs - {x}"
  shows "set (remove (remove (remove (remove (HookTypes md) HookTypePreRollback) HookTypePostRollback) HookTypeTest) HookTypeTestSuccess)
    = activeTypes md"
  by (auto simp: assms activeTypes_def)

lemma activeTypes_cases:
  assumes "set (HookTypes md) \<subseteq> set hookTypes" "HookTypePreDelete \<notin> set (HookTypes md)" "HookTypePostDelete \<notin> set (HookTypes md)"
  shows "activeTypes md \<subseteq> {HookTypePreInstall, HookTypePostInstall, HookTypePreUpgrade, HookTypePostUpgrade}"
proof -
  have "X \<subseteq> {a, b, c, d, e, f, g, h, i, j} \<Longrightarrow> e \<notin> X \<Longrightarrow> f \<notin> X \<Longrightarrow> X - {g, h, i, j} \<subseteq> {a, b, c, d}" for X and a b c d e f g h i j :: string
    by blast
  from this [OF assms(1) [unfolded hookTypes_def list.set] assms(2,3)] show ?thesis unfolding activeTypes_def .
qed

lemma translateHook_annotated:
  assumes tr: "translateHook remove name objectKey isInstall md ann = Inr (Some ann')"
    and rem: "\<And>xs x. set (remove xs x) = set xs - {x}"
    and types: "set (HookTypes md) \<subseteq> set hookTypes"
    and fresh: "annotated name ann AnnotationKeySuffixUpdatePolicy = None" "annotated name ann AnnotationKeySuffixPurgeOrder = None"
  shows "hook_annotated name isInstall md ann'"
    and "sfx \<notin> {AnnotationKeySuffixReconcilePolicy, AnnotationKeySuffixApplyOrder, AnnotationKeySuffixUpdatePolicy,
           AnnotationKeySuffixPurgeOrder} \<Longrightarrow> annotated name ann' sfx = annotated name ann sfx"
proof -
  let ?md = "md\<lparr>HookTypes := remove (remove (remove (remove (HookTypes md) HookTypePreRollback) HookTypePostRollback)
                        HookTypeTest) HookTypeTestSuccess\<rparr>"
  let ?a = "if HookDeletePolicyBeforeHookCreation \<in> set (HookDeletePolicies ?md)
                 then AList.update (name @ ''/'' @ AnnotationKeySuffixUpdatePolicy) ''recreate'' ann else ann"
  have T: "set (HookTypes ?md) = activeTypes md" using active_remaining [OF rem] by simp
  have no: "HookTypePreDelete \<notin> set (HookTypes md)" "HookTypePostDelete \<notin> set (HookTypes md)"
    using tr by (auto simp: translateHook_def split: if_splits)
  note sub = activeTypes_cases [OF types no]
  have ne: "activeTypes md \<noteq> {}"
    using tr unfolding T [symmetric] by (auto simp: translateHook_def Let_def split: if_splits)
  define s1 where "s1 = hookSwitch name ?md HookTypePreInstall HookTypePostInstall ''once'' ?a"
  define x where "x = (case s1 of Some a \<Rightarrow> a | None \<Rightarrow> ?a)"
  define s2 where "s2 = hookSwitch name ?md HookTypePreUpgrade HookTypePostUpgrade ''on-object-or-component-change'' x"
  have "translateHook remove name objectKey isInstall md ann =
      (if HookTypes ?md = [] then Inr None
       else if HookDeletePolicyHookFailed \<in> set (HookDeletePolicies ?md)
       then Inl (Errorf ''helm delete policy %s is not supported (object: %s)'' [AStr HookDeletePolicyHookFailed, AStr objectKey])
       else if s1 = None \<and> isInstall then Inr None else if isInstall then Inr (Some x)
       else Inr (Some (case s2 of Some a \<Rightarrow> a | None \<Rightarrow> x)))"
    unfolding translateHook_def Let_def s2_def x_def s1_def by (simp only: no if_False)
  with tr have ann': "ann' = (if isInstall then x else case s2 of Some a \<Rightarrow> a | None \<Rightarrow> x)" and s1: "isInstall \<Longrightarrow> s1 \<noteq> None"
    by (simp_all split: if_splits)
  have a: "annotated name ?a AnnotationKeySuffixUpdatePolicy =
        (if HookDeletePolicyBeforeHookCreation \<in> set (HookDeletePolicies md) then Some ''recreate'' else None)"
      "annotated name ?a AnnotationKeySuffixPurgeOrder = None"
      "sfx \<noteq> AnnotationKeySuffixUpdatePolicy \<Longrightarrow> annotated name ?a sfx = annotated name ann sfx" for sfx
    using fresh by (simp_all add: update_conv')
  have x: "annotated name x AnnotationKeySuffixUpdatePolicy = annotated name ?a AnnotationKeySuffixUpdatePolicy"
      "sfx \<notin> {AnnotationKeySuffixReconcilePolicy, AnnotationKeySuffixApplyOrder, AnnotationKeySuffixPurgeOrder} \<Longrightarrow>
         annotated name x sfx = annotated name ?a sfx"
      "purgeOrder md lastOrder = None \<Longrightarrow> annotated name x AnnotationKeySuffixPurgeOrder = None" for sfx
    using a(2) unfolding x_def s1_def hookSwitch_eq T by (auto simp: setOrders_lookup purgeOrder_def split: if_splits)
  show "hook_annotated name isInstall md ann'"
  proof (cases "isUpgradeHook isInstall md")
    case True
    then have "ann' = setOrders name ''on-object-or-component-change'' (if isPreHook isInstall md then preOrder md else postOrder md)
        (purgeOrder md (if isPreHook isInstall md \<and> HookTypePostUpgrade \<notin> activeTypes md then - 1 else lastOrder)) x"
      unfolding ann' s2_def hookSwitch_eq T by (auto simp: isUpgradeHook_def isPreHook_def)
    then show ?thesis using True a(1) x(1,3)
      by (auto simp: hook_annotated_def setOrders_lookup purgeOrder_def)
  next
    case False
    then have inst: "HookTypePreInstall \<in> activeTypes md \<or> HookTypePostInstall \<in> activeTypes md"
      using s1 ne sub unfolding s1_def hookSwitch_eq T by (auto simp: isUpgradeHook_def)
    have "ann' = x" using False unfolding ann' s2_def hookSwitch_eq T by (auto simp: isUpgradeHook_def)
    also have "x = setOrders name ''once'' (if isPreHook isInstall md then preOrder md else postOrder md)
        (purgeOrder md (if isPreHook isInstall md \<and> HookTypePostInstall \<notin> activeTypes md then - 1 else lastOrder)) ?a"
      using inst False unfolding x_def s1_def hookSwitch_eq T by (auto simp: isPreHook_def)
    finally show ?thesis using False a by (auto simp: hook_annotated_def setOrders_lookup purgeOrder_def)
  qed
  show "annotated name ann' sfx = annotated name ann sfx"
    if "sfx \<notin> {AnnotationKeySuffixReconcilePolicy, AnnotationKeySuffixApplyOrder, AnnotationKeySuffixUpdatePolicy,
           AnnotationKeySuffixPurgeOrder}"
    using that x(2) a(3) unfolding ann' s2_def hookSwitch_eq T by (auto simp: setOrders_lookup)
qed

lemma delete_policy_key:
  "name @ ''/delete-policy'' \<notin> {''helm.sh/hook'', ''helm.sh/hook-weight'', ''helm.sh/hook-delete-policy''}"
proof -
  have "rev (name @ ''/delete-policy'') \<notin> rev ` {''helm.sh/hook'', ''helm.sh/hook-weight'', ''helm.sh/hook-delete-policy''}"
    by simp
  then show ?thesis by blast
qed

lemma translateObject_annotated:
  assumes tr: "translateObject P remove name isInstall object = Inr (Some obj)"
    and rem: "\<And>xs x. set (remove xs x) = set xs - {x}"
  shows "annotated name (Annotations obj) ''delete-policy'' =
      (if map_of (Annotations object) ''helm.sh/resource-policy'' = Some ''keep'' then Some ''orphan'' else None)" (is ?delete)
    and "sfx \<in> {''adoption-policy'', ''reapply-interval'', ''delete-order''} \<Longrightarrow> annotated name (Annotations obj) sfx = None"
    and "case ParseHookMetadata object of
        Inr (Some md) \<Rightarrow> hook_annotated name isInstall md (Annotations obj)
      | Inr None \<Rightarrow> (\<forall>sfx \<in> {''reconcile-policy'', ''update-policy'', ''apply-order'', ''purge-order''}.
          annotated name (Annotations obj) sfx = None)
      | Inl _ \<Rightarrow> False" (is ?hook)
proof -
  let ?keep = "map_of (Annotations object) ''helm.sh/resource-policy'' = Some ''keep''"
  define a1 where "a1 = (if ?keep then AList.update (name @ ''/delete-policy'') ''orphan'' (Annotations object) else Annotations object)"
  have none: "List.find (\<lambda>(key, _). HasPrefix key (name @ ''/'')) (Annotations object) = None"
    using tr by (cases "List.find (\<lambda>(key, _). HasPrefix key (name @ ''/'')) (Annotations object)")
      (auto simp: translateObject_def Let_def)
  have a1: "annotated name a1 sfx = (if sfx = ''delete-policy'' \<and> ?keep then Some ''orphan'' else None)" for sfx
    using unannotated [OF none] by (simp add: a1_def update_conv')
  have md: "ParseHookMetadata (object\<lparr>Annotations := a1\<rparr>) = ParseHookMetadata object"
    by (rule ParseHookMetadata_cong) (use delete_policy_key [of name] in \<open>auto simp: a1_def update_conv'\<close>)
  have eq: "translateObject P remove name isInstall object = (case ParseResourceMetadata object of
        Inl err \<Rightarrow> Inl err
      | Inr _ \<Rightarrow> (case ParseHookMetadata object of
          Inl err \<Rightarrow> Inl err
        | Inr None \<Rightarrow> Inr (Some (object\<lparr>Annotations := a1\<rparr>))
        | Inr (Some md) \<Rightarrow> (case translateHook remove name (ObjectKeyToString P (object\<lparr>Annotations := a1\<rparr>)) isInstall md a1 of
            Inl err \<Rightarrow> Inl err | Inr None \<Rightarrow> Inr None
          | Inr (Some ann) \<Rightarrow> Inr (Some (object\<lparr>Annotations := ann\<rparr>)))))"
    using none md
    by (auto simp: translateObject_def Let_def ParseResourceMetadata_def ResourcePolicyKeep_def a1_def
        split: option.split sum.split)
  consider "ParseHookMetadata object = Inr None" "Annotations obj = a1"
    | md ann key where "ParseHookMetadata object = Inr (Some md)" "Annotations obj = ann"
        "translateHook remove name key isInstall md a1 = Inr (Some ann)"
    using tr unfolding eq by (auto split: sum.splits option.splits)
  then show ?delete "sfx \<in> {''adoption-policy'', ''reapply-interval'', ''delete-order''} \<Longrightarrow> annotated name (Annotations obj) sfx = None" ?hook
  proof (atomize (full), cases)
    case 1
    then show "?delete \<and> (sfx \<in> {''adoption-policy'', ''reapply-interval'', ''delete-order''} \<longrightarrow> annotated name (Annotations obj) sfx = None) \<and> ?hook"
      using a1 by auto
  next
    case (2 md ann key)
    note h = translateHook_annotated [OF 2(3) rem ParseHookMetadata_types [OF 2(1)]]
    have "hook_annotated name isInstall md ann" by (rule h(1)) (use a1 in simp_all)
    moreover have "annotated name ann sfx = annotated name a1 sfx"
      if "sfx \<in> {''adoption-policy'', ''reapply-interval'', ''delete-order'', ''delete-policy''}" for sfx
      by (rule h(2)) (use that a1 in auto)
    ultimately show "?delete \<and> (sfx \<in> {''adoption-policy'', ''reapply-interval'', ''delete-order''} \<longrightarrow> annotated name (Annotations obj) sfx = None) \<and> ?hook"
      using 2 a1 by auto
  qed
qed

text \<open>The words the generator uses are in kebab case, which the getters of the reconciler keep.\<close>

definition keeps_kebab :: "platform \<Rightarrow> bool" where
  "keeps_kebab P \<longleftrightarrow> (\<forall>s \<in> {'''', ''once'', ''on-object-or-component-change'', ''recreate'', ''orphan''}. ToKebab P s = s)"

lemma getOrder_Itoa:
  "map_of (Annotations object) key = Some (Itoa n) \<Longrightarrow> - 1000 \<le> n \<Longrightarrow> n \<le> 1000 \<Longrightarrow> getOrder key absent object = Inr n"
  by (simp add: getOrder_def Atoi_Itoa checkRange_def minOrder_def maxOrder_def)

lemma getOrder_absent: "map_of (Annotations object) key = None \<Longrightarrow> getOrder key absent object = Inr absent"
  by (simp add: getOrder_def)

lemmas getter_defs = getAdoptionPolicy_def getReconcilePolicy_def getUpdatePolicy_def getDeletePolicy_def
  getReapplyInterval_def getApplyOrder_def getPurgeOrder_def getDeleteOrder_def

lemmas order_defs = preOrder_def postOrder_def lastOrder_def HookMinWeight_def HookMaxWeight_def

text \<open>The reconciler that reads the annotations.\<close>

lemma annotation_keys:
  "annotationKeyAdoptionPolicy (NewReconciler newStatusAnalyzer name clnt options) = name @ ''/'' @ ''adoption-policy''"
  "annotationKeyReconcilePolicy (NewReconciler newStatusAnalyzer name clnt options) = name @ ''/'' @ ''reconcile-policy''"
  "annotationKeyUpdatePolicy (NewReconciler newStatusAnalyzer name clnt options) = name @ ''/'' @ ''update-policy''"
  "annotationKeyDeletePolicy (NewReconciler newStatusAnalyzer name clnt options) = name @ ''/'' @ ''delete-policy''"
  "annotationKeyReapplyInterval (NewReconciler newStatusAnalyzer name clnt options) = name @ ''/'' @ ''reapply-interval''"
  "annotationKeyApplyOrder (NewReconciler newStatusAnalyzer name clnt options) = name @ ''/'' @ ''apply-order''"
  "annotationKeyPurgeOrder (NewReconciler newStatusAnalyzer name clnt options) = name @ ''/'' @ ''purge-order''"
  "annotationKeyDeleteOrder (NewReconciler newStatusAnalyzer name clnt options) = name @ ''/'' @ ''delete-order''"
  by (simp_all add: NewReconciler_def)

lemma kebab_simps:
  assumes "keeps_kebab P"
  shows "ToKebab P '''' = ''''" "ToKebab P ''once'' = ''once''" "ToKebab P ''recreate'' = ''recreate''"
    "ToKebab P ''orphan'' = ''orphan''" "ToKebab P ''on-object-or-component-change'' = ''on-object-or-component-change''"
  using assms by (simp_all add: keeps_kebab_def)

text \<open>Of an object that is no hook, of a hook, and of both.\<close>

lemma plain_getters:
  fixes newStatusAnalyzer name clnt options
  defines "r \<equiv> NewReconciler newStatusAnalyzer name clnt options"
  assumes n: "\<forall>sfx \<in> {''reconcile-policy'', ''update-policy'', ''apply-order'', ''purge-order''}. annotated name (Annotations obj) sfx = None"
    and P: "keeps_kebab P"
  shows "getReconcilePolicy P r obj = Inr (reconcilePolicy r)" "getUpdatePolicy P r obj = Inr (updatePolicy r)"
    "getApplyOrder r obj = Inr 0" "getPurgeOrder r obj = Inr (maxOrder + 1)"
  using n kebab_simps [OF P] unfolding r_def getter_defs annotation_keys getString_def Let_def getOrder_def
  by (simp_all del: append.simps)

lemma hook_orders:
  fixes md isInstall
  assumes "- 100 \<le> HookWeight md" "HookWeight md \<le> 100"
  defines "n \<equiv> if isPreHook isInstall md then preOrder md else postOrder md"
  shows "n = (if isPreHook isInstall md then HookWeight md - 101 else HookWeight md + 101)" "- 201 \<le> n" "n \<le> 201"
    "isPreHook isInstall md \<Longrightarrow> n < 0" "\<not> isPreHook isInstall md \<Longrightarrow> 0 < n"
  using assms by (auto simp: n_def order_defs)

lemma hook_getters:
  fixes newStatusAnalyzer name clnt options
  defines "r \<equiv> NewReconciler newStatusAnalyzer name clnt options"
  assumes h: "hook_annotated name isInstall md (Annotations obj)" and P: "keeps_kebab P"
    and w: "- 100 \<le> HookWeight md" "HookWeight md \<le> 100"
  shows "getApplyOrder r obj = Inr (if isPreHook isInstall md then preOrder md else postOrder md)"
    and "getReconcilePolicy P r obj = Inr (if isUpgradeHook isInstall md then ReconcilePolicyOnObjectOrComponentChange else ReconcilePolicyOnce)"
    and "getUpdatePolicy P r obj = Inr (if HookDeletePolicyBeforeHookCreation \<in> set (HookDeletePolicies md)
      then UpdatePolicyRecreate else updatePolicy r)"
proof -
  note k = kebab_simps [OF P]
  show "getApplyOrder r obj = Inr (if isPreHook isInstall md then preOrder md else postOrder md)"
    unfolding r_def getApplyOrder_def annotation_keys
    by (rule getOrder_Itoa) (use h hook_orders(2,3) [OF w, of isInstall] in \<open>simp_all add: hook_annotated_def\<close>)
  show "getReconcilePolicy P r obj = Inr (if isUpgradeHook isInstall md then ReconcilePolicyOnObjectOrComponentChange else ReconcilePolicyOnce)"
    using h k unfolding r_def getReconcilePolicy_def annotation_keys getString_def Let_def hook_annotated_def by (auto simp del: append.simps)
  show "getUpdatePolicy P r obj = Inr (if HookDeletePolicyBeforeHookCreation \<in> set (HookDeletePolicies md)
      then UpdatePolicyRecreate else updatePolicy r)"
    using h k unfolding r_def getUpdatePolicy_def annotation_keys getString_def Let_def hook_annotated_def by (auto simp del: append.simps)
qed

lemma Itoa_inj: "Itoa m = Itoa n \<Longrightarrow> - (2 ^ 63) \<le> m \<Longrightarrow> m < 2 ^ 63 \<Longrightarrow> - (2 ^ 63) \<le> n \<Longrightarrow> n < 2 ^ 63 \<Longrightarrow> m = n"
  by (metis Atoi_Itoa sum.inject(2))

lemma hook_purgeOrder:
  fixes newStatusAnalyzer name clnt options
  defines "r \<equiv> NewReconciler newStatusAnalyzer name clnt options"
  assumes h: "hook_annotated name isInstall md (Annotations obj)" and w: "- 100 \<le> HookWeight md" "HookWeight md \<le> 100"
  obtains m where "getPurgeOrder r obj = Inr m"
    "if HookDeletePolicyHookSucceeded \<in> set (HookDeletePolicies md)
     then (if isPreHook isInstall md then preOrder md else postOrder md) \<le> m \<and> m \<le> 201 else m = maxOrder + 1"
proof (cases "HookDeletePolicyHookSucceeded \<in> set (HookDeletePolicies md)")
  case True
  with h obtain m where m: "annotated name (Annotations obj) ''purge-order'' = Some (Itoa m)" "m \<in> {- 1, lastOrder}"
      "\<not> isPreHook isInstall md \<Longrightarrow> Itoa m = Itoa lastOrder"
    by (auto simp: hook_annotated_def)
  have "getPurgeOrder r obj = Inr m"
    unfolding r_def getPurgeOrder_def annotation_keys by (rule getOrder_Itoa) (use m in \<open>auto simp: order_defs\<close>)
  moreover have "m = lastOrder" if "\<not> isPreHook isInstall md"
    using m(2,3) that by (intro Itoa_inj) (auto simp: order_defs)
  ultimately show thesis using that [of m] True m(2) w by (cases "isPreHook isInstall md") (auto simp: order_defs)
next
  case False
  then have "getPurgeOrder r obj = Inr (maxOrder + 1)"
    unfolding r_def getPurgeOrder_def annotation_keys by (intro getOrder_absent) (use h in \<open>simp add: hook_annotated_def\<close>)
  then show thesis using that False by simp
qed

lemma translated_getters:
  fixes newStatusAnalyzer name clnt options
  defines "r \<equiv> NewReconciler newStatusAnalyzer name clnt options"
  assumes "translateObject P remove name isInstall object = Inr (Some obj)"
    and "\<And>xs x. set (remove xs x) = set xs - {x}" and P: "keeps_kebab P"
  shows "getDeletePolicy P r obj = Inr (if map_of (Annotations object) ''helm.sh/resource-policy'' = Some ''keep''
      then DeletePolicyOrphan else deletePolicy r)"
    and "getAdoptionPolicy P r obj = Inr (adoptionPolicy r)" "getReapplyInterval P r obj = Inr (reapplyInterval r)"
      "getDeleteOrder r obj = Inr 0"
proof -
  note t = translateObject_annotated [OF assms(2,3)] and k = kebab_simps [OF P]
  show "getDeletePolicy P r obj = Inr (if map_of (Annotations object) ''helm.sh/resource-policy'' = Some ''keep''
      then DeletePolicyOrphan else deletePolicy r)"
    using t(1) k unfolding r_def getDeletePolicy_def annotation_keys getString_def Let_def by (auto simp del: append.simps)
  show "getAdoptionPolicy P r obj = Inr (adoptionPolicy r)" "getReapplyInterval P r obj = Inr (reapplyInterval r)"
      "getDeleteOrder r obj = Inr 0"
    using t(2) k(1) unfolding r_def getter_defs annotation_keys getString_def Let_def getOrder_def by (simp_all del: append.simps)
qed

lemmas validation_defs = validateAnnotations_def errOf_def deletePolicyOf_def applyOrderOf_def purgeOrderOf_def
  reconcilePolicyOf_def updatePolicyOf_def

text \<open>
  C31: an object that the generator passes on satisfies the validation of the reconciler, and
  the reconciler gets from it what helm's annotations ask for: it is orphaned if its resource
  policy is keep; an object that is no hook has the default orders and policies; a hook is
  applied before all objects without an order if it is a pre-hook for this run, and after
  them otherwise, within each group by its weight; its policy is that of an upgrade or of an
  installation; it is recreated if it is to be deleted before its creation, and if it is to be
  deleted after it succeeded it is purged, not before it is applied.
\<close>

theorem helm_hooks_translated:
  assumes "translateObject P remove name isInstall object = Inr (Some obj)"
    and "\<And>xs x. set (remove xs x) = set xs - {x}" and "keeps_kebab P"
  shows "let r = NewReconciler newStatusAnalyzer name clnt options in
    validateAnnotations P r obj = None \<and>
    deletePolicyOf P r obj = (if map_of (Annotations object) ''helm.sh/resource-policy'' = Some ''keep''
      then DeletePolicyOrphan else deletePolicy r) \<and>
    (case ParseHookMetadata object of
       Inr (Some md) \<Rightarrow>
         applyOrderOf r obj = (if isPreHook isInstall md then HookWeight md - 101 else HookWeight md + 101) \<and>
         (if isPreHook isInstall md then applyOrderOf r obj < 0 else 0 < applyOrderOf r obj) \<and>
         reconcilePolicyOf P r obj = (if isUpgradeHook isInstall md
           then ReconcilePolicyOnObjectOrComponentChange else ReconcilePolicyOnce) \<and>
         updatePolicyOf P r obj = (if HookDeletePolicyBeforeHookCreation \<in> set (HookDeletePolicies md)
           then UpdatePolicyRecreate else updatePolicy r) \<and>
         (if HookDeletePolicyHookSucceeded \<in> set (HookDeletePolicies md)
          then applyOrderOf r obj \<le> purgeOrderOf r obj \<and> purgeOrderOf r obj \<le> 201
          else purgeOrderOf r obj = maxOrder + 1)
     | _ \<Rightarrow> applyOrderOf r obj = 0 \<and> purgeOrderOf r obj = maxOrder + 1 \<and>
         reconcilePolicyOf P r obj = reconcilePolicy r \<and> updatePolicyOf P r obj = updatePolicy r)"
proof -
  let ?r = "NewReconciler newStatusAnalyzer name clnt options"
  note fixed = translated_getters [OF assms, of newStatusAnalyzer clnt options]
    and t = translateObject_annotated(3) [OF assms(1,2)]
  consider "ParseHookMetadata object = Inr None" | md where "ParseHookMetadata object = Inr (Some md)"
    using t by (auto split: sum.splits option.splits)
  then show ?thesis
  proof cases
    case 1
    with t plain_getters [OF _ assms(3), where name = name and obj = obj and newStatusAnalyzer = newStatusAnalyzer and clnt = clnt and options = options] fixed show ?thesis
      by (simp add: Let_def validation_defs)
  next
    case (2 md)
    have w: "- 100 \<le> HookWeight md" "HookWeight md \<le> 100"
      using ParseHookMetadata_weight [OF 2] by (simp_all add: HookMinWeight_def HookMaxWeight_def)
    from t 2 have h: "hook_annotated name isInstall md (Annotations obj)" by simp
    obtain m where "getPurgeOrder ?r obj = Inr m" "if HookDeletePolicyHookSucceeded \<in> set (HookDeletePolicies md)
        then (if isPreHook isInstall md then preOrder md else postOrder md) \<le> m \<and> m \<le> 201 else m = maxOrder + 1"
      by (rule hook_purgeOrder [OF h w])
    with hook_getters [OF h assms(3) w, of newStatusAnalyzer clnt options] hook_orders [OF w, of isInstall] fixed 2 show ?thesis
      by (cases "isPreHook isInstall md"; cases "HookDeletePolicyHookSucceeded \<in> set (HookDeletePolicies md)")
        (simp_all add: Let_def validation_defs)
  qed
qed

text \<open>A hook for installations and upgrades, during an upgrade.\<close>

definition sampleHook :: Object where
  "sampleHook = (sampleConfigMap ''a'')\<lparr>Annotations := [(''helm.sh/hook'', ''pre-install,post-upgrade''),
     (''helm.sh/hook-weight'', ''-5''), (''helm.sh/hook-delete-policy'', ''hook-succeeded'')]\<rparr>"

definition sampleHookMetadata :: HookMetadata where
  "sampleHookMetadata = \<lparr>HookTypes = [''pre-install'', ''post-upgrade''], HookWeight = - 5, HookDeletePolicies = [''hook-succeeded'']\<rparr>"

lemma sampleHook_parsed: "ParseHookMetadata sampleHook = Inr (Some sampleHookMetadata)"
proof -
  have "Atoi ''-5'' = Inr (- 5)" "splitAt (CHR '','') ''pre-install,post-upgrade'' = [''pre-install'', ''post-upgrade'']" by code_simp+
  then show ?thesis
    by (simp add: ParseHookMetadata_def sampleHook_def hookWeightOf_def checkValues_def hookTypes_def hookDeletePolicies_def
        HookMinWeight_def HookMaxWeight_def sampleHookMetadata_def)
qed

lemma sampleHook_translated:
  "\<exists>obj. translateObject samplePlatform (\<lambda>xs x. removeAll x xs) ''test.io'' False sampleHook = Inr (Some obj)"
proof -
  have "List.find (\<lambda>(key, _). HasPrefix key (''test.io'' @ ''/'')) (Annotations sampleHook) = None"
    "map_of (Annotations sampleHook) ''helm.sh/resource-policy'' = None"
    by (simp_all add: sampleHook_def HasPrefix_def)
  then show ?thesis
    by (simp add: translateObject_def ParseResourceMetadata_def ResourcePolicyKeep_def sampleHook_parsed translateHook_def
        sampleHookMetadata_def hookSwitch_def Let_def)
qed

theorem helm_hooks_translated_witness:
  "\<exists>obj. translateObject samplePlatform (\<lambda>xs x. removeAll x xs) ''test.io'' False sampleHook = Inr (Some obj) \<and>
     applyOrderOf sampleReconciler obj = 96 \<and> purgeOrderOf sampleReconciler obj \<in> {96..201} \<and>
     reconcilePolicyOf samplePlatform sampleReconciler obj = ReconcilePolicyOnObjectOrComponentChange"
proof -
  obtain obj where obj: "translateObject samplePlatform (\<lambda>xs x. removeAll x xs) ''test.io'' False sampleHook = Inr (Some obj)"
    using sampleHook_translated by blast
  have "isUpgradeHook False sampleHookMetadata" "\<not> isPreHook False sampleHookMetadata"
    by (simp_all add: isUpgradeHook_def isPreHook_def activeTypes_def sampleHookMetadata_def)
  moreover have "keeps_kebab samplePlatform" by (simp add: keeps_kebab_def samplePlatform_def)
  moreover have "HookWeight sampleHookMetadata = - 5" "''hook-succeeded'' \<in> set (HookDeletePolicies sampleHookMetadata)"
    by (simp_all add: sampleHookMetadata_def)
  moreover obtain sa cl opts where "sampleReconciler = NewReconciler sa ''test.io'' cl opts"
    unfolding sampleReconciler_def by blast
  ultimately show ?thesis
    using helm_hooks_translated [OF obj, of sa cl opts] obj by (simp add: sampleHook_parsed Let_def)
qed

end
