(* ===== verification/Manifests.thy ===== *)
theory Manifests
  imports Helm_Hooks
begin

text \<open>
  \<open>pkg/manifests\<close>: generators with transformers of their parameters and of their objects
  (\<open>generator.go\<close>, \<open>dummy.go\<close>), and the transformers of \<open>transformer.go\<close>. YAML, templates,
  envsubst and kustomize are parameters.
\<close>

section \<open>Transformable generators\<close>

text \<open>Parameters are any type; the generators of the repository use maps.\<close>

type_synonym ('c, 'p) Generator = "'c Context \<Rightarrow> string \<Rightarrow> string \<Rightarrow> 'p \<Rightarrow> (goerr, Object list) outcome"
type_synonym 'p ParameterTransformer = "string \<Rightarrow> string \<Rightarrow> 'p \<Rightarrow> (goerr, 'p) outcome"
type_synonym ObjectTransformer = "string \<Rightarrow> string \<Rightarrow> Object list \<Rightarrow> (goerr, Object list) outcome"

record ('c, 'p) tranformableGenerator =
  generator :: "('c, 'p) Generator"
  parameterTransformers :: "'p ParameterTransformer list"
  objectTransformers :: "ObjectTransformer list"

definition NewGenerator :: "('c, 'p) Generator \<Rightarrow> ('c, 'p) tranformableGenerator" where
  "NewGenerator gen = \<lparr>generator = gen, parameterTransformers = [], objectTransformers = []\<rparr>"

definition WithParameterTransformer :: "('c, 'p) tranformableGenerator \<Rightarrow> 'p ParameterTransformer \<Rightarrow> ('c, 'p) tranformableGenerator" where
  "WithParameterTransformer g transformer = g\<lparr>parameterTransformers := parameterTransformers g @ [transformer]\<rparr>"

definition WithObjectTransformer :: "('c, 'p) tranformableGenerator \<Rightarrow> ObjectTransformer \<Rightarrow> ('c, 'p) tranformableGenerator" where
  "WithObjectTransformer g transformer = g\<lparr>objectTransformers := objectTransformers g @ [transformer]\<rparr>"

text \<open>The two loops of \<open>Generate\<close>: an error is wrapped with the index of the transformer.\<close>

fun runTransformers :: "string \<Rightarrow> int \<Rightarrow> (string \<Rightarrow> string \<Rightarrow> 'x \<Rightarrow> (goerr, 'x) outcome) list \<Rightarrow> string \<Rightarrow> string \<Rightarrow> 'x \<Rightarrow>
    (goerr, 'x) outcome" where
  "runTransformers msg i [] namespace name x = Ok x"
| "runTransformers msg i (transformer # ts) namespace name x =
     (case transformer namespace name x of
        Ok x' \<Rightarrow> runTransformers msg (i + 1) ts namespace name x'
      | Err err \<Rightarrow> Err (Wrapf err msg [AInt i])
      | Panic p \<Rightarrow> Panic p)"

definition Generate :: "('c, 'p) tranformableGenerator \<Rightarrow> ('c, 'p) Generator" where
  "Generate g ctx namespace name parameters =
     obind (runTransformers ''error calling parameter transformer (%d)'' 0 (parameterTransformers g) namespace name parameters) (\<lambda>parameters.
     obind (generator g ctx namespace name parameters) (\<lambda>objects.
     runTransformers ''error calling object transformer (%d)'' 0 (objectTransformers g) namespace name objects))"

definition DummyGenerate :: "('c, 'p) Generator" where
  "DummyGenerate ctx namespace name parameters = Ok []"

text \<open>The constructors of \<open>helm/generator.go\<close>.\<close>

definition NewHelmGenerator :: "'t parse_lib \<Rightarrow> nat \<Rightarrow> filesystem option \<Rightarrow> string \<Rightarrow> (goerr, 't Chart) outcome" where
  "NewHelmGenerator L stack fsys chartPath = ParseChart L stack fsys chartPath"

definition NewTransformableHelmGenerator :: "('t Chart \<Rightarrow> ('c, 'p) Generator) \<Rightarrow> 't parse_lib \<Rightarrow> nat \<Rightarrow> filesystem option \<Rightarrow>
    string \<Rightarrow> (goerr, ('c, 'p) tranformableGenerator) outcome" where
  "NewTransformableHelmGenerator gen L stack fsys chartPath =
     obind (NewHelmGenerator L stack fsys chartPath) (\<lambda>chart. Ok (NewGenerator (gen chart)))"

definition NewHelmGeneratorWithParameterTransformer :: "('t Chart \<Rightarrow> ('c, 'p) Generator) \<Rightarrow> 't parse_lib \<Rightarrow> nat \<Rightarrow>
    filesystem option \<Rightarrow> string \<Rightarrow> 'p ParameterTransformer \<Rightarrow> (goerr, ('c, 'p) tranformableGenerator) outcome" where
  "NewHelmGeneratorWithParameterTransformer gen L stack fsys chartPath transformer =
     obind (NewTransformableHelmGenerator gen L stack fsys chartPath) (\<lambda>g. Ok (WithParameterTransformer g transformer))"

definition NewHelmGeneratorWithObjectTransformer :: "('t Chart \<Rightarrow> ('c, 'p) Generator) \<Rightarrow> 't parse_lib \<Rightarrow> nat \<Rightarrow>
    filesystem option \<Rightarrow> string \<Rightarrow> ObjectTransformer \<Rightarrow> (goerr, ('c, 'p) tranformableGenerator) outcome" where
  "NewHelmGeneratorWithObjectTransformer gen L stack fsys chartPath transformer =
     obind (NewTransformableHelmGenerator gen L stack fsys chartPath) (\<lambda>g. Ok (WithObjectTransformer g transformer))"

section \<open>Transformers\<close>

record KustomizeSelector =
  SelGroup :: string
  SelVersion :: string
  SelKind :: string
  SelName :: string
  SelNamespace :: string
  SelAnnotationSelector :: string
  SelLabelSelector :: string

record KustomizePatch =
  PatchText :: string
  PatchTarget :: "KustomizeSelector option"

record KustomizeImage =
  ImageName :: string
  ImageNewName :: string
  ImageNewTag :: string
  ImageDigest :: string

text \<open>What the code fills in of a \<open>kusttypes.Kustomization\<close>.\<close>

record Kustomization_yaml =
  KustResources :: "string list"
  KustNamespace :: string
  KustImages :: "KustomizeImage list"
  KustPatches :: "(string \<times> KustomizeSelector) list"

type_synonym memory_fs = "(string \<times> string) list"

record 'o transform_lib =
  MarshalYaml :: "'o \<Rightarrow> goerr + string"
  UnmarshalInto :: "string \<Rightarrow> 'o \<Rightarrow> goerr + 'o"
  EvalSubst :: "string \<Rightarrow> (string \<Rightarrow> string) \<Rightarrow> goerr + string"
  UnmarshalMap :: "string \<Rightarrow> goerr + jmap option"
  MarshalKustomization :: "Kustomization_yaml \<Rightarrow> goerr + string"
  WriteFile :: "memory_fs \<Rightarrow> string \<Rightarrow> string \<Rightarrow> goerr + memory_fs"
  DefaultKustomizationFileName :: string
  RunKustomizer :: "memory_fs \<Rightarrow> string \<Rightarrow> goerr + string"
  DecodeObjects :: "string \<Rightarrow> (goerr + Object option) list"

text \<open>The template, with what it was created from, is a parameter that renders data.\<close>

definition TransformParameters_template :: "'o transform_lib \<Rightarrow> (jmap \<Rightarrow> goerr + string) \<Rightarrow> jmap option ParameterTransformer" where
  "TransformParameters_template L template namespace name parameters =
     obind (setKey parameters ''Namespace'' (JStr namespace)) (\<lambda>data.
     obind (setKey data ''Name'' (JStr name)) (\<lambda>data.
     obind (of_sum (template (jentries data))) (\<lambda>buf.
     of_sum (UnmarshalMap L (AdjustTemplateOutput buf)))))"

text \<open>\<open>NewTemplateParameterTransformer\<close>: the file is read and parsed.\<close>

definition NewTemplateParameterTransformer :: "'t parse_lib \<Rightarrow> filesystem option \<Rightarrow> string \<Rightarrow> (goerr, 't) outcome" where
  "NewTemplateParameterTransformer L fsys path =
     obind (case fsys of
         None \<Rightarrow> obind (of_sum (AbsPath L path)) (\<lambda>abspath. Ok (OsFS L, drop 1 abspath))
       | Some fs \<Rightarrow> Ok (fs, path)) (\<lambda>(fs, path).
     obind (of_sum (ReadFile fs path)) (\<lambda>raw.
     of_sum (ParseText L (NewTemplate L ''gotpl'') ''gotpl'' raw)))"

definition substitute :: "Object transform_lib \<Rightarrow> (string \<times> string) list \<Rightarrow> Object \<Rightarrow> (goerr, Object) outcome" where
  "substitute L substitutions object =
     obind (of_sum (MarshalYaml L object)) (\<lambda>rawObject.
     obind (of_sum (EvalSubst L rawObject (getString substitutions))) (\<lambda>stringObject.
     of_sum (UnmarshalInto L stringObject object)))"

definition TransformObjects_substitution :: "Object transform_lib \<Rightarrow> (string \<times> string) list \<Rightarrow> (Object \<Rightarrow> bool) \<Rightarrow> ObjectTransformer" where
  "TransformObjects_substitution L substitutions selector namespace name objects =
     (if substitutions = [] then Ok objects
      else collect (\<lambda>object. if \<not> selector object then Ok [object]
        else obind (substitute L substitutions object) (\<lambda>obj. Ok [obj])) objects)"

text \<open>A patch without a target is a nil pointer.\<close>

definition kustomizePatches :: "KustomizePatch list \<Rightarrow> (goerr, (string \<times> KustomizeSelector) list) outcome" where
  "kustomizePatches = collect (\<lambda>p. obind (or_panic ''invalid memory address or nil pointer dereference'' (PatchTarget p))
     (\<lambda>target. Ok [(PatchText p, target)]))"

definition TransformObjects_kustomize :: "Object transform_lib \<Rightarrow> KustomizePatch list \<Rightarrow> KustomizeImage list \<Rightarrow> ObjectTransformer" where
  "TransformObjects_kustomize L patches images namespace name objects =
     obind (collect (\<lambda>object. obind (of_sum (MarshalYaml L object)) (\<lambda>raw. Ok (''---'' @ [CHR 0x0A] @ raw))) objects) (\<lambda>buf.
     obind (of_sum (WriteFile L [] ''objects.yaml'' buf)) (\<lambda>fsys.
     obind (kustomizePatches patches) (\<lambda>ps.
     obind (of_sum (MarshalKustomization L
       \<lparr>KustResources = [''objects.yaml''], KustNamespace = '''', KustImages = images, KustPatches = ps\<rparr>)) (\<lambda>rawKustomization.
     obind (of_sum (WriteFile L fsys (DefaultKustomizationFileName L) rawKustomization)) (\<lambda>fsys.
     obind (of_sum (RunKustomizer L fsys ''.'')) (\<lambda>raw.
     decodeLoop (DecodeObjects L raw)))))))"

section \<open>Properties\<close>

text \<open>\<open>x\<close> goes through the transformers one after the other and comes out as \<open>y\<close>.\<close>

inductive passes :: "string \<Rightarrow> string \<Rightarrow> (string \<Rightarrow> string \<Rightarrow> 'x \<Rightarrow> (goerr, 'x) outcome) list \<Rightarrow> 'x \<Rightarrow> 'x \<Rightarrow> bool"
  for namespace name where
  nothing: "passes namespace name [] x x"
| one: "transformer namespace name x = Ok x' \<Longrightarrow> passes namespace name ts x' y \<Longrightarrow> passes namespace name (transformer # ts) x y"

inductive_simps passes_simps [simp]:
  "passes namespace name [] x y" "passes namespace name (t # ts) x y"

lemma passes_append:
  "passes namespace name (ts @ us) x z \<longleftrightarrow> (\<exists>y. passes namespace name ts x y \<and> passes namespace name us y z)"
  by (induction ts arbitrary: x) auto

lemma runTransformers_Ok: "runTransformers msg i ts namespace name x = Ok y \<longleftrightarrow> passes namespace name ts x y"
  by (induction ts arbitrary: i x) (auto split: outcome.split)

lemma runTransformers_Err:
  "runTransformers msg i ts namespace name x = Err e \<longleftrightarrow>
     (\<exists>pre t post y err. ts = pre @ t # post \<and> passes namespace name pre x y \<and> t namespace name y = Err err
        \<and> e = Wrapf err msg [AInt (i + int (length pre))])"
proof (induction ts arbitrary: i x)
  case (Cons t ts)
  show ?case
  proof (cases "t namespace name x")
    case (Ok x')
    show ?thesis (is "?l \<longleftrightarrow> (\<exists>pre. ?P pre)")
    proof
      assume ?l
      then obtain pre t' post y err where "ts = pre @ t' # post" "passes namespace name pre x' y" "t' namespace name y = Err err"
          "e = Wrapf err msg [AInt (i + 1 + int (length pre))]" using Cons Ok by auto
      then have "?P (t # pre)" using Ok by auto
      then show "\<exists>pre. ?P pre" ..
    next
      assume "\<exists>pre. ?P pre"
      then obtain pre where pre: "?P pre" ..
      then obtain pre' where pre': "pre = t # pre'" using Ok by (cases pre) auto
      from pre obtain t' post y err where "ts = pre' @ t' # post" "passes namespace name pre' x' y" "t' namespace name y = Err err"
          "e = Wrapf err msg [AInt (i + 1 + int (length pre'))]" using Ok pre' by auto
      then have "runTransformers msg (i + 1) ts namespace name x' = Err e" unfolding Cons.IH by blast
      then show ?l using Ok by simp
    qed
  next
    case (Err err)
    then show ?thesis by (auto simp: Cons_eq_append_conv) (rule exI [of _ "[]"], auto)
  next
    case (Panic p)
    then show ?thesis by (auto simp: Cons_eq_append_conv)
  qed
qed simp

text \<open>
  A transformable generator succeeds with the objects that come out when the parameters
  go through all parameter transformers in the order they were attached, then through the
  generator, and the objects through all object transformers; it fails with the error of the
  first step that fails, wrapped, for a transformer, with its index.
\<close>

theorem Generate_pipeline:
  "(Generate g ctx namespace name parameters = Ok objects \<longleftrightarrow>
     (\<exists>ps os. passes namespace name (parameterTransformers g) parameters ps \<and> generator g ctx namespace name ps = Ok os
        \<and> passes namespace name (objectTransformers g) os objects)) \<and>
   (Generate g ctx namespace name parameters = Err e \<longleftrightarrow>
     (\<exists>pre t post ps err. parameterTransformers g = pre @ t # post \<and> passes namespace name pre parameters ps
        \<and> t namespace name ps = Err err \<and> e = Wrapf err ''error calling parameter transformer (%d)'' [AInt (int (length pre))]) \<or>
     (\<exists>ps. passes namespace name (parameterTransformers g) parameters ps \<and> generator g ctx namespace name ps = Err e) \<or>
     (\<exists>ps os pre t post ys err. passes namespace name (parameterTransformers g) parameters ps
        \<and> generator g ctx namespace name ps = Ok os \<and> objectTransformers g = pre @ t # post \<and> passes namespace name pre os ys
        \<and> t namespace name ys = Err err \<and> e = Wrapf err ''error calling object transformer (%d)'' [AInt (int (length pre))]))"
proof -
  let ?run = "runTransformers ''error calling parameter transformer (%d)'' 0 (parameterTransformers g) namespace name parameters"
  have ok: "?run = Ok ps \<longleftrightarrow> passes namespace name (parameterTransformers g) parameters ps" for ps
    by (rule runTransformers_Ok)
  have err: "obind m f = Err e \<longleftrightarrow> m = Err e \<or> (\<exists>x. m = Ok x \<and> f x = Err e)" for m :: "(goerr, 'z) outcome" and f :: "'z \<Rightarrow> (goerr, Object list) outcome"
    by (cases m) auto
  show ?thesis
    unfolding Generate_def err obind_Ok runTransformers_Ok runTransformers_Err add_0 by (intro conjI; blast)
qed

end
