(* ===== verification/Kustomize_Parse.thy ===== *)
theory Kustomize_Parse
  imports Manifests
begin

text \<open>
  \<open>internal/kustomize/kustomization.go\<close>: parsing a kustomization from a file system. The YAML
  decoder, the parser of text/template and the matcher of \<open>.component-ignore\<close> are
  parameters. A kustomization may include others, by paths; the fuel of the recursion stands
  for the stack. It is enough if it exceeds the number of directories, because no
  kustomization is visited twice on the way down (\<open>ParseKustomization_terminates\<close>).
\<close>

section \<open>Types\<close>

definition componentConfigFilename :: string where "componentConfigFilename = ''.component-config.yaml''"
definition componentIgnoreFilename :: string where "componentIgnoreFilename = ''.component-ignore''"

type_synonym Decryptor = "string \<Rightarrow> string \<Rightarrow> goerr + string"

record KustomizationOptions =
  OptTemplateSuffix :: "string option"
  OptLeftTemplateDelimiter :: "string option"
  OptRightTemplateDelimiter :: "string option"
  OptDecryptor :: "Decryptor option"

record KustomizationConfiguration =
  CfgTemplateSuffix :: "string option"
  CfgLeftTemplateDelimiter :: "string option"
  CfgRightTemplateDelimiter :: "string option"
  CfgIncludedFiles :: "string list"
  CfgIncludedKustomizations :: "string list"
  CfgValues :: "jmap option"

text \<open>
  The templates share one set \<open>kust_set\<close>, nil if there are none; \<open>kust_templates\<close> has their
  names in it by the path of their output.
\<close>

datatype 't Kustomization = Kustomization
  (kust_path: string) (kust_files: "(string \<times> string) list") (kust_nonTemplates: "(string \<times> string) list")
  (kust_set: "'t option") (kust_templates: "(string \<times> string) list") (kust_values: "jmap option")
  (kustomizations: "'t Kustomization list")

text \<open>
  \<open>KNewTemplate name left right\<close> is an empty set with its delimiters and functions.
  \<open>OpenFile\<close> gives what can be read from a file until its end or the first error, and
  \<open>IgnoreMatcher patterns\<close> tells whether a file is matched, given the elements of its path.
\<close>

record 't kust_lib =
  KNewTemplate :: "string \<Rightarrow> string \<Rightarrow> string \<Rightarrow> 't"
  KAddTemplate :: "'t \<Rightarrow> string \<Rightarrow> 't"
  KParseText :: "'t \<Rightarrow> string \<Rightarrow> string \<Rightarrow> goerr + 't"
  UnmarshalConfig :: "string \<Rightarrow> goerr + KustomizationConfiguration"
  IgnoreMatcher :: "string list \<Rightarrow> string list \<Rightarrow> bool"
  OpenFile :: "filesystem \<Rightarrow> string \<Rightarrow> goerr + string"
  KOsFS :: filesystem
  KAbsPath :: "string \<Rightarrow> goerr + string"

definition isSubdirectory :: "string \<Rightarrow> string \<Rightarrow> bool" where
  "isSubdirectory subdir dir \<longleftrightarrow> subdir = dir \<or> HasPrefix subdir (dir @ ''/'')"

section \<open>Configuration\<close>

text \<open>The configuration file wins over the options; without both the text is empty.\<close>

definition fillIn :: "string option \<Rightarrow> string option \<Rightarrow> string option" where
  "fillIn cfg opt =
     (let cfg = (if cfg = None then opt else cfg) in if cfg = None then Some '''' else cfg)"

definition emptyConfig :: KustomizationConfiguration where
  "emptyConfig = \<lparr>CfgTemplateSuffix = None, CfgLeftTemplateDelimiter = None, CfgRightTemplateDelimiter = None,
     CfgIncludedFiles = [], CfgIncludedKustomizations = [], CfgValues = None\<rparr>"

definition readConfig :: "'t kust_lib \<Rightarrow> filesystem \<Rightarrow> string \<Rightarrow> KustomizationOptions \<Rightarrow> (goerr, KustomizationConfiguration) outcome" where
  "readConfig L fsys path options =
     obind (case ReadFile fsys path of
         Inr rawConfig \<Rightarrow> of_sum (UnmarshalConfig L rawConfig)
       | Inl err \<Rightarrow> if \<not> IsErrNotExist err then Err err else Ok emptyConfig) (\<lambda>config.
     Ok (config\<lparr>CfgTemplateSuffix := fillIn (CfgTemplateSuffix config) (OptTemplateSuffix options),
       CfgLeftTemplateDelimiter := fillIn (CfgLeftTemplateDelimiter config) (OptLeftTemplateDelimiter options),
       CfgRightTemplateDelimiter := fillIn (CfgRightTemplateDelimiter config) (OptRightTemplateDelimiter options)\<rparr>))"

text \<open>
  \<open>bufio.Scanner\<close>: lines without their end, of which a carriage return is a part. It gives up
  on a line that does not fit into its buffer, and the code does not ask it for an error.
\<close>

definition dropCR :: "string \<Rightarrow> string" where
  "dropCR line = (if line \<noteq> '''' \<and> last line = CHR 0x0D then butlast line else line)"

definition scanLines :: "string \<Rightarrow> string list" where
  "scanLines raw = (let parts = splitAt (CHR 0x0A) raw;
       parts = (if last parts = '''' then butlast parts else parts)
     in map dropCR (takeWhile (\<lambda>line. length line < 65536) parts))"

text \<open>White space as of \<open>strings.TrimSpace\<close>, in ASCII.\<close>

definition isSpace :: "char \<Rightarrow> bool" where
  "isSpace c \<longleftrightarrow> c \<in> {CHR '' '', CHR 0x09, CHR 0x0A, CHR 0x0B, CHR 0x0C, CHR 0x0D}"

definition isPatternLine :: "string \<Rightarrow> bool" where
  "isPatternLine s \<longleftrightarrow> \<not> HasPrefix s ''#'' \<and> \<not> list_all isSpace s"

definition readIgnore :: "'t kust_lib \<Rightarrow> filesystem \<Rightarrow> string \<Rightarrow> (goerr, string list option) outcome" where
  "readIgnore L fsys path = (case OpenFile L fsys path of
     Inl err \<Rightarrow> if IsErrNotExist err then Ok None else Err err
   | Inr raw \<Rightarrow> Ok (Some (filter isPatternLine (scanLines raw))))"

section \<open>Files\<close>

text \<open>A loop over a state that stops at the first error.\<close>

fun oeach :: "('i \<Rightarrow> 's \<Rightarrow> ('e, 's) outcome) \<Rightarrow> 'i list \<Rightarrow> 's \<Rightarrow> ('e, 's) outcome" where
  "oeach f [] s = Ok s"
| "oeach f (i # is) s = obind (f i s) (oeach f is)"

definition readDecrypted :: "filesystem \<Rightarrow> KustomizationOptions \<Rightarrow> string \<Rightarrow> (goerr, string) outcome" where
  "readDecrypted fsys options file =
     obind (of_sum (ReadFile fsys file)) (\<lambda>raw. case OptDecryptor options of
       None \<Rightarrow> Ok raw
     | Some decrypt \<Rightarrow> of_sum (decrypt raw file))"

text \<open>Files that are there to be read, but are neither templates nor copied.\<close>

definition isLeftOut :: "'t kust_lib \<Rightarrow> string list option \<Rightarrow> string \<Rightarrow> bool" where
  "isLeftOut L ignore name \<longleftrightarrow> path_base name = componentConfigFilename \<or> path_base name = componentIgnoreFilename
     \<or> (case ignore of None \<Rightarrow> False | Some patterns \<Rightarrow> IgnoreMatcher L patterns (splitAt (CHR ''/'') name))"

definition templateFor :: "'t kust_lib \<Rightarrow> KustomizationConfiguration \<Rightarrow> string \<Rightarrow> 't option \<Rightarrow> (goerr, 't) outcome" where
  "templateFor L config name ts = (case ts of
     None \<Rightarrow>
       obind (or_panic nilPointer (CfgLeftTemplateDelimiter config)) (\<lambda>left.
       obind (or_panic nilPointer (CfgRightTemplateDelimiter config)) (\<lambda>right.
       Ok (KNewTemplate L name left right)))
   | Some t \<Rightarrow> Ok (KAddTemplate L t name))"

type_synonym 't parsed_files = "(string \<times> string) list \<times> (string \<times> string) list \<times> 't option \<times> (string \<times> string) list"

definition parseFile :: "'t kust_lib \<Rightarrow> filesystem \<Rightarrow> KustomizationOptions \<Rightarrow> KustomizationConfiguration \<Rightarrow> string list option \<Rightarrow>
    string \<Rightarrow> string \<Rightarrow> 't parsed_files \<Rightarrow> (goerr, 't parsed_files) outcome" where
  "parseFile L fsys options config ignore path file = (\<lambda>(fs, nonTemplates, ts, tmpls).
     obind (readDecrypted fsys options file) (\<lambda>raw.
     let name = relativeTo path file; fs = AList.update name raw fs in
     if isLeftOut L ignore name then Ok (fs, nonTemplates, ts, tmpls)
     else
     obind (or_panic nilPointer (CfgTemplateSuffix config)) (\<lambda>sfx.
     if HasSuffix name sfx then
       obind (templateFor L config name ts) (\<lambda>t.
       obind (of_sum (KParseText L t name raw)) (\<lambda>t.
       Ok (fs, nonTemplates, Some t, AList.update (TrimSuffix name sfx) name tmpls)))
     else Ok (fs, AList.update name raw nonTemplates, ts, tmpls))))"

text \<open>Files of an included directory are named by the rest of their path after that directory.\<close>

definition includeFile :: "filesystem \<Rightarrow> KustomizationOptions \<Rightarrow> string \<Rightarrow> string \<Rightarrow> (string \<times> string) list \<Rightarrow>
    (goerr, (string \<times> string) list) outcome" where
  "includeFile fsys options kustomizationPath path fs =
     (if IsAbs path then Err (Errorf ''include path (%s) must not be absolute'' [AStr path])
      else let absolutePath = path_join kustomizationPath path in
      if isSubdirectory absolutePath kustomizationPath then
        Err (Errorf ''include path (%s) must not be in the kustomization path (%s)'' [AStr path, AStr kustomizationPath])
      else
      obind (of_sum (StatIsDir fsys absolutePath)) (\<lambda>isDir.
      if isDir then
        obind (Find fsys absolutePath ''*'' FileTypeRegular 0) (\<lambda>found.
        oeach (\<lambda>file fs. obind (readDecrypted fsys options file) (\<lambda>raw.
          Ok (AList.update (path @ drop (length absolutePath) file) raw fs))) found fs)
      else
        obind (readDecrypted fsys options absolutePath) (\<lambda>raw. Ok (AList.update path raw fs))))"

section \<open>ParseKustomization\<close>

definition noOptions :: KustomizationOptions where
  "noOptions = \<lparr>OptTemplateSuffix = None, OptLeftTemplateDelimiter = None, OptRightTemplateDelimiter = None, OptDecryptor = None\<rparr>"

text \<open>One of the included kustomizations, with the recursive call as a parameter.\<close>

definition includeKustomization :: "(string \<Rightarrow> (goerr, 'k) outcome) \<Rightarrow> string \<Rightarrow> string \<Rightarrow> (goerr, 'k list) outcome" where
  "includeKustomization parse kustomizationPath path =
     (if IsAbs path then Err (Errorf ''include path (%s) must be absolute'' [AStr path])
      else let absolutePath = path_join kustomizationPath path in
      if isSubdirectory absolutePath kustomizationPath then
        Err (Errorf ''include path (%s) must not be in the kustomization path (%s)'' [AStr path, AStr kustomizationPath])
      else obind (parse absolutePath) (\<lambda>k. Ok [k]))"

text \<open>What is read before other kustomizations are included; the path is clean here.\<close>

definition readKustomization :: "'t kust_lib \<Rightarrow> filesystem \<Rightarrow> string \<Rightarrow> KustomizationOptions \<Rightarrow>
    (goerr, KustomizationConfiguration \<times> 't parsed_files) outcome" where
  "readKustomization L fsys path options =
     obind (of_sum (StatIsDir fsys path)) (\<lambda>isDir.
     if \<not> isDir then Err (Errorf ''path %s is not a directory'' [AStr path])
     else
     obind (readConfig L fsys (path_join path componentConfigFilename) options) (\<lambda>config.
     obind (readIgnore L fsys (path_join path componentIgnoreFilename)) (\<lambda>ignore.
     obind (Find fsys path ''*'' FileTypeRegular 0) (\<lambda>found.
     obind (oeach (parseFile L fsys options config ignore path) found ([], [], None, [])) (\<lambda>(fs, nonTemplates, ts, tmpls).
     obind (oeach (includeFile fsys options path) (CfgIncludedFiles config) fs) (\<lambda>fs.
     Ok (config, (fs, nonTemplates, ts, tmpls))))))))"

fun parseKustomization :: "'t kust_lib \<Rightarrow> filesystem \<Rightarrow> nat \<Rightarrow> string \<Rightarrow> KustomizationOptions \<Rightarrow> string list \<Rightarrow>
    (goerr, 't Kustomization) outcome" where
  "parseKustomization L fsys 0 path options visited = Panic ''stack overflow''"
| "parseKustomization L fsys (Suc n) path options visited =
     (if list_ex (isSubdirectory path) visited then
        Err (Errorf ''path %s part of another referenced kustomization'' [AStr path])
      else
      obind (readKustomization L fsys path options) (\<lambda>(config, fs, nonTemplates, ts, tmpls).
      obind (collect (includeKustomization (\<lambda>p. parseKustomization L fsys n (normalPath p) noOptions (visited @ [path])) path)
          (CfgIncludedKustomizations config)) (\<lambda>ks.
      Ok (Kustomization path fs nonTemplates ts tmpls (CfgValues config) ks))))"

definition ParseKustomization :: "'t kust_lib \<Rightarrow> nat \<Rightarrow> filesystem option \<Rightarrow> string \<Rightarrow> KustomizationOptions \<Rightarrow>
    (goerr, 't Kustomization) outcome" where
  "ParseKustomization L stack fsys kustomizationPath options = (case fsys of
     None \<Rightarrow> obind (of_sum (KAbsPath L kustomizationPath)) (\<lambda>abspath.
       parseKustomization L (KOsFS L) stack (Clean (drop 1 abspath)) options [])
   | Some fs \<Rightarrow> parseKustomization L fs stack (normalPath kustomizationPath) options [])"

section \<open>Parsing without panics\<close>

definition no_panic :: "('e, 'a) outcome \<Rightarrow> bool" where
  "no_panic r \<longleftrightarrow> (\<forall>p. r \<noteq> Panic p)"

lemma no_panic_simps [simp]: "no_panic (Ok x)" "no_panic (Err e)" "\<not> no_panic (Panic p)" "no_panic (of_sum s)"
  by (auto simp: no_panic_def of_sum_def split: sum.splits)

lemma no_panic_obind [intro!]: "no_panic m \<Longrightarrow> (\<And>x. m = Ok x \<Longrightarrow> no_panic (f x)) \<Longrightarrow> no_panic (obind m f)"
  by (cases m) auto

lemma no_panic_oeach: "(\<And>i s. i \<in> set is \<Longrightarrow> no_panic (f i s)) \<Longrightarrow> no_panic (oeach f is s)"
  by (induction "is" arbitrary: s) auto

lemma no_panic_collect: "(\<And>i. i \<in> set is \<Longrightarrow> no_panic (f i)) \<Longrightarrow> no_panic (collect f is)"
  by (induction "is") auto

text \<open>All regular files below a directory.\<close>

definition filesBelow :: "filesystem \<Rightarrow> string \<Rightarrow> string set" where
  "filesBelow fsys dir = found fsys (if dir = '''' then ''.'' else dir) ''*'' FileTypeRegular 10000"

lemma Find_regular: "\<exists>E. search_result (filesBelow fsys dir) E (Find fsys dir ''*'' FileTypeRegular 0)"
proof -
  have t: "FileTypeRegular \<noteq> 0" "FileTypeRegular AND FileTypeAny = FileTypeRegular" by code_simp+
  then have eq: "Find fsys dir ''*'' FileTypeRegular 0 = Find fsys (if dir = '''' then ''.'' else dir) ''*'' FileTypeRegular 10000"
    by (simp add: Find.simps [of fsys dir] Find.simps [of fsys "''.''"])
  show ?thesis
    unfolding filesBelow_def eq by (rule exI, rule Find_and_entries(1)) (use t in simp_all)
qed

lemma no_panic_Find [simp]: "no_panic (Find fsys dir ''*'' FileTypeRegular 0)"
  using Find_regular [of fsys dir] by (auto simp: no_panic_def)

lemma Find_regular_Ok: "Find fsys dir ''*'' FileTypeRegular 0 = Ok xs \<Longrightarrow> set xs = filesBelow fsys dir"
  using Find_regular [of fsys dir] by auto

lemma no_panic_readDecrypted [simp]: "no_panic (readDecrypted fsys options file)"
  by (auto simp: readDecrypted_def split: option.split)

lemma no_panic_includeFile [simp]: "no_panic (includeFile fsys options kustomizationPath path fs)"
  by (auto simp: includeFile_def Let_def intro!: no_panic_oeach)

lemma fillIn_Some [simp]: "\<exists>y. fillIn cfg opt = Some y"
  by (auto simp: fillIn_def Let_def)

lemma readConfig_Ok:
  assumes "readConfig L fsys path options = Ok config"
  shows "CfgTemplateSuffix config \<noteq> None" "CfgLeftTemplateDelimiter config \<noteq> None" "CfgRightTemplateDelimiter config \<noteq> None"
  using assms by (auto simp: readConfig_def obind_Ok)

lemma no_panic_readConfig [simp]: "no_panic (readConfig L fsys path options)"
  by (auto simp: readConfig_def split: sum.split)

lemma no_panic_readIgnore [simp]: "no_panic (readIgnore L fsys path)"
  by (auto simp: readIgnore_def split: sum.split)

lemma no_panic_parseFile:
  assumes "CfgTemplateSuffix config \<noteq> None" "CfgLeftTemplateDelimiter config \<noteq> None" "CfgRightTemplateDelimiter config \<noteq> None"
  shows "no_panic (parseFile L fsys options config ignore path file st)"
proof -
  have "no_panic (templateFor L config name ts)" for name ts
    using assms by (auto simp: templateFor_def split: option.split)
  then show ?thesis
    using assms by (auto simp: parseFile_def Let_def split: prod.split)
qed

lemma no_panic_readKustomization [simp]: "no_panic (readKustomization L fsys path options)"
  unfolding readKustomization_def
  by (auto intro!: no_panic_oeach no_panic_parseFile dest: readConfig_Ok)

section \<open>Termination\<close>

lemma readKustomization_dir:
  "readKustomization L fsys path options = Ok x \<Longrightarrow> StatIsDir fsys path = Inr True"
  by (auto simp: readKustomization_def obind_Ok split: if_splits)

lemma includeKustomization_cong:
  "(\<And>p. f p = g p) \<Longrightarrow> includeKustomization f path p = includeKustomization g path p"
  by (simp add: includeKustomization_def Let_def)

text \<open>Every path on the way down is a directory that was not visited before.\<close>

lemma fewer_directories:
  assumes "finite D" "D = {p. StatIsDir fsys p = Inr True}"
    and "\<not> list_ex (isSubdirectory path) visited" "readKustomization L fsys path options = Ok x"
  shows "card (D - set (visited @ [path])) < card (D - set visited)"
proof -
  have "path \<in> D - set visited"
    using assms(2,3) readKustomization_dir [OF assms(4)] by (auto simp: list_ex_iff isSubdirectory_def)
  then show ?thesis using assms(1) by (intro psubset_card_mono) auto
qed

lemma parseKustomization_enough:
  assumes D: "finite D" "D = {p. StatIsDir fsys p = Inr True}"
  shows "card (D - set visited) < n \<Longrightarrow> no_panic (parseKustomization L fsys n path options visited)"
    and "card (D - set visited) < n \<Longrightarrow> card (D - set visited) < m \<Longrightarrow>
      parseKustomization L fsys n path options visited = parseKustomization L fsys m path options visited"
proof (induction n arbitrary: m path options visited)
  case (Suc n)
  {
    case 1
    have "no_panic (parseKustomization L fsys n p noOptions (visited @ [path]))"
      if "\<not> list_ex (isSubdirectory path) visited" "readKustomization L fsys path options = Ok x" for p x
      using Suc.IH(1) fewer_directories [OF D that] 1 by simp
    then show ?case
      by (auto simp: includeKustomization_def Let_def intro!: no_panic_collect)
  next
    case 2
    then obtain m' where m: "m = Suc m'" by (cases m) auto
    have "parseKustomization L fsys n p noOptions (visited @ [path]) = parseKustomization L fsys m' p noOptions (visited @ [path])"
      if "\<not> list_ex (isSubdirectory path) visited" "readKustomization L fsys path options = Ok x" for p x
      by (rule Suc.IH(2); use fewer_directories [OF D that] 2 m in linarith)
    then show ?case
      unfolding m parseKustomization.simps
      by (intro if_cong refl obind_cong) (auto intro!: obind_cong collect_cong includeKustomization_cong)
  }
qed simp_all

section \<open>What is parsed\<close>

text \<open>
  The files of a kustomization, by what becomes of them: copied, or a template under the name
  without the suffix.
\<close>

definition sorted_files :: "'t kust_lib \<Rightarrow> filesystem \<Rightarrow> KustomizationConfiguration \<Rightarrow> string list option \<Rightarrow> 't Kustomization \<Rightarrow> bool" where
  "sorted_files L fsys config ignore k \<longleftrightarrow>
     (let names = relativeTo (kust_path k) ` filesBelow fsys (kust_path k);
          used = {n \<in> names. \<not> isLeftOut L ignore n};
          sfx = or_default (CfgTemplateSuffix config) ''''
      in names \<subseteq> fst ` set (kust_files k)
       \<and> fst ` set (kust_nonTemplates k) = {n \<in> used. \<not> HasSuffix n sfx}
       \<and> fst ` set (kust_templates k) = (\<lambda>n. TrimSuffix n sfx) ` {n \<in> used. HasSuffix n sfx}
       \<and> (kust_templates k \<noteq> [] \<longrightarrow> kust_set k \<noteq> None))"

text \<open>
  A kustomization as it should be parsed with \<open>visited\<close> on the way to it: with the
  configuration that is found in its directory, and with those it includes, for which there
  are no options.
\<close>

fun parsed_from :: "'t kust_lib \<Rightarrow> filesystem \<Rightarrow> KustomizationOptions \<Rightarrow> string list \<Rightarrow> 't Kustomization \<Rightarrow> bool" where
  "parsed_from L fsys options visited (Kustomization path fs nts ts tmpls vals ks) \<longleftrightarrow>
     StatIsDir fsys path = Inr True \<and> (\<forall>p \<in> set visited. \<not> isSubdirectory path p) \<and>
     (\<exists>config ignore. readConfig L fsys (path_join path componentConfigFilename) options = Ok config
        \<and> readIgnore L fsys (path_join path componentIgnoreFilename) = Ok ignore
        \<and> sorted_files L fsys config ignore (Kustomization path fs nts ts tmpls vals ks) \<and> vals = CfgValues config
        \<and> list_all2 (\<lambda>include k. kust_path k = normalPath (path_join path include)) (CfgIncludedKustomizations config) ks) \<and>
     (\<forall>k \<in> set ks. parsed_from L fsys noOptions (visited @ [path]) k)"

text \<open>The loop over the files, seen as the sets of keys it has built so far.\<close>

definition parsed_so_far :: "'t kust_lib \<Rightarrow> string list option \<Rightarrow> string \<Rightarrow> string set \<Rightarrow> 't parsed_files \<Rightarrow> bool" where
  "parsed_so_far L ignore sfx names st \<longleftrightarrow> (case st of (fs, nonTemplates, ts, tmpls) \<Rightarrow>
     fst ` set fs = names
     \<and> fst ` set nonTemplates = {n \<in> names. \<not> isLeftOut L ignore n \<and> \<not> HasSuffix n sfx}
     \<and> fst ` set tmpls = (\<lambda>n. TrimSuffix n sfx) ` {n \<in> names. \<not> isLeftOut L ignore n \<and> HasSuffix n sfx}
     \<and> (tmpls \<noteq> [] \<longrightarrow> ts \<noteq> None))"

lemma insert_Collect: "{n. (n = m \<or> n \<in> names) \<and> Q n} = (if Q m then insert m {n \<in> names. Q n} else {n \<in> names. Q n})"
  by auto

lemma parseFile_so_far:
  assumes "parseFile L fsys options config ignore path file st = Ok st'" "CfgTemplateSuffix config = Some sfx"
    and "parsed_so_far L ignore sfx names st"
  shows "parsed_so_far L ignore sfx (insert (relativeTo path file) names) st'"
proof -
  let ?n = "relativeTo path file"
  obtain fs nts ts tmpls where st: "st = (fs, nts, ts, tmpls)" by (cases st)
  obtain raw where raw: "readDecrypted fsys options file = Ok raw"
    using assms(1) by (auto simp: st parseFile_def obind_Ok)
  note run = assms(1) [unfolded st parseFile_def split, simplified raw obind_simps Let_def assms(2) or_panic_simps]
    and old = assms(3) [unfolded st parsed_so_far_def split]
  consider "isLeftOut L ignore ?n" "st' = (AList.update ?n raw fs, nts, ts, tmpls)"
    | "\<not> isLeftOut L ignore ?n" "\<not> HasSuffix ?n sfx" "st' = (AList.update ?n raw fs, AList.update ?n raw nts, ts, tmpls)"
    | t where "\<not> isLeftOut L ignore ?n" "HasSuffix ?n sfx"
        "st' = (AList.update ?n raw fs, nts, Some t, AList.update (TrimSuffix ?n sfx) ?n tmpls)"
    using run by (auto simp: obind_Ok split: if_splits)
  then show ?thesis
    by cases (use old in \<open>simp_all add: parsed_so_far_def dom_update insert_Collect Un_commute\<close>)
qed

lemma oeach_parseFile:
  assumes "oeach (parseFile L fsys options config ignore path) fls st = Ok st'" "CfgTemplateSuffix config = Some sfx"
    and "parsed_so_far L ignore sfx names st"
  shows "parsed_so_far L ignore sfx (names \<union> relativeTo path ` set fls) st'"
  using assms(1,3)
proof (induction fls arbitrary: st names)
  case (Cons q fls)
  then obtain st1 where st1: "parseFile L fsys options config ignore path q st = Ok st1"
      "oeach (parseFile L fsys options config ignore path) fls st1 = Ok st'" by (auto simp: obind_Ok)
  from Cons.IH [OF st1(2) parseFile_so_far [OF st1(1) assms(2) Cons.prems(2)]] show ?case by (simp add: Un_commute)
qed simp

lemma oeach_grows:
  assumes "\<And>i s s'. f i s = Ok s' \<Longrightarrow> fst ` set s \<subseteq> fst ` set s'"
  shows "oeach f is s = Ok s' \<Longrightarrow> fst ` set s \<subseteq> fst ` set s'"
proof (induction "is" arbitrary: s)
  case (Cons i "is")
  then obtain s1 where "f i s = Ok s1" "oeach f is s1 = Ok s'" by (auto simp: obind_Ok)
  with Cons.IH assms show ?case by fast
qed simp

lemma includeFile_grows: "includeFile fsys options kp path fs = Ok fs' \<Longrightarrow> fst ` set fs \<subseteq> fst ` set fs'"
proof -
  have upd: "fst ` set fs \<subseteq> fst ` set (AList.update key raw fs)" for key raw and fs :: "(string \<times> string) list"
    by (auto simp: dom_update)
  have loop: "oeach (\<lambda>q fs. obind (readDecrypted fsys options q) (\<lambda>raw. Ok (AList.update (name q) raw fs))) found fs = Ok fs' \<Longrightarrow>
      fst ` set fs \<subseteq> fst ` set fs'" for name found
  proof (erule oeach_grows [rotated])
    fix q and s s' :: "(string \<times> string) list"
    assume "obind (readDecrypted fsys options q) (\<lambda>raw. Ok (AList.update (name q) raw s)) = Ok s'"
    then obtain raw where "s' = AList.update (name q) raw s" by (auto simp: obind_Ok)
    then show "fst ` set s \<subseteq> fst ` set s'" using upd by (simp only:)
  qed
  assume "includeFile fsys options kp path fs = Ok fs'"
  then show ?thesis
    unfolding includeFile_def Let_def
    by (cases "IsAbs path"; cases "isSubdirectory (path_join kp path) kp") (auto simp: obind_Ok split: if_splits dest!: loop intro: subsetD [OF upd])
qed

lemma readKustomization_sorted:
  assumes "readKustomization L fsys path options = Ok (config, fs, nts, ts, tmpls)"
  obtains ignore where "readConfig L fsys (path_join path componentConfigFilename) options = Ok config"
    "readIgnore L fsys (path_join path componentIgnoreFilename) = Ok ignore"
    "\<And>vals ks. sorted_files L fsys config ignore (Kustomization path fs nts ts tmpls vals ks)"
proof -
  obtain ignore found fs1 where r: "readConfig L fsys (path_join path componentConfigFilename) options = Ok config"
      "readIgnore L fsys (path_join path componentIgnoreFilename) = Ok ignore" "Find fsys path ''*'' FileTypeRegular 0 = Ok found"
      "oeach (parseFile L fsys options config ignore path) found ([], [], None, []) = Ok (fs1, nts, ts, tmpls)"
      "oeach (includeFile fsys options path) (CfgIncludedFiles config) fs1 = Ok fs"
    using assms by (auto simp: readKustomization_def obind_Ok split: if_splits)
  obtain sfx where sfx: "CfgTemplateSuffix config = Some sfx" using readConfig_Ok(1) [OF r(1)] by auto
  have "parsed_so_far L ignore sfx ({} \<union> relativeTo path ` set found) (fs1, nts, ts, tmpls)"
    by (rule oeach_parseFile [OF r(4) sfx]) (simp add: parsed_so_far_def)
  moreover have "fst ` set fs1 \<subseteq> fst ` set fs" using oeach_grows [OF includeFile_grows r(5)] .
  ultimately have "sorted_files L fsys config ignore (Kustomization path fs nts ts tmpls vals ks)" for vals ks
    using sfx Find_regular_Ok [OF r(3)] by (simp add: sorted_files_def parsed_so_far_def Let_def or_default_def)
  with r(1,2) that show ?thesis by blast
qed

lemma collect_includes:
  "collect (includeKustomization f path) incs = Ok ks \<Longrightarrow> list_all2 (\<lambda>include k. f (path_join path include) = Ok k) incs ks"
  by (induction incs arbitrary: ks) (auto simp: obind_Ok includeKustomization_def Let_def split: if_splits)

lemma parseKustomization_path:
  "parseKustomization L fsys n path options visited = Ok k \<Longrightarrow> kust_path k = path"
  by (cases n) (auto simp: obind_Ok split: if_splits)

lemma parseKustomization_parsed:
  "parseKustomization L fsys n path options visited = Ok k \<Longrightarrow> parsed_from L fsys options visited k"
proof (induction n arbitrary: path options visited k)
  case (Suc n)
  let ?f = "\<lambda>p. parseKustomization L fsys n (normalPath p) noOptions (visited @ [path])"
  from Suc.prems obtain config fs nts ts tmpls ks where k: "\<forall>p \<in> set visited. \<not> isSubdirectory path p"
      "readKustomization L fsys path options = Ok (config, fs, nts, ts, tmpls)"
      "collect (includeKustomization ?f path) (CfgIncludedKustomizations config) = Ok ks"
      "k = Kustomization path fs nts ts tmpls (CfgValues config) ks"
    by (auto simp: obind_Ok list_ex_iff split: if_splits)
  note subs = collect_includes [OF k(3)]
  have "list_all2 (\<lambda>include k. kust_path k = normalPath (path_join path include)) (CfgIncludedKustomizations config) ks"
    using subs by (rule list_all2_mono) (rule parseKustomization_path)
  moreover have "parsed_from L fsys noOptions (visited @ [path]) k'" if "k' \<in> set ks" for k'
    using subs that Suc.IH by (auto simp: list_all2_conv_all_nth in_set_conv_nth)
  moreover obtain ignore where "readConfig L fsys (path_join path componentConfigFilename) options = Ok config"
      "readIgnore L fsys (path_join path componentIgnoreFilename) = Ok ignore"
      "sorted_files L fsys config ignore (Kustomization path fs nts ts tmpls (CfgValues config) ks)"
    by (rule readKustomization_sorted [OF k(2)]) (blast intro: that)
  ultimately show ?case
    using k(1) readKustomization_dir [OF k(2)] unfolding k(4) parsed_from.simps by blast
qed simp

section \<open>Properties\<close>

text \<open>The file system that is read, and the path in it.\<close>

definition fsOf :: "'t kust_lib \<Rightarrow> filesystem option \<Rightarrow> filesystem" where
  "fsOf L fsys = (case fsys of None \<Rightarrow> KOsFS L | Some fs \<Rightarrow> fs)"

text \<open>
  C32: \<open>ParseKustomization\<close> ends, although kustomizations may include each other: if the file
  system has finitely many directories, a stack deeper than their number is enough for the
  recursion; what is returned does not depend on it then, and there is no panic, whatever
  the configurations and the templates are.
\<close>

theorem ParseKustomization_terminates:
  assumes "finite {p. StatIsDir (fsOf L fsys) p = Inr True}"
    and "card {p. StatIsDir (fsOf L fsys) p = Inr True} < stack" "stack \<le> deeper"
  shows "no_panic (ParseKustomization L stack fsys path options)
    \<and> ParseKustomization L deeper fsys path options = ParseKustomization L stack fsys path options"
proof -
  note enough = parseKustomization_enough [OF assms(1) refl, of "[]"]
  have "no_panic (parseKustomization L (fsOf L fsys) stack p options [])"
    and "parseKustomization L (fsOf L fsys) deeper p options [] = parseKustomization L (fsOf L fsys) stack p options []" for p
    using enough(1) [of stack] enough(2) [of deeper stack] assms(2,3) by simp_all
  then show ?thesis
    by (cases fsys) (auto simp: ParseKustomization_def fsOf_def intro!: obind_cong)
qed

text \<open>
  C33: what \<open>ParseKustomization\<close> returns. Every file below the directory can be read by the
  templates; those that are not left out are either copied or, if they have the suffix that
  is in effect, templates for the file without it, and there is a template set if there are
  templates. The suffix is that of the configuration in the directory, or that of the
  options. The same holds for all kustomizations that are included, directly or not, with no
  options; each is at the path it was included by, and is neither the same nor below one
  that includes it.
\<close>

theorem ParseKustomization_parsed:
  assumes "ParseKustomization L stack fsys path options = Ok k"
  shows "parsed_from L (fsOf L fsys) options [] k"
  using assms parseKustomization_parsed
  by (cases fsys) (auto simp: ParseKustomization_def fsOf_def obind_Ok)

section \<open>Two corner cases\<close>

text \<open>
  The names of included files are cut off the length of the directory's path, which has no
  place in the path of a file if the directory is the root, that is a dot: a file loses its
  first character.
\<close>

lemma includeFile_of_root:
  assumes "StatIsDir fsys ''.'' = Inr True" "Find fsys ''.'' ''*'' FileTypeRegular 0 = Ok [''x.yaml'']"
    and "ReadFile fsys ''x.yaml'' = Inr raw"
  shows "includeFile fsys noOptions ''a'' ''..'' [] = Ok [(''...yaml'', raw)]"
proof -
  have "path_join ''a'' ''..'' = ''.''" by code_simp
  then show ?thesis
    using assms by (simp add: includeFile_def isSubdirectory_def IsAbs_def HasPrefix_def readDecrypted_def noOptions_def)
qed

text \<open>Below a kustomization at the root nothing counts as a subdirectory, so that includes there are not refused.\<close>

lemma isSubdirectory_root: "isSubdirectory p ''.'' \<longleftrightarrow> p = ''.'' \<or> HasPrefix p ''./''"
  by (simp add: isSubdirectory_def)

end
