(* ===== verification/Kustomize_Render.thy ===== *)
theory Kustomize_Render
  imports Kustomize_Parse
begin

text \<open>
  Rendering of a kustomization into an in-memory file system, and the generator of
  \<open>pkg/manifests/kustomize/generator.go\<close> that runs kustomize on it. The template engine, the
  file system and kustomize itself are parameters. Go iterates over maps in any order; here
  it is that of insertion, which matters only for the error that is met first.
\<close>

section \<open>Discovery\<close>

record APIResource =
  ArName :: string
  ArVerbs :: "string list"
  ArShortNames :: "string list"
  ArCategories :: "string list"

record APIResourceList =
  ArGroupVersion :: string
  ArResources :: "APIResource list"

record kust_discovery =
  KServerVersion :: "goerr + version_info"
  KServerResources :: "goerr + APIResourceList list"

text \<open>The order of strings in Go.\<close>

fun string_greater :: "string \<Rightarrow> string \<Rightarrow> bool" where
  "string_greater [] t \<longleftrightarrow> False"
| "string_greater (c # s) [] \<longleftrightarrow> True"
| "string_greater (c # s) (d # t) \<longleftrightarrow> (of_char d :: nat) < of_char c \<or> (c = d \<and> string_greater s t)"

definition normalizeApiResources :: "platform \<Rightarrow> APIResource list \<Rightarrow> APIResource list" where
  "normalizeApiResources P apiResources =
     map (\<lambda>x. x\<lparr>ArVerbs := SortBy P string_greater (ArVerbs x), ArShortNames := SortBy P string_greater (ArShortNames x),
            ArCategories := SortBy P string_greater (ArCategories x)\<rparr>)
       (SortBy P (\<lambda>x y. string_greater (ArName x) (ArName y)) apiResources)"

definition normalizeServerGroupsWithResources :: "platform \<Rightarrow> APIResourceList list \<Rightarrow> APIResourceList list" where
  "normalizeServerGroupsWithResources P groups =
     map (\<lambda>g. g\<lparr>ArResources := normalizeApiResources P (ArResources g)\<rparr>)
       (SortBy P (\<lambda>x y. string_greater (ArGroupVersion x) (ArGroupVersion y)) groups)"

section \<open>Template functions\<close>

definition listFiles :: "platform \<Rightarrow> (string \<Rightarrow> goerr + (string \<Rightarrow> bool)) \<Rightarrow> (string \<times> string) list \<Rightarrow> string \<Rightarrow> goerr + string list" where
  "listFiles P compile fs pattern = (case compile pattern of
     Inl err \<Rightarrow> Inl err
   | Inr g \<Rightarrow> Inr (SortBy P string_greater (filter g (map fst fs))))"

definition existsFile :: "(string \<times> string) list \<Rightarrow> string \<Rightarrow> bool" where
  "existsFile fs path \<longleftrightarrow> map_of fs path \<noteq> None"

definition readFile :: "(string \<times> string) list \<Rightarrow> string \<Rightarrow> goerr + string" where
  "readFile fs path = (case map_of fs path of None \<Rightarrow> Inl ErrNotExist | Some data \<Rightarrow> Inr data)"

text \<open>What the functions given to the templates return or are made from.\<close>

record 'c RenderContext =
  RcLocalClient :: 'c
  RcTargetClient :: 'c
  RcComponent :: Component
  RcComponentDigest :: string
  RcComponentRevision :: int
  RcNamespace :: string
  RcReleaseName :: string
  RcValues :: "jmap option"

record 'c template_functions =
  FnFiles :: "(string \<times> string) list"
  FnKubernetesVersion :: version_info
  FnApiResources :: "APIResourceList list"
  FnContext :: "'c RenderContext"

definition funcMapForContext :: "(string \<times> string) list \<Rightarrow> version_info \<Rightarrow> APIResourceList list \<Rightarrow> 'c RenderContext \<Rightarrow> 'c template_functions" where
  "funcMapForContext fs serverInfo resources context =
     \<lparr>FnFiles = fs, FnKubernetesVersion = serverInfo, FnApiResources = resources, FnContext = context\<rparr>"

section \<open>Render\<close>

text \<open>
  The file system in memory: \<open>WalkIn\<close> lists what a walk calls back for, files and
  directories (marked by true), up to an error.
\<close>

record ('t, 'c) render_lib =
  KClone :: "'t \<Rightarrow> goerr + 't"
  KExecute :: "'t \<Rightarrow> 'c template_functions \<Rightarrow> string \<Rightarrow> jmap \<Rightarrow> goerr + string"
  WriteTo :: "memory_fs \<Rightarrow> string \<Rightarrow> string \<Rightarrow> goerr + memory_fs"
  ExistsIn :: "memory_fs \<Rightarrow> string \<Rightarrow> bool"
  IsDirIn :: "memory_fs \<Rightarrow> string \<Rightarrow> bool"
  WalkIn :: "memory_fs \<Rightarrow> string \<Rightarrow> (goerr + string \<times> bool) list"
  RecognizedKustomizationFileNames :: "string list"
  KDefaultFileName :: string
  KMarshal :: "Kustomization_yaml \<Rightarrow> goerr + string"

definition isResourceFile :: "string \<Rightarrow> bool" where
  "isResourceFile path \<longleftrightarrow> \<not> HasPrefix (path_base path) ''.'' \<and> (HasSuffix path ''.yaml'' \<or> HasSuffix path ''.yml'')"

definition walkStep :: "goerr + string \<times> bool \<Rightarrow> (goerr, string list) outcome" where
  "walkStep e = (case e of
     Inl err \<Rightarrow> Err err
   | Inr (path, isDir) \<Rightarrow> Ok (if \<not> isDir \<and> isResourceFile path then [path] else []))"

definition generateKustomization :: "('t, 'c) render_lib \<Rightarrow> memory_fs \<Rightarrow> string \<Rightarrow> (goerr, string) outcome" where
  "generateKustomization L fsys kustomizationPath =
     obind (if IsDirIn L fsys kustomizationPath then collect walkStep (WalkIn L fsys kustomizationPath) else Ok []) (\<lambda>resources.
     of_sum (KMarshal L \<lparr>KustResources = resources, KustNamespace = (if resources = [] then ''_dummy'' else ''''),
       KustImages = [], KustPatches = []\<rparr>))"

definition writeNonTemplate :: "('t, 'c) render_lib \<Rightarrow> string \<Rightarrow> string \<times> string \<Rightarrow> memory_fs \<Rightarrow> (goerr, memory_fs) outcome" where
  "writeNonTemplate L path = (\<lambda>(n, f) fsys. of_sum (WriteTo L fsys (path_join path n) f))"

definition writeTemplate :: "('t, 'c) render_lib \<Rightarrow> string \<Rightarrow> 't \<Rightarrow> 'c template_functions \<Rightarrow> jmap \<Rightarrow> string \<times> string \<Rightarrow> memory_fs \<Rightarrow>
    (goerr, memory_fs) outcome" where
  "writeTemplate L path t fns data = (\<lambda>(n, name) fsys.
     obind (of_sum (KExecute L t fns name data)) (\<lambda>buf.
     of_sum (WriteTo L fsys (path_join path n) (AdjustTemplateOutput buf))))"

definition ensureKustomization :: "('t, 'c) render_lib \<Rightarrow> string \<Rightarrow> memory_fs \<Rightarrow> (goerr, memory_fs) outcome" where
  "ensureKustomization L path fsys =
     (if list_ex (\<lambda>name. ExistsIn L fsys (path_join path name)) (RecognizedKustomizationFileNames L) then Ok fsys
      else obind (generateKustomization L fsys path) (\<lambda>raw.
        of_sum (WriteTo L fsys (path_join path (KDefaultFileName L)) raw)))"

text \<open>The set is cloned when the first template is rendered.\<close>

definition renderOwn :: "platform \<Rightarrow> ('t, 'c) render_lib \<Rightarrow> ('c \<Rightarrow> kust_discovery) \<Rightarrow> 'c RenderContext \<Rightarrow> 't Kustomization \<Rightarrow> memory_fs \<Rightarrow>
    (goerr, memory_fs) outcome" where
  "renderOwn P L discoveryOf context k fsys =
     (let D = discoveryOf (RcTargetClient context) in
      obind (of_sum (KServerVersion D)) (\<lambda>serverVersion.
      obind (of_sum (KServerResources D)) (\<lambda>groups.
      let groups = normalizeServerGroupsWithResources P groups in
      obind (or_panic ''assignment to entry in nil map'' (MergeMaps (kust_values k) (RcValues context))) (\<lambda>data.
      obind (oeach (writeNonTemplate L (kust_path k)) (kust_nonTemplates k) fsys) (\<lambda>fsys.
      obind (if kust_templates k = [] then Ok fsys
        else obind (or_panic nilPointer (kust_set k)) (\<lambda>t.
          obind (of_sum (KClone L t)) (\<lambda>t0.
          oeach (writeTemplate L (kust_path k) t0 (funcMapForContext (kust_files k) serverVersion groups context) data)
            (kust_templates k) fsys))) (\<lambda>fsys.
      ensureKustomization L (kust_path k) fsys))))))"

fun RenderKustomization :: "platform \<Rightarrow> ('t, 'c) render_lib \<Rightarrow> ('c \<Rightarrow> kust_discovery) \<Rightarrow> 'c RenderContext \<Rightarrow> 't Kustomization \<Rightarrow>
    memory_fs \<Rightarrow> (goerr, memory_fs) outcome"
  and RenderKustomizations :: "platform \<Rightarrow> ('t, 'c) render_lib \<Rightarrow> ('c \<Rightarrow> kust_discovery) \<Rightarrow> 'c RenderContext \<Rightarrow> 't Kustomization list \<Rightarrow>
    memory_fs \<Rightarrow> (goerr, memory_fs) outcome" where
  "RenderKustomization P L discoveryOf context (Kustomization path fs nts ts tmpls vals ks) fsys =
     obind (renderOwn P L discoveryOf context (Kustomization path fs nts ts tmpls vals ks) fsys)
       (RenderKustomizations P L discoveryOf context ks)"
| "RenderKustomizations P L discoveryOf context [] fsys = Ok fsys"
| "RenderKustomizations P L discoveryOf context (k # ks) fsys =
     obind (RenderKustomization P L discoveryOf context k fsys) (RenderKustomizations P L discoveryOf context ks)"

section \<open>The generator\<close>

record KustomizeGeneratorOptions =
  GenTemplateSuffix :: "string option"
  GenLeftTemplateDelimiter :: "string option"
  GenRightTemplateDelimiter :: "string option"
  GenDecryptor :: "Decryptor option"

text \<open>The generator is the kustomization; the kustomizer, with its fixed options, is the parameter \<open>RunKustomizer\<close>.\<close>

definition NewKustomizeGenerator :: "'t kust_lib \<Rightarrow> nat \<Rightarrow> filesystem option \<Rightarrow> string \<Rightarrow> KustomizeGeneratorOptions \<Rightarrow>
    (goerr, 't Kustomization) outcome" where
  "NewKustomizeGenerator L stack fsys kustomizationPath options = ParseKustomization L stack fsys kustomizationPath
     \<lparr>OptTemplateSuffix = GenTemplateSuffix options, OptLeftTemplateDelimiter = GenLeftTemplateDelimiter options,
      OptRightTemplateDelimiter = GenRightTemplateDelimiter options, OptDecryptor = GenDecryptor options\<rparr>"

definition Generate_kustomize :: "platform \<Rightarrow> ('t, 'c) render_lib \<Rightarrow> ('c \<Rightarrow> kust_discovery) \<Rightarrow> Object transform_lib \<Rightarrow> 't Kustomization \<Rightarrow>
    ('c, jmap option) Generator" where
  "Generate_kustomize P L discoveryOf K k ctx namespace name parameters =
     obind (of_sum (LocalClientFromContext ctx)) (\<lambda>localClient.
     obind (of_sum (ClientFromContext ctx)) (\<lambda>clnt.
     obind (of_sum (ComponentDigestFromContext ctx)) (\<lambda>componentDigest.
     obind (of_sum (ComponentRevisionFromContext ctx)) (\<lambda>componentRevision.
     obind (of_sum (ComponentFromContext ctx)) (\<lambda>component.
     obind (RenderKustomization P L discoveryOf
        \<lparr>RcLocalClient = localClient, RcTargetClient = clnt, RcComponent = component, RcComponentDigest = componentDigest,
         RcComponentRevision = componentRevision, RcNamespace = namespace, RcReleaseName = name, RcValues = parameters\<rparr> k []) (\<lambda>fsys.
     obind (of_sum (RunKustomizer K fsys (kust_path k))) (\<lambda>raw.
     decodeLoop (DecodeObjects K raw))))))))"

definition NewTransformableKustomizeGenerator :: "('t Kustomization \<Rightarrow> ('c, 'p) Generator) \<Rightarrow> 't kust_lib \<Rightarrow> nat \<Rightarrow> filesystem option \<Rightarrow>
    string \<Rightarrow> KustomizeGeneratorOptions \<Rightarrow> (goerr, ('c, 'p) tranformableGenerator) outcome" where
  "NewTransformableKustomizeGenerator gen L stack fsys kustomizationPath options =
     obind (NewKustomizeGenerator L stack fsys kustomizationPath options) (\<lambda>k. Ok (NewGenerator (gen k)))"

definition NewKustomizeGeneratorWithParameterTransformer :: "('t Kustomization \<Rightarrow> ('c, 'p) Generator) \<Rightarrow> 't kust_lib \<Rightarrow> nat \<Rightarrow>
    filesystem option \<Rightarrow> string \<Rightarrow> KustomizeGeneratorOptions \<Rightarrow> 'p ParameterTransformer \<Rightarrow> (goerr, ('c, 'p) tranformableGenerator) outcome" where
  "NewKustomizeGeneratorWithParameterTransformer gen L stack fsys kustomizationPath options transformer =
     obind (NewTransformableKustomizeGenerator gen L stack fsys kustomizationPath options) (\<lambda>g. Ok (WithParameterTransformer g transformer))"

definition NewKustomizeGeneratorWithObjectTransformer :: "('t Kustomization \<Rightarrow> ('c, 'p) Generator) \<Rightarrow> 't kust_lib \<Rightarrow> nat \<Rightarrow>
    filesystem option \<Rightarrow> string \<Rightarrow> KustomizeGeneratorOptions \<Rightarrow> ObjectTransformer \<Rightarrow> (goerr, ('c, 'p) tranformableGenerator) outcome" where
  "NewKustomizeGeneratorWithObjectTransformer gen L stack fsys kustomizationPath options transformer =
     obind (NewTransformableKustomizeGenerator gen L stack fsys kustomizationPath options) (\<lambda>g. Ok (WithObjectTransformer g transformer))"

section \<open>What is rendered\<close>

text \<open>What the file system in memory is relied on for: files below a directory are what a walk finds.\<close>

definition inDirectory :: "string \<Rightarrow> string \<Rightarrow> bool" where
  "inDirectory dir p \<longleftrightarrow> dir = ''.'' \<or> HasPrefix p (dir @ ''/'')"

definition memory_laws :: "('t, 'c) render_lib \<Rightarrow> bool" where
  "memory_laws L \<longleftrightarrow>
     (\<forall>fsys p x fsys'. WriteTo L fsys p x = Inr fsys' \<longrightarrow> fsys' = AList.update p x fsys) \<and>
     (\<forall>fsys dir p. p \<in> fst ` set fsys \<longrightarrow> inDirectory dir p \<longrightarrow> IsDirIn L fsys dir) \<and>
     (\<forall>fsys dir. IsDirIn L fsys dir \<longrightarrow> {p. Inr (p, False) \<in> set (WalkIn L fsys dir)} = {p \<in> fst ` set fsys. inDirectory dir p})"

definition writeAll :: "string \<Rightarrow> (string \<times> string) list \<Rightarrow> memory_fs \<Rightarrow> memory_fs" where
  "writeAll path outs fsys = fold (\<lambda>(n, x). AList.update (path_join path n) x) outs fsys"

lemma writeAll_simps [simp]:
  "writeAll path [] fsys = fsys" "writeAll path ((n, x) # outs) fsys = writeAll path outs (AList.update (path_join path n) x fsys)"
  "writeAll path (outs @ outs') fsys = writeAll path outs' (writeAll path outs fsys)"
  by (simp_all add: writeAll_def)

lemma memory_lawsD:
  assumes "memory_laws L"
  shows "WriteTo L fsys p x = Inr fsys' \<Longrightarrow> fsys' = AList.update p x fsys"
    and "\<not> IsDirIn L fsys dir \<Longrightarrow> p \<in> fst ` set fsys \<Longrightarrow> \<not> inDirectory dir p"
    and "IsDirIn L fsys dir \<Longrightarrow> {p. Inr (p, False) \<in> set (WalkIn L fsys dir)} = {p \<in> fst ` set fsys. inDirectory dir p}"
proof -
  note laws = assms [unfolded memory_laws_def]
  show "WriteTo L fsys p x = Inr fsys' \<Longrightarrow> fsys' = AList.update p x fsys" by (rule laws [THEN conjunct1, rule_format])
  show "\<not> IsDirIn L fsys dir \<Longrightarrow> p \<in> fst ` set fsys \<Longrightarrow> \<not> inDirectory dir p"
    using laws [THEN conjunct2, THEN conjunct1, rule_format, of p fsys dir] by auto
  show "IsDirIn L fsys dir \<Longrightarrow> {p. Inr (p, False) \<in> set (WalkIn L fsys dir)} = {p \<in> fst ` set fsys. inDirectory dir p}"
    by (rule laws [THEN conjunct2, THEN conjunct2, rule_format])
qed

lemma writeNonTemplates_run:
  assumes "memory_laws L"
  shows "oeach (writeNonTemplate L path) nts fsys = Ok fsys' \<Longrightarrow> fsys' = writeAll path nts fsys"
proof (induction nts arbitrary: fsys)
  case (Cons nt nts)
  then show ?case by (cases nt) (auto simp: obind_Ok writeNonTemplate_def dest: memory_lawsD(1) [OF assms])
qed simp

text \<open>The outputs of the templates, in their order.\<close>

definition outputsOf :: "('t, 'c) render_lib \<Rightarrow> 't \<Rightarrow> 'c template_functions \<Rightarrow> jmap \<Rightarrow> (string \<times> string) list \<Rightarrow> (string \<times> string) list \<Rightarrow> bool" where
  "outputsOf L t fns data = list_all2 (\<lambda>(n, name) (n', x). n' = n \<and>
     (\<exists>buf. KExecute L t fns name data = Inr buf \<and> x = AdjustTemplateOutput buf))"

lemma writeTemplates_run:
  assumes "memory_laws L"
  shows "oeach (writeTemplate L path t fns data) tmpls fsys = Ok fsys' \<Longrightarrow>
    \<exists>outs. outputsOf L t fns data tmpls outs \<and> fsys' = writeAll path outs fsys"
proof (induction tmpls arbitrary: fsys)
  case (Cons tmpl tmpls)
  obtain n name where tmpl: "tmpl = (n, name)" by (cases tmpl)
  from Cons.prems obtain buf fsys1 where run: "KExecute L t fns name data = Inr buf"
      "WriteTo L fsys (path_join path n) (AdjustTemplateOutput buf) = Inr fsys1"
      "oeach (writeTemplate L path t fns data) tmpls fsys1 = Ok fsys'"
    by (auto simp: tmpl obind_Ok writeTemplate_def)
  from Cons.IH [OF run(3)] obtain outs where "outputsOf L t fns data tmpls outs" "fsys' = writeAll path outs fsys1" by blast
  then have "outputsOf L t fns data (tmpl # tmpls) ((n, AdjustTemplateOutput buf) # outs)"
      "fsys' = writeAll path ((n, AdjustTemplateOutput buf) # outs) fsys"
    using run(1) memory_lawsD(1) [OF assms run(2)] by (auto simp: tmpl outputsOf_def)
  then show ?case by blast
qed (simp add: outputsOf_def)

lemma collect_walk:
  "collect walkStep es = Ok rs \<Longrightarrow> x \<in> set rs \<longleftrightarrow> Inr (x, False) \<in> set es \<and> isResourceFile x"
proof (induction es arbitrary: rs)
  case (Cons e es)
  from Cons.prems obtain xs ys where r: "walkStep e = Ok xs" "collect walkStep es = Ok ys" "rs = xs @ ys"
    by (auto simp: obind_Ok)
  have "x \<in> set xs \<longleftrightarrow> e = Inr (x, False) \<and> isResourceFile x"
    using r(1) by (auto simp: walkStep_def split: sum.splits if_splits)
  then show ?case using Cons.IH [OF r(2)] by (auto simp: r(3))
qed simp

text \<open>\<open>fsys'\<close> is \<open>fsys\<close> with a kustomization in it at \<open>path\<close>, which lists the YAML files if it had to be generated.\<close>

definition with_kustomization :: "('t, 'c) render_lib \<Rightarrow> string \<Rightarrow> memory_fs \<Rightarrow> memory_fs \<Rightarrow> bool" where
  "with_kustomization L path fsys fsys' \<longleftrightarrow>
     (if \<exists>name \<in> set (RecognizedKustomizationFileNames L). ExistsIn L fsys (path_join path name) then fsys' = fsys
      else \<exists>resources raw. set resources = {p \<in> fst ` set fsys. inDirectory path p \<and> isResourceFile p}
        \<and> KMarshal L \<lparr>KustResources = resources, KustNamespace = (if resources = [] then ''_dummy'' else ''''),
            KustImages = [], KustPatches = []\<rparr> = Inr raw
        \<and> fsys' = AList.update (path_join path (KDefaultFileName L)) raw fsys)"

lemma ensureKustomization_run:
  assumes laws: "memory_laws L" and run: "ensureKustomization L path fsys = Ok fsys'"
  shows "with_kustomization L path fsys fsys'"
proof (cases "\<exists>name \<in> set (RecognizedKustomizationFileNames L). ExistsIn L fsys (path_join path name)")
  case False
  with run obtain rs raw where r: "(if IsDirIn L fsys path then collect walkStep (WalkIn L fsys path) else Ok []) = Ok rs"
      "KMarshal L \<lparr>KustResources = rs, KustNamespace = (if rs = [] then ''_dummy'' else ''''), KustImages = [], KustPatches = []\<rparr> = Inr raw"
      "WriteTo L fsys (path_join path (KDefaultFileName L)) raw = Inr fsys'"
    unfolding ensureKustomization_def generateKustomization_def list_ex_iff by (auto simp: obind_Ok simp del: HOL.if_split)
  have "set rs = {p \<in> fst ` set fsys. inDirectory path p \<and> isResourceFile p}"
  proof (cases "IsDirIn L fsys path")
    case True
    then show ?thesis using collect_walk [of "WalkIn L fsys path" rs] r(1) memory_lawsD(3) [OF laws True] by (simp add: set_eq_iff)
  next
    case False
    then show ?thesis using r(1) memory_lawsD(2) [OF laws False] by auto
  qed
  with r(2) memory_lawsD(1) [OF laws r(3)] show ?thesis unfolding with_kustomization_def if_not_P [OF False] by blast
qed (use run in \<open>auto simp: with_kustomization_def ensureKustomization_def list_ex_iff\<close>)

lemma renderOwn_run:
  assumes laws: "memory_laws L" and run: "renderOwn P L discoveryOf context k fsys = Ok fsys'"
  obtains serverVersion groups data outs t where
    "KServerVersion (discoveryOf (RcTargetClient context)) = Inr serverVersion"
    "KServerResources (discoveryOf (RcTargetClient context)) = Inr groups"
    "MergeMaps (kust_values k) (RcValues context) = Some data"
    "kust_templates k \<noteq> [] \<Longrightarrow> \<exists>ts. kust_set k = Some ts \<and> KClone L ts = Inr t"
    "outputsOf L t (funcMapForContext (kust_files k) serverVersion (normalizeServerGroupsWithResources P groups) context) data
       (kust_templates k) outs"
    "with_kustomization L (kust_path k) (writeAll (kust_path k) (kust_nonTemplates k @ outs) fsys) fsys'"
proof -
  from run obtain sv groups data fs1 fs2 where r: "KServerVersion (discoveryOf (RcTargetClient context)) = Inr sv"
      "KServerResources (discoveryOf (RcTargetClient context)) = Inr groups"
      "MergeMaps (kust_values k) (RcValues context) = Some data"
      "oeach (writeNonTemplate L (kust_path k)) (kust_nonTemplates k) fsys = Ok fs1"
      "(if kust_templates k = [] then Ok fs1
        else obind (or_panic nilPointer (kust_set k)) (\<lambda>t. obind (of_sum (KClone L t)) (\<lambda>t0.
          oeach (writeTemplate L (kust_path k) t0 (funcMapForContext (kust_files k) sv (normalizeServerGroupsWithResources P groups) context) data)
            (kust_templates k) fs1))) = Ok fs2"
      "ensureKustomization L (kust_path k) fs2 = Ok fsys'"
    unfolding renderOwn_def Let_def by (auto simp: obind_Ok or_panic_def split: option.splits simp del: HOL.if_split)
  let ?fns = "funcMapForContext (kust_files k) sv (normalizeServerGroupsWithResources P groups) context"
  have fs1: "fs1 = writeAll (kust_path k) (kust_nonTemplates k) fsys" by (rule writeNonTemplates_run [OF laws r(4)])
  show ?thesis
  proof (cases "kust_templates k = []")
    case True
    then have "fs2 = fs1" using r(5) by simp
    with that [OF r(1-3), of undefined "[]"] True ensureKustomization_run [OF laws r(6)] show ?thesis
      by (simp add: fs1 outputsOf_def)
  next
    case False
    with r(5) obtain ts t where t: "kust_set k = Some ts" "KClone L ts = Inr t"
        "oeach (writeTemplate L (kust_path k) t ?fns data) (kust_templates k) fs1 = Ok fs2"
      by (auto simp: obind_Ok or_panic_def split: option.splits)
    from writeTemplates_run [OF laws t(3)] obtain outs where "outputsOf L t ?fns data (kust_templates k) outs"
        "fs2 = writeAll (kust_path k) outs fs1" by blast
    with that [OF r(1-3), of t outs] t(1,2) ensureKustomization_run [OF laws r(6)] show ?thesis by (simp add: fs1)
  qed
qed

text \<open>
  C34: what rendering a kustomization that includes no others leaves in the file system: the
  files that are copied, then the outputs of the templates (which are executed with the
  values of the kustomization, the parameters merged over them), each at its path below that
  of the kustomization; and, unless there is a kustomization file then, a generated one whose
  resources are exactly the YAML files there whose names do not start with a dot. It has a
  namespace if there are none.
\<close>

theorem RenderKustomization_renders:
  assumes "memory_laws L" and "RenderKustomization P L discoveryOf context k fsys = Ok fsys'" and "kustomizations k = []"
  shows "\<exists>serverVersion groups data outs t.
    KServerVersion (discoveryOf (RcTargetClient context)) = Inr serverVersion
    \<and> KServerResources (discoveryOf (RcTargetClient context)) = Inr groups
    \<and> MergeMaps (kust_values k) (RcValues context) = Some data
    \<and> (kust_templates k \<noteq> [] \<longrightarrow> (\<exists>ts. kust_set k = Some ts \<and> KClone L ts = Inr t))
    \<and> outputsOf L t (funcMapForContext (kust_files k) serverVersion (normalizeServerGroupsWithResources P groups) context) data
        (kust_templates k) outs
    \<and> with_kustomization L (kust_path k) (writeAll (kust_path k) (kust_nonTemplates k @ outs) fsys) fsys'"
proof -
  have "renderOwn P L discoveryOf context k fsys = Ok fsys'"
    using assms(2,3) by (cases k) (auto simp: obind_Ok)
  then show ?thesis by (rule renderOwn_run [OF assms(1)]) blast
qed

end
