(* ===== verification/Clm_Manifests.thy ===== *)
theory Clm_Manifests
  imports Clm_Release Kustomize_Render
begin

text \<open>
  \<open>clm/internal/manifests\<close>: the objects of a release, from charts, kustomizations and single
  files, with values that are merged from several files. All sources are given the same map
  of values. Reading from the operating system is a parameter.
\<close>

section \<open>The release as a component\<close>

text \<open>\<open>specOf\<close> is the view of a map by \<open>reflect\<close>, in which the component has its
  spec; \<open>blank\<close> is the zero value of the type of components.\<close>

definition componentFromRelease :: "platform \<Rightarrow> (jmap \<Rightarrow> specnode gvalue) \<Rightarrow> Component \<Rightarrow> Clm_Release.Release \<Rightarrow> jmap \<Rightarrow> Component" where
  "componentFromRelease P specOf blank release vals = blank
     \<lparr>Group := ''clm.cs.sap.com'', Version := ''v1alpha1'', Kind := ''Component'',
      Namespace := Clm_Release.RelNamespace release, Name := Clm_Release.RelName release, Spec := specOf vals,
      CompStatus := (CompStatus blank)\<lparr>ProcessingDigest := GetDigest P release, Revision := Clm_Release.RelRevision release,
        CompState := RelState release, StatusInventory := RelInventory release\<rparr>\<rparr>"

section \<open>Sources\<close>

text \<open>
  \<open>StatSource\<close> tells whether a path is a directory; \<open>TempCopy\<close> makes a temporary directory with
  a copy of a file, called \<open>resources.yaml\<close>.
\<close>

record sources =
  OsReadFile :: "string \<Rightarrow> goerr + string"
  AbsSource :: "string \<Rightarrow> goerr + string"
  StatSource :: "string \<Rightarrow> goerr + bool"
  RootDirFS :: filesystem
  TempCopy :: "string \<Rightarrow> goerr + filesystem"
  UnmarshalValuesMap :: "string \<Rightarrow> goerr + jmap option"

text \<open>\<open>MergeMapInto\<close> panics if there is a nil map where it has to write.\<close>

fun mergeValuesFiles :: "sources \<Rightarrow> string list \<Rightarrow> jmap option \<Rightarrow> (goerr, jmap option) outcome" where
  "mergeValuesFiles S [] allValues = Ok allValues"
| "mergeValuesFiles S (path # paths) allValues =
     obind (of_sum (OsReadFile S path)) (\<lambda>rawValues.
     obind (of_sum (UnmarshalValuesMap S rawValues)) (\<lambda>vals.
     obind (or_panic ''assignment to entry in nil map'' (MergeMapInto allValues (jentries vals))) (mergeValuesFiles S paths)))"

definition locateSource :: "sources \<Rightarrow> string \<Rightarrow> (goerr, filesystem \<times> string) outcome" where
  "locateSource S source =
     obind (of_sum (AbsSource S source)) (\<lambda>source.
     case StatSource S source of
       Inl err \<Rightarrow> Err (if IsErrNotExist err then Errorf ''no such file or directory: %s'' [AStr source] else err)
     | Inr True \<Rightarrow> Ok (RootDirFS S, drop 1 source)
     | Inr False \<Rightarrow> obind (of_sum (TempCopy S source)) (\<lambda>fsys. Ok (fsys, ''.'')))"

text \<open>
  The two kinds of generators, from a file system and a path in it to objects; a chart may
  change the values on the way.
\<close>

type_synonym 'c source_generator = "filesystem \<Rightarrow> string \<Rightarrow> 'c Context \<Rightarrow> string \<Rightarrow> string \<Rightarrow> jmap option \<Rightarrow> (goerr, Object list \<times> jmap) outcome"

definition contextFor :: "string \<Rightarrow> 'c \<Rightarrow> Component \<Rightarrow> 'c Context" where
  "contextFor reconcilerName clnt component =
     WithComponentRevision (Revision (CompStatus component))
      (WithComponentDigest (ProcessingDigest (CompStatus component))
      (WithComponentNamespace (Namespace component)
      (WithComponentName (Name component)
      (WithComponent component
      (WithClient clnt
      (WithLocalClient clnt
      (WithReconcilerName reconcilerName NewContext)))))))"

definition generateSource :: "sources \<Rightarrow> 'c source_generator \<Rightarrow> 'c source_generator \<Rightarrow> (jmap \<Rightarrow> Component) \<Rightarrow> string \<Rightarrow> 'c \<Rightarrow> string \<Rightarrow> jmap \<Rightarrow>
    (goerr, Object list \<times> jmap) outcome" where
  "generateSource S helm kustomize componentFor reconcilerName clnt source allValues =
     obind (locateSource S source) (\<lambda>(fsys, path).
     let component = componentFor allValues;
         run = (\<lambda>gen :: 'c source_generator. gen fsys path (contextFor reconcilerName clnt component) (Namespace component) (Name component) (Some allValues))
     in case StatIsDir fsys (Clean (path @ ''/Chart.yaml'')) of
          Inr _ \<Rightarrow> run helm
        | Inl err \<Rightarrow> if IsErrNotExist err then run kustomize else Err err)"

fun generateSources :: "(string \<Rightarrow> jmap \<Rightarrow> (goerr, Object list \<times> jmap) outcome) \<Rightarrow> string list \<Rightarrow> jmap \<Rightarrow> (goerr, Object list) outcome" where
  "generateSources gen [] allValues = Ok []"
| "generateSources gen (source # srcs) allValues =
     obind (gen source allValues) (\<lambda>(objects, allValues).
     obind (generateSources gen srcs allValues) (\<lambda>allObjects. Ok (objects @ allObjects)))"

text \<open>The generators of the other packages, made for a source and run.\<close>

definition helmSource :: "platform \<Rightarrow> (string list \<Rightarrow> string \<Rightarrow> string list) \<Rightarrow> ('c \<Rightarrow> 'c \<Rightarrow> 't helm_lib) \<Rightarrow> ('c \<Rightarrow> discovery) \<Rightarrow> 't parse_lib \<Rightarrow> nat \<Rightarrow>
    'c source_generator" where
  "helmSource P remove lib discoveryOf L stack fsys path ctx namespace name parameters =
     obind (NewHelmGenerator L stack (Some fsys) path) (\<lambda>chart.
     Generate_helm_values P remove lib discoveryOf chart ctx namespace name parameters)"

definition kustomizeSource :: "platform \<Rightarrow> ('t, 'c) render_lib \<Rightarrow> ('c \<Rightarrow> kust_discovery) \<Rightarrow> Object transform_lib \<Rightarrow> 't kust_lib \<Rightarrow> nat \<Rightarrow>
    'c source_generator" where
  "kustomizeSource P R discoveryOf K L stack fsys path ctx namespace name parameters =
     obind (NewKustomizeGenerator L stack (Some fsys) path
       \<lparr>GenTemplateSuffix = None, GenLeftTemplateDelimiter = None, GenRightTemplateDelimiter = None, GenDecryptor = None\<rparr>) (\<lambda>k.
     obind (Generate_kustomize P R discoveryOf K k ctx namespace name parameters) (\<lambda>objects. Ok (objects, jentries parameters)))"

definition clmGenerate :: "sources \<Rightarrow> 'c source_generator \<Rightarrow> 'c source_generator \<Rightarrow> (Clm_Release.Release \<Rightarrow> jmap \<Rightarrow> Component) \<Rightarrow> string list \<Rightarrow> string list \<Rightarrow>
    string \<Rightarrow> 'c \<Rightarrow> Clm_Release.Release \<Rightarrow> (goerr, Object list) outcome" where
  "clmGenerate S helm kustomize componentFor manifestSources valuesSources reconcilerName clnt release =
     obind (mergeValuesFiles S valuesSources (Some [])) (\<lambda>allValues.
     generateSources (generateSource S helm kustomize (componentFor release) reconcilerName clnt) manifestSources (jentries allValues))"

section \<open>Sources that do not see each other\<close>

text \<open>If no source changes the values, the objects are those of each source on its own, in the given order.\<close>

lemma generateSources_independent:
  assumes "\<And>source objects after. source \<in> set srcs \<Longrightarrow> gen source allValues = Ok (objects, after) \<Longrightarrow> after = allValues"
  shows "generateSources gen srcs allValues = collect (\<lambda>source. obind (gen source allValues) (\<lambda>(objects, _). Ok objects)) srcs"
  using assms
proof (induction srcs)
  case (Cons source srcs)
  show ?case
  proof (cases "gen source allValues")
    case (Ok x)
    obtain objects after where x: "x = (objects, after)" by (cases x)
    have "after = allValues" by (rule Cons.prems [of source objects]) (use Ok x in simp_all)
    moreover have "generateSources gen srcs allValues = collect (\<lambda>source. obind (gen source allValues) (\<lambda>(objects, _). Ok objects)) srcs"
      by (rule Cons.IH) (rule Cons.prems, simp_all)
    ultimately show ?thesis using Ok x by simp
  qed simp_all
qed simp

lemma kustomizeSource_keeps:
  "kustomizeSource P R discoveryOf K L stack fsys path ctx namespace name (Some vals) = Ok (objects, after) \<Longrightarrow> after = vals"
  by (auto simp: kustomizeSource_def obind_Ok)

text \<open>
  A chart can change them: the values of a dependency are passed the global values of the
  chart in the very map that the caller has given.
\<close>

lemma RenderValues_changes:
  assumes "GetCapabilities D = Inr capabilities"
    and "chart = Chart md [(''sub'', Chart md' [] (Some []) [] None [] [])] (Some []) [] None [] []"
    and "MetaDependencies md = [\<lparr>DepName = ''sub'', DepAlias = ''sub'', DepCondition = '''', DepTags = [], DepImportValues = []\<rparr>]"
    and "MetaDependencies md' = []"
  shows "RenderValues L D chart release (Some [(''sub'', JMap (Some [])), (''global'', JMap (Some [(''a'', JStr ''b'')]))]) =
    Ok ([], [(''sub'', JMap (Some [(''global'', JMap (Some [(''a'', JStr ''b'')]))])), (''global'', JMap (Some [(''a'', JStr ''b'')]))])"
  using assms
  by (simp add: RenderValues_def MergeMaps_def isEnabled_def dependencyValues_def passDown_def getMap_def writeBack_def Let_def)

end
