(* ===== verification/References.thy ===== *)
theory References
  imports Component_Types Reconciler_Util
begin

text \<open>
  \<open>pkg/component/reference.go\<close>: loading the references of a component's spec and the
  digest of the component. The built-in references read config maps and secrets through
  the client; generic references and the JSON encoding of the digest data are parameters.
\<close>

section \<open>Parameters and state\<close>

datatype digestvalue =
    DigestMap "string \<Rightarrow> string option"
  | DigestComponent int "string \<Rightarrow> string option" "specnode gvalue" "string \<Rightarrow> string option"

text \<open>
  \<open>LoadGeneric\<close> and \<open>DigestGeneric\<close> are the methods of a \<open>Reference[T]\<close> at an address;
  \<open>CalculateDigest\<close> of \<open>internal/util\<close> hashes the JSON encoding of its arguments, which is
  insensitive to the order of map entries; \<open>MarshalStrings\<close> is the JSON encoding of a list
  of strings, \<open>GrowCap\<close> the growth of slices.
\<close>

record 'w refclient =
  GetConfigMap :: "string \<Rightarrow> string \<Rightarrow> 'w \<Rightarrow> (goerr + (string \<times> string) list) \<times> 'w"
  GetSecret :: "string \<Rightarrow> string \<Rightarrow> 'w \<Rightarrow> (goerr + (string \<times> string) list) \<times> 'w"
  LoadGeneric :: "nat \<Rightarrow> Component \<Rightarrow> 'w \<Rightarrow> goerr option \<times> 'w"
  DigestGeneric :: "nat \<Rightarrow> 'w \<Rightarrow> string"
  CalculateDigest :: "digestvalue \<Rightarrow> string"
  MarshalStrings :: "string list \<Rightarrow> string"
  GrowCap :: "nat \<Rightarrow> nat"

record 'w ref_env =
  rworld :: 'w
  refs :: refstore
  digestData :: "string \<Rightarrow> string option"

type_synonym ('w, 'a) refcomp = "('w ref_env, goerr, 'a) comp"

definition ref_call :: "('w \<Rightarrow> 'x \<times> 'w) \<Rightarrow> ('w, 'x) refcomp" where
  "ref_call oper = (\<lambda>s. let (x, w) = oper (rworld s) in (Ok x, s\<lparr>rworld := w\<rparr>))"

definition set_ref :: "nat \<Rightarrow> refdata \<Rightarrow> ('w, unit) refcomp" where
  "set_ref addr d = modify (\<lambda>s. s\<lparr>refs := (refs s)(addr \<mapsto> d)\<rparr>)"

section \<open>Loading\<close>

text \<open>10 seconds.\<close>

definition retryAfter :: int where
  "retryAfter = 10 * 1000000000"

definition wrapLoading :: "string \<Rightarrow> string \<Rightarrow> string \<Rightarrow> goerr \<Rightarrow> goerr" where
  "wrapLoading kind namespace name err = Wrapf err (''error loading '' @ kind @ '' %s/%s'') [AStr namespace, AStr name]"

text \<open>The two references to a whole map, and the two to a key, differ in what they read.\<close>

definition load_map :: "string \<Rightarrow> (string \<Rightarrow> string \<Rightarrow> 'w \<Rightarrow> (goerr + (string \<times> string) list) \<times> 'w) \<Rightarrow>
    nat \<Rightarrow> string \<Rightarrow> string \<Rightarrow> bool \<Rightarrow> ('w, unit) refcomp" where
  "load_map kind get addr name namespace ignoreNotFound =
     bind (ref_call (get namespace name)) (\<lambda>res. case res of
       Inl err \<Rightarrow>
         if IsNotFound err then
           (if ignoreNotFound then ret ()
            else fail (NewRetriableError (wrapLoading kind namespace name err) (Some retryAfter)))
         else fail (wrapLoading kind namespace name err)
     | Inr data \<Rightarrow> set_ref addr (LoadedMap data))"

fun firstPresent :: "(string \<times> string) list \<Rightarrow> string list \<Rightarrow> string option" where
  "firstPresent data [] = None"
| "firstPresent data (key # keys) = (case map_of data key of Some v \<Rightarrow> Some v | None \<Rightarrow> firstPresent data keys)"

definition load_key :: "string \<Rightarrow> (string \<Rightarrow> string \<Rightarrow> 'w \<Rightarrow> (goerr + (string \<times> string) list) \<times> 'w) \<Rightarrow>
    nat \<Rightarrow> string \<Rightarrow> string \<Rightarrow> string \<Rightarrow> bool \<Rightarrow> string list \<Rightarrow> ('w, unit) refcomp" where
  "load_key kind get addr name key namespace ignoreNotFound fallbackKeys =
     bind (ref_call (get namespace name)) (\<lambda>res. case res of
       Inl err \<Rightarrow>
         if IsNotFound err then
           (if ignoreNotFound then ret ()
            else fail (NewRetriableError (wrapLoading kind namespace name err) (Some retryAfter)))
         else fail (wrapLoading kind namespace name err)
     | Inr data \<Rightarrow>
         if key \<noteq> '''' then
           (case map_of data key of
              Some v \<Rightarrow> set_ref addr (LoadedValue v)
            | None \<Rightarrow> fail (NewRetriableError (Errorf (''key %s not found in '' @ kind @ '' %s/%s'')
                [AStr key, AStr namespace, AStr name]) (Some retryAfter)))
         else
           (case firstPresent data fallbackKeys of
              Some v \<Rightarrow> set_ref addr (LoadedValue v)
            | None \<Rightarrow> fail (NewRetriableError (Errorf (''no matching key found in '' @ kind @ '' %s/%s'')
                [AStr namespace, AStr name]) (Some retryAfter))))"

definition loadConfigMap :: "'w refclient \<Rightarrow> nat \<Rightarrow> string \<Rightarrow> string \<Rightarrow> bool \<Rightarrow> ('w, unit) refcomp" where
  "loadConfigMap c = load_map ''configmap'' (GetConfigMap c)"

definition loadSecret :: "'w refclient \<Rightarrow> nat \<Rightarrow> string \<Rightarrow> string \<Rightarrow> bool \<Rightarrow> ('w, unit) refcomp" where
  "loadSecret c = load_map ''secret'' (GetSecret c)"

definition loadConfigMapKey :: "'w refclient \<Rightarrow> nat \<Rightarrow> string \<Rightarrow> string \<Rightarrow> string \<Rightarrow> bool \<Rightarrow> string list \<Rightarrow> ('w, unit) refcomp" where
  "loadConfigMapKey c = load_key ''configmap'' (GetConfigMap c)"

definition loadSecretKey :: "'w refclient \<Rightarrow> nat \<Rightarrow> string \<Rightarrow> string \<Rightarrow> string \<Rightarrow> bool \<Rightarrow> string list \<Rightarrow> ('w, unit) refcomp" where
  "loadSecretKey c = load_key ''secret'' (GetSecret c)"

text \<open>The digest of what a built-in reference has loaded; empty if it has not.\<close>

definition refDigest :: "platform \<Rightarrow> 'w refclient \<Rightarrow> refstore \<Rightarrow> nat \<Rightarrow> string" where
  "refDigest P c rs addr = (case rs addr of
     None \<Rightarrow> ''''
   | Some (LoadedMap data) \<Rightarrow> CalculateDigest c (DigestMap (map_of data))
   | Some (LoadedValue v) \<Rightarrow> Sha256hex P v)"

text \<open>The accessors \<open>Data\<close> and \<open>Value\<close> panic on a reference that is not loaded.\<close>

definition refData :: "refstore \<Rightarrow> nat \<Rightarrow> (goerr, (string \<times> string) list) outcome" where
  "refData rs addr = (case rs addr of
     Some (LoadedMap data) \<Rightarrow> Ok data | _ \<Rightarrow> Panic ''access to unloaded reference'')"

definition refValue :: "refstore \<Rightarrow> nat \<Rightarrow> (goerr, string) outcome" where
  "refValue rs addr = (case rs addr of
     Some (LoadedValue v) \<Rightarrow> Ok v | _ \<Rightarrow> Panic ''access to unloaded reference'')"

section \<open>Resolving the references of a spec\<close>

abbreviation "tagNotFoundPolicy \<equiv> ''notFoundPolicy''"
abbreviation "tagFallbackKeys \<equiv> ''fallbackKeys''"
abbreviation "notFoundPolicyIgnoreOnDeletion \<equiv> ''ignoreOnDeletion''"

definition ignoresNotFound :: "Component \<Rightarrow> StructTag \<Rightarrow> bool" where
  "ignoresNotFound component tag \<longleftrightarrow> DeletionTimestamp component \<noteq> None \<and>
     getString tag tagNotFoundPolicy = notFoundPolicyIgnoreOnDeletion"

definition fallbackKeysOf :: "StructTag \<Rightarrow> string list" where
  "fallbackKeysOf tag = (let s = getString tag tagFallbackKeys in
     if s \<noteq> '''' then splitAt (CHR '','') s else [])"

definition loadNode :: "platform \<Rightarrow> 'w refclient \<Rightarrow> Component \<Rightarrow> specnode \<Rightarrow> StructTag \<Rightarrow> ('w, string option) refcomp" where
  "loadNode P c component x tag =
     (let ns = Namespace component; ignore = ignoresNotFound component tag;
          digest = (\<lambda>addr. bind (gets refs) (\<lambda>rs. ret (Some (refDigest P c rs addr))))
      in case x of
        PlainNode _ \<Rightarrow> ret None
      | NilReference \<Rightarrow> ret None
      | ConfigMapReference addr name \<Rightarrow> seq (loadConfigMap c addr name ns ignore) (digest addr)
      | ConfigMapKeyReference addr name key \<Rightarrow>
          seq (loadConfigMapKey c addr name key ns ignore (fallbackKeysOf tag)) (digest addr)
      | SecretReference addr name \<Rightarrow> seq (loadSecret c addr name ns ignore) (digest addr)
      | SecretKeyReference addr name key \<Rightarrow>
          seq (loadSecretKey c addr name key ns ignore (fallbackKeysOf tag)) (digest addr)
      | GenericReference addr \<Rightarrow>
          seq (bind (ref_call (LoadGeneric c addr component)) of_option)
            (bind (gets rworld) (\<lambda>w. ret (Some (DigestGeneric c addr w)))))"

text \<open>The callback of the walk: the digest of a loaded reference is filed under its path.\<close>

definition resolveNode :: "platform \<Rightarrow> 'w refclient \<Rightarrow> Component \<Rightarrow> specnode \<Rightarrow> string list \<Rightarrow> StructTag \<Rightarrow>
    ('w, goerr option) refcomp" where
  "resolveNode P c component x path tag =
     bind (try_comp (loadNode P c component x tag)) (\<lambda>res. case res of
       Inl err \<Rightarrow> ret (Some err)
     | Inr None \<Rightarrow> ret None
     | Inr (Some d) \<Rightarrow>
         seq (modify (\<lambda>s. s\<lparr>digestData := (digestData s)(''refs:'' @ MarshalStrings c path \<mapsto> d)\<rparr>))
           (ret None))"

definition resolveReferences :: "platform \<Rightarrow> 'w refclient \<Rightarrow> Component \<Rightarrow> ('w, string) refcomp" where
  "resolveReferences P c component =
     seq (modify (\<lambda>s. s\<lparr>digestData := (\<lambda>_. None)\<rparr>))
     (bind (Walk (GrowCap c) (Spec component) (resolveNode P c component)) (\<lambda>err.
      case err of
        Some e \<Rightarrow> fail e
      | None \<Rightarrow> bind (gets digestData) (\<lambda>d.
          ret (CalculateDigest c (DigestComponent (Generation component) (map_of (Annotations component)) (Spec component) d)))))"

section \<open>Properties\<close>

text \<open>The address of a built-in reference.\<close>

fun ref_addr :: "specnode \<Rightarrow> nat option" where
  "ref_addr (ConfigMapReference addr _) = Some addr"
| "ref_addr (ConfigMapKeyReference addr _ _) = Some addr"
| "ref_addr (SecretReference addr _) = Some addr"
| "ref_addr (SecretKeyReference addr _ _) = Some addr"
| "ref_addr _ = None"

definition loaded :: "Component \<Rightarrow> specnode \<Rightarrow> StructTag \<Rightarrow> refstore \<Rightarrow> bool" where
  "loaded component x tag rs \<longleftrightarrow> (case ref_addr x of
     Some addr \<Rightarrow> rs addr \<noteq> None \<or> ignoresNotFound component tag | None \<Rightarrow> True)"

lemma load_map_Ok:
  assumes "load_map kind get addr name ns ignore s = (Ok u, s')"
  shows "refs s' = refs s \<and> ignore \<or> (refs s' addr \<noteq> None \<and> (\<forall>a. refs s a \<noteq> None \<longrightarrow> refs s' a \<noteq> None))"
  using assms unfolding load_map_def ref_call_def set_ref_def
  by (auto simp: bind_def run_simps split: prod.splits sum.splits if_splits)

lemma load_key_Ok:
  assumes "load_key kind get addr name key ns ignore fb s = (Ok u, s')"
  shows "refs s' = refs s \<and> ignore \<or> (refs s' addr \<noteq> None \<and> (\<forall>a. refs s a \<noteq> None \<longrightarrow> refs s' a \<noteq> None))"
  using assms unfolding load_key_def ref_call_def set_ref_def
  by (auto simp: bind_def run_simps split: prod.splits sum.splits if_splits option.splits)

lemma loadNode_Ok:
  assumes "loadNode P c component x tag s = (Ok d, s')"
  shows "loaded component x tag (refs s')" and "refs s addr \<noteq> None \<Longrightarrow> refs s' addr \<noteq> None"
proof -
  have "loaded component x tag (refs s') \<and> (refs s addr \<noteq> None \<longrightarrow> refs s' addr \<noteq> None)"
    using assms unfolding loadNode_def Let_def loadConfigMap_def loadSecret_def loadConfigMapKey_def loadSecretKey_def
    by (cases x) (auto elim!: run_elims dest!: load_map_Ok load_key_Ok simp: run_iffs loaded_def ref_call_def bind_def of_option_def
      split: prod.splits option.splits outcome.splits)
  then show "loaded component x tag (refs s')" "refs s addr \<noteq> None \<Longrightarrow> refs s' addr \<noteq> None" by blast+
qed

text \<open>A run over the nodes without errors: what each node establishes and keeps holds of all.\<close>

lemma run_visits_all:
  assumes "run_visits f vs s = (Ok [], t)"
    and step: "\<And>x p tag s s'. f x p tag s = (Ok None, s') \<Longrightarrow> Q x tag s'"
    and keep: "\<And>x p tag s s' y tag'. f x p tag s = (Ok None, s') \<Longrightarrow> Q y tag' s \<Longrightarrow> Q y tag' s'"
    and "Some (x, p, tag) \<in> set vs"
  shows "Q x tag t"
proof -
  have "(\<forall>y tag'. Q y tag' s \<longrightarrow> Q y tag' t) \<and> (Some (x, p, tag) \<in> set vs \<longrightarrow> Q x tag t)"
    using assms(1)
  proof (induction vs arbitrary: s)
    case (Cons v vs)
    then obtain y q tag' where v: "v = Some (y, q, tag')" by (cases v) (auto simp: run_iffs)
    with Cons.prems obtain err u errs where u: "f y q tag' s = (Ok err, u)" "run_visits f vs u = (Ok errs, t)"
      "(case err of None \<Rightarrow> [] | Some e \<Rightarrow> [e]) @ errs = []"
      by (auto elim!: run_elims simp: run_iffs)
    then have e: "err = None" "errs = []" by (auto split: option.splits)
    have "(\<forall>y tag'. Q y tag' u \<longrightarrow> Q y tag' t) \<and> (Some (x, p, tag) \<in> set vs \<longrightarrow> Q x tag t)"
      using Cons.IH u(2) e(2) by simp
    then show ?case using step [of y q tag' s u] keep [of y q tag' s u] u(1) e(1) v by auto
  qed (simp_all add: run_iffs)
  then show ?thesis using assms(4) by blast
qed

lemma resolveNode_Ok:
  assumes "resolveNode P c component x path tag s = (Ok None, s')"
  shows "loaded component x tag (refs s')" "refs s addr \<noteq> None \<Longrightarrow> refs s' addr \<noteq> None"
proof -
  from assms obtain d t where "loadNode P c component x tag s = (Ok d, t)" "refs s' = refs t"
    unfolding resolveNode_def
    by (auto simp: try_comp_def bind_def run_simps seq_def split: prod.splits outcome.splits option.splits sum.splits)
  with loadNode_Ok [of P c component x tag s d t] show "loaded component x tag (refs s')"
    "refs s addr \<noteq> None \<Longrightarrow> refs s' addr \<noteq> None" by auto
qed

text \<open>
  C20: if the references are resolved without error, every reference to a config map or
  secret that the walk meets in the spec is loaded, so its accessor will not panic; the only
  exception are references tagged to be ignored on deletion, for a component in deletion.
\<close>

theorem resolveReferences_loads:
  assumes "Spec component = GPointer v" and "resolveReferences P c component s = (Ok digest, s')"
    and "Some (x, path, tag) \<in> set (visits v [] [])"
  shows "loaded component x tag (refs s')"
proof -
  let ?f = "resolveNode P c component" and ?s = "s\<lparr>digestData := (\<lambda>_. None)\<rparr>"
  from assms(1,2) have walk: "Walk (GrowCap c) (GPointer v) ?f ?s = (Ok None, s')"
    unfolding resolveReferences_def
    by (auto elim!: run_elims simp: run_iffs split: option.splits)
  have "case (Walk (GrowCap c) (GPointer v) ?f ?s, run_visits ?f (visits v [] []) ?s) of
     ((Ok err, t), (Ok errs, t')) \<Rightarrow> t = t' \<and> (err = None) = (errs = []) \<and> causes err = errs
   | ((Err e, t), (Err e', t')) \<Rightarrow> e = e' \<and> t = t'
   | ((Panic p, t), (Panic p', t')) \<Rightarrow> p = p' \<and> t = t'
   | _ \<Rightarrow> False" by (rule Walk_visits)
  then have run: "run_visits ?f (visits v [] []) ?s = (Ok [], s')"
    unfolding walk by (auto split: prod.splits outcome.splits)
  show ?thesis
  proof (rule run_visits_all [OF run _ _ assms(3), where Q = "\<lambda>x tag s. loaded component x tag (refs s)"])
    show "loaded component x tag (refs s')" if "?f x p tag s = (Ok None, s')" for x p tag and s s' :: "'a ref_env"
      using resolveNode_Ok(1) [OF that] .
    show "loaded component y tag' (refs s')" if "?f x p tag s = (Ok None, s')" "loaded component y tag' (refs s)"
      for x p tag y tag' and s s' :: "'a ref_env"
      using resolveNode_Ok(2) [OF that(1)] that(2) by (auto simp: loaded_def split: option.splits)
  qed
qed

lemma Walk_error_form:
  assumes "Walk grow v f s = (Ok (Some err), t)"
  obtains es where "err = JoinError (map (\<lambda>(e, args). Wrapf e ''/%s'' args) es)"
proof -
  from assms obtain errs h where "err = JoinError (map (walkError h) errs)"
    by (auto simp: Walk_def split: gvalue.splits prod.splits outcome.splits if_splits)
  then show ?thesis
    by (intro that [of "map (\<lambda>e. (fst e, [AStr (Join (slice_read h (snd e)) ''/'')])) errs"]) (simp add: walkError_def)
qed

lemma retriable_wrapped:
  "asRetriableError_list (map (\<lambda>(e, args). Wrapf e fmt args) es) = asRetriableError_list (map fst es)"
  by (induction es) (auto split: option.splits)

text \<open>
  C21: the error of unresolved references. All references are tried; the error is retriable
  exactly if the error of one of them is (a missing config map, secret or key is), with the
  delay of the first such one in preorder, whatever the other errors are.
\<close>

theorem resolveReferences_error:
  assumes "Spec component = GPointer v" and "resolveReferences P c component s = (Err err, s')"
  shows "\<exists>errs. fst (run_visits (resolveNode P c component) (visits v [] []) (s\<lparr>digestData := (\<lambda>_. None)\<rparr>)) = Ok errs \<and>
    errs \<noteq> [] \<and> asRetriableError err = asRetriableError_list errs"
proof -
  let ?f = "resolveNode P c component" and ?s = "s\<lparr>digestData := (\<lambda>_. None)\<rparr>"
  have no_err: "fst (?f x p tag u) \<noteq> Err e" for x p tag u e
    unfolding resolveNode_def try_comp_def
    by (auto simp: bind_def run_simps seq_def split: prod.splits outcome.splits sum.splits option.splits)
  have no_errs: "fst (run_visits ?f vs u) \<noteq> Err e" for vs u e
  proof (induction vs arbitrary: u)
    case (Cons v vs)
    then show ?case
      using no_err by (cases v) (auto simp: run_simps bind_def split: prod.splits outcome.splits, metis fst_conv, metis fst_conv)
  qed (simp add: run_simps)
  have spec: "case (Walk (GrowCap c) (GPointer v) ?f ?s, run_visits ?f (visits v [] []) ?s) of
     ((Ok err, t), (Ok errs, t')) \<Rightarrow> t = t' \<and> (err = None) = (errs = []) \<and> causes err = errs
   | ((Err e, t), (Err e', t')) \<Rightarrow> e = e' \<and> t = t'
   | ((Panic p, t), (Panic p', t')) \<Rightarrow> p = p' \<and> t = t'
   | _ \<Rightarrow> False" by (rule Walk_visits)
  obtain r t where rv: "run_visits ?f (visits v [] []) ?s = (r, t)" by force
  then have "fst (Walk (GrowCap c) (GPointer v) ?f ?s) \<noteq> Err e" for e
    using no_errs [of "visits v [] []" ?s] spec unfolding rv by (auto split: prod.splits outcome.splits)
  then have walk: "Walk (GrowCap c) (GPointer v) ?f ?s = (Ok (Some err), s')"
    using assms unfolding resolveReferences_def
    by (auto simp: seq_def bind_def run_simps split: prod.splits outcome.splits option.splits)
  then obtain es where es: "err = JoinError (map (\<lambda>(e, args). Wrapf e ''/%s'' args) es)" by (rule Walk_error_form)
  obtain errs where "fst (run_visits ?f (visits v [] []) ?s) = Ok errs" "errs \<noteq> []" "causes (Some err) = errs"
    using spec unfolding walk by (auto split: prod.splits outcome.splits)
  moreover have "causes (Some err) = map fst es" by (auto simp: es)
  ultimately show ?thesis by (simp add: es retriable_wrapped)
qed

text \<open>What is retriable.\<close>

lemma load_missing:
  "get ns name w = (Inl err, w') \<Longrightarrow> IsNotFound err \<Longrightarrow> rworld s = w \<Longrightarrow>
    \<exists>e. fst (load_map kind get addr name ns False s) = Err e \<and> asRetriableError e = Some (wrapLoading kind ns name err, Some retryAfter)"
  by (simp add: load_map_def bind_def ref_call_def run_simps NewRetriableError_def)

end
