(* ===== verification/Backoff.thy ===== *)
theory Backoff
  imports Prelude
begin

text \<open>
  \<open>internal/backoff\<close>: the delays between the reconciliations of an item. \<open>Backoff\<close> keeps the
  current activity of each item and asks a rate limiter (k8s.io/client-go/util/workqueue)
  for the delay of the pair of item and activity. The contract of a rate limiter is the
  locale \<open>rate_limiter\<close>, the constructors of the package are parameters.
\<close>

section \<open>Backoff\<close>

record ('k, 'l) limiter =
  When :: "'k \<Rightarrow> 'l \<Rightarrow> int \<times> 'l"
  ForgetKey :: "'k \<Rightarrow> 'l \<Rightarrow> 'l"

type_synonym ('i, 'a) activities = "'i \<Rightarrow> 'a option"

text \<open>The state is the map of activities and the state of the limiter.\<close>

definition Next_backoff :: "('i \<times> 'a, 'l) limiter \<Rightarrow> 'i \<Rightarrow> 'a \<Rightarrow> ('i, 'a) activities \<times> 'l \<Rightarrow>
    int \<times> ('i, 'a) activities \<times> 'l" where
  "Next_backoff lim item activity = (\<lambda>(acts, l).
     let l = (case acts item of
                Some act \<Rightarrow> if act \<noteq> activity then ForgetKey lim (item, act) l else l
              | None \<Rightarrow> l);
         (d, l) = When lim (item, activity) l
     in (d, acts(item \<mapsto> activity), l))"

definition Forget_backoff :: "('i \<times> 'a, 'l) limiter \<Rightarrow> 'i \<Rightarrow> ('i, 'a) activities \<times> 'l \<Rightarrow> ('i, 'a) activities \<times> 'l" where
  "Forget_backoff lim item = (\<lambda>(acts, l).
     let l = (case acts item of Some act \<Rightarrow> ForgetKey lim (item, act) l | None \<Rightarrow> l)
     in (acts(item := None), l))"

section \<open>Rate limiters\<close>

text \<open>
  The contract: a limiter counts the requests of each key since the key was last forgotten,
  and the delay is a function of this count.
\<close>

locale rate_limiter =
  fixes lim :: "('k, 'l) limiter" and requests :: "'l \<Rightarrow> 'k \<Rightarrow> nat" and delay :: "nat \<Rightarrow> int"
  assumes delay_When: "When lim k l = (d, l') \<Longrightarrow> d = delay (requests l k)"
    and count_When: "When lim k l = (d, l') \<Longrightarrow> requests l' = (requests l)(k := Suc (requests l k))"
    and count_Forget: "requests (ForgetKey lim k l) = (requests l)(k := 0)"

text \<open>What the three constructors used by the program are documented to do.\<close>

record limiter_lib =
  ExponentialDelay :: "int \<Rightarrow> int \<Rightarrow> nat \<Rightarrow> int"
  FastSlowDelay :: "int \<Rightarrow> int \<Rightarrow> nat \<Rightarrow> nat \<Rightarrow> int"

definition limiters_documented :: "limiter_lib \<Rightarrow> bool" where
  "limiters_documented L \<longleftrightarrow>
     (\<forall>base mx n. ExponentialDelay L base mx n = min (base * 2 ^ n) mx) \<and>
     (\<forall>fast slow k n. FastSlowDelay L fast slow k n = (if n < k then fast else slow))"

definition Millisecond :: int where
  "Millisecond = 1000000"

definition Second :: int where
  "Second = 1000000000"

text \<open>\<open>NewDefaultRateLimiter\<close>: the largest of the delays of three limiters.\<close>

definition defaultDelay :: "limiter_lib \<Rightarrow> int \<Rightarrow> nat \<Rightarrow> int" where
  "defaultDelay L maxDelay n = Max {ExponentialDelay L (50 * Millisecond) (1 * Second) n,
     FastSlowDelay L 0 (2 * Second) 20 n, FastSlowDelay L 0 maxDelay (20 + 30) n}"

definition NewDefaultRateLimiter :: "limiter_lib \<Rightarrow> int \<Rightarrow> ('k, 'k \<Rightarrow> nat) limiter" where
  "NewDefaultRateLimiter L maxDelay =
     \<lparr>When = (\<lambda>k cnt. (defaultDelay L maxDelay (cnt k), cnt(k := Suc (cnt k)))),
      ForgetKey = (\<lambda>k cnt. cnt(k := 0))\<rparr>"

interpretation default_limiter: rate_limiter "NewDefaultRateLimiter L maxDelay" "\<lambda>cnt. cnt" "defaultDelay L maxDelay" for L maxDelay
  by unfold_locales (auto simp: NewDefaultRateLimiter_def)

lemma defaultDelay_values:
  assumes "limiters_documented L" and "2 * Second \<le> maxDelay"
  shows "defaultDelay L maxDelay n =
    (if n < 5 then 50 * Millisecond * 2 ^ n else if n < 20 then Second else if n < 50 then 2 * Second else maxDelay)"
proof -
  have "50 * Millisecond * 2 ^ n \<le> 50 * Millisecond * 2 ^ 4" if "n < 5"
    using that by (intro mult_left_mono power_increasing) (simp_all add: Millisecond_def)
  moreover have "50 * Millisecond * 2 ^ 5 \<le> 50 * Millisecond * 2 ^ n" if "5 \<le> n"
    using that by (intro mult_left_mono power_increasing) (simp_all add: Millisecond_def)
  moreover have "0 \<le> 50 * Millisecond * 2 ^ n" by (simp add: Millisecond_def)
  ultimately have "min (50 * Millisecond * 2 ^ n) Second = (if n < 5 then 50 * Millisecond * 2 ^ n else Second)"
    by (cases "n < 5") (simp_all add: Millisecond_def Second_def)
  then show ?thesis
    using assms \<open>0 \<le> 50 * Millisecond * 2 ^ n\<close> by (auto simp: defaultDelay_def limiters_documented_def Second_def)
qed

text \<open>
  the intervals of the default rate limiter, as its documentation states them: five quick
  round trips from 50 milliseconds, doubling, then fifteen of a second, thirty of two
  seconds, and the maximal delay from then on.
\<close>

theorem defaultDelay_intervals:
  assumes "limiters_documented L" and "2 * Second \<le> maxDelay"
  shows "defaultDelay L maxDelay n =
    (if n < 5 then 50 * Millisecond * 2 ^ n else if n < 20 then Second else if n < 50 then 2 * Second else maxDelay)"
  using assms by (rule defaultDelay_values)

definition sampleLimiters :: limiter_lib where
  "sampleLimiters = \<lparr>ExponentialDelay = (\<lambda>base mx n. min (base * 2 ^ n) mx),
     FastSlowDelay = (\<lambda>fast slow k n. if n < k then fast else slow)\<rparr>"

theorem defaultDelay_intervals_witness:
  "defaultDelay sampleLimiters (10 * Second) 4 = 800 * Millisecond \<and> defaultDelay sampleLimiters (10 * Second) 50 = 10 * Second"
proof -
  have "limiters_documented sampleLimiters" "2 * Second \<le> 10 * Second"
    by (simp_all add: limiters_documented_def sampleLimiters_def Second_def)
  from defaultDelay_intervals [OF this] show ?thesis by simp
qed

section \<open>What Backoff promises\<close>

text \<open>
  The abstract state of an item: its activity and how often the item was requeued for it
  in a row. A different activity, or forgetting the item, starts from zero.
\<close>

definition spec_next :: "'a \<Rightarrow> ('a \<times> nat) option \<Rightarrow> nat \<times> ('a \<times> nat) option" where
  "spec_next activity x = (case x of
     Some (act, n) \<Rightarrow> if act = activity then (n, Some (activity, Suc n)) else (0, Some (activity, 1))
   | None \<Rightarrow> (0, Some (activity, 1)))"


text \<open>Keys of activities that are not current have been forgotten.\<close>

definition backoff_inv :: "('l \<Rightarrow> 'i \<times> 'a \<Rightarrow> nat) \<Rightarrow> ('i, 'a) activities \<times> 'l \<Rightarrow> bool" where
  "backoff_inv requests = (\<lambda>(acts, l). \<forall>item act. acts item \<noteq> Some act \<longrightarrow> requests l (item, act) = 0)"

definition backoff_abs :: "('l \<Rightarrow> 'i \<times> 'a \<Rightarrow> nat) \<Rightarrow> ('i, 'a) activities \<times> 'l \<Rightarrow> 'i \<Rightarrow> ('a \<times> nat) option" where
  "backoff_abs requests = (\<lambda>(acts, l) item. map_option (\<lambda>act. (act, requests l (item, act))) (acts item))"

locale backoff_limiter = rate_limiter lim requests delay
  for lim :: "('i \<times> 'a, 'l) limiter" and requests :: "'l \<Rightarrow> 'i \<times> 'a \<Rightarrow> nat" and delay :: "nat \<Rightarrow> int"
begin

lemma next_refines:
  assumes "backoff_inv requests b" and "Next_backoff lim item activity b = (d, b')"
  shows "backoff_inv requests b'"
    and "d = delay (fst (spec_next activity (backoff_abs requests b item)))"
    and "backoff_abs requests b' = (backoff_abs requests b)(item := snd (spec_next activity (backoff_abs requests b item)))"
proof -
  obtain acts l where b: "b = (acts, l)" by force
  let ?l = "case acts item of Some act \<Rightarrow> if act \<noteq> activity then ForgetKey lim (item, act) l else l | None \<Rightarrow> l"
  obtain d' l' where w: "When lim (item, activity) ?l = (d', l')" by force
  have b': "d = d'" "b' = (acts(item \<mapsto> activity), l')"
    using assms(2) w by (simp_all add: Next_backoff_def b Let_def)
  have l: "requests ?l = (\<lambda>(i, act). if i = item \<and> act \<noteq> activity then 0 else requests l (i, act))"
    using assms(1) by (auto simp: count_Forget b backoff_inv_def fun_eq_iff split: option.splits)
  have l': "requests l' = (requests ?l)((item, activity) := Suc (requests ?l (item, activity)))"
    using count_When [OF w] by simp
  have n: "requests ?l (item, activity) = fst (spec_next activity (backoff_abs requests b item))"
    using assms(1) by (auto simp: l spec_next_def backoff_abs_def b backoff_inv_def split: option.splits)
  show "backoff_inv requests b'" using assms(1) by (auto simp: b b' backoff_inv_def l' l)
  show "d = delay (fst (spec_next activity (backoff_abs requests b item)))" using delay_When [OF w] n b' by simp
  show "backoff_abs requests b' = (backoff_abs requests b)(item := snd (spec_next activity (backoff_abs requests b item)))"
    using assms(1)
    by (auto simp: fun_eq_iff b b' backoff_abs_def l' l spec_next_def backoff_inv_def split: option.splits)
qed

lemma forget_refines:
  assumes "backoff_inv requests b"
  shows "backoff_inv requests (Forget_backoff lim item b)"
    and "backoff_abs requests (Forget_backoff lim item b) = (backoff_abs requests b)(item := None)"
proof -
  obtain acts l where b: "b = (acts, l)" by (cases b)
  have "backoff_inv requests (Forget_backoff lim item b) \<and>
    backoff_abs requests (Forget_backoff lim item b) = (backoff_abs requests b)(item := None)"
  proof (cases "acts item")
    case None
    then show ?thesis using assms
      by (auto simp: Forget_backoff_def b backoff_abs_def fun_upd_idem)
  next
    case (Some act)
    have "backoff_inv requests (Forget_backoff lim item b)"
      using assms Some by (auto simp: Forget_backoff_def b backoff_inv_def count_Forget)
    moreover have "backoff_abs requests (Forget_backoff lim item b) = (backoff_abs requests b)(item := None)"
      using Some by (simp add: Forget_backoff_def b backoff_abs_def count_Forget fun_eq_iff)
    ultimately show ?thesis ..
  qed
  then show "backoff_inv requests (Forget_backoff lim item b)"
    and "backoff_abs requests (Forget_backoff lim item b) = (backoff_abs requests b)(item := None)" by blast+
qed

end

interpretation default_backoff: backoff_limiter "NewDefaultRateLimiter L maxDelay" "\<lambda>cnt. cnt" "defaultDelay L maxDelay" for L maxDelay
  by unfold_locales

abbreviation default_inv :: "('i, 'a) activities \<times> ('i \<times> 'a \<Rightarrow> nat) \<Rightarrow> bool" where
  "default_inv \<equiv> backoff_inv (\<lambda>cnt. cnt)"

abbreviation default_abs :: "('i, 'a) activities \<times> ('i \<times> 'a \<Rightarrow> nat) \<Rightarrow> 'i \<Rightarrow> ('a \<times> nat) option" where
  "default_abs \<equiv> backoff_abs (\<lambda>cnt. cnt)"

text \<open>
  C24: \<open>Backoff\<close> with the default limiter implements the abstract one: the delay of \<open>Next\<close> is
  that for the number of times the item was requeued for this very activity in a row since
  it was last forgotten, other items are not affected, and the initial state is empty.
\<close>

theorem backoff_refines:
  assumes "default_inv b"
  shows "(case Next_backoff (NewDefaultRateLimiter L maxDelay) item activity b of (d, b') \<Rightarrow>
      default_inv b' \<and> d = defaultDelay L maxDelay (fst (spec_next activity (default_abs b item))) \<and>
      default_abs b' = (default_abs b)(item := snd (spec_next activity (default_abs b item)))) \<and>
    default_inv (Forget_backoff (NewDefaultRateLimiter L maxDelay) item b) \<and>
    default_abs (Forget_backoff (NewDefaultRateLimiter L maxDelay) item b) = (default_abs b)(item := None) \<and>
    default_inv (\<lambda>_. None, \<lambda>_. 0) \<and> default_abs (\<lambda>_. None, \<lambda>_. 0) item = None"
proof (intro conjI)
  show "case Next_backoff (NewDefaultRateLimiter L maxDelay) item activity b of (d, b') \<Rightarrow>
      default_inv b' \<and> d = defaultDelay L maxDelay (fst (spec_next activity (default_abs b item))) \<and>
      default_abs b' = (default_abs b)(item := snd (spec_next activity (default_abs b item)))"
    using default_backoff.next_refines [OF assms, of L maxDelay item activity] by (auto split: prod.splits)
qed (use default_backoff.forget_refines [OF assms, of L maxDelay item] in \<open>simp_all add: backoff_inv_def backoff_abs_def\<close>)

text \<open>The intervals of the code's own test, with another activity and another item in between.\<close>

theorem backoff_refines_witness:
  "let lim = NewDefaultRateLimiter sampleLimiters (10 * Second); (d1, b1) = Next_backoff lim ''item'' ''a'' (\<lambda>_. None, \<lambda>_. 0) in
   d1 = 50 * Millisecond \<and> fst (Next_backoff lim ''item'' ''a'' b1) = 100 * Millisecond \<and>
   fst (Next_backoff lim ''item'' ''b'' b1) = 50 * Millisecond"
proof -
  let ?lim = "NewDefaultRateLimiter sampleLimiters (10 * Second) :: (string \<times> string, _) limiter"
  let ?b0 = "(\<lambda>_. None, \<lambda>_. 0) :: (string, string) activities \<times> (string \<times> string \<Rightarrow> nat)"
  have inv0: "backoff_inv (\<lambda>cnt. cnt) ?b0" by (simp add: backoff_inv_def)
  obtain d1 b1 where run: "Next_backoff ?lim ''item'' ''a'' ?b0 = (d1, b1)" by (metis surj_pair)
  have abs0: "backoff_abs (\<lambda>cnt. cnt) ?b0 ''item'' = None" by (simp add: backoff_abs_def)
  have delays: "defaultDelay sampleLimiters (10 * Second) 0 = 50 * Millisecond"
    "defaultDelay sampleLimiters (10 * Second) (Suc 0) = 100 * Millisecond"
    by (simp_all add: defaultDelay_def sampleLimiters_def Millisecond_def Second_def)
  from backoff_refines [OF inv0, where L = sampleLimiters and maxDelay = "10 * Second" and item = "''item''" and activity = "''a''"] run
  have 1: "backoff_inv (\<lambda>cnt. cnt) b1" "d1 = 50 * Millisecond" "backoff_abs (\<lambda>cnt. cnt) b1 ''item'' = Some (''a'', 1)"
    by (auto simp: spec_next_def delays abs0)
  have "fst (Next_backoff ?lim ''item'' ''a'' b1) = 100 * Millisecond"
    using backoff_refines [OF 1(1), where L = sampleLimiters and maxDelay = "10 * Second" and item = "''item''" and activity = "''a''"] 1(3)
    by (auto simp: spec_next_def delays split: prod.splits)
  moreover have "fst (Next_backoff ?lim ''item'' ''b'' b1) = 50 * Millisecond"
    using backoff_refines [OF 1(1), where L = sampleLimiters and maxDelay = "10 * Second" and item = "''item''" and activity = "''b''"] 1(3)
    by (auto simp: spec_next_def delays split: prod.splits)
  ultimately show ?thesis using 1(2) run by (simp add: Let_def)
qed

end
