(* ===== verification/Events.thy ===== *)
theory Events
  imports Prelude
begin

text \<open>
  \<open>internal/events/recorder.go\<close>: the recorder that drops repeated events. Its state is the
  map from the uid of an object to the digest and time of its last event; the events passed
  on to the wrapped recorder are kept with the time of the call, the latest first.
\<close>

section \<open>The recorder\<close>

text \<open>Annotations are \<open>None\<close> if nil; \<open>fmt.Sprintf\<close> has been applied to the message.\<close>

record eventargs =
  EventAnnotations :: "(string \<Rightarrow> string option) option"
  EventType :: string
  EventReason :: string
  EventMessage :: string

record seen =
  SeenDigest :: string
  SeenAt :: int

type_synonym seen_events = "string \<Rightarrow> seen option"

type_synonym emitted = "(string \<times> eventargs \<times> int) list"

text \<open>
  \<open>digest\<close> is \<open>util.CalculateDigest\<close> of the arguments. Time is in nanoseconds. Looking up a
  missing uid yields the zero value, whose digest is empty.
\<close>

definition isDuplicate :: "(eventargs \<Rightarrow> string) \<Rightarrow> int \<Rightarrow> string \<Rightarrow> eventargs \<Rightarrow> int \<Rightarrow> seen_events \<Rightarrow> bool \<times> seen_events" where
  "isDuplicate digest expiration uid e now evs =
     (let exp = now - expiration;
          evs = (\<lambda>u. case evs u of Some ev \<Rightarrow> if SeenAt ev < exp then None else Some ev | None \<Rightarrow> None)
      in if (case evs uid of Some ev \<Rightarrow> SeenDigest ev | None \<Rightarrow> '''') = digest e then (True, evs)
         else (False, evs(uid \<mapsto> \<lparr>SeenDigest = digest e, SeenAt = now\<rparr>)))"

definition AnnotatedEventf :: "(eventargs \<Rightarrow> string) \<Rightarrow> int \<Rightarrow> string \<times> eventargs \<times> int \<Rightarrow> seen_events \<times> emitted \<Rightarrow>
    seen_events \<times> emitted" where
  "AnnotatedEventf digest expiration = (\<lambda>(uid, e, now) (evs, em).
     case isDuplicate digest expiration uid e now evs of
       (True, evs) \<Rightarrow> (evs, em)
     | (False, evs) \<Rightarrow> (evs, (uid, e, now) # em))"

definition Event :: "(eventargs \<Rightarrow> string) \<Rightarrow> int \<Rightarrow> string \<times> eventargs \<times> int \<Rightarrow> seen_events \<times> emitted \<Rightarrow>
    seen_events \<times> emitted" where
  "Event digest expiration = (\<lambda>(uid, e, now). AnnotatedEventf digest expiration (uid, e\<lparr>EventAnnotations := None\<rparr>, now))"

section \<open>What it promises\<close>

definition last_emitted :: "string \<Rightarrow> emitted \<Rightarrow> (eventargs \<times> int) option" where
  "last_emitted uid em = map_option snd (find (\<lambda>(u, _). u = uid) em)"

text \<open>The specification knows only what was passed on: no map, no purging of old entries.\<close>

definition spec_event :: "(eventargs \<Rightarrow> string) \<Rightarrow> int \<Rightarrow> string \<times> eventargs \<times> int \<Rightarrow> emitted \<Rightarrow> emitted" where
  "spec_event digest expiration = (\<lambda>(uid, e, now) em.
     case last_emitted uid em of
       Some (e', t) \<Rightarrow> if digest e' = digest e \<and> now - expiration \<le> t then em else (uid, e, now) # em
     | None \<Rightarrow> (uid, e, now) # em)"

definition remembers :: "(eventargs \<Rightarrow> string) \<Rightarrow> int \<Rightarrow> int \<Rightarrow> seen_events \<Rightarrow> emitted \<Rightarrow> bool" where
  "remembers digest expiration now evs em \<longleftrightarrow> (\<forall>u. case last_emitted u em of
     None \<Rightarrow> evs u = None
   | Some (e, t) \<Rightarrow> evs u = Some \<lparr>SeenDigest = digest e, SeenAt = t\<rparr> \<or> (evs u = None \<and> t < now - expiration))"

lemma last_emitted_Cons [simp]:
  "last_emitted u ((u', e, t) # em) = (if u = u' then Some (e, t) else last_emitted u em)"
  by (auto simp: last_emitted_def)

lemma remembers_new:
  assumes "remembers digest expiration now evs em"
  shows "remembers digest expiration now (evs(uid \<mapsto> \<lparr>SeenDigest = digest e, SeenAt = now\<rparr>)) ((uid, e, now) # em)"
  unfolding remembers_def
proof
  fix u
  from assms have "case last_emitted u em of None \<Rightarrow> evs u = None
    | Some (e, t) \<Rightarrow> evs u = Some \<lparr>SeenDigest = digest e, SeenAt = t\<rparr> \<or> (evs u = None \<and> t < now - expiration)"
    by (simp add: remembers_def)
  then show "case last_emitted u ((uid, e, now) # em) of
      None \<Rightarrow> (evs(uid \<mapsto> \<lparr>SeenDigest = digest e, SeenAt = now\<rparr>)) u = None
    | Some (e', t) \<Rightarrow> (evs(uid \<mapsto> \<lparr>SeenDigest = digest e, SeenAt = now\<rparr>)) u = Some \<lparr>SeenDigest = digest e', SeenAt = t\<rparr> \<or>
        ((evs(uid \<mapsto> \<lparr>SeenDigest = digest e, SeenAt = now\<rparr>)) u = None \<and> t < now - expiration)"
    by (cases "u = uid"; cases "last_emitted u em") auto
qed

lemma AnnotatedEventf_spec:
  assumes "remembers digest expiration t evs em" and "t \<le> now" and "digest e \<noteq> ''''"
    and "AnnotatedEventf digest expiration (uid, e, now) (evs, em) = (evs', em')"
  shows "em' = spec_event digest expiration (uid, e, now) em \<and> remembers digest expiration now evs' em'"
proof -
  let ?evs = "\<lambda>u. case evs u of Some ev \<Rightarrow> if SeenAt ev < now - expiration then None else Some ev | None \<Rightarrow> None"
  have rem: "remembers digest expiration now ?evs em"
    using assms(1,2) unfolding remembers_def by (fastforce split: option.splits)
  have known: "case last_emitted uid em of
      None \<Rightarrow> ?evs uid = None
    | Some (e', t') \<Rightarrow> if t' < now - expiration then ?evs uid = None
        else ?evs uid = Some \<lparr>SeenDigest = digest e', SeenAt = t'\<rparr>"
    using assms(1,2) unfolding remembers_def by (fastforce split: option.splits)
  show ?thesis
  proof (cases "(case ?evs uid of Some ev \<Rightarrow> SeenDigest ev | None \<Rightarrow> '''') = digest e")
    case True
    then have "evs' = ?evs" "em' = em"
      using assms(4) by (simp_all add: AnnotatedEventf_def isDuplicate_def Let_def)
    moreover have "spec_event digest expiration (uid, e, now) em = em"
      using True known assms(3) by (auto simp: spec_event_def split: option.splits if_splits)
    ultimately show ?thesis using rem by simp
  next
    case False
    then have new: "evs' = ?evs(uid \<mapsto> \<lparr>SeenDigest = digest e, SeenAt = now\<rparr>)" "em' = (uid, e, now) # em"
      using assms(4) by (simp_all add: AnnotatedEventf_def isDuplicate_def Let_def)
    have "spec_event digest expiration (uid, e, now) em = (uid, e, now) # em"
      using False known by (auto simp: spec_event_def split: option.splits if_splits)
    moreover have "remembers digest expiration now evs' em'"
      using remembers_new [OF rem] by (simp add: new)
    ultimately show ?thesis using new by simp
  qed
qed

lemma fold_AnnotatedEventf:
  assumes "remembers digest expiration t evs em" and "sorted (t # map (snd \<circ> snd) reqs)" and "\<And>e. digest e \<noteq> ''''"
  shows "snd (fold (AnnotatedEventf digest expiration) reqs (evs, em)) = fold (spec_event digest expiration) reqs em"
  using assms(1,2)
proof (induction reqs arbitrary: t evs em)
  case (Cons r reqs)
  obtain uid e now where r: "r = (uid, e, now)" by (cases r)
  obtain evs' em' where step: "AnnotatedEventf digest expiration (uid, e, now) (evs, em) = (evs', em')" by (metis surj_pair)
  have now: "t \<le> now" using Cons.prems(2) by (simp add: r)
  have spec: "em' = spec_event digest expiration (uid, e, now) em" "remembers digest expiration now evs' em'"
    using AnnotatedEventf_spec [OF Cons.prems(1) now assms(3) step] by blast+
  have "sorted (now # map (snd \<circ> snd) reqs)" using Cons.prems(2) by (simp add: r comp_def)
  from Cons.IH [OF spec(2) this] spec(1) show ?case by (simp add: r step)
qed simp

text \<open>
  C23: for calls in the order of their time, the recorder passes on exactly the events that
  differ from the last one passed on for the same object, or come later than the expiration
  after it, although it forgets old entries for all objects at every call.
\<close>

theorem recorder_deduplicates:
  assumes "sorted (map (snd \<circ> snd) reqs)" and "\<forall>e. digest e \<noteq> ''''"
  shows "snd (fold (AnnotatedEventf digest expiration) reqs (\<lambda>_. None, [])) = fold (spec_event digest expiration) reqs []"
proof (cases reqs)
  case (Cons r rs)
  have "remembers digest expiration (snd (snd r)) (\<lambda>_. None) []" by (simp add: remembers_def last_emitted_def)
  from fold_AnnotatedEventf [OF this, of reqs] assms Cons show ?thesis by simp
qed simp

definition sampleEvent :: "string \<Rightarrow> eventargs" where
  "sampleEvent msg = \<lparr>EventAnnotations = None, EventType = ''Normal'', EventReason = ''Processing'', EventMessage = msg\<rparr>"

text \<open>A repetition within the expiration is dropped, a later one and a change are not.\<close>

theorem recorder_deduplicates_witness:
  "map (\<lambda>(u, e, t). (u, EventMessage e, t)) (snd (fold (AnnotatedEventf (\<lambda>e. ''sha256:'' @ EventMessage e) 300)
     [(''u'', sampleEvent ''a'', 0), (''u'', sampleEvent ''a'', 300), (''v'', sampleEvent ''a'', 301), (''u'', sampleEvent ''a'', 302),
      (''u'', sampleEvent ''b'', 303)] (\<lambda>_. None, []))) =
   [(''u'', ''b'', 303), (''u'', ''a'', 302), (''v'', ''a'', 301), (''u'', ''a'', 0)]"
  by (subst recorder_deduplicates) (simp_all add: spec_event_def sampleEvent_def last_emitted_def)

end
