(* ===== verification/Status_Analyzer.thy ===== *)
theory Status_Analyzer
  imports Inventory
begin

text \<open>
  \<open>pkg/status/analyzer.go\<close>: the readiness of an object, which is what kstatus computes for
  the object after the status hints in its annotation were applied, except that some
  conditions may be required in addition and that jobs must have finished. kstatus, the
  conversion from unstructured content and the helpers of the unstructured package are
  parameters.
\<close>

section \<open>Parameters\<close>

record ObjectCondition =
  CondTypeOf :: string
  CondStatusOf :: string
  CondObservedGeneration :: "int option"

record ObjectStatus =
  StatusObservedGeneration :: "int option"
  StatusConditions :: "ObjectCondition list"

text \<open>
  \<open>SetObservedGeneration\<close> is \<open>SetNestedField\<close> at \<open>status.observedGeneration\<close>, \<open>GetConditions\<close>
  and \<open>SetConditions\<close> are \<open>NestedSlice\<close> and \<open>SetNestedSlice\<close> at \<open>status.conditions\<close>, on
  conditions as JSON texts; \<open>ConditionJson\<close> is the text of a condition with a type and a status.
\<close>

record status_lib =
  DecodeStatus :: "Object \<Rightarrow> goerr + ObjectStatus"
  SetObservedGeneration :: "int \<Rightarrow> Object \<Rightarrow> goerr + Object"
  GetConditions :: "Object \<Rightarrow> goerr + string list"
  SetConditions :: "string list \<Rightarrow> Object \<Rightarrow> goerr + Object"
  ConditionJson :: "string \<Rightarrow> string \<Rightarrow> string"
  Compute :: "Object \<Rightarrow> goerr + Status"

abbreviation "StatusHintHasObservedGeneration \<equiv> ''has-observed-generation''"
abbreviation "StatusHintHasReadyCondition \<equiv> ''has-ready-condition''"
abbreviation "StatusHintConditions \<equiv> ''conditions''"
abbreviation "conditionTypeReady \<equiv> ''Ready''"

section \<open>Hints\<close>

text \<open>
  A hint is a key, or matches \<open>^([^=]+)=(.*)$\<close>: a nonempty key, the first equals sign, and
  a value without line breaks.
\<close>

definition splitHint :: "string \<Rightarrow> string \<times> string option" where
  "splitHint hint =
     (let key = takeWhile (\<lambda>c. c \<noteq> CHR ''='') hint; rest = dropWhile (\<lambda>c. c \<noteq> CHR ''='') hint
      in if key \<noteq> [] \<and> rest \<noteq> [] \<and> CHR 0x0A \<notin> set (tl rest) then (key, Some (tl rest)) else (hint, None))"

text \<open>The last condition of type \<open>Ready\<close>.\<close>

definition lastReadyCondition :: "ObjectStatus \<Rightarrow> ObjectCondition option" where
  "lastReadyCondition st = find (\<lambda>c. CondTypeOf c = conditionTypeReady) (rev (StatusConditions st))"

definition hintObservedGeneration :: "status_lib \<Rightarrow> ObjectStatus \<Rightarrow> Object \<Rightarrow> goerr + Object" where
  "hintObservedGeneration L st object =
     (if StatusObservedGeneration st = None then
        (case lastReadyCondition st of
           Some c \<Rightarrow> (case CondObservedGeneration c of
               Some g \<Rightarrow> SetObservedGeneration L g object
             | None \<Rightarrow> SetObservedGeneration L (- 1) object)
         | None \<Rightarrow> SetObservedGeneration L (- 1) object)
      else Inr object)"

definition hintReadyCondition :: "status_lib \<Rightarrow> ObjectStatus \<Rightarrow> Object \<Rightarrow> goerr + Object" where
  "hintReadyCondition L st object =
     (if lastReadyCondition st = None then
        (case GetConditions L object of
           Inl err \<Rightarrow> Inl err
         | Inr conditions \<Rightarrow> SetConditions L (conditions @ [ConditionJson L conditionTypeReady ''Unknown'']) object)
      else Inr object)"

text \<open>The loop over the hints, on the object and the extra conditions.\<close>

fun applyHints :: "platform \<Rightarrow> status_lib \<Rightarrow> ObjectStatus \<Rightarrow> string list \<Rightarrow> Object \<times> string list \<Rightarrow> goerr + Object \<times> string list" where
  "applyHints P L st [] acc = Inr acc"
| "applyHints P L st (hint # hints) (object, extra) =
     (let (key, val) = splitHint hint; k = ToKebab P key
      in if k = StatusHintHasObservedGeneration then
           (if val \<noteq> None then Inl (Errorf ''status hint %s does not take a value'' [AStr StatusHintHasObservedGeneration])
            else case hintObservedGeneration L st object of
                Inl err \<Rightarrow> Inl err | Inr object \<Rightarrow> applyHints P L st hints (object, extra))
         else if k = StatusHintHasReadyCondition then
           (if val \<noteq> None then Inl (Errorf ''status hint %s does not take a value'' [AStr StatusHintHasReadyCondition])
            else case hintReadyCondition L st object of
                Inl err \<Rightarrow> Inl err | Inr object \<Rightarrow> applyHints P L st hints (object, extra))
         else if k = StatusHintConditions then
           (case val of
              None \<Rightarrow> Inl (Errorf ''status hint %s requires a value'' [AStr StatusHintConditions])
            | Some v \<Rightarrow> applyHints P L st hints (object, extra @ splitAt (CHR '';'') v))
         else Inl (Errorf ''unknown status hint %s'' [AStr key]))"

section \<open>ComputeStatus\<close>

definition wellKnownConditions :: "Object \<Rightarrow> string list" where
  "wellKnownConditions object =
     (let gvk = (Group object, Version object, Kind object)
      in if gvk = (''apiextensions.k8s.io'', ''v1'', ''CustomResourceDefinition'') then [''Established'', ''NamesAccepted'']
         else if gvk = (''apiregistration.k8s.io'', ''v1'', ''APIService'') then [''Available'']
         else [])"

text \<open>The loops over the extra conditions and, inside, the conditions of the object.\<close>

definition checkCondition :: "ObjectStatus \<Rightarrow> string \<Rightarrow> Status \<Rightarrow> Status" where
  "checkCondition st condition status =
     (let (found, status) = fold (\<lambda>cond (found, status).
          if CondTypeOf cond = condition
          then (True, if CondStatusOf cond \<noteq> ''True'' then InProgressStatus else status)
          else (found, status)) (StatusConditions st) (False, status)
      in if \<not> found then InProgressStatus else status)"

fun jobDone :: "ObjectCondition list \<Rightarrow> bool" where
  "jobDone [] = False"
| "jobDone (cond # conds) =
     (if CondTypeOf cond = ''Complete'' \<and> CondStatusOf cond = ''True'' then True
      else if CondTypeOf cond = ''Failed'' \<and> CondStatusOf cond = ''True'' then True
      else jobDone conds)"

definition isJob :: "Object \<Rightarrow> bool" where
  "isJob object \<longleftrightarrow> Group object = ''batch'' \<and> Version object = ''v1'' \<and> Kind object = ''Job''"

definition ComputeStatus :: "platform \<Rightarrow> status_lib \<Rightarrow> string \<Rightarrow> Object \<Rightarrow> goerr + Status" where
  "ComputeStatus P L reconcilerName object = (case DecodeStatus L object of
     Inl err \<Rightarrow> Inl err
   | Inr st \<Rightarrow>
       (case (case map_of (Annotations object) (reconcilerName @ ''/'' @ AnnotationKeySuffixStatusHint) of
          Some hint \<Rightarrow> applyHints P L st (splitAt (CHR '','') hint) (object, [])
        | None \<Rightarrow> Inr (object, [])) of
        Inl err \<Rightarrow> Inl err
      | Inr (object, extra) \<Rightarrow>
          let extra = extra @ wellKnownConditions object
          in case Compute L object of
              Inl err \<Rightarrow> Inl err
            | Inr status \<Rightarrow>
                let status = (if status = CurrentStatus \<and> extra \<noteq> [] then fold (checkCondition st) extra status else status)
                in Inr (if isJob object \<and> status = CurrentStatus \<and> \<not> jobDone (StatusConditions st) then InProgressStatus else status)))"

text \<open>The analyzer the reconciler gets: \<open>NewStatusAnalyzer(reconcilerName)\<close>.\<close>

definition NewStatusAnalyzer :: "platform \<Rightarrow> status_lib \<Rightarrow> string \<Rightarrow> Object \<Rightarrow> goerr + Status" where
  "NewStatusAnalyzer P L reconcilerName = ComputeStatus P L reconcilerName"

section \<open>What it computes\<close>

text \<open>Hints are read first, then applied.\<close>

datatype hint = HasObservedGeneration | HasReadyCondition | RequireConditions "string list"

definition parseHint :: "platform \<Rightarrow> string \<Rightarrow> hint option" where
  "parseHint P text = (case splitHint text of (key, val) \<Rightarrow>
     if ToKebab P key = StatusHintHasObservedGeneration then (if val = None then Some HasObservedGeneration else None)
     else if ToKebab P key = StatusHintHasReadyCondition then (if val = None then Some HasReadyCondition else None)
     else if ToKebab P key = StatusHintConditions then map_option (\<lambda>v. RequireConditions (splitAt (CHR '';'') v)) val
     else None)"

fun hintsOf :: "platform \<Rightarrow> string list \<Rightarrow> hint list option" where
  "hintsOf P [] = Some []"
| "hintsOf P (t # ts) = (case (parseHint P t, hintsOf P ts) of (Some h, Some hs) \<Rightarrow> Some (h # hs) | _ \<Rightarrow> None)"

fun enhance :: "status_lib \<Rightarrow> ObjectStatus \<Rightarrow> hint list \<Rightarrow> Object \<Rightarrow> goerr + Object" where
  "enhance L st [] object = Inr object"
| "enhance L st (h # hs) object =
     (case (case h of HasObservedGeneration \<Rightarrow> hintObservedGeneration L st object
        | HasReadyCondition \<Rightarrow> hintReadyCondition L st object | RequireConditions _ \<Rightarrow> Inr object) of
      Inl err \<Rightarrow> Inl err | Inr object \<Rightarrow> enhance L st hs object)"

fun requiredBy :: "hint list \<Rightarrow> string list" where
  "requiredBy [] = []"
| "requiredBy (h # hs) = (case h of RequireConditions cs \<Rightarrow> cs | _ \<Rightarrow> []) @ requiredBy hs"

text \<open>A required condition is there, and true wherever it is.\<close>

definition conditionMet :: "ObjectStatus \<Rightarrow> string \<Rightarrow> bool" where
  "conditionMet st c \<longleftrightarrow> (let conds = filter (\<lambda>cond. CondTypeOf cond = c) (StatusConditions st)
     in conds \<noteq> [] \<and> list_all (\<lambda>cond. CondStatusOf cond = ''True'') conds)"

definition jobFinished :: "ObjectStatus \<Rightarrow> bool" where
  "jobFinished st \<longleftrightarrow> list_ex (\<lambda>cond. CondTypeOf cond \<in> {''Complete'', ''Failed''} \<and> CondStatusOf cond = ''True'') (StatusConditions st)"

definition meetsExtras :: "ObjectStatus \<Rightarrow> hint list \<Rightarrow> Object \<Rightarrow> bool" where
  "meetsExtras st hs object \<longleftrightarrow> list_all (conditionMet st) (requiredBy hs @ wellKnownConditions object) \<and>
     (\<not> isJob object \<or> jobFinished st)"

lemma checkCondition_eq: "checkCondition st c s = (if conditionMet st c then s else InProgressStatus)"
proof -
  have "fold (\<lambda>cond (found, status). if CondTypeOf cond = c
          then (True, if CondStatusOf cond \<noteq> ''True'' then InProgressStatus else status) else (found, status)) conds (b, s) =
        (b \<or> filter (\<lambda>cond. CondTypeOf cond = c) conds \<noteq> [],
         if list_all (\<lambda>cond. CondStatusOf cond = ''True'') (filter (\<lambda>cond. CondTypeOf cond = c) conds) then s else InProgressStatus)"
    for conds :: "ObjectCondition list" and b and s :: Status
    by (induction conds arbitrary: b s) auto
  then show ?thesis by (auto simp: checkCondition_def conditionMet_def Let_def)
qed

lemma fold_checkCondition: "fold (checkCondition st) cs s = (if list_all (conditionMet st) cs then s else InProgressStatus)"
  by (induction cs arbitrary: s) (auto simp: checkCondition_eq)

lemma jobDone_eq: "jobDone (StatusConditions st) = jobFinished st"
proof -
  have "jobDone conds = list_ex (\<lambda>cond. CondTypeOf cond \<in> {''Complete'', ''Failed''} \<and> CondStatusOf cond = ''True'') conds"
    for conds :: "ObjectCondition list"
    by (induction conds) auto
  then show ?thesis by (simp add: jobFinished_def)
qed

lemma applyHints_Inr:
  "applyHints P L st hints (object, extra) = Inr (object', extra') \<longleftrightarrow>
   (\<exists>hs. hintsOf P hints = Some hs \<and> enhance L st hs object = Inr object' \<and> extra' = extra @ requiredBy hs)"
proof (induction hints arbitrary: object extra)
  case (Cons t hints)
  obtain key val where kv: "splitHint t = (key, val)" by force
  show ?case
    by (auto simp: kv parseHint_def Cons.IH Let_def split: option.splits sum.splits)
qed auto

lemma ComputeStatus_eq:
  assumes "DecodeStatus L object = Inr st"
    and "(case map_of (Annotations object) (name @ ''/status-hint'') of
       Some text \<Rightarrow> applyHints P L st (splitAt (CHR '','') text) (object, []) | None \<Rightarrow> Inr (object, [])) = Inr (object', requiredBy hs)"
  shows "ComputeStatus P L name object = (case Compute L object' of
      Inl err \<Rightarrow> Inl err
    | Inr k \<Rightarrow> Inr (if k = CurrentStatus \<and> \<not> meetsExtras st hs object' then InProgressStatus else k))"
  using assms
  by (cases "Compute L object'")
    (simp_all add: ComputeStatus_def Let_def fold_checkCondition jobDone_eq meetsExtras_def del: append_assoc)

text \<open>
  C17: an object has the status kstatus computes for it after its hints were applied, except
  that an object that is current for kstatus is still in progress if a condition required by
  a hint or by its type is missing or not true, or if it is a job that has neither completed
  nor failed. If a hint is unknown or misses or has a value it should not, there is no status.
\<close>

theorem ComputeStatus_spec:
  "ComputeStatus P L name object = Inr s \<longleftrightarrow>
   (\<exists>st hs object' k. DecodeStatus L object = Inr st \<and>
      (case map_of (Annotations object) (name @ ''/status-hint'') of
         Some text \<Rightarrow> hintsOf P (splitAt (CHR '','') text) | None \<Rightarrow> Some []) = Some hs \<and>
      enhance L st hs object = Inr object' \<and> Compute L object' = Inr k \<and>
      s = (if k = CurrentStatus \<and> \<not> meetsExtras st hs object' then InProgressStatus else k))"
proof (cases "DecodeStatus L object")
  case (Inr st)
  let ?hints = "map_of (Annotations object) (name @ ''/status-hint'')"
  let ?parsed = "case ?hints of Some text \<Rightarrow> hintsOf P (splitAt (CHR '','') text) | None \<Rightarrow> Some []"
  let ?applied = "case ?hints of Some text \<Rightarrow> applyHints P L st (splitAt (CHR '','') text) (object, []) | None \<Rightarrow> Inr (object, [])"
  have iff: "?applied = Inr (object', extra) \<longleftrightarrow>
      (\<exists>hs. ?parsed = Some hs \<and> enhance L st hs object = Inr object' \<and> extra = requiredBy hs)" for object' extra
    by (cases ?hints) (auto simp: applyHints_Inr)
  show ?thesis
  proof (cases ?applied)
    case (Inl err)
    then have "\<nexists>hs object'. ?parsed = Some hs \<and> enhance L st hs object = Inr object'"
      using iff by (metis Inl_Inr_False)
    moreover have "ComputeStatus P L name object = Inl err" using Inl Inr by (simp add: ComputeStatus_def)
    ultimately show ?thesis using Inr by auto
  next
    case (Inr oe)
    obtain object' extra where oe: "oe = (object', extra)" by (cases oe)
    from Inr [unfolded oe] obtain hs where hs: "?parsed = Some hs" "enhance L st hs object = Inr object'" "extra = requiredBy hs"
      using iff by blast
    have "ComputeStatus P L name object = (case Compute L object' of
        Inl err \<Rightarrow> Inl err
      | Inr k \<Rightarrow> Inr (if k = CurrentStatus \<and> \<not> meetsExtras st hs object' then InProgressStatus else k))"
      using Inr oe hs(3) \<open>DecodeStatus L object = Inr st\<close> by (intro ComputeStatus_eq) simp_all
    then show ?thesis using \<open>DecodeStatus L object = Inr st\<close> hs(1,2) by (auto split: sum.splits)
  qed
qed (simp add: ComputeStatus_def)

end
