(* ===== verification/Component_Target.thy ===== *)
theory Component_Target
  imports Component_Context References Backoff Events Status_Analyzer Reconciler_Apply
begin

text \<open>
  The reconciler of \<open>pkg/component/reconciler.go\<close>: its options and constructor, its hooks,
  the clients and options it derives from a component, and the target of
  \<open>pkg/component/target.go\<close>, through which it runs the reconciler of \<open>pkg/reconciler\<close> on the
  inventory in the component's status.
\<close>

section \<open>Parameters\<close>

type_synonym request = "string \<times> string"

text \<open>
  What the reconciler does with the component itself: the client, of which
  \<open>PatchComponent\<close> decodes the server's answer into the component, the clock, and
  \<open>rand.Int63n\<close>, with the text of an error and the code of an API error.
\<close>

record 'w component_client =
  GetComponent :: "request \<Rightarrow> 'w \<Rightarrow> (goerr + Component) \<times> 'w"
  PatchComponent :: "Component \<Rightarrow> string \<Rightarrow> string list \<Rightarrow> string \<Rightarrow> 'w \<Rightarrow> (goerr option \<times> Component) \<times> 'w"
  UpdateComponentStatus :: "Component \<Rightarrow> string \<Rightarrow> 'w \<Rightarrow> goerr option \<times> 'w"
  ClockNow :: "'w \<Rightarrow> int \<times> 'w"
  Int63n :: "int \<Rightarrow> 'w \<Rightarrow> int \<times> 'w"
  ErrorText :: "goerr \<Rightarrow> string"
  StatusCode :: "goerr \<Rightarrow> int option"
  ToUpper :: "string \<Rightarrow> string"

text \<open>Hooks may change the component and what its references have loaded.\<close>

record 'w hook_env =
  hook_world :: 'w
  hook_comp :: Component
  hook_refs :: refstore

type_synonym 'w hook = "'w client Context \<Rightarrow> ('w hook_env, goerr, unit) comp"

type_synonym 'w generator = "'w client Context \<Rightarrow> string \<Rightarrow> string \<Rightarrow> specnode gvalue \<Rightarrow> refstore \<Rightarrow> 'w \<Rightarrow>
    (goerr, Object list) outcome \<times> 'w"

section \<open>The reconciler\<close>

record ComponentReconcilerOptions =
  CoFieldOwner :: "string option"
  CoFinalizer :: "string option"
  CoDefaultServiceAccount :: "string option"
  CoAdoptionPolicy :: "AdoptionPolicy option"
  CoUpdatePolicy :: "UpdatePolicy option"
  CoDeletePolicy :: "DeletePolicy option"
  CoMissingNamespacesPolicy :: "MissingNamespacesPolicy option"
  CoReapplyInterval :: "int option"

record 'w ComponentReconciler =
  CrName :: string
  CrId :: string
  CrGroupVersionKind :: GroupVersionKind
  CrClient :: "'w component_client"
  CrRefClient :: "'w refclient"
  CrEventDigest :: "eventargs \<Rightarrow> string"
  CrGenerator :: "'w generator"
  CrStatusLib :: status_lib
  CrOptions :: ComponentReconcilerOptions
  CrClients :: "string \<Rightarrow> string \<Rightarrow> string list \<Rightarrow> 'w \<Rightarrow> (goerr + 'w client) \<times> 'w"
  CrLimiters :: limiter_lib
  postReadHooks :: "'w hook list"
  preReconcileHooks :: "'w hook list"
  postReconcileHooks :: "'w hook list"
  preDeleteHooks :: "'w hook list"
  postDeleteHooks :: "'w hook list"
  setupComplete :: bool

text \<open>
  \<open>NewReconciler\<close> sets the defaults of the options; what \<open>SetupWithManager\<close> fills in later is
  already in \<open>r\<close>.
\<close>

definition NewComponentReconciler :: "string \<Rightarrow> 'w generator \<Rightarrow> ComponentReconcilerOptions \<Rightarrow> 'w ComponentReconciler \<Rightarrow>
    'w ComponentReconciler" where
  "NewComponentReconciler name resourceGenerator options r =
     r\<lparr>CrName := name, CrGenerator := resourceGenerator,
       CrOptions :=
         \<lparr>CoFieldOwner = Some (or_default (CoFieldOwner options) name),
          CoFinalizer = Some (or_default (CoFinalizer options) name),
          CoDefaultServiceAccount = CoDefaultServiceAccount options,
          CoAdoptionPolicy = Some (or_default (CoAdoptionPolicy options) AdoptionPolicyIfUnowned),
          CoUpdatePolicy = Some (or_default (CoUpdatePolicy options) UpdatePolicyReplace),
          CoDeletePolicy = Some (or_default (CoDeletePolicy options) DeletePolicyDelete),
          CoMissingNamespacesPolicy = Some (or_default (CoMissingNamespacesPolicy options) MissingNamespacesPolicyCreate),
          CoReapplyInterval = Some (or_default (CoReapplyInterval options) defaultReapplyInterval)\<rparr>,
       postReadHooks := [], preReconcileHooks := [], postReconcileHooks := [], preDeleteHooks := [], postDeleteHooks := [],
       setupComplete := False\<rparr>"

definition finalizerOf :: "'w ComponentReconciler \<Rightarrow> string" where
  "finalizerOf r = or_default (CoFinalizer (CrOptions r)) ''''"

definition fieldOwnerOf :: "'w ComponentReconciler \<Rightarrow> string" where
  "fieldOwnerOf r = or_default (CoFieldOwner (CrOptions r)) ''''"

text \<open>Hooks can only be registered before setup; \<open>None\<close> is the panic.\<close>

definition WithPostReadHook :: "'w hook \<Rightarrow> 'w ComponentReconciler \<Rightarrow> 'w ComponentReconciler option" where
  "WithPostReadHook hook r = (if setupComplete r then None else Some (r\<lparr>postReadHooks := postReadHooks r @ [hook]\<rparr>))"

definition WithPreReconcileHook :: "'w hook \<Rightarrow> 'w ComponentReconciler \<Rightarrow> 'w ComponentReconciler option" where
  "WithPreReconcileHook hook r = (if setupComplete r then None else Some (r\<lparr>preReconcileHooks := preReconcileHooks r @ [hook]\<rparr>))"

definition WithPostReconcileHook :: "'w hook \<Rightarrow> 'w ComponentReconciler \<Rightarrow> 'w ComponentReconciler option" where
  "WithPostReconcileHook hook r = (if setupComplete r then None else Some (r\<lparr>postReconcileHooks := postReconcileHooks r @ [hook]\<rparr>))"

definition WithPreDeleteHook :: "'w hook \<Rightarrow> 'w ComponentReconciler \<Rightarrow> 'w ComponentReconciler option" where
  "WithPreDeleteHook hook r = (if setupComplete r then None else Some (r\<lparr>preDeleteHooks := preDeleteHooks r @ [hook]\<rparr>))"

definition WithPostDeleteHook :: "'w hook \<Rightarrow> 'w ComponentReconciler \<Rightarrow> 'w ComponentReconciler option" where
  "WithPostDeleteHook hook r = (if setupComplete r then None else Some (r\<lparr>postDeleteHooks := postDeleteHooks r @ [hook]\<rparr>))"

text \<open>A full buffer is an error; the trigger never blocks.\<close>

definition triggerBufferSize :: nat where
  "triggerBufferSize = 1024"

definition Trigger :: "string \<Rightarrow> string \<Rightarrow> request list \<Rightarrow> goerr option \<times> request list" where
  "Trigger namespace name triggerCh =
     (if length triggerCh < triggerBufferSize then (None, triggerCh @ [(namespace, name)])
      else (Some (Errorf ''error triggering reconcile for component %s/%s (buffer full)'' [AStr namespace, AStr name]), triggerCh))"

section \<open>The state of a run\<close>

datatype hook_kind = PostRead | PreReconcile | PostReconcile | PreDelete | PostDelete

text \<open>
  Calls leave a trace. \<open>CApply\<close>, \<open>CIsDeletionAllowed\<close> and \<open>CDelete\<close> mark the end of a call of
  the target with its result, and \<open>CTarget\<close> are the calls made through the target's client.
  \<open>CHook\<close> marks the end of a hook, with the component as the hook left it.
\<close>

datatype cevent =
    CReconciles
  | CGet request "goerr + Component"
  | CHook hook_kind nat Component
  | CGenerate string string
  | CTarget event
  | CApply "(goerr, bool) outcome"
  | CIsDeletionAllowed "(goerr, bool \<times> string) outcome"
  | CDelete "(goerr, bool) outcome"
  | CPatchFinalizers "string list" "goerr option"
  | CRecord eventargs
  | CReconcileErrors "int option"
  | CSetMetrics "(State \<times> bool) list" nat nat
  | CDeleteMetrics
  | CStatusUpdate Component "goerr option"

record 'w cst =
  cworld :: 'w
  ctrace :: "cevent list"
  comp :: Component
  crefs :: refstore
  cbackoff :: "(request, string) activities \<times> (request \<times> string \<Rightarrow> nat)"
  cdigest :: string
  crecorder :: "seen_events \<times> emitted"

type_synonym ('w, 'a) ccomp = "('w cst, goerr, 'a) comp"

definition cemit :: "cevent \<Rightarrow> ('w, unit) ccomp" where
  "cemit e = modify (\<lambda>s. s\<lparr>ctrace := ctrace s @ [e]\<rparr>)"

definition ccall :: "('w \<Rightarrow> 'x \<times> 'w) \<Rightarrow> ('w, 'x) ccomp" where
  "ccall oper = (\<lambda>s. let (x, w) = oper (cworld s) in (Ok x, s\<lparr>cworld := w\<rparr>))"

definition upd_comp :: "(Component \<Rightarrow> Component) \<Rightarrow> ('w, unit) ccomp" where
  "upd_comp f = modify (\<lambda>s. s\<lparr>comp := f (comp s)\<rparr>)"

definition upd_status :: "(ComponentStatus \<Rightarrow> ComponentStatus) \<Rightarrow> ('w, unit) ccomp" where
  "upd_status f = upd_comp (\<lambda>c. c\<lparr>CompStatus := f (CompStatus c)\<rparr>)"

definition setState :: "State \<Rightarrow> string \<Rightarrow> string \<Rightarrow> ('w, unit) ccomp" where
  "setState state reason message = upd_status (SetState state reason message)"

section \<open>Clients and options\<close>

text \<open>
  The user given by an impersonation configuration. The code matches it with
  \<open>^(system:serviceaccount):(.*):(.+)$\<close>, greedily, and fills in the component's namespace if the
  second group is empty; that is, what follows \<open>system:serviceaccount:\<close> is a colon and a
  name without colons (except at its end) and line breaks.
\<close>

definition impersonationUserOf :: "string \<Rightarrow> string \<Rightarrow> string" where
  "impersonationUserOf namespace user =
     (let prefix = ''system:serviceaccount:''
      in if take (length prefix) user = prefix then
           (case drop (length prefix) user of
              CHR '':'' # name \<Rightarrow>
                if name \<noteq> [] \<and> CHR '':'' \<notin> set (butlast name) \<and> CHR 0x0A \<notin> set name
                then prefix @ namespace @ '':'' @ name else user
            | _ \<Rightarrow> user)
         else user)"

definition defaultUser :: "'w ComponentReconciler \<Rightarrow> Component \<Rightarrow> string \<Rightarrow> string list \<Rightarrow> string" where
  "defaultUser r component user groups = (case CoDefaultServiceAccount (CrOptions r) of
     Some sa \<Rightarrow> if user = '''' \<and> groups = [] \<and> sa \<noteq> '''' then ''system:serviceaccount:'' @ Namespace component @ '':'' @ sa else user
   | None \<Rightarrow> user)"

definition impersonationOf :: "Component \<Rightarrow> string \<times> string list" where
  "impersonationOf component = (case assertImpersonationConfiguration component of
     Some (user, groups) \<Rightarrow> (impersonationUserOf (Namespace component) user, groups)
   | None \<Rightarrow> ('''', []))"

definition getLocalClientForComponent :: "'w ComponentReconciler \<Rightarrow> ('w, 'w client) ccomp" where
  "getLocalClientForComponent r =
     bind (gets comp) (\<lambda>component.
     let (user, groups) = impersonationOf component;
         user = defaultUser r component user groups
     in bind (ccall (CrClients r '''' user groups)) (\<lambda>res. case res of
          Inl err \<Rightarrow> fail (Wrapf err ''error getting local client'' [])
        | Inr clnt \<Rightarrow> ret clnt))"

definition getClientForComponent :: "'w ComponentReconciler \<Rightarrow> ('w, 'w client) ccomp" where
  "getClientForComponent r =
     bind (gets comp) (\<lambda>component. bind (gets crefs) (\<lambda>refs.
     let kubeConfig = (case assertClientConfiguration component of Some f \<Rightarrow> f refs | None \<Rightarrow> '''');
         (user, groups) = (if kubeConfig = '''' then impersonationOf component else ('''', []));
         user = (if kubeConfig = '''' then defaultUser r component user groups else user)
     in bind (ccall (CrClients r kubeConfig user groups)) (\<lambda>res. case res of
          Inl err \<Rightarrow> fail (Wrapf err ''error getting target client'' [])
        | Inr clnt \<Rightarrow> ret clnt)))"

definition getOptionsForComponent :: "platform \<Rightarrow> 'w ComponentReconciler \<Rightarrow> Component \<Rightarrow> ReconcilerOptions" where
  "getOptionsForComponent P r component =
     (let options =
        \<lparr>OptFieldOwner = CoFieldOwner (CrOptions r), OptFinalizer = CoFinalizer (CrOptions r),
         OptAdoptionPolicy = CoAdoptionPolicy (CrOptions r), OptUpdatePolicy = CoUpdatePolicy (CrOptions r),
         OptDeletePolicy = CoDeletePolicy (CrOptions r),
         OptMissingNamespacesPolicy = CoMissingNamespacesPolicy (CrOptions r),
         OptAdditionalManagedTypes = [], OptReapplyInterval = CoReapplyInterval (CrOptions r),
         OptStatusAnalyzer = Some (NewStatusAnalyzer P (CrStatusLib r) (CrName r)),
         OptMetrics = (\<lambda>_. True), OptEnableEvents = None\<rparr>;
      options = (case assertPolicyConfiguration component of
        None \<Rightarrow> options
      | Some p \<Rightarrow>
          (let options = (if GetAdoptionPolicy p \<noteq> AdoptionPolicyOther '''' then options\<lparr>OptAdoptionPolicy := Some (GetAdoptionPolicy p)\<rparr> else options);
               options = (if GetUpdatePolicy p \<noteq> UpdatePolicyOther '''' then options\<lparr>OptUpdatePolicy := Some (GetUpdatePolicy p)\<rparr> else options);
               options = (if GetDeletePolicy p \<noteq> DeletePolicyOther '''' then options\<lparr>OptDeletePolicy := Some (GetDeletePolicy p)\<rparr> else options)
           in if GetMissingNamespacesPolicy p \<noteq> MissingNamespacesPolicyOther ''''
              then options\<lparr>OptMissingNamespacesPolicy := Some (GetMissingNamespacesPolicy p)\<rparr> else options));
      options = (case assertTypeConfiguration component of
        None \<Rightarrow> options | Some types \<Rightarrow> options\<lparr>OptAdditionalManagedTypes := types\<rparr>);
      options = (case assertReapplyConfiguration component of
        None \<Rightarrow> options | Some d \<Rightarrow> if 0 < d then options\<lparr>OptReapplyInterval := Some d\<rparr> else options)
      in if getString (Annotations component) (CrName r @ ''/'' @ AnnotationKeySuffixDisableEvents) = ''true''
         then options\<lparr>OptEnableEvents := Some False\<rparr> else options)"

section \<open>The target\<close>

record 'w reconcileTarget =
  TargetReconciler :: "'w Reconciler"
  TargetReconcilerName :: string
  TargetReconcilerId :: string
  TargetLocalClient :: "'w client"
  TargetClient :: "'w client"
  TargetGenerator :: "'w generator"

definition newReconcileTarget :: "platform \<Rightarrow> status_lib \<Rightarrow> string \<Rightarrow> string \<Rightarrow> 'w client \<Rightarrow> 'w client \<Rightarrow> 'w generator \<Rightarrow>
    ReconcilerOptions \<Rightarrow> 'w reconcileTarget" where
  "newReconcileTarget P L name reconcilerId localClient clnt resourceGenerator options =
     \<lparr>TargetReconciler = NewReconciler (NewStatusAnalyzer P L) name clnt options,
      TargetReconcilerName = name, TargetReconcilerId = reconcilerId, TargetLocalClient = localClient,
      TargetClient = clnt, TargetGenerator = resourceGenerator\<rparr>"

text \<open>
  A method of the inner reconciler runs on the inventory in the status, through a pointer,
  so what it does to the inventory stays whatever its result.
\<close>

definition inner_state :: "'w cst \<Rightarrow> 'w rst" where
  "inner_state s = \<lparr>world = cworld s, trace = [], inventory = StatusInventory (CompStatus (comp s))\<rparr>"

definition on_inventory :: "('w, 'a) rcomp \<Rightarrow> ('w, 'a) ccomp" where
  "on_inventory m = (\<lambda>s. let (res, t) = m (inner_state s)
     in (res, s\<lparr>cworld := world t, ctrace := ctrace s @ map CTarget (trace t),
          comp := (comp s)\<lparr>CompStatus := (CompStatus (comp s))\<lparr>StatusInventory := inventory t\<rparr>\<rparr>\<rparr>))"

text \<open>Marks the end of a call with its result.\<close>

definition marked :: "(('e, 'a) outcome \<Rightarrow> cevent) \<Rightarrow> ('w cst, 'e, 'a) comp \<Rightarrow> ('w cst, 'e, 'a) comp" where
  "marked ev m = (\<lambda>s. let (res, t) = m s in (res, t\<lparr>ctrace := ctrace t @ [ev res]\<rparr>))"

definition targetOwnerId :: "'w reconcileTarget \<Rightarrow> Component \<Rightarrow> string" where
  "targetOwnerId t component = TargetReconcilerId t @ ''/'' @ Namespace component @ ''/'' @ Name component"

definition deploymentNamespace :: "Component \<Rightarrow> string" where
  "deploymentNamespace component = (case assertPlacementConfiguration component of
     Some (namespace, name) \<Rightarrow> if namespace = '''' then Namespace component else namespace
   | None \<Rightarrow> Namespace component)"

definition deploymentName :: "Component \<Rightarrow> string" where
  "deploymentName component = (case assertPlacementConfiguration component of
     Some (namespace, name) \<Rightarrow> if name = '''' then Name component else name
   | None \<Rightarrow> Name component)"

definition generate :: "'w reconcileTarget \<Rightarrow> string \<Rightarrow> ('w, Object list) ccomp" where
  "generate t componentDigest =
     bind (gets comp) (\<lambda>component. bind (gets crefs) (\<lambda>refs.
     let namespace = deploymentNamespace component; name = deploymentName component;
         ctx = WithComponentRevision (Revision (CompStatus component))
                (WithComponentDigest componentDigest (WithComponentNamespace (Namespace component)
                (WithComponentName (Name component) (WithComponent component (WithClient (TargetClient t)
                (WithLocalClient (TargetLocalClient t) (WithReconcilerName (TargetReconcilerName t) NewContext)))))))
     in seq (cemit (CGenerate namespace name))
          (map_err (\<lambda>e. Wrapf e ''error rendering manifests'' [])
            (\<lambda>s. let (res, w) = TargetGenerator t ctx namespace name (Spec component) refs (cworld s)
              in (res, s\<lparr>cworld := w\<rparr>)))))"

definition target_Apply :: "platform \<Rightarrow> 'w reconcileTarget \<Rightarrow> string \<Rightarrow> ('w, bool) ccomp" where
  "target_Apply P t componentDigest = marked CApply
     (bind (gets comp) (\<lambda>component.
      if componentDigest \<noteq> ProcessingDigest (CompStatus component) then panic ''this cannot happen''
      else bind (generate t componentDigest) (\<lambda>objects.
        on_inventory (Apply P (TargetReconciler t) objects (deploymentNamespace component) (targetOwnerId t component) componentDigest))))"

definition target_Delete :: "platform \<Rightarrow> 'w reconcileTarget \<Rightarrow> ('w, bool) ccomp" where
  "target_Delete P t = marked CDelete
     (bind (gets comp) (\<lambda>component. on_inventory (DeleteAll P (TargetReconciler t) (targetOwnerId t component))))"

definition target_IsDeletionAllowed :: "platform \<Rightarrow> 'w reconcileTarget \<Rightarrow> ('w, bool \<times> string) ccomp" where
  "target_IsDeletionAllowed P t = marked CIsDeletionAllowed
     (bind (gets comp) (\<lambda>component. on_inventory (IsDeletionAllowed P (TargetReconciler t) (targetOwnerId t component))))"

end
