(* ===== verification/Component_Reconcile.thy ===== *)
theory Component_Reconcile
  imports Component_Target "HOL-Library.Signed_Division"
begin

text \<open>
  \<open>Reconcile\<close> of \<open>pkg/component/reconciler.go\<close>: the phases of its body, the deferred status
  handler, and their composition. A call ends with the delay after which the component is
  to be reconciled again (zero: not at all), with an error, or in a panic.
\<close>

section \<open>Helpers\<close>

text \<open>A 64-bit signed value.\<close>

definition wrap64 :: "int \<Rightarrow> int" where
  "wrap64 x = (x + 2 ^ 63) mod 2 ^ 64 - 2 ^ 63"

definition addJitter :: "'w ComponentReconciler \<Rightarrow> int \<Rightarrow> int \<Rightarrow> int \<Rightarrow> ('w, int) ccomp" where
  "addJitter r d minPercent maxPercent =
     (if minPercent > maxPercent then ret d
      else bind (ccall (Int63n (CrClient r) (maxPercent - minPercent + 1))) (\<lambda>rnd.
        ret (wrap64 (d + (wrap64 ((rnd + minPercent) * d)) sdiv 100))))"

definition capitalize :: "'w ComponentReconciler \<Rightarrow> string \<Rightarrow> string" where
  "capitalize r s = (if length s \<le> 1 then s else ToUpper (CrClient r) (take 1 s) @ drop 1 s)"

definition requestOf :: "Component \<Rightarrow> request" where
  "requestOf component = (Namespace component, Name component)"

definition backoffNext :: "'w ComponentReconciler \<Rightarrow> request \<Rightarrow> string \<Rightarrow> ('w, int) ccomp" where
  "backoffNext r req activity = (\<lambda>s.
     let (d, b) = Next_backoff (NewDefaultRateLimiter (CrLimiters r) (10 * Second)) req activity (cbackoff s)
     in (Ok d, s\<lparr>cbackoff := b\<rparr>))"

definition backoffForget :: "'w ComponentReconciler \<Rightarrow> request \<Rightarrow> ('w, unit) ccomp" where
  "backoffForget r req = modify (\<lambda>s.
     s\<lparr>cbackoff := Forget_backoff (NewDefaultRateLimiter (CrLimiters r) (10 * Second)) req (cbackoff s)\<rparr>)"

definition requeueIntervalOf :: "Component \<Rightarrow> int" where
  "requeueIntervalOf component =
     (let d = durationOf (assertRequeueConfiguration component) in if d = 0 then 10 * Minute else d)"

definition retryIntervalOf :: "Component \<Rightarrow> int" where
  "retryIntervalOf component =
     (let d = durationOf (assertRetryConfiguration component) in if d = 0 then requeueIntervalOf component else d)"

definition timeoutOf :: "Component \<Rightarrow> int" where
  "timeoutOf component =
     (let d = durationOf (assertTimeoutConfiguration component) in if d = 0 then requeueIntervalOf component else d)"

section \<open>The body\<close>

definition on_hook :: "hook_kind \<Rightarrow> nat \<Rightarrow> ('w hook_env, goerr, unit) comp \<Rightarrow> ('w, unit) ccomp" where
  "on_hook kind hookOrder h = (\<lambda>s. let (res, e) = h \<lparr>hook_world = cworld s, hook_comp = comp s, hook_refs = crefs s\<rparr>
     in (res, s\<lparr>cworld := hook_world e, comp := hook_comp e, crefs := hook_refs e,
          ctrace := ctrace s @ [CHook kind hookOrder (hook_comp e)]\<rparr>))"

definition hookError :: "hook_kind \<Rightarrow> nat \<Rightarrow> goerr \<Rightarrow> goerr" where
  "hookError kind hookOrder err = Wrapf err (case kind of
       PostRead \<Rightarrow> ''error running post-read hook (%d)'' | PreReconcile \<Rightarrow> ''error running pre-reconcile hook (%d)''
     | PostReconcile \<Rightarrow> ''error running post-reconcile hook (%d)'' | PreDelete \<Rightarrow> ''error running pre-delete hook (%d)''
     | PostDelete \<Rightarrow> ''error running post-delete hook (%d)'') [AInt (int hookOrder)]"

fun runHooks :: "hook_kind \<Rightarrow> 'w client Context \<Rightarrow> nat \<Rightarrow> 'w hook list \<Rightarrow> ('w, unit) ccomp" where
  "runHooks kind ctx hookOrder [] = ret ()"
| "runHooks kind ctx hookOrder (hook # hooks) =
     seq (map_err (hookError kind hookOrder) (on_hook kind hookOrder (hook ctx))) (runHooks kind ctx (Suc hookOrder) hooks)"

definition resolve :: "platform \<Rightarrow> 'w ComponentReconciler \<Rightarrow> ('w, string) ccomp" where
  "resolve P r = (\<lambda>s.
     let (res, e) = resolveReferences P (CrRefClient r) (comp s) \<lparr>rworld = cworld s, refs = crefs s, digestData = \<lambda>_. None\<rparr>;
         s = s\<lparr>cworld := rworld e, crefs := refs e\<rparr>
     in case res of
       Ok digest \<Rightarrow> (Ok digest, s\<lparr>cdigest := digest\<rparr>)
     | Err err \<Rightarrow> (Err (Wrapf err ''error resolving references'' []), s\<lparr>cdigest := ''''\<rparr>)
     | Panic p \<Rightarrow> (Panic p, s))"

text \<open>The result of the body: the delay, and whether the status update is to be skipped.\<close>

definition updateFinalizers :: "'w ComponentReconciler \<Rightarrow> ('w, unit) ccomp" where
  "updateFinalizers r =
     bind (gets comp) (\<lambda>component.
     bind (ccall (PatchComponent (CrClient r) component (ResourceVersion component) (Finalizers component) (fieldOwnerOf r))) (\<lambda>(err, c).
     seq (cemit (CPatchFinalizers (Finalizers component) err))
       (seq (upd_comp (\<lambda>_. c)) (of_option err))))"

text \<open>A new processing cycle starts when the digest of the component changes.\<close>

definition startProcessing :: "'w ComponentReconciler \<Rightarrow> request \<Rightarrow> ('w, bool) ccomp" where
  "startProcessing r req =
     bind (gets comp) (\<lambda>component. bind (gets cdigest) (\<lambda>digest.
     if DeletionTimestamp component = None then
       (if ProcessingDigest (CompStatus component) = '''' then
          seq (upd_status (\<lambda>st. st\<lparr>ProcessingSince := None, ProcessingDigest := digest\<rparr>)) (ret False)
        else if digest \<noteq> ProcessingDigest (CompStatus component) then
          seq (upd_status (\<lambda>st. st\<lparr>ProcessingSince := None, ProcessingDigest := digest\<rparr>))
            (seq (backoffForget r req)
            (seq (setState StateProcessing ''Restarting'' ''Restarting processing due to component changes'') (ret True)))
        else ret False)
     else seq (upd_status (\<lambda>st. st\<lparr>ProcessingSince := None, ProcessingDigest := ''''\<rparr>)) (ret False)))"

definition setupTarget :: "platform \<Rightarrow> 'w ComponentReconciler \<Rightarrow> ('w, 'w reconcileTarget) ccomp" where
  "setupTarget P r =
     bind (map_err (\<lambda>e. Wrapf e ''error getting local client for component'' []) (getLocalClientForComponent r)) (\<lambda>localClient.
     bind (map_err (\<lambda>e. Wrapf e ''error getting client for component'' []) (getClientForComponent r)) (\<lambda>targetClient.
     bind (gets comp) (\<lambda>component.
     ret (newReconcileTarget P (CrStatusLib r) (CrName r) (CrId r) localClient targetClient (CrGenerator r)
        (getOptionsForComponent P r component)))))"

definition targetCtx :: "'w ComponentReconciler \<Rightarrow> 'w reconcileTarget \<Rightarrow> 'w client Context" where
  "targetCtx r t = WithClient (TargetClient t) (WithLocalClient (TargetLocalClient t) (WithReconcilerName (CrName r) NewContext))"

definition nextRevision :: "ComponentStatus \<Rightarrow> ComponentStatus" where
  "nextRevision st =
     (let st = (if Revision st = 0 \<and> StatusLastAppliedAt st \<noteq> None then st\<lparr>Revision := 1\<rparr> else st)
      in if ProcessingDigest st \<noteq> LastProcessingDigest st
         then st\<lparr>Revision := Revision st + 1, LastProcessingDigest := ProcessingDigest st\<rparr> else st)"

text \<open>Create or update the dependent resources.\<close>

definition applyPhase :: "platform \<Rightarrow> 'w ComponentReconciler \<Rightarrow> request \<Rightarrow> int \<Rightarrow> int \<Rightarrow> ComponentStatus \<Rightarrow>
    'w reconcileTarget \<Rightarrow> ('w, int \<times> bool) ccomp" where
  "applyPhase P r req now requeueInterval savedStatus t =
     bind (gets comp) (\<lambda>component.
     let (component, added) = AddFinalizer P component (finalizerOf r) in
     seq (upd_comp (\<lambda>_. component))
     (if added then
        seq (map_err (\<lambda>e. Wrapf e ''error adding finalizer'' []) (updateFinalizers r)) (ret (Millisecond, False))
      else
        seq (upd_status nextRevision)
        (seq (runHooks PreReconcile (targetCtx r t) 0 (preReconcileHooks r))
        (bind (gets cdigest) (\<lambda>digest.
         bind (map_err (\<lambda>e. Wrapf e ''error reconciling dependent resources'' []) (target_Apply P t digest)) (\<lambda>ok.
         if ok then
           seq (runHooks PostReconcile (targetCtx r t) 0 (postReconcileHooks r))
           (seq (upd_comp (\<lambda>c. c\<lparr>CompStatus := (CompStatus c)\<lparr>AppliedGeneration := Generation c, StatusLastAppliedAt := Some now\<rparr>\<rparr>))
           (seq (setState StateReady ''Ready'' ''Dependent resources successfully reconciled'')
           (ret (requeueInterval, False))))
         else
           bind (gets (CompStatus \<circ> comp)) (\<lambda>st.
           seq (if StatusInventory st \<noteq> StatusInventory savedStatus then backoffForget r req else ret ())
           (seq (upd_status (\<lambda>st. if ProcessingSince st = None then st\<lparr>ProcessingSince := Some now\<rparr> else st))
           (seq (setState StateProcessing ''Processing''
                  ''Reconcilation of dependent resources triggered; waiting until all dependent resources are ready'')
           (bind (backoffNext r req ''Processing'') (\<lambda>d. ret (d, False))))))))))))"

text \<open>Delete the dependent resources.\<close>

definition deletePhase :: "platform \<Rightarrow> 'w ComponentReconciler \<Rightarrow> request \<Rightarrow> ComponentStatus \<Rightarrow> 'w reconcileTarget \<Rightarrow>
    ('w, int \<times> bool) ccomp" where
  "deletePhase P r req savedStatus t =
     seq (runHooks PreDelete (targetCtx r t) 0 (preDeleteHooks r))
     (bind (map_err (\<lambda>e. Wrapf e ''error checking whether deletion is possible'' []) (target_IsDeletionAllowed P t)) (\<lambda>(allowed, msg).
      if \<not> allowed then
        seq (setState StateDeleting ''DeletionBlocked'' (''Deletion blocked: '' @ msg))
          (bind (backoffNext r req ''DeletionBlocked'') (\<lambda>d. ret (1 * Second + d, False)))
      else bind (gets comp) (\<lambda>component.
      if filter (\<lambda>f. f \<noteq> finalizerOf r) (Finalizers component) \<noteq> [] then
        seq (setState StateDeleting ''DeletionBlocked'' ''Deletion blocked due to existing foreign finalizers'')
          (bind (backoffNext r req ''DeletionBlocked'') (\<lambda>d. ret (1 * Second + d, False)))
      else bind (map_err (\<lambda>e. Wrapf e ''error deleting dependent resources'' []) (target_Delete P t)) (\<lambda>ok.
      if ok then
        seq (runHooks PostDelete (targetCtx r t) 0 (postDeleteHooks r))
        (bind (gets comp) (\<lambda>component.
         let (component, removed) = RemoveFinalizer P component (finalizerOf r) in
         seq (upd_comp (\<lambda>_. component))
         (seq (if removed then map_err (\<lambda>e. Wrapf e ''error removing finalizer'' []) (updateFinalizers r) else ret ())
           (ret (0, True)))))
      else
        bind (gets (CompStatus \<circ> comp)) (\<lambda>st.
        seq (if StatusInventory st \<noteq> StatusInventory savedStatus then backoffForget r req else ret ())
        (seq (setState StateDeleting ''DeletionProcessing''
               ''Deletion of dependent resources triggered; waiting until dependent resources are deleted'')
        (bind (backoffNext r req ''DeletionProcessing'') (\<lambda>d. ret (d, False)))))))))"

definition isSuspended :: "Component \<Rightarrow> bool" where
  "isSuspended component \<longleftrightarrow> DeletionTimestamp component = None \<and> assertSuspensionConfiguration component = Some True"

definition reconcileBody :: "platform \<Rightarrow> 'w ComponentReconciler \<Rightarrow> request \<Rightarrow> int \<Rightarrow> int \<Rightarrow> ComponentStatus \<Rightarrow>
    ('w, int \<times> bool) ccomp" where
  "reconcileBody P r req now requeueInterval savedStatus =
     bind (gets comp) (\<lambda>component.
     if ObservedGeneration (CompStatus component) \<le> 0 then
       seq (setState StatePending ''FirstSeen'' ''First seen'') (ret (Millisecond, False))
     else if isSuspended component then
       seq (setState StatePending ''Suspended'' ''Reconciliation is suspended'')
         (bind (backoffNext r req ''Suspended'') (\<lambda>d. ret (d, False)))
     else
       bind (resolve P r) (\<lambda>_.
       bind (startProcessing r req) (\<lambda>restarted.
       if restarted then ret (Millisecond, False)
       else
         seq (runHooks PostRead (WithReconcilerName (CrName r) NewContext) 0 (postReadHooks r))
         (bind (setupTarget P r) (\<lambda>t.
          bind (gets comp) (\<lambda>component.
          if DeletionTimestamp component = None then applyPhase P r req now requeueInterval savedStatus t
          else deletePhase P r req savedStatus t))))))"

section \<open>The deferred status handler\<close>

definition timedOut :: "int \<Rightarrow> int \<Rightarrow> ComponentStatus \<Rightarrow> bool" where
  "timedOut now timeout st = (case ProcessingSince st of Some t \<Rightarrow> now - t \<ge> timeout | None \<Rightarrow> False)"

text \<open>The switch over the state of a component not in deletion, without error.\<close>

definition settleState :: "bool \<Rightarrow> int \<Rightarrow> ('w, int) ccomp" where
  "settleState haveTimeout n =
     bind (gets (CompStatus \<circ> comp)) (\<lambda>st. case CompState st of
       StateReady \<Rightarrow>
         seq (upd_status (\<lambda>st. st\<lparr>ProcessingSince := None\<rparr>)) (ret (if ProcessingSince st \<noteq> None then Millisecond else n))
     | StateProcessing \<Rightarrow>
         seq (if haveTimeout then setState StateError ''Timeout'' ''Reconcilation of dependent resources timed out'' else ret ())
           (ret n)
     | StatePending \<Rightarrow> ret n
     | StateError \<Rightarrow> ret n
     | StateDeletionPending \<Rightarrow> panic ''this cannot happen''
     | StateDeleting \<Rightarrow> panic ''this cannot happen''
     | StateOther _ \<Rightarrow> panic ''this cannot happen'')"

text \<open>
  A retriable error becomes a pending state and a delay, any other one an error state. The
  result is the delay and the error that is left.
\<close>

definition settleError :: "'w ComponentReconciler \<Rightarrow> bool \<Rightarrow> int \<Rightarrow> goerr \<Rightarrow> ('w, int \<times> goerr option) ccomp" where
  "settleError r haveTimeout retryInterval err =
     bind (gets comp) (\<lambda>component.
     case asRetriableError err of
       Some (inner, after) \<Rightarrow>
         (let d = (case after of None \<Rightarrow> retryInterval | Some d \<Rightarrow> if d = 0 then retryInterval else d);
              msg = capitalize r (ErrorText (CrClient r) inner)
          in seq (if DeletionTimestamp component = None then
                    (if haveTimeout then setState StatePending ''Timeout'' msg else setState StatePending ''Retrying'' msg)
                  else setState StateDeletionPending ''DeletionRetrying'' msg)
               (ret (d, None)))
     | None \<Rightarrow>
         (let msg = capitalize r (ErrorText (CrClient r) err)
          in seq (if DeletionTimestamp component = None \<and> haveTimeout then setState StateError ''Timeout'' msg
                  else setState StateError ''Error'' msg)
               (ret (0, Some err))))"

definition reportMetrics :: "'w ComponentReconciler \<Rightarrow> goerr option \<Rightarrow> ('w, unit) ccomp" where
  "reportMetrics r err =
     seq (case err of Some e \<Rightarrow> cemit (CReconcileErrors (StatusCode (CrClient r) e)) | None \<Rightarrow> ret ())
     (bind (gets comp) (\<lambda>component.
      let (state, _, _) = GetState (CompStatus component); items = StatusInventory (CompStatus component)
      in if DeletionTimestamp component = None \<or> finalizerOf r \<in> set (Finalizers component) then
           cemit (CSetMetrics (map (\<lambda>st. (st, state = st))
               [StateReady, StatePending, StateProcessing, StateDeletionPending, StateDeleting, StateError]) (length items)
             (length (filter (\<lambda>item. ItemPhase item \<noteq> PhaseReady \<and> ItemPhase item \<noteq> PhaseCompleted) items)))
         else cemit CDeleteMetrics))"

definition recordEvent :: "'w ComponentReconciler \<Rightarrow> ('w, unit) ccomp" where
  "recordEvent r =
     bind (gets comp) (\<lambda>component. bind (gets cdigest) (\<lambda>digest.
     let (state, reason, message) = GetState (CompStatus component);
         annotations = (case EventAnnotationProvider (ComponentImpl component) of
           Some f \<Rightarrow> Some (map_of (f digest)) | None \<Rightarrow> None);
         e = \<lparr>EventAnnotations = annotations, EventType = (if state = StateError then ''Warning'' else ''Normal''),
              EventReason = reason, EventMessage = message\<rparr>
     in bind (ccall (ClockNow (CrClient r))) (\<lambda>t.
        seq (cemit (CRecord e))
          (modify (\<lambda>s. s\<lparr>crecorder := AnnotatedEventf (CrEventDigest r) (5 * Minute) (Uid component, e, t) (crecorder s)\<rparr>)))))"

definition transition :: "ComponentStatus \<Rightarrow> int \<Rightarrow> Condition \<Rightarrow> Condition" where
  "transition savedStatus now cond = (case getCondition savedStatus (CondType cond) of
     None \<Rightarrow> cond\<lparr>LastTransitionTime := Some now\<rparr>
   | Some savedCond \<Rightarrow> if CondStatus cond \<noteq> CondStatus savedCond then cond\<lparr>LastTransitionTime := Some now\<rparr> else cond)"

definition updateStatus :: "'w ComponentReconciler \<Rightarrow> int \<Rightarrow> ComponentStatus \<Rightarrow> int \<times> goerr option \<Rightarrow> ('w, int) ccomp" where
  "updateStatus r now savedStatus = (\<lambda>(n, err).
     seq (upd_status (\<lambda>st. st\<lparr>LastObservedAt := Some now, Conditions := map (transition savedStatus now) (Conditions st)\<rparr>))
     (bind (gets comp) (\<lambda>component.
      bind (ccall (UpdateComponentStatus (CrClient r) component (fieldOwnerOf r))) (\<lambda>updateErr.
      seq (cemit (CStatusUpdate component updateErr))
      (case updateErr of
         Some e \<Rightarrow> fail (JoinError ((case err of Some e' \<Rightarrow> [e'] | None \<Rightarrow> []) @ [e]))
       | None \<Rightarrow> (case err of Some e \<Rightarrow> fail e | None \<Rightarrow> ret n))))))"

text \<open>
  The deferred function, for a body that did not panic: \<open>res\<close> is the delay and the flag
  \<open>skipStatusUpdate\<close>, or the error.
\<close>

definition finishReconcile :: "'w ComponentReconciler \<Rightarrow> request \<Rightarrow> int \<Rightarrow> int \<Rightarrow> int \<Rightarrow> ComponentStatus \<Rightarrow>
    goerr + int \<times> bool \<Rightarrow> ('w, int) ccomp" where
  "finishReconcile r req now retryInterval timeout savedStatus res =
     seq (upd_comp (\<lambda>c. c\<lparr>CompStatus := (CompStatus c)\<lparr>ObservedGeneration := Generation c\<rparr>\<rparr>))
     (bind (gets comp) (\<lambda>component.
      let haveTimeout = timedOut now timeout (CompStatus component) in
      seq (if CompState (CompStatus component) = StateReady \<or> (case res of Inl _ \<Rightarrow> True | Inr _ \<Rightarrow> False)
           then backoffForget r req else ret ())
      (bind (case res of
           Inr (n, skip) \<Rightarrow>
             (if DeletionTimestamp component = None then bind (settleState haveTimeout n) (\<lambda>n. ret (n, None)) else ret (n, None))
         | Inl err \<Rightarrow> settleError r haveTimeout retryInterval err) (\<lambda>(n, err).
       bind (if 0 < n then addJitter r n 1 5 else ret n) (\<lambda>n.
       seq (reportMetrics r err)
       (seq (recordEvent r)
       (case res of
          Inr (_, True) \<Rightarrow> (case err of Some e \<Rightarrow> fail e | None \<Rightarrow> ret n)
        | _ \<Rightarrow> updateStatus r now savedStatus (n, err))))))))"

section \<open>Reconcile\<close>

definition loadComponent :: "'w ComponentReconciler \<Rightarrow> Component \<Rightarrow> ('w, unit) ccomp" where
  "loadComponent r component = modify (\<lambda>s.
     s\<lparr>comp := component\<lparr>Group := Group (CrGroupVersionKind r), Version := Version (CrGroupVersionKind r), Kind := Kind (CrGroupVersionKind r)\<rparr>,
       crefs := (\<lambda>_. None), cdigest := ''''\<rparr>)"

definition Reconcile :: "platform \<Rightarrow> 'w ComponentReconciler \<Rightarrow> request \<Rightarrow> ('w, int) ccomp" where
  "Reconcile P r req =
     (if \<not> setupComplete r then panic ''usage error: setup must be called first''
      else seq (cemit CReconciles)
        (bind (ccall (ClockNow (CrClient r))) (\<lambda>now.
         bind (ccall (GetComponent (CrClient r) req)) (\<lambda>res. case res of
           Inl err \<Rightarrow>
             seq (cemit (CGet req (Inl err)))
               (if IsNotFound err then ret 0 else fail (Wrapf err ''unexpected get error'' []))
         | Inr component \<Rightarrow>
             seq (cemit (CGet req (Inr component)))
             (seq (loadComponent r component)
             (bind (try_comp (reconcileBody P r req now (requeueIntervalOf component) (CompStatus component)))
                (finishReconcile r req now (retryIntervalOf component) (timeoutOf component) (CompStatus component))))))))"

end
