(* ===== verification/Clm_Command.thy ===== *)
theory Clm_Command
  imports Clm_Release Component_Reconcile
begin

text \<open>
  The client of \<open>clm/internal/release/client.go\<close> and the commands of the command line tool
  that change something: \<open>clm apply\<close> (\<open>clm/cmd/apply.go\<close>) and \<open>clm delete\<close>
  (\<open>clm/cmd/delete.go\<close>), with the backoff of \<open>clm/internal/backoff/backoff.go\<close>. They run the
  reconciler of \<open>pkg/reconciler\<close> on the inventory of a release again and again, and store
  the release in between.
\<close>

section \<open>State\<close>

text \<open>
  The API calls on config maps; create and update decode the server's answer into the object
  they are given, which is their second result. \<open>ClmStartTimer\<close> is \<open>time.After\<close> for the timeout
  of a command and \<open>ClmTimedOut d\<close> the \<open>select\<close>: it waits for \<open>d\<close> nanoseconds, or until the
  timer has fired.
\<close>

record 'w clm_client =
  CmGet :: "string \<Rightarrow> string \<Rightarrow> 'w \<Rightarrow> (goerr + ConfigMap) \<times> 'w"
  CmList :: "string \<Rightarrow> string \<Rightarrow> 'w \<Rightarrow> (goerr + ConfigMap list) \<times> 'w"
  CmCreate :: "ConfigMap \<Rightarrow> 'w \<Rightarrow> (goerr option \<times> ConfigMap) \<times> 'w"
  CmUpdate :: "ConfigMap \<Rightarrow> 'w \<Rightarrow> (goerr option \<times> ConfigMap) \<times> 'w"
  CmDelete :: "ConfigMap \<Rightarrow> string \<Rightarrow> 'w \<Rightarrow> goerr option \<times> 'w"
  ClmNow :: "'w \<Rightarrow> int \<times> 'w"
  ClmStartTimer :: "int \<Rightarrow> 'w \<Rightarrow> 'w"
  ClmTimedOut :: "int \<Rightarrow> 'w \<Rightarrow> bool \<times> 'w"

datatype clm_event =
    ClmTarget event
  | ClmGetRelease "goerr + ConfigMap"
  | ClmListReleases
  | ClmCreateRelease ConfigMap "goerr option"
  | ClmUpdateRelease ConfigMap "goerr option"
  | ClmDeleteRelease ConfigMap "goerr option"
  | ClmCreateNamespace string "goerr option"
  | ClmAttempt "goerr + bool"
  | ClmRetry nat
  | ClmWait int

text \<open>\<open>theRelease\<close> is the variable \<open>release\<close> of a command, which its deferred function reads.\<close>

record 'w clm_state =
  clmWorld :: 'w
  clmTrace :: "clm_event list"
  theRelease :: Release

type_synonym ('w, 'a) clm = "('w clm_state, goerr, 'a) comp"

definition clmEmit :: "clm_event \<Rightarrow> ('w, unit) clm" where
  "clmEmit e = modify (\<lambda>s. s\<lparr>clmTrace := clmTrace s @ [e]\<rparr>)"

definition clmCall :: "('w \<Rightarrow> 'x \<times> 'w) \<Rightarrow> ('w, 'x) clm" where
  "clmCall oper = (\<lambda>s. let (x, w) = oper (clmWorld s) in (Ok x, s\<lparr>clmWorld := w\<rparr>))"

definition updRelease :: "(Release \<Rightarrow> Release) \<Rightarrow> ('w, unit) clm" where
  "updRelease f = modify (\<lambda>s. s\<lparr>theRelease := f (theRelease s)\<rparr>)"

text \<open>A call of the reconciler with \<open>&release.Inventory\<close>.\<close>

definition onInventory :: "('w, 'a) rcomp \<Rightarrow> ('w, 'a) clm" where
  "onInventory m = (\<lambda>s. let (res, t) = m \<lparr>world = clmWorld s, trace = [], inventory = RelInventory (theRelease s)\<rparr>
     in (res, s\<lparr>clmWorld := world t, clmTrace := clmTrace s @ map ClmTarget (trace t),
           theRelease := (theRelease s)\<lparr>RelInventory := inventory t\<rparr>\<rparr>))"

section \<open>The release client\<close>

record 'w ReleaseClient =
  RcName :: string
  RcFinalizer :: string
  RcClient :: "'w clm_client"
  RcLib :: release_lib
  RcPlatform :: platform
  RcReverse :: "string list \<Rightarrow> string list"

abbreviation "labelKeyRelease \<equiv> ''release.clm.cs.sap.com''"

definition NewReleaseClient :: "string \<Rightarrow> 'w clm_client \<Rightarrow> release_lib \<Rightarrow> platform \<Rightarrow> (string list \<Rightarrow> string list) \<Rightarrow>
    'w ReleaseClient" where
  "NewReleaseClient name clnt L P reverse = \<lparr>RcName = name, RcFinalizer = name @ ''/finalizer'', RcClient = clnt, RcLib = L,
     RcPlatform = P, RcReverse = reverse\<rparr>"

definition releaseGet :: "'w ReleaseClient \<Rightarrow> string \<Rightarrow> string \<Rightarrow> ('w, Release) clm" where
  "releaseGet c namespace name =
     bind (clmCall (CmGet (RcClient c) namespace (configMapName (RcReverse c) (RcName c) name))) (\<lambda>res.
     seq (clmEmit (ClmGetRelease res))
     (bind (lift_sum res) (\<lambda>cm.
      lift_sum (importData (RcLib c) (newReleaseFor namespace name cm)))))"

fun releasesOf :: "release_lib \<Rightarrow> ConfigMap list \<Rightarrow> goerr + Release list" where
  "releasesOf L [] = Inr []"
| "releasesOf L (cm # cms) =
     (case importData L (newReleaseFor (CmNamespace cm) (releaseNameOf (CmName cm)) cm) of
        Inl err \<Rightarrow> Inl err
      | Inr r \<Rightarrow> (case releasesOf L cms of Inl err \<Rightarrow> Inl err | Inr rs \<Rightarrow> Inr (r # rs)))"

definition releaseList :: "'w ReleaseClient \<Rightarrow> string \<Rightarrow> ('w, Release list) clm" where
  "releaseList c namespace =
     bind (clmCall (CmList (RcClient c) namespace labelKeyRelease)) (\<lambda>res.
     seq (clmEmit ClmListReleases)
     (bind (lift_sum res) (\<lambda>cms. lift_sum (releasesOf (RcLib c) cms))))"

definition releaseCreate :: "'w ReleaseClient \<Rightarrow> string \<Rightarrow> string \<Rightarrow> ('w, Release) clm" where
  "releaseCreate c namespace name =
     bind (clmCall (ClmNow (RcClient c))) (\<lambda>now.
     let cm = emptyConfigMap\<lparr>CmNamespace := namespace, CmName := configMapName (RcReverse c) (RcName c) name,
                CmLabels := [(labelKeyRelease, name)], CmFinalizers := [RcFinalizer c]\<rparr>;
         (err, r) = exportData (RcLib c) ((newReleaseFor namespace name cm)\<lparr>creationTimestamp := Some now, updateTimestamp := Some now\<rparr>)
     in seq (of_option err)
     (bind (clmCall (CmCreate (RcClient c) (configMap r))) (\<lambda>(err, cm').
      seq (clmEmit (ClmCreateRelease (configMap r) err))
      (seq (of_option err)
       (ret (r\<lparr>configMap := cm'\<rparr>))))))"

text \<open>\<open>Update\<close> changes the release it is given, also when it fails.\<close>

definition emptyMeta :: "string \<Rightarrow> Release \<Rightarrow> goerr" where
  "emptyMeta what r = Errorf (''error '' @ what @ '' release %s/%s: empty uid or resource version'') [AStr (RelNamespace r), AStr (RelName r)]"

definition dropFinalizer :: "'w ReleaseClient \<Rightarrow> Release \<Rightarrow> Release" where
  "dropFinalizer c r = (if IsDeleting r \<and> RelInventory r = []
     then r\<lparr>configMap := (configMap r)\<lparr>CmFinalizers := fst (RemoveFinalizerFrom (RcPlatform c) (CmFinalizers (configMap r)) (RcFinalizer c))\<rparr>\<rparr>
     else r)"

definition releaseUpdate :: "'w ReleaseClient \<Rightarrow> ('w, unit) clm" where
  "releaseUpdate c =
     bind (gets theRelease) (\<lambda>r.
     if CmUID (configMap r) = '''' \<or> CmResourceVersion (configMap r) = '''' then fail (emptyMeta ''updating'' r)
     else
     seq (updRelease (dropFinalizer c))
     (bind (clmCall (ClmNow (RcClient c))) (\<lambda>now.
      seq (updRelease (\<lambda>r. r\<lparr>updateTimestamp := Some now\<rparr>))
     (bind (gets theRelease) (\<lambda>r.
      let (err, r) = exportData (RcLib c) r
      in seq (updRelease (\<lambda>_. r))
     (seq (of_option err)
     (bind (clmCall (CmUpdate (RcClient c) (configMap r))) (\<lambda>(err, cm).
      seq (clmEmit (ClmUpdateRelease (configMap r) err))
     (seq (updRelease (\<lambda>r. r\<lparr>configMap := cm\<rparr>))
      (of_option err)))))))))) "

definition releaseDelete :: "'w ReleaseClient \<Rightarrow> ('w, unit) clm" where
  "releaseDelete c =
     bind (gets theRelease) (\<lambda>r.
     if CmUID (configMap r) = '''' \<or> CmResourceVersion (configMap r) = '''' then fail (emptyMeta ''deleting'' r)
     else
     bind (clmCall (CmDelete (RcClient c) (configMap r) (CmResourceVersion (configMap r)))) (\<lambda>err.
     seq (clmEmit (ClmDeleteRelease (configMap r) err))
      (of_option err)))"

section \<open>Retries\<close>

definition minBackoff :: int where
  "minBackoff = Millisecond"

definition maxBackoff :: int where
  "maxBackoff = 10 * Second"

definition nextDuration :: "int \<Rightarrow> int" where
  "nextDuration d = (let d = (if d < minBackoff then minBackoff else d * 2) in if maxBackoff < d then maxBackoff else d)"

definition isEphmeralError :: "goerr \<Rightarrow> bool" where
  "isEphmeralError err \<longleftrightarrow> IsConflict err"

definition maxErrCount :: nat where
  "maxErrCount = 15"

text \<open>
  The body of the loops of both commands: \<open>state\<close> is the state of the release while the
  command works, \<open>oper\<close> the call of the reconciler, and \<open>finished\<close> what is done when it returns
  true. The loop's variables are \<open>errCount\<close> and the duration of the backoff.
\<close>

definition attempt :: "'w ReleaseClient \<Rightarrow> State \<Rightarrow> ('w, bool) rcomp \<Rightarrow> ('w, unit) clm \<Rightarrow> nat \<Rightarrow> ('w, (nat, unit) ctl) clm" where
  "attempt c state oper finished errCount =
     seq (updRelease (\<lambda>r. r\<lparr>RelState := state\<rparr>))
     (bind (try_comp (onInventory oper)) (\<lambda>res.
     seq (clmEmit (ClmAttempt res))
     (case res of
        Inl err \<Rightarrow>
          if \<not> isEphmeralError err \<or> maxErrCount \<le> errCount then fail err
          else seq (clmEmit (ClmRetry (Suc errCount))) (ret (Next (Suc errCount)))
      | Inr ok \<Rightarrow>
          if ok then seq finished (ret (Break 0))
          else seq (releaseUpdate c) (ret (Next 0)))))"

definition timeoutError :: "string \<Rightarrow> Release \<Rightarrow> goerr" where
  "timeoutError what r = Errorf (''timeout '' @ what @ '' release %s/%s'') [AStr (RelNamespace r), AStr (RelName r)]"

text \<open>Without a timeout the channel is nil and never selected.\<close>

definition pause :: "'w ReleaseClient \<Rightarrow> int \<Rightarrow> string \<Rightarrow> int \<Rightarrow> ('w, unit) clm" where
  "pause c timeout what d =
     seq (clmEmit (ClmWait d))
     (bind (clmCall (ClmTimedOut (RcClient c) d)) (\<lambda>fired.
      if 0 < timeout \<and> fired then bind (gets theRelease) (\<lambda>r. fail (timeoutError what r)) else ret ()))"

definition retryRound :: "'w ReleaseClient \<Rightarrow> State \<Rightarrow> ('w, bool) rcomp \<Rightarrow> ('w, unit) clm \<Rightarrow> int \<Rightarrow> string \<Rightarrow> nat \<times> int \<Rightarrow>
    ('w, (nat \<times> int, unit) ctl) clm" where
  "retryRound c state oper finished timeout what = (\<lambda>(errCount, d).
     bind (attempt c state oper finished errCount) (\<lambda>x. case x of
       Next errCount' \<Rightarrow> seq (pause c timeout what (nextDuration d)) (ret (Next (errCount', nextDuration d)))
     | Break _ \<Rightarrow> ret (Break (0, d))
     | Return u \<Rightarrow> ret (Return u)))"

text \<open>
  The loop may go on forever, so it is given a number of rounds; the result is \<open>None\<close> if it
  is still running after them.
\<close>

fun retryLoop :: "nat \<Rightarrow> ('c \<Rightarrow> ('w, ('c, unit) ctl) clm) \<Rightarrow> 'c \<Rightarrow> 'w clm_state \<Rightarrow>
    (goerr, unit) outcome option \<times> 'w clm_state" where
  "retryLoop 0 round c s = (None, s)"
| "retryLoop (Suc n) round c s = (case round c s of
     (Ok (Next c'), t) \<Rightarrow> retryLoop n round c' t
   | (Ok _, t) \<Rightarrow> (Some (Ok ()), t)
   | (Err err, t) \<Rightarrow> (Some (Err err), t)
   | (Panic p, t) \<Rightarrow> (Some (Panic p), t))"

text \<open>The deferred function of both commands; while a panic unwinds, \<open>err\<close> is nil.\<close>

definition deferUpdate :: "'w ReleaseClient \<Rightarrow> (goerr, unit) outcome option \<times> 'w clm_state \<Rightarrow>
    (goerr, unit) outcome option \<times> 'w clm_state" where
  "deferUpdate c = (\<lambda>(res, s). case res of
     None \<Rightarrow> (None, s)
   | Some x \<Rightarrow>
       let s = (case x of Err _ \<Rightarrow> s\<lparr>theRelease := (theRelease s)\<lparr>RelState := StateError\<rparr>\<rparr> | _ \<Rightarrow> s) in
       case releaseUpdate c s of
         (Ok _, t) \<Rightarrow> (Some x, t)
       | (Err updateErr, t) \<Rightarrow> (Some (case x of
             Ok _ \<Rightarrow> Err (JoinError [updateErr]) | Err err \<Rightarrow> Err (JoinError [err, updateErr]) | Panic p \<Rightarrow> Panic p), t)
       | (Panic p, t) \<Rightarrow> (Some (Panic p), t))"

definition startTimer :: "'w ReleaseClient \<Rightarrow> int \<Rightarrow> ('w, unit) clm" where
  "startTimer c timeout = (if 0 < timeout then clmCall (\<lambda>w. ((), ClmStartTimer (RcClient c) timeout w)) else ret ())"

text \<open>What follows the preparations of a command, which return what its loop works with.\<close>

definition runCommand :: "'w ReleaseClient \<Rightarrow> ('w, 'x) clm \<Rightarrow> int \<Rightarrow> ('x \<Rightarrow> 'w clm_state \<Rightarrow> (goerr, unit) outcome option \<times> 'w clm_state) \<Rightarrow>
    'w clm_state \<Rightarrow> (goerr, unit) outcome option \<times> 'w clm_state" where
  "runCommand c prepare timeout loop s = (case bind prepare (\<lambda>x. seq (startTimer c timeout) (ret x)) s of
     (Ok x, t) \<Rightarrow> deferUpdate c (loop x t)
   | (Err err, t) \<Rightarrow> (Some (Err err), t)
   | (Panic p, t) \<Rightarrow> (Some (Panic p), t))"

section \<open>The commands\<close>

definition fullName :: string where
  "fullName = ''clm.cs.sap.com''"

text \<open>
  The cluster client, which \<open>getClient\<close> makes from the kubeconfig, the client of config maps
  it serves as, the status analyzer, and what the reconciler records as metrics.
\<close>

definition clmReconciler :: "(string \<Rightarrow> Object \<Rightarrow> goerr + Status) \<Rightarrow> 'w client \<Rightarrow> 'w Reconciler" where
  "clmReconciler newStatusAnalyzer clnt = NewReconciler newStatusAnalyzer fullName clnt
     \<lparr>OptFieldOwner = None, OptFinalizer = None, OptAdoptionPolicy = None, OptUpdatePolicy = Some UpdatePolicySsaOverride,
      OptDeletePolicy = None, OptMissingNamespacesPolicy = None, OptAdditionalManagedTypes = [], OptReapplyInterval = None,
      OptStatusAnalyzer = None, OptMetrics = (\<lambda>_. False), OptEnableEvents = None\<rparr>"

definition ownerIdOf :: "string \<Rightarrow> string \<Rightarrow> string" where
  "ownerIdOf namespace name = fullName @ ''/'' @ namespace @ ''/'' @ name"

definition ensureNamespace :: "'w client \<Rightarrow> bool \<Rightarrow> string \<Rightarrow> ('w, unit) clm" where
  "ensureNamespace clnt createNamespace namespace =
     (let key = ObjectKeyOf (namespaceObject namespace) in
     bind (clmCall (Get clnt key)) (\<lambda>res.
     seq (clmEmit (ClmTarget (EGet key res)))
     (case res of
        Inr _ \<Rightarrow> ret ()
      | Inl err \<Rightarrow>
          if IsNotFound err \<and> createNamespace then
            bind (clmCall (Create clnt (namespaceObject namespace) '''')) (\<lambda>err.
            seq (clmEmit (ClmCreateNamespace namespace err))
             (of_option err))
          else fail err)))"

definition getOrCreate :: "'w ReleaseClient \<Rightarrow> string \<Rightarrow> string \<Rightarrow> ('w, Release) clm" where
  "getOrCreate c namespace name =
     bind (try_comp (releaseGet c namespace name)) (\<lambda>res. case res of
       Inr r \<Rightarrow> ret r
     | Inl err \<Rightarrow> if IsNotFound err then releaseCreate c namespace name else fail err)"

text \<open>\<open>generator\<close> is \<open>manifests.Generate\<close> of \<open>clm/internal/manifests\<close> on the sources given.\<close>

definition prepareApply :: "'w ReleaseClient \<Rightarrow> 'w client \<Rightarrow> bool \<Rightarrow> (Release \<Rightarrow> 'w \<Rightarrow> (goerr, Object list) outcome \<times> 'w) \<Rightarrow>
    string \<Rightarrow> string \<Rightarrow> ('w, Object list) clm" where
  "prepareApply c clnt createNamespace generator namespace name =
     seq (ensureNamespace clnt createNamespace namespace)
     (bind (getOrCreate c namespace name) (\<lambda>r.
      seq (updRelease (\<lambda>_. r))
     (if IsDeleting r then
        fail (Errorf ''release %s/%s is being deleted; updates are not allowed in this state'' [AStr (RelNamespace r), AStr (RelName r)])
      else
      seq (updRelease (\<lambda>r. r\<lparr>RelRevision := wrap64 (RelRevision r + 1)\<rparr>))
     (bind (gets theRelease) (\<lambda>r.
      bind (clmCall (generator r)) (\<lambda>res. case res of
        Ok objects \<Rightarrow> ret objects | Err err \<Rightarrow> fail err | Panic p \<Rightarrow> panic p))))))"

definition applyRound :: "platform \<Rightarrow> 'w ReleaseClient \<Rightarrow> 'w Reconciler \<Rightarrow> int \<Rightarrow> string \<Rightarrow> string \<Rightarrow> Object list \<Rightarrow> nat \<times> int \<Rightarrow>
    ('w, (nat \<times> int, unit) ctl) clm" where
  "applyRound P c r timeout namespace name objects = (\<lambda>loopvars.
     bind (gets theRelease) (\<lambda>rel.
      retryRound c StateProcessing (Apply P r objects namespace (ownerIdOf namespace name) (GetDigest P rel))
        (updRelease (\<lambda>r. r\<lparr>RelState := StateReady\<rparr>)) timeout ''applying'' loopvars))"

definition applyCommand :: "platform \<Rightarrow> 'w ReleaseClient \<Rightarrow> 'w Reconciler \<Rightarrow> bool \<Rightarrow> int \<Rightarrow>
    (Release \<Rightarrow> 'w \<Rightarrow> (goerr, Object list) outcome \<times> 'w) \<Rightarrow> string \<Rightarrow> string \<Rightarrow> nat \<Rightarrow> 'w clm_state \<Rightarrow>
    (goerr, unit) outcome option \<times> 'w clm_state" where
  "applyCommand P c r createNamespace timeout generator namespace name rounds =
     runCommand c (prepareApply c (client r) createNamespace generator namespace name) timeout
       (\<lambda>objects. retryLoop rounds (applyRound P c r timeout namespace name objects) (0, 0))"

definition prepareDelete :: "platform \<Rightarrow> 'w ReleaseClient \<Rightarrow> 'w Reconciler \<Rightarrow> string \<Rightarrow> string \<Rightarrow> ('w, unit) clm" where
  "prepareDelete P c r namespace name =
     bind (releaseGet c namespace name) (\<lambda>rel.
     seq (updRelease (\<lambda>_. rel))
     (bind (onInventory (IsDeletionAllowed P r (ownerIdOf namespace name))) (\<lambda>(ok, msg).
      if \<not> ok then fail (Errorf ''%s'' [AStr msg])
      else
      seq (releaseDelete c)
     (bind (releaseGet c namespace name) (\<lambda>rel.
      updRelease (\<lambda>_. rel))))))"

definition deleteRound :: "platform \<Rightarrow> 'w ReleaseClient \<Rightarrow> 'w Reconciler \<Rightarrow> int \<Rightarrow> string \<Rightarrow> string \<Rightarrow> nat \<times> int \<Rightarrow>
    ('w, (nat \<times> int, unit) ctl) clm" where
  "deleteRound P c r timeout namespace name =
     retryRound c StateDeleting (DeleteAll P r (ownerIdOf namespace name)) (ret ()) timeout ''deleting''"

definition deleteCommand :: "platform \<Rightarrow> 'w ReleaseClient \<Rightarrow> 'w Reconciler \<Rightarrow> int \<Rightarrow> string \<Rightarrow> string \<Rightarrow> nat \<Rightarrow> 'w clm_state \<Rightarrow>
    (goerr, unit) outcome option \<times> 'w clm_state" where
  "deleteCommand P c r timeout namespace name rounds =
     runCommand c (prepareDelete P c r namespace name) timeout
       (\<lambda>_. retryLoop rounds (deleteRound P c r timeout namespace name) (0, 0))"

end
