(* ===== verification/Component_Calls.thy ===== *)
theory Component_Calls
  imports Component_Reconcile
begin

text \<open>
  Weakest preconditions for the computations of the component reconciler, the contract of
  hooks, and what each call made by \<open>Reconcile\<close> does to the state of the run: the trace, the
  component, and the digest.
\<close>

section \<open>Weakest preconditions\<close>

definition wp :: "('s, 'e, 'a) comp \<Rightarrow> (('e, 'a) outcome \<Rightarrow> 's \<Rightarrow> bool) \<Rightarrow> 's \<Rightarrow> bool" where
  "wp m Q s \<longleftrightarrow> (case m s of (r, t) \<Rightarrow> Q r t)"

named_theorems wp_simps \<open>weakest preconditions of the ways computations are composed\<close>

lemma wpI: "(\<And>r t. m s = (r, t) \<Longrightarrow> Q r t) \<Longrightarrow> wp m Q s"
  by (simp add: wp_def split: prod.splits)

lemma wpD: "wp m Q s \<Longrightarrow> m s = (r, t) \<Longrightarrow> Q r t"
  by (simp add: wp_def)

lemma wp_conseq: "wp m Q0 s \<Longrightarrow> (\<And>r t. Q0 r t \<Longrightarrow> Q r t) \<Longrightarrow> wp m Q s"
  by (auto simp: wp_def)

lemma wp_conj: "wp m Q s \<Longrightarrow> wp m Q' s \<Longrightarrow> wp m (\<lambda>r t. Q r t \<and> Q' r t) s"
  by (auto simp: wp_def)

lemma wp_basic [wp_simps]:
  "wp (ret x) Q s = Q (Ok x) s"
  "wp (fail e) Q s = Q (Err e) s"
  "wp (panic p) Q s = Q (Panic p) s"
  "wp (gets f) Q s = Q (Ok (f s)) s"
  "wp (modify g) Q' s = Q' (Ok ()) (g s)"
  by (simp_all add: wp_def run_simps)

lemma wp_bind [wp_simps]:
  "wp (bind m f) Q s = wp m (\<lambda>r t. case r of Ok x \<Rightarrow> wp (f x) Q t | Err e \<Rightarrow> Q (Err e) t | Panic p \<Rightarrow> Q (Panic p) t) s"
  by (simp add: wp_def bind_def split: prod.splits outcome.splits)

lemma wp_seq [wp_simps]:
  "wp (seq m n) Q s = wp m (\<lambda>r t. case r of Ok _ \<Rightarrow> wp n Q t | Err e \<Rightarrow> Q (Err e) t | Panic p \<Rightarrow> Q (Panic p) t) s"
  by (simp add: seq_def wp_bind)

lemma wp_map_err [wp_simps]:
  "wp (map_err w m) Q s = wp m (\<lambda>r t. case r of Ok x \<Rightarrow> Q (Ok x) t | Err e \<Rightarrow> Q (Err (w e)) t | Panic p \<Rightarrow> Q (Panic p) t) s"
  by (auto simp: wp_def map_err_def split: prod.splits outcome.splits)

lemma wp_try [wp_simps]:
  "wp (try_comp m) Q s = wp m (\<lambda>r t. case r of Ok x \<Rightarrow> Q (Ok (Inr x)) t | Err e \<Rightarrow> Q (Ok (Inl e)) t | Panic p \<Rightarrow> Q (Panic p) t) s"
  by (auto simp: wp_def try_comp_def split: prod.splits outcome.splits)

lemma wp_if [wp_simps]: "wp (if b then m else n) Q s = (if b then wp m Q s else wp n Q s)"
  by simp

lemma wp_of_option [wp_simps]: "wp (of_option x) Q s = (case x of None \<Rightarrow> Q (Ok ()) s | Some e \<Rightarrow> Q (Err e) s)"
  by (cases x) (simp_all add: wp_simps)

lemma wp_cst [wp_simps]:
  "wp (cemit e) Q s = Q (Ok ()) (s\<lparr>ctrace := ctrace s @ [e]\<rparr>)"
  "wp (ccall oper) Q' s = (case oper (cworld s) of (x, w) \<Rightarrow> Q' (Ok x) (s\<lparr>cworld := w\<rparr>))"
  "wp (upd_comp f) Q s = Q (Ok ()) (s\<lparr>comp := f (comp s)\<rparr>)"
  "wp (upd_status g) Q s = Q (Ok ()) (s\<lparr>comp := (comp s)\<lparr>CompStatus := g (CompStatus (comp s))\<rparr>\<rparr>)"
  "wp (setState st reason msg) Q s = Q (Ok ()) (s\<lparr>comp := (comp s)\<lparr>CompStatus := SetState st reason msg (CompStatus (comp s))\<rparr>\<rparr>)"
  "wp (backoffForget r req) Q s = Q (Ok ())
     (s\<lparr>cbackoff := Forget_backoff (NewDefaultRateLimiter (CrLimiters r) (10 * Second)) req (cbackoff s)\<rparr>)"
  by (simp_all add: wp_def cemit_def ccall_def upd_comp_def upd_status_def setState_def backoffForget_def split: prod.splits)

lemma wp_marked [wp_simps]: "wp (marked ev m) Q s = wp m (\<lambda>r t. Q r (t\<lparr>ctrace := ctrace t @ [ev r]\<rparr>)) s"
  by (simp add: wp_def marked_def split: prod.splits)

section \<open>Hooks\<close>

text \<open>
  What hooks are allowed to do to the component, as a preorder. The documentation of
  \<open>HookFunc\<close> allows them to change the status, but not metadata or spec (\<open>keeps_metadata\<close>).
\<close>

definition hooks_respect :: "(Component \<Rightarrow> Component \<Rightarrow> bool) \<Rightarrow> 'w ComponentReconciler \<Rightarrow> bool" where
  "hooks_respect H r \<longleftrightarrow>
     (\<forall>hook \<in> set (postReadHooks r @ preReconcileHooks r @ postReconcileHooks r @ preDeleteHooks r @ postDeleteHooks r).
        \<forall>ctx e. H (hook_comp e) (hook_comp (snd (hook ctx e))))"

definition keeps_metadata :: "Component \<Rightarrow> Component \<Rightarrow> bool" where
  "keeps_metadata c c' \<longleftrightarrow> (\<exists>st. c' = c\<lparr>CompStatus := st\<rparr>)"

definition hooks_only :: "cevent list \<Rightarrow> bool" where
  "hooks_only es \<longleftrightarrow> list_all (\<lambda>e. case e of CHook _ _ _ \<Rightarrow> True | _ \<Rightarrow> False) es"

abbreviation items_of :: "Component \<Rightarrow> InventoryItem list" where
  "items_of c \<equiv> StatusInventory (CompStatus c)"

text \<open>
  The inventory handed over to the inner reconciler, for a component that was read with the
  given inventory: hooks may change the status, so it is what the last hook before left.
\<close>

fun handedOver :: "InventoryItem list \<Rightarrow> cevent list \<Rightarrow> InventoryItem list" where
  "handedOver items [] = items"
| "handedOver items (e # es) = (case e of
     CHook _ _ c \<Rightarrow> handedOver (items_of c) es
   | CTarget _ \<Rightarrow> items | CApply _ \<Rightarrow> items | CIsDeletionAllowed _ \<Rightarrow> items | CDelete _ \<Rightarrow> items
   | _ \<Rightarrow> handedOver items es)"

lemma handedOver_hooks [simp]: "hooks_only es \<Longrightarrow> handedOver items (es @ es') = handedOver (handedOver items es) es'"
  by (induction es arbitrary: items) (auto simp: hooks_only_def split: cevent.splits)

lemma handedOver_targets [simp]:
  "handedOver items (map CTarget xs @ CApply x # es) = items"
  "handedOver items (map CTarget xs @ CDelete x # es) = items"
  "handedOver items (map CTarget xs @ CIsDeletionAllowed y # es) = items"
  by (cases xs; simp)+

text \<open>The part of the state only the framework has access to.\<close>

definition same_run :: "'w cst \<Rightarrow> 'w cst \<Rightarrow> bool" where
  "same_run s t \<longleftrightarrow> cdigest t = cdigest s \<and> cbackoff t = cbackoff s \<and> crecorder t = crecorder s"

definition hooked :: "(Component \<Rightarrow> Component \<Rightarrow> bool) \<Rightarrow> 'w cst \<Rightarrow> 'w cst \<Rightarrow> bool" where
  "hooked H s t \<longleftrightarrow> H (comp s) (comp t) \<and> same_run s t \<and> (\<exists>es. ctrace t = ctrace s @ es \<and> hooks_only es \<and>
     items_of (comp t) = handedOver (items_of (comp s)) es)"

locale hook_relation =
  fixes H :: "Component \<Rightarrow> Component \<Rightarrow> bool"
  assumes refl: "H c c" and trans: "H c d \<Longrightarrow> H d e \<Longrightarrow> H c e"
begin

lemma runHooks:
  assumes "\<forall>hook \<in> set hooks. \<forall>ctx e. H (hook_comp e) (hook_comp (snd (hook ctx e)))"
  shows "wp (runHooks kind ctx n hooks)
    (\<lambda>r t. hooked H s t) s"
  using assms
proof (induction hooks arbitrary: n s)
  case Nil
  show ?case by (simp add: wp_simps hooked_def same_run_def hooks_only_def refl)
next
  case (Cons hook hooks)
  let ?e = "\<lparr>hook_world = cworld s, hook_comp = comp s, hook_refs = crefs s\<rparr>"
  obtain res e where run: "hook ctx ?e = (res, e)" by force
  have H: "H (comp s) (hook_comp e)"
    using Cons.prems run by (metis (no_types, lifting) hook_env.select_convs(2) list.set_intros(1) snd_conv)
  let ?s = "s\<lparr>cworld := hook_world e, comp := hook_comp e, crefs := hook_refs e, ctrace := ctrace s @ [CHook kind n (hook_comp e)]\<rparr>"
  have step: "hooked H s t" if "hooked H ?s t" for t
    using that H by (auto simp: hooked_def same_run_def hooks_only_def intro: trans)
  have IH: "wp (runHooks kind ctx (Suc n) hooks) (\<lambda>r t. hooked H s t) ?s"
    by (rule wp_conseq [OF Cons.IH [of "Suc n" ?s] step]) (use Cons.prems in simp_all)
  have "hooked H s ?s" by (intro step) (simp add: hooked_def same_run_def hooks_only_def refl)
  moreover have "wp (on_hook kind n (hook ctx)) Q s = Q res ?s" for Q
    using run by (simp add: wp_def on_hook_def)
  ultimately show ?case
    using IH by (cases res) (simp_all add: wp_simps)
qed

text \<open>The five hook lists.\<close>

lemma reconciler_hooks:
  assumes "hooks_respect H r"
    and "hooks \<in> {postReadHooks r, preReconcileHooks r, postReconcileHooks r, preDeleteHooks r, postDeleteHooks r}"
  shows "wp (runHooks kind ctx n hooks)
    (\<lambda>r t. hooked H s t) s"
  using assms by (intro runHooks) (auto simp: hooks_respect_def)

end

interpretation any_hook: hook_relation "\<lambda>_ _. True"
  by unfold_locales simp_all

interpretation documented_hook: hook_relation keeps_metadata
proof
  show "keeps_metadata c c" for c
    unfolding keeps_metadata_def by (rule exI [of _ "CompStatus c"]) simp
  show "keeps_metadata c d \<Longrightarrow> keeps_metadata d e \<Longrightarrow> keeps_metadata c e" for c d e
    by (auto simp: keeps_metadata_def)
qed

section \<open>The other calls\<close>

text \<open>Resolving the references and setting up the target leave the component and the trace alone.\<close>

lemma wp_resolve:
  "wp (resolve P r) (\<lambda>res t. comp t = comp s \<and> ctrace t = ctrace s \<and> cbackoff t = cbackoff s \<and> crecorder t = crecorder s \<and>
     (\<forall>d. res = Ok d \<longrightarrow> cdigest t = d)) s"
  by (auto simp: wp_def resolve_def Let_def split: prod.splits outcome.splits)

lemma wp_getLocalClient:
  "wp (getLocalClientForComponent r) (\<lambda>res t. \<exists>w. t = s\<lparr>cworld := w\<rparr>) s"
  by (auto simp: getLocalClientForComponent_def wp_simps Let_def split: prod.splits sum.splits)

text \<open>A client obtained from the client factory.\<close>

definition serves :: "'w ComponentReconciler \<Rightarrow> 'w client \<Rightarrow> bool" where
  "serves r clnt \<longleftrightarrow> (\<exists>kubeConfig user groups w. fst (CrClients r kubeConfig user groups w) = Inr clnt)"

lemma servesI: "CrClients r kubeConfig user groups w = (Inr clnt, w') \<Longrightarrow> serves r clnt"
  unfolding serves_def by (metis fst_conv)

lemma wp_getClient:
  "wp (getClientForComponent r) (\<lambda>res t. (\<exists>w. t = s\<lparr>cworld := w\<rparr>) \<and> (\<forall>clnt. res = Ok clnt \<longrightarrow> serves r clnt)) s"
  by (auto simp: getClientForComponent_def wp_simps Let_def split: prod.splits sum.splits intro: servesI)

definition target_of :: "platform \<Rightarrow> 'w ComponentReconciler \<Rightarrow> Component \<Rightarrow> 'w reconcileTarget \<Rightarrow> bool" where
  "target_of P r component t \<longleftrightarrow> (\<exists>localClient clnt. serves r clnt \<and> t = newReconcileTarget P (CrStatusLib r) (CrName r) (CrId r) localClient clnt
     (CrGenerator r) (getOptionsForComponent P r component))"

lemma target_ofI: "serves r clnt \<Longrightarrow> target_of P r component (newReconcileTarget P (CrStatusLib r) (CrName r) (CrId r) localClient clnt
    (CrGenerator r) (getOptionsForComponent P r component))"
  unfolding target_of_def by blast

lemma wp_setupTarget:
  "wp (setupTarget P r) (\<lambda>res t. (\<exists>w. t = s\<lparr>cworld := w\<rparr>) \<and> (\<forall>tg. res = Ok tg \<longrightarrow> target_of P r (comp s) tg)) s"
proof -
  have client: "wp (getClientForComponent r) (\<lambda>res t. (\<exists>w. t = s\<lparr>cworld := w\<rparr>) \<and> (\<forall>clnt. res = Ok clnt \<longrightarrow> serves r clnt)) (s\<lparr>cworld := w\<rparr>)" for w
    by (rule wp_conseq [OF wp_getClient]) auto
  show ?thesis
    unfolding setupTarget_def wp_simps
    by (rule wp_conseq [OF wp_getLocalClient])
      (auto split: outcome.splits intro!: wp_conseq [OF client] target_ofI)
qed

text \<open>A call of the target changes the inventory of the status and nothing else of the component.\<close>

definition target_only :: "cevent list \<Rightarrow> bool" where
  "target_only es \<longleftrightarrow> list_all (\<lambda>e. case e of CTarget _ \<Rightarrow> True | CGenerate _ _ \<Rightarrow> True | _ \<Rightarrow> False) es"

definition set_inventory :: "InventoryItem list \<Rightarrow> Component \<Rightarrow> Component" where
  "set_inventory items c = c\<lparr>CompStatus := (CompStatus c)\<lparr>StatusInventory := items\<rparr>\<rparr>"

definition inventory_run :: "'w cst \<Rightarrow> cevent list \<Rightarrow> InventoryItem list \<Rightarrow> 'w cst \<Rightarrow> bool" where
  "inventory_run s es items t \<longleftrightarrow> same_run s t \<and> ctrace t = ctrace s @ es \<and> comp t = set_inventory items (comp s)"

lemma set_inventory_same: "set_inventory (StatusInventory (CompStatus c)) c = c"
  by (simp add: set_inventory_def)

lemma inventory_run_emit: "inventory_run s es items t \<Longrightarrow> inventory_run s (es @ [e]) items (t\<lparr>ctrace := ctrace t @ [e]\<rparr>)"
  by (simp add: inventory_run_def same_run_def)

lemma wp_on_inventory:
  "wp (on_inventory m) (\<lambda>res t. \<exists>u. m (inner_state s) = (res, u) \<and> inventory_run s (map CTarget (trace u)) (inventory u) t) s"
proof (rule wpI)
  fix res t
  assume "on_inventory m s = (res, t)"
  moreover obtain res' u where m: "m (inner_state s) = (res', u)" by force
  ultimately have "res' = res" "inventory_run s (map CTarget (trace u)) (inventory u) t"
    by (simp_all add: on_inventory_def inventory_run_def same_run_def set_inventory_def) auto
  with m show "\<exists>u. m (inner_state s) = (res, u) \<and> inventory_run s (map CTarget (trace u)) (inventory u) t" by blast
qed

lemma wp_generate:
  "wp (generate tg digest) (\<lambda>res t. \<exists>w. t = s\<lparr>ctrace := ctrace s @
     [CGenerate (deploymentNamespace (comp s)) (deploymentName (comp s))], cworld := w\<rparr>) s"
  unfolding generate_def Let_def wp_simps outcome.case by (auto simp: wp_def split: prod.splits outcome.splits)

lemma wp_target_IsDeletionAllowed:
  "wp (target_IsDeletionAllowed P tg) (\<lambda>res t. \<exists>u.
     IsDeletionAllowed P (TargetReconciler tg) (targetOwnerId tg (comp s)) (inner_state s) = (res, u) \<and>
     inventory_run s (map CTarget (trace u) @ [CIsDeletionAllowed res]) (inventory u) t) s"
  unfolding target_IsDeletionAllowed_def wp_simps outcome.case
  by (rule wp_conseq [OF wp_on_inventory]) (use inventory_run_emit in blast)

lemma wp_target_Delete:
  "wp (target_Delete P tg) (\<lambda>res t. \<exists>u.
     DeleteAll P (TargetReconciler tg) (targetOwnerId tg (comp s)) (inner_state s) = (res, u) \<and>
     inventory_run s (map CTarget (trace u) @ [CDelete res]) (inventory u) t) s"
  unfolding target_Delete_def wp_simps outcome.case
  by (rule wp_conseq [OF wp_on_inventory]) (use inventory_run_emit in blast)

text \<open>Apply may end before the inner reconciler is called; then the inventory is as it was.\<close>

definition apply_run :: "platform \<Rightarrow> 'w reconcileTarget \<Rightarrow> string \<Rightarrow> 'w cst \<Rightarrow> cevent list \<Rightarrow> (goerr, bool) outcome \<Rightarrow>
    InventoryItem list \<Rightarrow> bool" where
  "apply_run P tg digest s es res items \<longleftrightarrow>
     (\<exists>ns name objects w u. Apply P (TargetReconciler tg) objects (deploymentNamespace (comp s)) (targetOwnerId tg (comp s)) digest
        ((inner_state s)\<lparr>world := w\<rparr>) = (res, u) \<and> es = CGenerate ns name # map CTarget (trace u) \<and> items = inventory u)"

lemma apply_runI:
  "Apply P (TargetReconciler tg) objects (deploymentNamespace (comp s)) (targetOwnerId tg (comp s)) digest ((inner_state s)\<lparr>world := w\<rparr>) = (res, u) \<Longrightarrow>
   apply_run P tg digest s (CGenerate ns name # map CTarget (trace u)) res (inventory u)"
  unfolding apply_run_def by (intro exI conjI) (assumption, rule HOL.refl, rule HOL.refl)

lemma wp_target_Apply:
  "wp (target_Apply P tg digest) (\<lambda>res t. \<exists>es items. inventory_run s (es @ [CApply res]) items t \<and>
     ((es = [] \<or> (\<exists>ns name. es = [CGenerate ns name])) \<and> items = StatusInventory (CompStatus (comp s)) \<and> (\<forall>b. res \<noteq> Ok b) \<or>
      apply_run P tg digest s es res items)) s"
proof (cases "digest \<noteq> ProcessingDigest (CompStatus (comp s))")
  case True
  then show ?thesis
    by (auto simp: target_Apply_def wp_simps inventory_run_def same_run_def set_inventory_same
        intro!: exI [of _ "StatusInventory (CompStatus (comp s))"])
next
  case False
  let ?e = "CGenerate (deploymentNamespace (comp s)) (deploymentName (comp s))"
  have applied: "wp (on_inventory (Apply P (TargetReconciler tg) objects ns owner digest))
      (\<lambda>res t. \<exists>u. Apply P (TargetReconciler tg) objects ns owner digest ((inner_state s)\<lparr>world := w\<rparr>) = (res, u) \<and>
         inventory_run s (?e # map CTarget (trace u)) (inventory u) t)
      (s\<lparr>ctrace := ctrace s @ [?e], cworld := w\<rparr>)" for objects ns owner w
    by (rule wp_conseq [OF wp_on_inventory]) (auto simp: inventory_run_def same_run_def inner_state_def)
  let ?Q = "\<lambda>res t. \<exists>es items. inventory_run s (es @ [CApply res]) items t \<and>
     ((es = [] \<or> (\<exists>ns name. es = [CGenerate ns name])) \<and> items = StatusInventory (CompStatus (comp s)) \<and> (\<forall>b. res \<noteq> Ok b) \<or>
      apply_run P tg digest s es res items)"
  show ?thesis
    unfolding target_Apply_def wp_simps outcome.case if_not_P [OF False]
  proof (rule wp_conseq [OF wp_generate])
    fix res :: "(goerr, Object list) outcome" and t
    assume "\<exists>w. t = s\<lparr>ctrace := ctrace s @ [?e], cworld := w\<rparr>"
    then obtain w where t: "t = s\<lparr>ctrace := ctrace s @ [?e], cworld := w\<rparr>" ..
    have failed: "?Q r (t\<lparr>ctrace := ctrace t @ [CApply r]\<rparr>)" if "\<forall>b. r \<noteq> Ok b" for r
      using that by (intro exI [of _ "[?e]"] exI [of _ "StatusInventory (CompStatus (comp s))"])
        (simp add: t inventory_run_def same_run_def set_inventory_same)
    show "case res of
        Ok objects \<Rightarrow> wp (on_inventory (Apply P (TargetReconciler tg) objects (deploymentNamespace (comp s)) (targetOwnerId tg (comp s)) digest))
          (\<lambda>r t. ?Q r (t\<lparr>ctrace := ctrace t @ [CApply r]\<rparr>)) t
      | Err e \<Rightarrow> ?Q (Err e) (t\<lparr>ctrace := ctrace t @ [CApply (Err e)]\<rparr>)
      | Panic p \<Rightarrow> ?Q (Panic p) (t\<lparr>ctrace := ctrace t @ [CApply (Panic p)]\<rparr>)"
    proof (cases res)
      case (Ok objects)
      show ?thesis
        unfolding Ok outcome.case t
      proof (rule wp_conseq [OF applied])
        fix r t
        assume "\<exists>u. Apply P (TargetReconciler tg) objects (deploymentNamespace (comp s)) (targetOwnerId tg (comp s)) digest
            ((inner_state s)\<lparr>world := w\<rparr>) = (r, u) \<and> inventory_run s (?e # map CTarget (trace u)) (inventory u) t"
        then obtain u where u: "Apply P (TargetReconciler tg) objects (deploymentNamespace (comp s)) (targetOwnerId tg (comp s)) digest
            ((inner_state s)\<lparr>world := w\<rparr>) = (r, u)" "inventory_run s (?e # map CTarget (trace u)) (inventory u) t"
          by (elim exE conjE)
        show "?Q r (t\<lparr>ctrace := ctrace t @ [CApply r]\<rparr>)"
          by (intro exI conjI disjI2) (rule inventory_run_emit [OF u(2)], rule apply_runI [OF u(1)])
      qed
    qed (use failed in simp_all)
  qed
qed

section \<open>Rules for the calls of a phase\<close>

text \<open>
  Each rule reduces the precondition of a call to what the caller needs of its effect. With
  them and the weakest preconditions above a phase is verified by \<open>auto\<close>.
\<close>

locale component_run = hook_relation H for H :: "Component \<Rightarrow> Component \<Rightarrow> bool" +
  fixes r :: "'w ComponentReconciler"
  assumes hooks: "hooks_respect H r"
begin

lemma hooks_callI:
  assumes "hooks \<in> {postReadHooks r, preReconcileHooks r, postReconcileHooks r, preDeleteHooks r, postDeleteHooks r}"
    and "\<And>res t es. H (comp s) (comp t) \<Longrightarrow> same_run s t \<Longrightarrow> ctrace t = ctrace s @ es \<Longrightarrow> hooks_only es \<Longrightarrow>
      items_of (comp t) = handedOver (items_of (comp s)) es \<Longrightarrow> Q res t"
  shows "wp (runHooks kind ctx n hooks) Q s"
  using reconciler_hooks [OF local.hooks assms(1)] by (rule wp_conseq) (use assms(2) in \<open>auto simp: hooked_def\<close>)

lemmas hook_calls = hooks_callI [of "postReadHooks r"] hooks_callI [of "preReconcileHooks r"] hooks_callI [of "postReconcileHooks r"]
  hooks_callI [of "preDeleteHooks r"] hooks_callI [of "postDeleteHooks r"]

end

lemma allowed_callI:
  assumes "\<And>res t es items. inventory_run s (map CTarget es @ [CIsDeletionAllowed res]) items t \<Longrightarrow> Q res t"
  shows "wp (target_IsDeletionAllowed P tg) Q s"
  by (rule wp_conseq [OF wp_target_IsDeletionAllowed]) (use assms in blast)

lemma delete_callI:
  assumes "\<And>res t u. DeleteAll P (TargetReconciler tg) (targetOwnerId tg (comp s)) (inner_state s) = (res, u) \<Longrightarrow>
    inventory_run s (map CTarget (trace u) @ [CDelete res]) (inventory u) t \<Longrightarrow> Q res t"
  shows "wp (target_Delete P tg) Q s"
  by (rule wp_conseq [OF wp_target_Delete]) (use assms in blast)

lemma finalizers_callI:
  assumes "\<And>res err c w. Q res (s\<lparr>cworld := w, ctrace := ctrace s @ [CPatchFinalizers (Finalizers (comp s)) err], comp := c\<rparr>)"
  shows "wp (updateFinalizers r) Q s"
  by (auto simp: updateFinalizers_def wp_simps assms split: prod.splits option.splits)

lemma next_callI:
  assumes "\<And>d b. Q (Ok d) (s\<lparr>cbackoff := b\<rparr>)"
  shows "wp (backoffNext r req act) Q s"
  by (auto simp: wp_def backoffNext_def intro: assms split: prod.splits)

lemma apply_callI:
  assumes "\<And>res t es items. inventory_run s (es @ [CApply res]) items t \<Longrightarrow>
      (es = [] \<or> (\<exists>ns name. es = [CGenerate ns name])) \<and> items = StatusInventory (CompStatus (comp s)) \<and> (\<forall>b. res \<noteq> Ok b) \<or>
      apply_run P tg digest s es res items \<Longrightarrow> Q res t"
  shows "wp (target_Apply P tg digest) Q s"
  by (rule wp_conseq [OF wp_target_Apply]) (use assms in blast)

lemma resolve_callI:
  assumes "\<And>res t. comp t = comp s \<Longrightarrow> ctrace t = ctrace s \<Longrightarrow> cbackoff t = cbackoff s \<Longrightarrow> crecorder t = crecorder s \<Longrightarrow>
    (\<forall>d. res = Ok d \<longrightarrow> cdigest t = d) \<Longrightarrow> Q res t"
  shows "wp (resolve P r) Q s"
  by (rule wp_conseq [OF wp_resolve]) (use assms in blast)

lemma setup_callI:
  assumes "\<And>res w. (\<forall>tg. res = Ok tg \<longrightarrow> target_of P r (comp s) tg) \<Longrightarrow> Q res (s\<lparr>cworld := w\<rparr>)"
  shows "wp (setupTarget P r) Q s"
  by (rule wp_conseq [OF wp_setupTarget]) (use assms in blast)

section \<open>What a run did\<close>

text \<open>The calls of a run, and the component it read.\<close>

definition calls_of :: "('w, 'a) ccomp \<Rightarrow> 'w cst \<Rightarrow> cevent list" where
  "calls_of m s = drop (length (ctrace s)) (ctrace (snd (m s)))"

fun component_read :: "cevent list \<Rightarrow> Component option" where
  "component_read [] = None"
| "component_read (e # es) = (case e of CGet _ (Inr c) \<Rightarrow> Some c | _ \<Rightarrow> component_read es)"

fun target_calls :: "cevent list \<Rightarrow> event list" where
  "target_calls [] = []"
| "target_calls (e # es) = (case e of CTarget x \<Rightarrow> [x] | _ \<Rightarrow> []) @ target_calls es"

lemma component_read_append [simp]:
  "component_read (es @ es') = (case component_read es of Some c \<Rightarrow> Some c | None \<Rightarrow> component_read es')"
  by (induction es) (auto split: cevent.splits sum.splits)

lemma target_calls_append [simp]: "target_calls (es @ es') = target_calls es @ target_calls es'"
  by (induction es) auto

lemma target_calls_map [simp]: "target_calls (map CTarget es) = es"
  by (induction es) auto

lemma target_calls_hooks [simp]: "hooks_only es \<Longrightarrow> target_calls es = []"
  by (induction es) (auto simp: hooks_only_def split: cevent.splits)

lemma calls_of_wp: "wp m (\<lambda>res t. \<exists>es. ctrace t = ctrace s @ es \<and> Q es) s \<Longrightarrow> Q (calls_of m s)"
  by (auto simp: wp_def calls_of_def split: prod.splits)

end
