(* ===== verification/Component_Finish.thy ===== *)
theory Component_Finish
  imports Component_Calls
begin

text \<open>
  What the deferred status handler does, as a function: the component it handles on, the
  delay and the error that is left; and the rule that takes this to the handler.
\<close>

section \<open>The settled status\<close>

definition observed :: "Component \<Rightarrow> Component" where
  "observed c = c\<lparr>CompStatus := (CompStatus c)\<lparr>ObservedGeneration := Generation c\<rparr>\<rparr>"

definition with_state :: "State \<Rightarrow> string \<Rightarrow> string \<Rightarrow> Component \<Rightarrow> Component" where
  "with_state st reason msg c = c\<lparr>CompStatus := SetState st reason msg (CompStatus c)\<rparr>"

definition live_states :: "State set" where
  "live_states = {StateReady, StateProcessing, StatePending, StateError}"

text \<open>Otherwise the handler panics.\<close>

definition handles :: "Component \<Rightarrow> goerr + int \<times> bool \<Rightarrow> bool" where
  "handles c res \<longleftrightarrow> (case res of Inl _ \<Rightarrow> True
     | Inr _ \<Rightarrow> DeletionTimestamp c \<noteq> None \<or> CompState (CompStatus c) \<in> live_states)"

definition settledAs :: "'w ComponentReconciler \<Rightarrow> bool \<Rightarrow> int \<Rightarrow> Component \<Rightarrow> goerr + int \<times> bool \<Rightarrow> Component \<times> int \<times> goerr option" where
  "settledAs r haveTimeout retryInterval c res = (case res of
     Inl err \<Rightarrow>
       (case asRetriableError err of
          Some (inner, after) \<Rightarrow>
            (let msg = capitalize r (ErrorText (CrClient r) inner)
             in (if DeletionTimestamp c = None
                 then with_state StatePending (if haveTimeout then ''Timeout'' else ''Retrying'') msg c
                 else with_state StateDeletionPending ''DeletionRetrying'' msg c,
                 case after of None \<Rightarrow> retryInterval | Some d \<Rightarrow> if d = 0 then retryInterval else d, None))
        | None \<Rightarrow>
            (with_state StateError (if DeletionTimestamp c = None \<and> haveTimeout then ''Timeout'' else ''Error'')
               (capitalize r (ErrorText (CrClient r) err)) c, 0, Some err))
   | Inr (n, _) \<Rightarrow>
       if DeletionTimestamp c \<noteq> None then (c, n, None)
       else if CompState (CompStatus c) = StateReady then
         (c\<lparr>CompStatus := (CompStatus c)\<lparr>ProcessingSince := None\<rparr>\<rparr>,
          if ProcessingSince (CompStatus c) \<noteq> None then Millisecond else n, None)
       else if CompState (CompStatus c) = StateProcessing \<and> haveTimeout then
         (with_state StateError ''Timeout'' ''Reconcilation of dependent resources timed out'' c, n, None)
       else (c, n, None))"

text \<open>The status as it is written.\<close>

definition stamped :: "int \<Rightarrow> ComponentStatus \<Rightarrow> Component \<Rightarrow> Component" where
  "stamped now savedStatus c = c\<lparr>CompStatus := (CompStatus c)\<lparr>LastObservedAt := Some now,
     Conditions := map (transition savedStatus now) (Conditions (CompStatus c))\<rparr>\<rparr>"

definition jittered :: "'w ComponentReconciler \<Rightarrow> int \<Rightarrow> int \<Rightarrow> bool" where
  "jittered r n n' \<longleftrightarrow> (if 0 < n then \<exists>w. n' = wrap64 (n + wrap64 ((fst (Int63n (CrClient r) 5 w) + 1) * n) sdiv 100) else n' = n)"

text \<open>Calls of the handler other than the update of the status.\<close>

definition reports_only :: "cevent list \<Rightarrow> bool" where
  "reports_only es \<longleftrightarrow> list_all (\<lambda>e. case e of CReconcileErrors _ \<Rightarrow> True | CSetMetrics _ _ _ \<Rightarrow> True
     | CDeleteMetrics \<Rightarrow> True | CRecord _ \<Rightarrow> True | _ \<Rightarrow> False) es"

text \<open>The result of the whole call.\<close>

definition result_of :: "int \<Rightarrow> goerr option \<Rightarrow> goerr option \<Rightarrow> (goerr, int) outcome" where
  "result_of n err updateErr = (case updateErr of
     Some e \<Rightarrow> Err (JoinError ((case err of Some e' \<Rightarrow> [e'] | None \<Rightarrow> []) @ [e]))
   | None \<Rightarrow> (case err of Some e \<Rightarrow> Err e | None \<Rightarrow> Ok n))"

section \<open>The parts of the handler\<close>

lemma wp_settleState:
  "wp (settleState haveTimeout n) Q s = (let c = comp s; st = CompStatus c in
     if CompState st = StateReady then Q (Ok (if ProcessingSince st \<noteq> None then Millisecond else n))
         (s\<lparr>comp := c\<lparr>CompStatus := st\<lparr>ProcessingSince := None\<rparr>\<rparr>\<rparr>)
     else if CompState st = StateProcessing \<and> haveTimeout then
       Q (Ok n) (s\<lparr>comp := with_state StateError ''Timeout'' ''Reconcilation of dependent resources timed out'' c\<rparr>)
     else if CompState st \<in> live_states then Q (Ok n) s
     else Q (Panic ''this cannot happen'') s)"
  by (simp add: settleState_def wp_simps Let_def with_state_def live_states_def split: State.splits)

lemma wp_settleError:
  "wp (settleError r haveTimeout retryInterval err) Q s = (case settledAs r haveTimeout retryInterval (comp s) (Inl err) of
     (c, n, e) \<Rightarrow> Q (Ok (n, e)) (s\<lparr>comp := c\<rparr>))"
  by (cases "asRetriableError err"; cases "DeletionTimestamp (comp s)"; cases haveTimeout)
    (auto simp: settleError_def settledAs_def wp_simps Let_def with_state_def split: option.splits)

lemma jitter_callI:
  assumes "\<And>w n'. jittered r n n' \<Longrightarrow> Q (Ok n') (s\<lparr>cworld := w\<rparr>)"
  shows "wp (if 0 < n then addJitter r n 1 5 else ret n) Q s"
proof (cases "0 < n")
  case True
  show ?thesis
    using assms True by (auto simp: addJitter_def wp_simps jittered_def split: prod.splits) (metis fst_conv)
next
  case False
  then show ?thesis using assms [of n "cworld s"] by (simp add: wp_simps jittered_def)
qed

lemma report_callI:
  assumes "\<And>es. reports_only es \<Longrightarrow> Q (Ok ()) (s\<lparr>ctrace := ctrace s @ es\<rparr>)"
  shows "wp (reportMetrics r err) Q s"
  by (auto simp: reportMetrics_def wp_simps Let_def reports_only_def split: option.splits prod.splits
      intro: assms [of "_ # _ # []"] assms [of "_ # []"])

lemma record_callI:
  assumes "\<And>w e rec. Q (Ok ()) (s\<lparr>cworld := w, ctrace := ctrace s @ [CRecord e], crecorder := rec\<rparr>)"
  shows "wp (recordEvent r) Q s"
  by (auto simp: recordEvent_def wp_simps Let_def split: prod.splits intro: assms)

lemma update_callI:
  assumes "\<And>w updateErr. Q (result_of n err updateErr)
     (s\<lparr>comp := stamped now savedStatus (comp s), cworld := w,
        ctrace := ctrace s @ [CStatusUpdate (stamped now savedStatus (comp s)) updateErr]\<rparr>)"
  shows "wp (updateStatus r now savedStatus (n, err)) Q s"
proof -
  obtain updateErr w where u: "UpdateComponentStatus (CrClient r) (stamped now savedStatus (comp s)) (fieldOwnerOf r) (cworld s) = (updateErr, w)"
    by (metis surj_pair)
  show ?thesis
    using assms [of updateErr w, unfolded stamped_def result_of_def] u [unfolded stamped_def]
    by (cases updateErr; cases err) (simp_all add: updateStatus_def wp_simps)
qed

section \<open>The handler\<close>

definition skips :: "goerr + int \<times> bool \<Rightarrow> bool" where
  "skips res \<longleftrightarrow> (case res of Inr (_, skip) \<Rightarrow> skip | Inl _ \<Rightarrow> False)"

lemma reports_only_record: "reports_only es \<Longrightarrow> reports_only (es @ [CRecord e])"
  by (simp add: reports_only_def)

lemma report_tail_callI:
  assumes "\<And>t es n'. comp t = comp u \<Longrightarrow> ctrace t = ctrace u @ es \<Longrightarrow> reports_only es \<Longrightarrow> jittered r n n' \<Longrightarrow> wp (K n') Q t"
  shows "wp (bind (if 0 < n then addJitter r n 1 5 else ret n) (\<lambda>n. seq (reportMetrics r err) (seq (recordEvent r) (K n)))) Q u"
proof -
  have "wp (seq (reportMetrics r err) (seq (recordEvent r) (K n'))) Q (u\<lparr>cworld := w\<rparr>)" if "jittered r n n'" for n' w
    unfolding wp_seq
  proof (rule report_callI, unfold outcome.case, rule record_callI, unfold outcome.case)
    fix es w' e and rec :: "seen_events \<times> emitted"
    assume "reports_only es"
    then show "wp (K n') Q (u\<lparr>cworld := w, ctrace := ctrace (u\<lparr>cworld := w\<rparr>) @ es, cworld := w',
        ctrace := ctrace (u\<lparr>cworld := w, ctrace := ctrace (u\<lparr>cworld := w\<rparr>) @ es\<rparr>) @ [CRecord e], crecorder := rec\<rparr>)"
      using that by (intro assms [of _ "es @ [CRecord e]"]) (simp_all add: reports_only_record)
  qed
  then show ?thesis
    unfolding wp_bind by (intro jitter_callI) simp
qed

lemma finish_callI:
  assumes "settledAs r (timedOut now timeout (CompStatus (observed (comp s)))) retryInterval (observed (comp s)) res = (c, n, err)"
    and panics: "\<And>b. \<not> handles (observed (comp s)) res \<Longrightarrow> Q (Panic ''this cannot happen'') (s\<lparr>comp := observed (comp s), cbackoff := b\<rparr>)"
    and skipped: "\<And>t es n'. handles (observed (comp s)) res \<Longrightarrow> skips res \<Longrightarrow> comp t = c \<Longrightarrow> ctrace t = ctrace s @ es \<Longrightarrow>
       reports_only es \<Longrightarrow> jittered r n n' \<Longrightarrow> Q (result_of n' err None) t"
    and updated: "\<And>t es n' updateErr. handles (observed (comp s)) res \<Longrightarrow> \<not> skips res \<Longrightarrow> comp t = stamped now savedStatus c \<Longrightarrow>
       ctrace t = ctrace s @ es @ [CStatusUpdate (stamped now savedStatus c) updateErr] \<Longrightarrow>
       reports_only es \<Longrightarrow> jittered r n n' \<Longrightarrow> Q (result_of n' err updateErr) t"
  shows "wp (finishReconcile r req now retryInterval timeout savedStatus res) Q s"
proof -
  let ?c = "observed (comp s)"
  let ?haveTimeout = "timedOut now timeout (CompStatus ?c)"
  let ?K = "\<lambda>n err. case res of
      Inr (_, True) \<Rightarrow> (case err of Some e \<Rightarrow> fail e | None \<Rightarrow> ret n) | _ \<Rightarrow> updateStatus r now savedStatus (n, err)"
  define rest where "rest = (\<lambda>(n, err). bind (if 0 < n then addJitter r n 1 5 else ret n) (\<lambda>n.
       seq (reportMetrics r err) (seq (recordEvent r) (?K n err))))"
  have rest: "wp (rest (n, err)) Q u" if u: "comp u = c" "ctrace u = ctrace s" and handles: "handles ?c res" for u
    unfolding rest_def prod.case
  proof (rule report_tail_callI)
    fix t :: "'a cst" and es n'
    assume t: "comp t = comp u" "ctrace t = ctrace u @ es" "reports_only es" "jittered r n n'"
    show "wp (?K n' err) Q t"
    proof (cases "skips res")
      case True
      then have "?K n' err = (case err of Some e \<Rightarrow> fail e | None \<Rightarrow> ret n')"
        by (auto simp: skips_def split: sum.splits prod.splits bool.splits)
      then show ?thesis
        using skipped [OF handles True _ _ t(3,4), of t] t u by (simp add: wp_simps result_of_def split: option.splits)
    next
      case False
      then have "?K n' err = updateStatus r now savedStatus (n', err)"
        by (auto simp: skips_def split: sum.splits prod.splits bool.splits)
      moreover have "wp (updateStatus r now savedStatus (n', err)) Q t"
        by (rule update_callI, rule updated [OF handles False _ _ t(3,4)]) (simp_all add: t u)
      ultimately show ?thesis by simp
    qed
  qed
  have forget: "wp (if b then backoffForget r req else ret ()) Q' u" if "\<And>x. Q' (Ok ()) (u\<lparr>cbackoff := x\<rparr>)" for b Q' u
    using that [of "cbackoff u"] that by (auto simp: wp_simps)
  let ?settle = "\<lambda>component haveTimeout. case res of
      Inr (n, skip) \<Rightarrow>
        (if DeletionTimestamp component = None then bind (settleState haveTimeout n) (\<lambda>n. ret (n, None)) else ret (n, None))
    | Inl err \<Rightarrow> settleError r haveTimeout retryInterval err"
  have comp_upd: "comp (s\<lparr>comp := ?c\<rparr>) = ?c" by simp
  have settle: "wp (?settle ?c ?haveTimeout)
      (\<lambda>res' t. case res' of Ok x \<Rightarrow> wp (rest x) Q t | Err e \<Rightarrow> Q (Err e) t | Panic p \<Rightarrow> Q (Panic p) t)
      (s\<lparr>comp := ?c, cbackoff := b\<rparr>)" for b
  proof (cases res)
    case (Inl e)
    then have "handles ?c res" by (simp add: handles_def)
    then show ?thesis
      using rest [of "s\<lparr>cbackoff := b, comp := c\<rparr>"] assms(1) by (simp add: Inl wp_settleError)
  next
    case (Inr x)
    obtain m skip where x: "x = (m, skip)" by force
    show ?thesis
      using rest [of "s\<lparr>comp := c, cbackoff := b\<rparr>"] rest [of "s\<lparr>cbackoff := b, comp := c\<rparr>"] assms(1) panics [of b]
      by (auto simp: Inr x wp_settleState wp_simps Let_def settledAs_def handles_def live_states_def split: if_splits)
  qed
  have body: "finishReconcile r req now retryInterval timeout savedStatus res =
      seq (upd_comp observed) (bind (gets comp) (\<lambda>component.
        seq (if CompState (CompStatus component) = StateReady \<or> (case res of Inl _ \<Rightarrow> True | Inr _ \<Rightarrow> False)
             then backoffForget r req else ret ())
          (bind (?settle component (timedOut now timeout (CompStatus component))) rest)))"
    by (simp add: finishReconcile_def rest_def observed_def [abs_def] Let_def)
  show ?thesis
    unfolding body wp_seq wp_bind wp_basic wp_cst outcome.case cst.select_convs cst.update_convs comp_upd
    by (rule forget) (simp only: outcome.case settle)
qed

end
