(* ===== verification/Component_Run.thy ===== *)
theory Component_Run
  imports Component_Finish
begin

text \<open>
  The body of \<open>Reconcile\<close> up to the choice between the two phases, and the whole call, as
  rules: what holds at each of the points where they end, and when a phase begins.
\<close>

section \<open>Up to the phases\<close>

definition restarts :: "string \<Rightarrow> Component \<Rightarrow> bool" where
  "restarts digest c \<longleftrightarrow> DeletionTimestamp c = None \<and> ProcessingDigest (CompStatus c) \<noteq> '''' \<and> digest \<noteq> ProcessingDigest (CompStatus c)"

text \<open>The component with the processing fields as \<open>startProcessing\<close> leaves them.\<close>

definition prepared :: "string \<Rightarrow> Component \<Rightarrow> Component" where
  "prepared digest c = (let st = CompStatus c in
     if DeletionTimestamp c \<noteq> None then c\<lparr>CompStatus := st\<lparr>ProcessingSince := None, ProcessingDigest := ''''\<rparr>\<rparr>
     else if digest = ProcessingDigest st \<and> ProcessingDigest st \<noteq> '''' then c
     else c\<lparr>CompStatus := st\<lparr>ProcessingSince := None, ProcessingDigest := digest\<rparr>\<rparr>)"

lemma prepared_sel [simp]:
  "items_of (prepared d c) = items_of c" "Namespace (prepared d c) = Namespace c" "Name (prepared d c) = Name c"
  "ResourceVersion (prepared d c) = ResourceVersion c"
  by (simp_all add: prepared_def Let_def)

lemma wp_startProcessing:
  "wp (startProcessing r req) Q s = (let d = cdigest s; c = comp s in
     if restarts d c then Q (Ok True)
       (s\<lparr>cbackoff := Forget_backoff (NewDefaultRateLimiter (CrLimiters r) (10 * Second)) req (cbackoff s),
          comp := with_state StateProcessing ''Restarting'' ''Restarting processing due to component changes'' (prepared d c)\<rparr>)
     else Q (Ok False) (s\<lparr>comp := prepared d c\<rparr>))"
proof (cases "DeletionTimestamp (comp s)")
  case None
  then show ?thesis
    by (auto simp: startProcessing_def wp_simps Let_def restarts_def prepared_def with_state_def)
next
  case (Some t)
  then show ?thesis
    by (auto simp: startProcessing_def wp_simps Let_def restarts_def prepared_def)
qed

context component_run begin

text \<open>
  The body ends early for a component that is new or suspended, or whose digest changed; it
  fails before a phase; or it gets to a phase.
\<close>

lemma body_callI:
  assumes new: "ObservedGeneration (CompStatus (comp s)) \<le> 0 \<Longrightarrow>
      Q (Ok (Millisecond, False)) (s\<lparr>comp := with_state StatePending ''FirstSeen'' ''First seen'' (comp s)\<rparr>)"
    and suspended: "\<And>d b. isSuspended (comp s) \<Longrightarrow> 0 < ObservedGeneration (CompStatus (comp s)) \<Longrightarrow>
      backoffNext r req ''Suspended'' s = (Ok d, s\<lparr>cbackoff := b\<rparr>) \<Longrightarrow>
      Q (Ok (d, False)) (s\<lparr>comp := with_state StatePending ''Suspended'' ''Reconciliation is suspended'' (comp s), cbackoff := b\<rparr>)"
    and failed: "\<And>res t es d. (\<And>x. res \<noteq> Ok x) \<Longrightarrow> ctrace t = ctrace s @ es \<Longrightarrow> hooks_only es \<Longrightarrow>
      comp t = comp s \<or> \<not> restarts d (comp s) \<and> H (prepared d (comp s)) (comp t) \<Longrightarrow> Q res t"
    and restarted: "\<And>t d. restarts d (comp s) \<Longrightarrow> ctrace t = ctrace s \<Longrightarrow>
      comp t = with_state StateProcessing ''Restarting'' ''Restarting processing due to component changes'' (prepared d (comp s)) \<Longrightarrow>
      Q (Ok (Millisecond, False)) t"
    and phase: "\<And>t es tg. 0 < ObservedGeneration (CompStatus (comp s)) \<Longrightarrow> \<not> isSuspended (comp s) \<Longrightarrow>
      \<not> restarts (cdigest t) (comp s) \<Longrightarrow> ctrace t = ctrace s @ es \<Longrightarrow> hooks_only es \<Longrightarrow>
      H (prepared (cdigest t) (comp s)) (comp t) \<Longrightarrow> target_of P r (comp t) tg \<Longrightarrow>
      items_of (comp t) = handedOver (items_of (comp s)) es \<Longrightarrow>
      wp (if DeletionTimestamp (comp t) = None then applyPhase P r req now interval saved tg else deletePhase P r req saved tg) Q t"
  shows "wp (reconcileBody P r req now interval saved) Q s"
proof (cases "ObservedGeneration (CompStatus (comp s)) \<le> 0")
  case True
  then show ?thesis using new by (simp add: reconcileBody_def wp_simps with_state_def)
next
  case obs: False
  show ?thesis
  proof (cases "isSuspended (comp s)")
    case True
    obtain d b where nxt: "Next_backoff (NewDefaultRateLimiter (CrLimiters r) (10 * Second)) req ''Suspended'' (cbackoff s) = (d, b)"
      by (metis surj_pair)
    then have "backoffNext r req ''Suspended'' s = (Ok d, s\<lparr>cbackoff := b\<rparr>)" by (simp add: backoffNext_def)
    from suspended [OF True _ this] obs True nxt show ?thesis
      by (simp add: reconcileBody_def wp_simps with_state_def) (simp add: wp_def backoffNext_def ret_def)
  next
    case False
    let ?phase = "\<lambda>tg. bind (gets comp) (\<lambda>component.
        if DeletionTimestamp component = None then applyPhase P r req now interval saved tg else deletePhase P r req saved tg)"
    let ?ctx = "WithReconcilerName (CrName r) NewContext"
    have hooked: "wp (seq (runHooks PostRead ?ctx 0 (postReadHooks r)) (bind (setupTarget P r) ?phase)) Q u"
      if u: "comp u = prepared d (comp s)" "ctrace u = ctrace s" "cdigest u = d" "\<not> restarts d (comp s)" for u d
      unfolding wp_seq wp_bind [of "setupTarget P r"]
    proof (rule hook_calls(1))
      fix res :: "(goerr, unit) outcome" and t es
      assume t: "H (comp u) (comp t)" "same_run u t" "ctrace t = ctrace u @ es" "hooks_only es"
        "items_of (comp t) = handedOver (items_of (comp u)) es"
      have setup_ok: "wp (setupTarget P r) (\<lambda>r t. case r of Ok x \<Rightarrow> wp (?phase x) Q t | Err e \<Rightarrow> Q (Err e) t | Panic p \<Rightarrow> Q (Panic p) t) t"
      proof (rule setup_callI)
        fix res' :: "(goerr, 'w reconcileTarget) outcome" and w
        assume tg: "\<forall>tg. res' = Ok tg \<longrightarrow> target_of P r (comp t) tg"
        show "case res' of Ok x \<Rightarrow> wp (?phase x) Q (t\<lparr>cworld := w\<rparr>) | Err e \<Rightarrow> Q (Err e) (t\<lparr>cworld := w\<rparr>) | Panic p \<Rightarrow> Q (Panic p) (t\<lparr>cworld := w\<rparr>)"
        proof (cases res')
          case (Ok tg')
          have "wp (if DeletionTimestamp (comp (t\<lparr>cworld := w\<rparr>)) = None then applyPhase P r req now interval saved tg'
              else deletePhase P r req saved tg') Q (t\<lparr>cworld := w\<rparr>)"
            by (rule phase [of _ es]) (use obs False t u tg Ok in \<open>simp_all add: same_run_def\<close>)
          then show ?thesis unfolding Ok by (simp add: wp_bind wp_basic)
        qed (use failed [of _ "t\<lparr>cworld := w\<rparr>" es d] t u in \<open>simp_all\<close>)
      qed
      show "case res of Ok _ \<Rightarrow> wp (setupTarget P r) (\<lambda>r t. case r of Ok x \<Rightarrow> wp (?phase x) Q t | Err e \<Rightarrow> Q (Err e) t | Panic p \<Rightarrow> Q (Panic p) t) t
          | Err e \<Rightarrow> Q (Err e) t | Panic p \<Rightarrow> Q (Panic p) t"
        using setup_ok failed [of _ t es d] t u by (cases res) simp_all
    qed simp
    have "wp (resolve P r) (\<lambda>r' t. case r' of
          Ok x \<Rightarrow> wp (bind (startProcessing r req) (\<lambda>restarted. if restarted then ret (Millisecond, False)
            else seq (runHooks PostRead ?ctx 0 (postReadHooks r)) (bind (setupTarget P r) ?phase))) Q t
        | Err e \<Rightarrow> Q (Err e) t | Panic p \<Rightarrow> Q (Panic p) t) s"
    proof (rule resolve_callI)
      fix res :: "(goerr, string) outcome" and t :: "'w cst"
      assume t: "comp t = comp s" "ctrace t = ctrace s" "\<forall>d. res = Ok d \<longrightarrow> cdigest t = d"
      show "case res of
          Ok x \<Rightarrow> wp (bind (startProcessing r req) (\<lambda>restarted. if restarted then ret (Millisecond, False)
            else seq (runHooks PostRead ?ctx 0 (postReadHooks r)) (bind (setupTarget P r) ?phase))) Q t
        | Err e \<Rightarrow> Q (Err e) t | Panic p \<Rightarrow> Q (Panic p) t"
      proof (cases res)
        case (Ok d)
        then show ?thesis
          using t hooked [of "t\<lparr>comp := prepared d (comp s)\<rparr>" d] restarted [of d]
          unfolding Ok outcome.case wp_bind wp_startProcessing
          by (simp add: Let_def wp_basic)
      qed (use failed [of _ t "[]"] t in \<open>simp_all add: hooks_only_def\<close>)
    qed
    then show ?thesis
      using obs False unfolding reconcileBody_def by (simp add: wp_bind wp_basic)
  qed
qed

end

section \<open>The whole call\<close>

text \<open>The component as the body gets it.\<close>

definition typed :: "'w ComponentReconciler \<Rightarrow> Component \<Rightarrow> Component" where
  "typed r c = c\<lparr>Group := Group (CrGroupVersionKind r), Version := Version (CrGroupVersionKind r), Kind := Kind (CrGroupVersionKind r)\<rparr>"

lemma wp_loadComponent:
  "wp (loadComponent r c) Q s = Q (Ok ()) (s\<lparr>comp := typed r c, crefs := \<lambda>_. None, cdigest := ''''\<rparr>)"
  by (simp add: loadComponent_def typed_def wp_simps)

text \<open>What the body of a run returns; \<open>None\<close> if the run does not get to it.\<close>

definition bodyResult :: "platform \<Rightarrow> 'w ComponentReconciler \<Rightarrow> request \<Rightarrow> 'w cst \<Rightarrow> (goerr, int \<times> bool) outcome option" where
  "bodyResult P r req s =
     (let (now, w1) = ClockNow (CrClient r) (cworld s); (res, w) = GetComponent (CrClient r) req w1
      in case res of Inl _ \<Rightarrow> None
       | Inr c \<Rightarrow> Some (fst (reconcileBody P r req now (requeueIntervalOf c) (CompStatus c)
           (s\<lparr>cworld := w, ctrace := ctrace s @ [CReconciles, CGet req (Inr c)], comp := typed r c, crefs := \<lambda>_. None, cdigest := ''''\<rparr>))))"

text \<open>
  A run ends without a component, or in a panic of the body, or with the status handler on
  the outcome of the body. Here \<open>B\<close> is what the body is known to establish.
\<close>

lemma Reconcile_callI:
  assumes is_setup: "setupComplete r"
    and none: "\<And>t err. ctrace t = ctrace s @ [CReconciles, CGet req (Inl err)] \<Longrightarrow> IsNotFound err \<Longrightarrow> bodyResult P r req s = None \<Longrightarrow> Q (Ok 0) t"
    and unread: "\<And>t err. ctrace t = ctrace s @ [CReconciles, CGet req (Inl err)] \<Longrightarrow> \<not> IsNotFound err \<Longrightarrow> bodyResult P r req s = None \<Longrightarrow>
       Q (Err (Wrapf err ''unexpected get error'' [])) t"
    and body: "\<And>u c now. ctrace u = ctrace s @ [CReconciles, CGet req (Inr c)] \<Longrightarrow> comp u = typed r c \<Longrightarrow>
       bodyResult P r req s = Some (fst (reconcileBody P r req now (requeueIntervalOf c) (CompStatus c) u)) \<Longrightarrow>
       wp (reconcileBody P r req now (requeueIntervalOf c) (CompStatus c)) (B c now) u"
    and panicked: "\<And>c now p t. B c now (Panic p) t \<Longrightarrow> Q (Panic p) t"
    and finish: "\<And>c now res t. (case res of Inl e \<Rightarrow> B c now (Err e) t | Inr x \<Rightarrow> B c now (Ok x) t) \<Longrightarrow>
       wp (finishReconcile r req now (retryIntervalOf c) (timeoutOf c) (CompStatus c) res) Q t"
  shows "wp (Reconcile P r req) Q s"
proof -
  obtain now w1 where now: "ClockNow (CrClient r) (cworld s) = (now, w1)" by (metis surj_pair)
  obtain res w where res: "GetComponent (CrClient r) req w1 = (res, w)" by (metis surj_pair)
  show ?thesis
  proof (cases res)
    case (Inl err)
    then show ?thesis
      using is_setup now res none [of _ err] unread [of _ err] by (simp add: Reconcile_def wp_simps bodyResult_def)
  next
    case (Inr c)
    let ?u = "s\<lparr>cworld := w, ctrace := ctrace s @ [CReconciles, CGet req (Inr c)], comp := typed r c, crefs := \<lambda>_. None, cdigest := ''''\<rparr>"
    have run: "wp (reconcileBody P r req now (requeueIntervalOf c) (CompStatus c))
        (\<lambda>ra t. case ra of
           Ok x \<Rightarrow> wp (finishReconcile r req now (retryIntervalOf c) (timeoutOf c) (CompStatus c) (Inr x)) Q t
         | Err e \<Rightarrow> wp (finishReconcile r req now (retryIntervalOf c) (timeoutOf c) (CompStatus c) (Inl e)) Q t
         | Panic p \<Rightarrow> Q (Panic p) t) ?u"
      by (rule wp_conseq [OF body [of ?u c now]])
        (use now res Inr panicked finish [where res = "Inl e" for e] finish [where res = "Inr x" for x] in
           \<open>auto simp: bodyResult_def split: outcome.splits\<close>)
    then show ?thesis
      using is_setup now res by (simp add: Reconcile_def wp_simps wp_loadComponent Inr cong: outcome.case_cong)
  qed
qed

end
