(* ===== verification/Component_Finalizer.thy ===== *)
theory Component_Finalizer
  imports Component_Run
begin

text \<open>
  The order of the calls of a run: the finalizer is there before anything is applied and
  goes only after everything was deleted, the status is written last, and a suspended
  component is left alone.
\<close>

section \<open>The finalizer\<close>

text \<open>What controllerutil documents of the two functions on finalizers.\<close>

definition finalizers_documented :: "platform \<Rightarrow> bool" where
  "finalizers_documented P \<longleftrightarrow>
     (\<forall>fs f. AddFinalizerTo P fs f = (if f \<in> set fs then (fs, False) else (fs @ [f], True)) \<and>
             RemoveFinalizerFrom P fs f = (filter (\<lambda>g. g \<noteq> f) fs, f \<in> set fs))"

text \<open>The finalizer is removed only after a Delete that returned true.\<close>

fun removes_after_delete :: "string \<Rightarrow> bool \<Rightarrow> cevent list \<Rightarrow> bool" where
  "removes_after_delete f deleted [] = True"
| "removes_after_delete f deleted (e # es) \<longleftrightarrow>
     (case e of CPatchFinalizers fs _ \<Rightarrow> f \<in> set fs \<or> deleted | _ \<Rightarrow> True) \<and>
     removes_after_delete f (deleted \<or> e = CDelete (Ok True)) es"

text \<open>Something is rendered or applied.\<close>

fun applies :: "cevent list \<Rightarrow> bool" where
  "applies [] = False"
| "applies (e # es) \<longleftrightarrow> (case e of CApply _ \<Rightarrow> True | CGenerate _ _ \<Rightarrow> True | _ \<Rightarrow> False) \<or> applies es"

text \<open>The status is written.\<close>

fun updates :: "cevent list \<Rightarrow> bool" where
  "updates [] = False"
| "updates (e # es) \<longleftrightarrow> (case e of CStatusUpdate _ _ \<Rightarrow> True | _ \<Rightarrow> False) \<or> updates es"

lemma updates_append [simp]: "updates (es @ es') \<longleftrightarrow> updates es \<or> updates es'"
  by (induction es) auto

lemma updates_target [simp]: "\<not> updates (map CTarget xs)"
  by (induction xs) auto

lemma updates_hooks [simp]: "hooks_only es \<Longrightarrow> \<not> updates es"
  by (induction es) (auto simp: hooks_only_def split: cevent.splits)

lemma updates_reports [simp]: "reports_only es \<Longrightarrow> \<not> updates es"
  by (induction es) (auto simp: reports_only_def split: cevent.splits)

lemma updates_mem: "\<not> updates es \<Longrightarrow> CStatusUpdate c err \<notin> set es"
  by (induction es) auto

lemma removes_append [simp]:
  "removes_after_delete f d (es @ es') \<longleftrightarrow> removes_after_delete f d es \<and> removes_after_delete f (d \<or> CDelete (Ok True) \<in> set es) es'"
  by (induction es arbitrary: d) (auto simp: disj_assoc eq_commute [of _ "CDelete (Ok True)"])

lemma removes_hooks [simp]: "hooks_only es \<Longrightarrow> removes_after_delete f d es"
  by (induction es arbitrary: d) (auto simp: hooks_only_def split: cevent.splits)

lemma hooks_no_delete [simp]: "hooks_only es \<Longrightarrow> CDelete x \<notin> set es"
  by (auto simp: hooks_only_def list_all_iff)

lemma removes_reports [simp]: "reports_only es \<Longrightarrow> removes_after_delete f d es"
  by (induction es arbitrary: d) (auto simp: reports_only_def split: cevent.splits)

lemma removes_target [simp]: "removes_after_delete f d (map CTarget xs)"
  by (induction xs arbitrary: d) auto

lemma applies_append [simp]: "applies (es @ es') \<longleftrightarrow> applies es \<or> applies es'"
  by (induction es) auto

lemma applies_target [simp]: "\<not> applies (map CTarget xs)"
  by (induction xs) auto

lemma applies_hooks [simp]: "hooks_only es \<Longrightarrow> \<not> applies es"
  by (induction es) (auto simp: hooks_only_def split: cevent.splits)

lemma applies_reports [simp]: "reports_only es \<Longrightarrow> \<not> applies es"
  by (induction es) (auto simp: reports_only_def split: cevent.splits)

lemma component_read_silent [simp]:
  "hooks_only es \<Longrightarrow> component_read es = None" "component_read (map CTarget xs) = None"
proof -
  show "component_read es = None" if "hooks_only es"
    using that by (induction es) (auto simp: hooks_only_def split: cevent.splits)
  show "component_read (map CTarget xs) = None" by (induction xs) auto
qed

lemma component_read_reports [simp]: "reports_only es \<Longrightarrow> component_read es = None"
  by (induction es) (auto simp: reports_only_def split: cevent.splits)

lemma finalizers_simps:
  assumes "finalizers_documented P"
  shows "AddFinalizer P c f = (if f \<in> set (Finalizers c) then (c, False) else (c\<lparr>Finalizers := Finalizers c @ [f]\<rparr>, True))"
    and "RemoveFinalizer P c f = (c\<lparr>Finalizers := filter (\<lambda>g. g \<noteq> f) (Finalizers c)\<rparr>, f \<in> set (Finalizers c))"
  using assms by (auto simp: AddFinalizer_def RemoveFinalizer_def finalizers_documented_def)

definition trace_ok :: "string \<Rightarrow> bool \<Rightarrow> cevent list \<Rightarrow> bool" where
  "trace_ok f has es \<longleftrightarrow> removes_after_delete f False es \<and> (applies es \<longrightarrow> has) \<and> component_read es = None \<and> \<not> updates es"

text \<open>The calls of the status handler.\<close>

lemma finish_trace:
  "wp (finishReconcile r req now retryInterval timeout savedStatus res) (\<lambda>_ t. \<exists>es c err. ctrace t = ctrace s @ es \<and>
     (reports_only es \<or> (\<exists>es'. reports_only es' \<and> es = es' @ [CStatusUpdate c err]))) s"
proof -
  obtain c n err where "settledAs r (timedOut now timeout (CompStatus (observed (comp s)))) retryInterval (observed (comp s)) res = (c, n, err)"
    by (metis surj_pair)
  then show ?thesis by (rule finish_callI) (auto simp: reports_only_def)
qed

context component_run begin

lemma deletePhase_trace:
  assumes "\<And>res t es. ctrace t = ctrace s @ es \<Longrightarrow> trace_ok (finalizerOf r) False es \<Longrightarrow> Q res t"
  shows "wp (deletePhase P r req saved tg) Q s"
proof -
  have "wp (deletePhase P r req saved tg) (\<lambda>res t. \<exists>es. ctrace t = ctrace s @ es \<and> trace_ok (finalizerOf r) False es) s"
    unfolding deletePhase_def wp_simps Let_def
    by (auto simp: wp_simps inventory_run_def Let_def trace_ok_def split: outcome.splits prod.splits option.splits
       intro!: next_callI hook_calls allowed_callI delete_callI finalizers_callI)
  then show ?thesis by (rule wp_conseq) (auto simp: trace_ok_def intro: assms)
qed

lemma applyPhase_trace:
  assumes "finalizers_documented P"
    and "\<And>res t es. ctrace t = ctrace s @ es \<Longrightarrow> trace_ok (finalizerOf r) (finalizerOf r \<in> set (Finalizers (comp s))) es \<Longrightarrow> Q res t"
  shows "wp (applyPhase P r req now interval saved tg) Q s"
proof -
  have "wp (applyPhase P r req now interval saved tg) (\<lambda>res t. \<exists>es. ctrace t = ctrace s @ es \<and>
      trace_ok (finalizerOf r) (finalizerOf r \<in> set (Finalizers (comp s))) es) s"
    unfolding applyPhase_def wp_simps Let_def
    by (auto simp: wp_simps inventory_run_def Let_def trace_ok_def finalizers_simps [OF assms(1)] apply_run_def
       split: outcome.splits prod.splits option.splits if_splits
       intro!: next_callI hook_calls apply_callI finalizers_callI)
  then show ?thesis by (rule wp_conseq) (auto intro: assms(2))
qed

lemma body_trace:
  assumes "finalizers_documented P" and H: "\<And>c d. H c d \<Longrightarrow> Finalizers d = Finalizers c"
  shows "wp (reconcileBody P r req now interval saved) (\<lambda>res t. \<exists>es. ctrace t = ctrace s @ es \<and>
    trace_ok (finalizerOf r) (finalizerOf r \<in> set (Finalizers (comp s))) es) s"
proof (rule body_callI)
  fix t :: "'w cst" and es tg
  assume t: "ctrace t = ctrace s @ es" "hooks_only es" "H (prepared (cdigest t) (comp s)) (comp t)"
  have "Finalizers (comp t) = Finalizers (comp s)" using H [OF t(3)] by (simp add: prepared_def Let_def)
  then show "wp (if DeletionTimestamp (comp t) = None then applyPhase P r req now interval saved tg else deletePhase P r req saved tg)
      (\<lambda>res t. \<exists>es. ctrace t = ctrace s @ es \<and> trace_ok (finalizerOf r) (finalizerOf r \<in> set (Finalizers (comp s))) es) t"
    using t(1,2) by (auto simp: trace_ok_def intro!: applyPhase_trace [OF assms(1)] deletePhase_trace)
qed (auto simp: trace_ok_def)

lemma Reconcile_trace:
  assumes "finalizers_documented P" and H: "\<And>c d. H c d \<Longrightarrow> Finalizers d = Finalizers c" and "setupComplete r"
  shows "wp (Reconcile P r req) (\<lambda>res t. \<exists>es. ctrace t = ctrace s @ es \<and>
    removes_after_delete (finalizerOf r) False es \<and>
    (applies es \<longrightarrow> (\<exists>c. component_read es = Some c \<and> finalizerOf r \<in> set (Finalizers c)))) s"
proof (rule Reconcile_callI [where B = "\<lambda>c now res t. \<exists>es. ctrace t = ctrace s @ [CReconciles, CGet req (Inr c)] @ es \<and>
    trace_ok (finalizerOf r) (finalizerOf r \<in> set (Finalizers c)) es"])
  fix u :: "'w cst" and c now
  assume u: "ctrace u = ctrace s @ [CReconciles, CGet req (Inr c)]" "comp u = typed r c"
  show "wp (reconcileBody P r req now (requeueIntervalOf c) (CompStatus c)) (\<lambda>res t. \<exists>es. ctrace t = ctrace s @ [CReconciles, CGet req (Inr c)] @ es \<and>
      trace_ok (finalizerOf r) (finalizerOf r \<in> set (Finalizers c)) es) u"
    by (rule wp_conseq [OF body_trace [OF assms(1) H]]) (auto simp: u typed_def)
next
  fix c now and res :: "goerr + int \<times> bool" and t :: "'w cst"
  assume "case res of Inl e \<Rightarrow> \<exists>es. ctrace t = ctrace s @ [CReconciles, CGet req (Inr c)] @ es \<and>
        trace_ok (finalizerOf r) (finalizerOf r \<in> set (Finalizers c)) es
    | Inr x \<Rightarrow> \<exists>es. ctrace t = ctrace s @ [CReconciles, CGet req (Inr c)] @ es \<and>
        trace_ok (finalizerOf r) (finalizerOf r \<in> set (Finalizers c)) es"
  then obtain es where t: "ctrace t = ctrace s @ [CReconciles, CGet req (Inr c)] @ es"
    "trace_ok (finalizerOf r) (finalizerOf r \<in> set (Finalizers c)) es" by (auto split: sum.splits)
  show "wp (finishReconcile r req now (retryIntervalOf c) (timeoutOf c) (CompStatus c) res) (\<lambda>res t. \<exists>es. ctrace t = ctrace s @ es \<and>
    removes_after_delete (finalizerOf r) False es \<and>
    (applies es \<longrightarrow> (\<exists>c. component_read es = Some c \<and> finalizerOf r \<in> set (Finalizers c)))) t"
    by (rule wp_conseq [OF finish_trace]) (use t in \<open>auto simp: trace_ok_def\<close>)
qed (use assms in \<open>auto simp: trace_ok_def\<close>)

end

text \<open>The contract of hooks as a run needs it.\<close>

lemma component_runI:
  assumes "hooks_respect H r" and "hook_relation H"
  shows "component_run H r"
  using assms by (simp add: component_run_def component_run_axioms_def)

lemma keeps_metadata_Finalizers: "keeps_metadata c d \<Longrightarrow> Finalizers d = Finalizers c"
  by (auto simp: keeps_metadata_def)

text \<open>
  C6: in every run, the finalizer of the component is removed only after a Delete of its
  dependent resources that returned true, and nothing is rendered or applied unless the
  component as it was read has the finalizer: adding it ends the run.
\<close>

theorem Reconcile_finalizer:
  assumes "finalizers_documented P" and "hooks_respect keeps_metadata r" and "setupComplete r"
  shows "removes_after_delete (finalizerOf r) False (calls_of (Reconcile P r req) s) \<and>
    (applies (calls_of (Reconcile P r req) s) \<longrightarrow>
      (\<exists>c. component_read (calls_of (Reconcile P r req) s) = Some c \<and> finalizerOf r \<in> set (Finalizers c)))"
proof -
  have run: "component_run keeps_metadata r"
    using assms(2) documented_hook.hook_relation_axioms by (rule component_runI)
  show ?thesis
    by (rule calls_of_wp, rule component_run.Reconcile_trace [OF run assms(1) _ assms(3)]) (rule keeps_metadata_Finalizers)
qed

end
