(* ===== verification/Reconciler_Requests.thy ===== *)
theory Reconciler_Requests
  imports Sample_Cluster
begin

text \<open>
  Which requests \<open>Apply\<close> and \<open>Delete\<close> send, for every behaviour of the API server: the
  guards of \<open>Reconciler_Guard\<close> interpreted for the ownership of deleted objects, for the
  inventory as a write-ahead log and for the delete policies, and the theorems they give.
\<close>

section \<open>The ways through Apply\<close>

lemma Apply_cases:
  assumes "Apply P r objects namespace ownerId cd s = (res, s')"
  obtains (failed) es where "\<forall>b. res \<noteq> Ok b" "inventory s' = inventory s"
      "trace s' = trace s @ es" "\<forall>e \<in> set es. \<not> is_write e"
  | (added) objs items n t es where "prepareObjects P r objects namespace s = (Ok objs, t)" "inventory t = inventory s"
      "res = Ok False" "0 < n"
      "addsAll P r (Sha256base32 P ownerId) cd objs (inventory s, 0) (items, n)"
      "inventory s' = newInventoryOf P objs items" "trace s' = trace s @ es" "\<forall>e \<in> set es. \<not> is_write e"
  | (synced) objs items t u es where "prepareObjects P r objects namespace s = (Ok objs, t)" "inventory t = inventory s"
      "addsAll P r (Sha256base32 P ownerId) cd objs (inventory s, 0) (items, 0)"
      "validateInventory P (map (markObsolete objs) items) = None"
      "inventory u = newInventoryOf P objs items" "trace u = trace s @ es" "\<forall>e \<in> set es. \<not> is_write e"
      "synchronize P r (Sha256base32 P ownerId) ownerId objs u = (res, s')"
proof -
  let ?h = "Sha256base32 P ownerId"
  obtain x t where prep: "prepareObjects P r objects namespace s = (x, t)" by force
  obtain es where es: "inventory t = inventory s" "trace t = trace s @ es" "\<forall>e \<in> set es. \<not> is_write e"
    using prep by (rule quiet_reads [OF rd.q.steps_prepareObjects])
  show ?thesis
  proof (cases x)
    case (Ok objs)
    obtain y u where inv: "prepareInventory P r ?h cd objs t = (y, u)" by force
    then show ?thesis
    proof (cases rule: prepareInventory_cases)
      case (failed fs)
      then show ?thesis
        using assms prep Ok es inv by (cases y) (auto simp: Apply_def Let_def bind_def intro!: that(1) [of "es @ fs"])
    next
      case (accepted n items fs)
      then have all: "\<forall>e \<in> set (es @ fs). \<not> is_write e" "trace u = trace s @ es @ fs" using es by auto
      show ?thesis
      proof (cases "0 < n")
        case True
        then have "res = Ok False" "s' = u"
          using assms prep Ok inv accepted(1) by (auto simp: Apply_def Let_def bind_def run_simps)
        then show ?thesis
          using prep Ok es(1) accepted all True by (intro that(2) [of objs t n items "es @ fs"]) auto
      next
        case False
        then have "synchronize P r ?h ownerId objs u = (res, s')" and "n = 0"
          using assms prep Ok inv accepted(1) by (auto simp: Apply_def Let_def bind_def run_simps)
        then show ?thesis
          using prep Ok es(1) accepted all by (intro that(3) [of objs t items u "es @ fs"]) auto
      qed
    qed
  qed (use assms prep es in \<open>auto simp: Apply_def Let_def bind_def intro!: that(1) [of es]\<close>)
qed

section \<open>Guards\<close>

text \<open>A delete request needs a read that shows the object as ours, or as gone.\<close>

definition owned_delete :: "'w Reconciler \<Rightarrow> string \<Rightarrow> facts \<Rightarrow> event \<Rightarrow> bool" where
  "owned_delete r h K e \<longleftrightarrow> (case e of
     EDelete k pre _ \<Rightarrow> \<exists>x. (object_id k, x) \<in> K \<and> pre = map_option ResourceVersion x \<and> \<not> foreignOwner r h x
   | _ \<Rightarrow> True)"

interpretation own: apply_guard "owned_delete r h" P r h cores for P :: platform and r :: "'w Reconciler" and h cores
proof
  show "owned_delete r h K e" if "\<not> is_write e" for K e
    using that by (cases e) (auto simp: owned_delete_def)
  show "owned_delete r h K' e" if "K \<subseteq> K'" "owned_delete r h K e" for K K' e
    using that by (cases e) (auto simp: owned_delete_def)
  show "owned_delete r h K e" if "\<not> is_delete e" for K and e
    using that by (cases e) (auto simp: owned_delete_def)
qed (auto simp: owned_delete_def)

text \<open>
  A request on an object needs an item of the inventory; the exception is the creation of
  the namespace of such an item. The finalizer patches of types are sent for the object
  the server returned for the name of an item.
\<close>

definition logged :: "InventoryItem list \<Rightarrow> event \<Rightarrow> bool" where
  "logged items e \<longleftrightarrow> (case e of
     EFinalizerPatch k _ _ _ \<Rightarrow> \<exists>item \<in> set items. GroupKindOf k = GroupKindOf item \<and> Name k = Name item
   | ECreate obj _ \<Rightarrow> object_id obj \<in> object_id ` set items
       \<or> (\<exists>item \<in> set items. Namespace item \<noteq> '''' \<and> obj = namespaceObject (Namespace item))
   | _ \<Rightarrow> (case written_key e of Some k \<Rightarrow> object_id k \<in> object_id ` set items | None \<Rightarrow> True))"

lemma logged_by_id: "written_key e = Some k \<Longrightarrow> object_id k \<in> object_id ` set items \<Longrightarrow> logged items e"
  by (cases e) (auto simp: logged_def object_id_def)

lemma ex_same_id:
  assumes "\<exists>x \<in> set items. Q x" and "object_id ` set items = object_id ` set items'"
    and "\<And>x y. object_id x = object_id y \<Longrightarrow> Q x \<Longrightarrow> Q y"
  shows "\<exists>y \<in> set items'. Q y"
proof -
  obtain x where "x \<in> set items" "Q x" using assms(1) by blast
  moreover from this assms(2) have "object_id x \<in> object_id ` set items'" by blast
  then obtain y where "y \<in> set items'" "object_id x = object_id y" by blast
  ultimately show ?thesis using assms(3) by blast
qed

lemma logged_ids:
  assumes ids: "object_id ` set items = object_id ` set items'" and "logged items e"
  shows "logged items' e"
proof -
  have "\<exists>item \<in> set items'. GroupKindOf k = GroupKindOf item \<and> Name k = Name item"
    if "\<exists>item \<in> set items. GroupKindOf k = GroupKindOf item \<and> Name k = Name item" for k :: ObjectKey
    by (rule ex_same_id [OF that ids]) (simp add: object_id_def)
  moreover have "\<exists>item \<in> set items'. Namespace item \<noteq> [] \<and> obj = namespaceObject (Namespace item)"
    if "\<exists>item \<in> set items. Namespace item \<noteq> [] \<and> obj = namespaceObject (Namespace item)" for obj
    by (rule ex_same_id [OF that ids]) (simp add: object_id_def)
  ultimately show ?thesis
    using assms unfolding logged_def
    by (cases e) (simp_all only: event.case written_key.simps option.case, blast+)
qed

definition logged_write :: "platform \<Rightarrow> 'w client \<Rightarrow> InventoryItem list \<Rightarrow> facts \<Rightarrow> event \<Rightarrow> bool" where
  "logged_write P c items K e \<longleftrightarrow> (unstructured_keeps P \<longrightarrow> reads_keep c \<longrightarrow> logged items e)"

interpretation wal: apply_guard "logged_write P (client r) cores" P r h cores
  for P :: platform and r :: "'w Reconciler" and h cores
proof
  show "logged_write P (client r) cores K e" if "\<not> is_write e" for K e
    using that by (cases e) (auto simp: logged_write_def logged_def)
  show "logged_write P (client r) cores K e"
    if "core item \<in> set cores" "written_key e = Some k" "\<not> is_delete e"
      "unstructured_keeps P \<Longrightarrow> object_id k = object_id item" for item e k and K
    unfolding logged_write_def
  proof (intro impI logged_by_id [OF that(2)])
    assume "unstructured_keeps P"
    then show "object_id k \<in> object_id ` set cores"
      using that(1,4) by (metis core_sel(11) imageI)
  qed
  show "logged_write P (client r) cores K (EDelete k (map_option ResourceVersion x) e)"
    if "core item \<in> set cores" "object_id k = object_id item" for item and k :: ObjectKey and x K e
    using that unfolding logged_write_def by (intro impI logged_by_id) (auto intro: rev_image_eqI)
  show "logged_write P (client r) cores K (EFinalizerPatch k rv fs e)"
    if "core item \<in> set cores" "reads_keep (client r) \<Longrightarrow> GroupKindOf k = GroupKindOf item \<and> Name k = Name item"
    for item and k :: ObjectKey and K rv fs e
    using that by (auto simp: logged_write_def logged_def intro!: bexI [of _ "core item"])
qed (simp add: logged_write_def)

text \<open>A deletion loop sends no delete request for items to be kept.\<close>

definition purge_delete :: "(InventoryItem \<Rightarrow> bool) \<Rightarrow> InventoryItem list \<Rightarrow> facts \<Rightarrow> event \<Rightarrow> bool" where
  "purge_delete keep items K e \<longleftrightarrow> (case e of
     EDelete k _ _ \<Rightarrow> \<exists>item \<in> set items. object_id item = object_id k \<and> \<not> keep item
   | _ \<Rightarrow> True)"

lemma purge_guard_policy:
  assumes "\<And>item. keep (core item) = keep item"
  shows "purge_guard (purge_delete keep cores) r h cores keep"
proof
  show "purge_delete keep cores K e" if "\<not> is_write e" for K e
    using that by (cases e) (auto simp: purge_delete_def)
  show "purge_delete keep cores K (EDelete k (map_option ResourceVersion x) e)"
    if "core item \<in> set cores" "\<not> keep item" "object_id k = object_id item" for item and k :: ObjectKey and x K e
    unfolding purge_delete_def event.case using that assms by (intro bexI [of _ "core item"] conjI) simp_all
qed (simp_all add: purge_delete_def)

definition orphanedOnApply :: "InventoryItem \<Rightarrow> bool" where
  "orphanedOnApply item \<longleftrightarrow> ItemDeletePolicy item = DeletePolicyOrphan \<or> ItemDeletePolicy item = DeletePolicyOrphanOnApply"

interpretation keepD: purge_guard "purge_delete orphanedOnDelete cores" P r h cores orphanedOnDelete
  for P r h cores
  by (rule purge_guard_policy) (simp add: orphanedOnDelete_def)

interpretation keepA: purge_guard "purge_delete orphanedOnApply cores" P r h cores orphanedOnApply
  for P r h cores
  by (rule purge_guard_policy) (simp add: orphanedOnApply_def)

section \<open>Ownership of what is deleted\<close>

text \<open>The calls a computation adds to the trace.\<close>

definition new_calls :: "('w, 'a) rcomp \<Rightarrow> 'w rst \<Rightarrow> event list" where
  "new_calls m s = drop (length (trace s)) (trace (snd (m s)))"

lemma new_calls_eq: "m s = (res, s') \<Longrightarrow> trace s' = trace s @ es \<Longrightarrow> new_calls m s = es"
  by (simp add: new_calls_def)

text \<open>
  Every delete request follows a read of the same object. With a precondition, that read
  returned the object in the version of the precondition, labelled as ours; without, it
  found nothing.
\<close>

definition justified_deletes :: "'w Reconciler \<Rightarrow> string \<Rightarrow> event list \<Rightarrow> bool" where
  "justified_deletes r h es \<longleftrightarrow> (\<forall>i < length es. case es ! i of
     EDelete k pre _ \<Rightarrow> \<exists>j < i. \<exists>key res. es ! j = EGet key res \<and> object_id key = object_id k \<and>
       (case pre of
          Some rv \<Rightarrow> \<exists>obj. res = Inr obj \<and> ResourceVersion obj = rv \<and> getString (Labels obj) (labelKeyOwnerId r) = h
        | None \<Rightarrow> \<exists>err. res = Inl err \<and> (IsNoMatchError err \<or> IsNotFound err))
   | _ \<Rightarrow> True)"

lemma safe_justified:
  assumes "safe (owned_delete r h) {} es"
  shows "justified_deletes r h es"
  unfolding justified_deletes_def
proof (intro allI impI)
  fix i assume i: "i < length es"
  show "case es ! i of
     EDelete k pre _ \<Rightarrow> \<exists>j < i. \<exists>key res. es ! j = EGet key res \<and> object_id key = object_id k \<and>
       (case pre of
          Some rv \<Rightarrow> \<exists>obj. res = Inr obj \<and> ResourceVersion obj = rv \<and> getString (Labels obj) (labelKeyOwnerId r) = h
        | None \<Rightarrow> \<exists>err. res = Inl err \<and> (IsNoMatchError err \<or> IsNotFound err))
   | _ \<Rightarrow> True"
  proof (cases "\<exists>k pre err. es ! i = EDelete k pre err")
    case True
    then obtain k pre err where e: "es ! i = EDelete k pre err" by blast
    obtain x where x: "(object_id k, x) \<in> fold learn (take i es) {}"
      and pre: "pre = map_option ResourceVersion x" "\<not> foreignOwner r h x"
      using safe_nth [OF assms i] unfolding e owned_delete_def by auto
    obtain j key res where "j < i" "es ! j = EGet key res" "object_id key = object_id k"
      "case x of Some obj \<Rightarrow> res = Inr obj | None \<Rightarrow> \<exists>err. res = Inl err \<and> (IsNoMatchError err \<or> IsNotFound err)"
      using learn_origin [OF x] by auto
    then show ?thesis
      unfolding e using pre by (cases x) (auto simp: foreignOwner_def)
  qed (auto split: event.split)
qed

lemma Apply_owned:
  "\<exists>es. trace (snd (Apply P r objects namespace ownerId cd s)) = trace s @ es
     \<and> safe (owned_delete r (Sha256base32 P ownerId)) {} es"
proof -
  obtain res s' where run: "Apply P r objects namespace ownerId cd s = (res, s')" by force
  then show ?thesis
  proof (cases rule: Apply_cases)
    case (synced objs items t u es)
    have "steps (own.p.purged r (Sha256base32 P ownerId) (map core (inventory u)))
        (synchronize P r (Sha256base32 P ownerId) ownerId objs)"
      by (rule own.purged_synchronize) (simp add: owned_delete_def)
    from stepsD [OF this synced(8)] obtain fs where
      "trace s' = trace u @ fs" "safe (owned_delete r (Sha256base32 P ownerId)) {} fs"
      by (auto simp: own.p.purged_def)
    then show ?thesis
      using synced(6) run own.safe_trans [OF own.safe_reads [OF synced(7)]] by (intro exI [of _ "es @ fs"]) auto
  qed (use run own.safe_reads in auto)
qed

text \<open>
  C1: every delete request sent by \<open>Reconciler.Apply\<close> follows, within the same call, a
  read of the same object; if the request has a resource version as precondition, the read
  returned the object in that version with the owner label of this component, and otherwise
  it found no object. This holds for every API server, every inventory and all objects,
  also when the call ends with an error or a panic.
\<close>

theorem Apply_deletes_own:
  "justified_deletes r (Sha256base32 P ownerId) (new_calls (Apply P r objects namespace ownerId componentDigest) s)"
proof -
  obtain es where "trace (snd (Apply P r objects namespace ownerId componentDigest s)) = trace s @ es"
      and safe: "safe (owned_delete r (Sha256base32 P ownerId)) {} es"
    using Apply_owned by blast
  then have "new_calls (Apply P r objects namespace ownerId componentDigest) s = es"
    by (simp add: new_calls_def)
  then show ?thesis using safe_justified [OF safe] by simp
qed

lemma DeleteAll_owned:
  "\<exists>es. trace (snd (DeleteAll P r ownerId s)) = trace s @ es
     \<and> safe (owned_delete r (Sha256base32 P ownerId)) {} es"
proof -
  obtain res s' where run: "DeleteAll P r ownerId s = (res, s')" by force
  have "steps (own.p.purged r (Sha256base32 P ownerId) (map core (inventory s))) (DeleteAll P r ownerId)"
    by (rule own.p.purged_DeleteAll [where keep = "\<lambda>_. False"]) simp_all
  from stepsD [OF this run] show ?thesis using run by (simp add: own.p.purged_def)
qed

lemma purge_safe_all:
  assumes "\<And>item. keep (core item) = keep item"
  shows "safe (purge_delete keep (map core items)) K es \<Longrightarrow> list_all (\<lambda>e. case e of
      EDelete k _ _ \<Rightarrow> \<exists>item \<in> set items. object_id item = object_id k \<and> \<not> keep item | _ \<Rightarrow> True) es"
proof (induction es arbitrary: K)
  case (Cons e es)
  then show ?case by (cases e) (auto simp: purge_delete_def assms)
qed simp

text \<open>
  C9: every delete request sent by \<open>Reconciler.Delete\<close> is justified by a read in the same
  way, and it is for an item of the inventory whose delete policy is neither
  \<open>orphan\<close> nor \<open>orphan-on-delete\<close>.
\<close>

theorem DeleteAll_deletes_own:
  "justified_deletes r (Sha256base32 P ownerId) (new_calls (DeleteAll P r ownerId) s)
   \<and> list_all (\<lambda>e. case e of
       EDelete k _ _ \<Rightarrow> \<exists>item \<in> set (inventory s). object_id item = object_id k \<and> \<not> orphanedOnDelete item
     | _ \<Rightarrow> True) (new_calls (DeleteAll P r ownerId) s)"
proof
  obtain es where es: "trace (snd (DeleteAll P r ownerId s)) = trace s @ es"
      and safe: "safe (owned_delete r (Sha256base32 P ownerId)) {} es"
    using DeleteAll_owned by blast
  then have new: "new_calls (DeleteAll P r ownerId) s = es"
    by (simp add: new_calls_def)
  then show "justified_deletes r (Sha256base32 P ownerId) (new_calls (DeleteAll P r ownerId) s)"
    using safe_justified [OF safe] by simp
  have "steps (keepD.purged (map core (inventory s))) (DeleteAll P r ownerId)"
    by (rule keepD.purged_DeleteAll) simp_all
  then have "safe (purge_delete orphanedOnDelete (map core (inventory s))) {} es"
    using es by (auto simp: steps_def keepD.purged_def)
  then show "list_all (\<lambda>e. case e of
       EDelete k _ _ \<Rightarrow> \<exists>item \<in> set (inventory s). object_id item = object_id k \<and> \<not> orphanedOnDelete item
     | _ \<Rightarrow> True) (new_calls (DeleteAll P r ownerId) s)"
    unfolding new by (rule purge_safe_all [rotated]) (simp add: orphanedOnDelete_def)
qed

text \<open>
  The deletion of redundant objects by \<open>Apply\<close> sends no delete request for an item
  whose delete policy is \<open>orphan\<close> or \<open>orphan-on-apply\<close>, whatever the cluster contains.
\<close>

theorem deleteRedundant_respects_policy:
  "list_all (\<lambda>e. case e of
       EDelete k _ _ \<Rightarrow> \<exists>item \<in> set (inventory s). object_id item = object_id k \<and> \<not> orphanedOnApply item
     | _ \<Rightarrow> True) (new_calls (deleteRedundant P r h) s)"
proof -
  have "steps (keepA.purged (map core (inventory s))) (deleteRedundant P r h)"
    by (rule keepA.purged_deleteRedundant) (simp add: orphanedOnApply_def)
  then obtain es where es: "trace (snd (deleteRedundant P r h s)) = trace s @ es"
    and safe: "safe (purge_delete orphanedOnApply (map core (inventory s))) {} es"
    by (auto simp: steps_def keepA.purged_def)
  have new: "new_calls (deleteRedundant P r h) s = es" using es by (simp add: new_calls_def)
  show ?thesis
    unfolding new by (rule purge_safe_all [OF _ safe]) (simp add: orphanedOnApply_def)
qed

section \<open>The inventory as a write-ahead log\<close>

lemma findMissingNamespaces_loop_sub:
  "n \<in> set (findMissingNamespaces_loop all objects ns) \<Longrightarrow>
    n \<in> set ns \<or> n \<noteq> [] \<and> (\<exists>object \<in> set objects. Namespace object = n)"
  by (induction all objects ns rule: findMissingNamespaces_loop.induct) (auto simp: Let_def split: if_splits)

lemma newInventoryOf_ids:
  assumes "sorts P"
  shows "object_id ` set (newInventoryOf P objs items) = object_id ` set items"
  unfolding newInventoryOf_def sortObjectsForDelete_def set_SortBy [OF assms] by (simp add: image_image)

lemma Apply_logged:
  assumes P: "sorts P" "unstructured_keeps P" and c: "reads_keep (client r)"
    and run: "Apply P r objects namespace ownerId cd s = (res, s')"
  shows "\<exists>es. trace s' = trace s @ es \<and> (\<forall>e \<in> set es. is_write e \<longrightarrow> logged (inventory s) e) \<and>
    ((\<exists>e \<in> set es. is_write e) \<longrightarrow> (\<exists>objs t. prepareObjects P r objects namespace s = (Ok objs, t) \<and>
       object_id ` set objs \<subseteq> object_id ` set (inventory s)))"
  using run
proof (cases rule: Apply_cases)
  case (synced objs items t u es)
  have ids: "object_id ` set items = object_id ` set (inventory s)"
    using addsAll_ids(2) [OF synced(3)] by (metis list.set_map)
  then have objs: "object_id ` set objs \<subseteq> object_id ` set (inventory s)"
    using addsAll_ids(3) [OF synced(3)] by auto
  have inv_u: "object_id ` set (map core (inventory u)) = object_id ` set (inventory s)"
    using newInventoryOf_ids [OF P(1)] ids synced(5) by (simp add: image_image)
  have "logged_write P (client r) (map core (inventory u)) {} (ECreate (namespaceObject n) e)"
    if "n \<in> set (findMissingNamespaces objs)" for n e
  proof -
    have "n \<noteq> []" and "\<exists>object \<in> set objs. Namespace object = n"
      using findMissingNamespaces_loop_sub [of n objs objs "[]"] that by (auto simp: findMissingNamespaces_def)
    then obtain object where "object \<in> set objs" "Namespace object = n" by blast
    moreover from this objs obtain item where "item \<in> set (inventory s)" "object_id object = object_id item"
      by blast
    ultimately have "item \<in> set (inventory s)" "Namespace item = n" by (simp_all add: object_id_def)
    then have "logged (inventory s) (ECreate (namespaceObject n) e)"
      using \<open>n \<noteq> []\<close> by (auto simp: logged_def)
    then show ?thesis
      using logged_ids [OF inv_u [symmetric]] by (simp add: logged_write_def)
  qed
  then have "steps (wal.p.purged P r (map core (inventory u))) (synchronize P r (Sha256base32 P ownerId) ownerId objs)"
    by (rule wal.purged_synchronize)
  from stepsD [OF this synced(8)] obtain fs where
    fs: "trace s' = trace u @ fs" "safe (logged_write P (client r) (map core (inventory u))) {} fs"
    by (auto simp: wal.p.purged_def)
  have "logged (inventory s) e" if "e \<in> set fs" for e
  proof -
    have "logged (map core (inventory u)) e"
      using that safe_nth [OF fs(2)] P c by (auto simp: in_set_conv_nth logged_write_def)
    then show ?thesis by (rule logged_ids [OF inv_u])
  qed
  then show ?thesis
    using synced fs(1) objs by (intro exI [of _ "es @ fs"]) auto
qed auto

definition writes_logged :: "InventoryItem list \<Rightarrow> event list \<Rightarrow> bool" where
  "writes_logged items es \<longleftrightarrow> (\<forall>e \<in> set es. is_write e \<longrightarrow> logged items e)"

text \<open>
  C2: the inventory is a write-ahead log. Every write request sent by \<open>Apply\<close> is for an
  object that has an item in the inventory the call was entered with (which the caller has
  persisted), or creates the namespace of such an item; and if any write request is sent,
  then every object to be applied has an item there. So a crash of the controller at any
  point leaves no object in the cluster that the persisted inventory does not know.
  Assumed of third-party code: sorting permutes, converting to unstructured keeps the key,
  a read returns the object asked for.
\<close>

theorem Apply_writes_ahead:
  assumes "sorts P" and "unstructured_keeps P" and "reads_keep (client r)"
  shows "writes_logged (inventory s)
      (new_calls (Apply P r objects namespace ownerId componentDigest) s)
    \<and> (list_ex is_write (new_calls (Apply P r objects namespace ownerId componentDigest) s) \<longrightarrow>
       (\<exists>objs t. prepareObjects P r objects namespace s = (Ok objs, t)
         \<and> object_id ` set objs \<subseteq> object_id ` set (inventory s)))"
proof -
  obtain res s' where run: "Apply P r objects namespace ownerId componentDigest s = (res, s')" by force
  obtain es where "trace s' = trace s @ es" and
    es: "\<forall>e \<in> set es. is_write e \<longrightarrow> logged (inventory s) e"
      "(\<exists>e \<in> set es. is_write e) \<longrightarrow> (\<exists>objs t. prepareObjects P r objects namespace s = (Ok objs, t) \<and>
         object_id ` set objs \<subseteq> object_id ` set (inventory s))"
    using Apply_logged [OF assms run] by blast
  then have "new_calls (Apply P r objects namespace ownerId componentDigest) s = es"
    using run by (simp add: new_calls_eq)
  with es show ?thesis by (simp add: writes_logged_def list_ex_iff)
qed

theorem Apply_writes_ahead_witness:
  "list_ex is_write (new_calls (sampleApply [sampleConfigMap ''a'']) storedState) \<and>
   writes_logged (inventory storedState) (new_calls (sampleApply [sampleConfigMap ''a'']) storedState) \<and>
   (\<exists>objs t. prepareObjects samplePlatform sampleReconciler [sampleConfigMap ''a''] ''ns'' storedState = (Ok objs, t)
     \<and> object_id ` set objs \<subseteq> object_id ` set (inventory storedState))"
proof -
  have "list_ex is_write (new_calls (sampleApply [sampleConfigMap ''a'']) storedState)"
    by code_simp
  then show ?thesis
    using Apply_writes_ahead [of samplePlatform sampleReconciler storedState "[sampleConfigMap ''a'']" "''ns''" "''owner''" "''d''"]
    by (simp add: sampleApply_def samplePlatform_sorts samplePlatform_keeps sampleClient_keeps)
qed

section \<open>Well-formedness\<close>

lemma wf_subseq: "subseq (map core items') (map core items) \<Longrightarrow> wf_inventory items \<Longrightarrow> wf_inventory items'"
proof -
  assume sub: "subseq (map core items') (map core items)" and wf: "wf_inventory items"
  have ids: "map object_id xs = map object_id (map core xs)" for xs by simp
  from sub have "subseq (map object_id (map core items')) (map object_id (map core items))"
    by (rule subseq_map)
  then show ?thesis
    using wf unfolding wf_inventory_def by (metis ids subseq_conv_nths distinct_nthsI)
qed

lemma wf_newInventoryOf:
  assumes "sorts P" and "addsAll P r h cd objs (inventory s, 0) (items, n)" and "wf_inventory (inventory s)"
  shows "wf_inventory (newInventoryOf P objs items)"
proof -
  have "wf_inventory items" using addsAll_ids(4) assms(2,3) by blast
  then have "wf_inventory (map (markObsolete objs) items)" by (simp add: wf_inventory_def comp_def)
  then show ?thesis using wf_sortObjectsForDelete assms(1) by (simp add: newInventoryOf_def)
qed

text \<open>
  C18: \<open>Apply\<close> and \<open>Delete\<close> keep the inventory free of duplicate keys (group, kind,
  namespace, name), on every path, errors and panics included. The lookups in the inventory
  panic on a duplicate.
\<close>

theorem reconciler_keeps_wf:
  assumes "sorts P" and "wf_inventory (inventory s)"
  shows "wf_inventory (inventory (snd (Apply P r objects namespace ownerId componentDigest s)))
    \<and> wf_inventory (inventory (snd (DeleteAll P r ownerId s)))"
proof
  obtain res s' where run: "Apply P r objects namespace ownerId componentDigest s = (res, s')" by force
  then show "wf_inventory (inventory (snd (Apply P r objects namespace ownerId componentDigest s)))"
  proof (cases rule: Apply_cases)
    case (synced objs items t u es)
    have wf: "wf_inventory (inventory u)"
      using wf_newInventoryOf [OF assms(1) synced(3) assms(2)] synced(5) by simp
    have "steps (own.p.purged r (Sha256base32 P ownerId) (map core (inventory u)))
        (synchronize P r (Sha256base32 P ownerId) ownerId objs)"
      by (rule own.purged_synchronize) (simp add: owned_delete_def)
    from stepsD [OF this synced(8)] have "subseq (map core (inventory s')) (map core (inventory u))"
      by (auto simp: own.p.purged_def)
    then show ?thesis using wf_subseq wf run by simp
  qed (use run assms wf_newInventoryOf [OF assms(1) _ assms(2)] in auto)
  obtain res s' where run: "DeleteAll P r ownerId s = (res, s')" by force
  have "steps (own.p.purged r (Sha256base32 P ownerId) (map core (inventory s))) (DeleteAll P r ownerId)"
    by (rule own.p.purged_DeleteAll [where keep = "\<lambda>_. False"]) simp_all
  from stepsD [OF this run] show "wf_inventory (inventory (snd (DeleteAll P r ownerId s)))"
    using wf_subseq assms(2) run by (auto simp: own.p.purged_def)
qed

theorem reconciler_keeps_wf_witness:
  "inventory storedState \<noteq> [] \<and>
   wf_inventory (inventory (snd (sampleApply [sampleConfigMap ''b''] storedState))) \<and>
   wf_inventory (inventory (snd (DeleteAll samplePlatform sampleReconciler ''owner'' storedState)))"
proof -
  have "inventory storedState \<noteq> []" and "wf_inventory (inventory storedState)"
    by code_simp+
  then show ?thesis
    using reconciler_keeps_wf [OF samplePlatform_sorts, of storedState sampleReconciler "[sampleConfigMap ''b'']" "''ns''" "''owner''" "''d''"]
    by (simp add: sampleApply_def)
qed

end
