(* ===== verification/Deletion_Waves.thy ===== *)
theory Deletion_Waves
  imports Reconciler_Requests
begin

text \<open>
  The two deletion loops of \<open>pkg/reconciler/reconciler.go\<close> (in \<open>Apply\<close> for redundant
  objects, in \<open>Delete\<close> for all). The locale \<open>purge_loop\<close> is the contract of one iteration;
  what it gives, the waves, is proved once in the locale and used for both loops through
  the interpretations.
\<close>

section \<open>The loop\<close>

lemma bind_gets: "bind (gets g) f s = f (g s) s"
  by (simp add: bind_def)

lemma order_nth:
  assumes "map core items = map core items'" and "k < length items"
  shows "ItemDeleteOrder (items ! k) = ItemDeleteOrder (items' ! k)"
    and "object_id (items ! k) = object_id (items' ! k)"
proof -
  have "core (items ! k) = core (items' ! k)"
    using assms by (metis length_map nth_map)
  then show "ItemDeleteOrder (items ! k) = ItemDeleteOrder (items' ! k)" "object_id (items ! k) = object_id (items' ! k)"
    by (metis core_sel(8), metis core_sel(11))
qed

lemma lastOfWave_core:
  assumes "map core items = map core items'" and "k < length items"
  shows "lastOfWave items k \<longleftrightarrow> lastOfWave items' k"
proof -
  have "length items = length items'" using assms(1) by (metis length_map)
  then show ?thesis
    using order_nth(1) [OF assms] order_nth(1) [OF assms(1), of "Suc k"] assms(2)
    by (cases "k = length items - 1") (simp_all add: lastOfWave_def)
qed

text \<open>In an inventory sorted by delete order, a wave end separates lower orders.\<close>

lemma wave_end_between:
  assumes "sorted (map ItemDeleteOrder items)" and "k < length items"
    and "j < length items" and "ItemDeleteOrder (items ! j) < ItemDeleteOrder (items ! k)"
  obtains l where "j \<le> l" "l < k" "lastOfWave items l"
proof -
  let ?o = "\<lambda>i. ItemDeleteOrder (items ! i)"
  have mono: "?o a \<le> ?o b" if "a \<le> b" "b < length items" for a b
    using assms(1) that by (simp add: sorted_iff_nth_mono)
  have "j < k" using assms mono [of k j] by (cases "k \<le> j") auto
  define l where "l = Max {i. i < k \<and> ?o i < ?o k}"
  have l: "l \<in> {i. i < k \<and> ?o i < ?o k}"
    unfolding l_def using assms(4) \<open>j < k\<close> by (intro Max_in) auto
  have "j \<le> l" unfolding l_def using assms(4) \<open>j < k\<close> by (intro Max_ge) auto
  moreover have "?o (Suc l) = ?o k"
  proof (cases "Suc l = k")
    case False
    then have "Suc l < k" using l by auto
    moreover have "Suc l \<notin> {i. i < k \<and> ?o i < ?o k}"
      using Max_ge [of "{i. i < k \<and> ?o i < ?o k}" "Suc l"] unfolding l_def by fastforce
    ultimately show ?thesis using mono [of "Suc l" k] assms(2) by auto
  qed simp
  ultimately show ?thesis using that l by (auto simp: lastOfWave_def)
qed

text \<open>
  One iteration on item \<open>k\<close>: it changes only that item, sends delete requests only for it,
  clears its phase only if the calls show \<open>why\<close>, and unless it counts the item as still to
  be deleted, the item is \<open>fin\<close>ished; at the end of a wave with items left it breaks.
\<close>

locale purge_loop =
  fixes step :: "nat \<Rightarrow> delete_counters \<Rightarrow> ('w, (delete_counters, unit) ctl) rcomp"
    and fin why :: "event list \<Rightarrow> InventoryItem \<Rightarrow> bool"
  assumes fin_mono: "fin es item \<Longrightarrow> set es \<subseteq> set es' \<Longrightarrow> fin es' item"
    and why_mono: "why es item \<Longrightarrow> set es \<subseteq> set es' \<Longrightarrow> why es' item"
    and why_core: "core item = core item' \<Longrightarrow> why es item \<Longrightarrow> why es item'"
    and frame: "step k c s = (res, s') \<Longrightarrow> k < length (inventory s) \<Longrightarrow>
      map core (inventory s') = map core (inventory s) \<and> (\<forall>j. j \<noteq> k \<longrightarrow> inventory s' ! j = inventory s ! j)"
    and calls: "step k c s = (res, s') \<Longrightarrow> k < length (inventory s) \<Longrightarrow>
      \<exists>es. trace s' = trace s @ es \<and> (\<forall>key pre err. EDelete key pre err \<in> set es \<longrightarrow> object_id key = object_id (inventory s ! k))
        \<and> (ItemPhase (inventory s' ! k) = PhaseNone \<longrightarrow> ItemPhase (inventory s ! k) = PhaseNone \<or> why es (inventory s ! k))
        \<and> (\<forall>x. res = Ok x \<longrightarrow> (\<exists>c' pending. numToBeDeleted c' = numToBeDeleted c + of_bool pending
             \<and> (\<not> pending \<longrightarrow> fin es (inventory s' ! k))
             \<and> x = (if lastOfWave (inventory s) k \<and> 0 < numToBeDeleted c' then Break c' else Next c')))"
begin

text \<open>
  Before item \<open>k\<close>: the waves that ended before \<open>k\<close> are finished, and the delete requests sent
  so far are for items below \<open>m\<close> whose lower orders are finished.
\<close>

definition invar :: "'w rst \<Rightarrow> nat \<Rightarrow> nat \<Rightarrow> event list \<Rightarrow> 'w rst \<Rightarrow> bool" where
  "invar s k m es t \<longleftrightarrow> map core (inventory t) = map core (inventory s) \<and> trace t = trace s @ es
     \<and> (\<forall>l < k. lastOfWave (inventory s) l \<longrightarrow> (\<forall>j \<le> l. fin es (inventory t ! j)))
     \<and> (\<forall>key pre err. EDelete key pre err \<in> set es \<longrightarrow> (\<exists>i < m.
          object_id key = object_id (inventory s ! i) \<and>
          (\<forall>j < length (inventory s). ItemDeleteOrder (inventory s ! j) < ItemDeleteOrder (inventory s ! i) \<longrightarrow>
             fin es (inventory t ! j))))"

lemma invar_del: "invar s k m es t \<Longrightarrow> EDelete key pre err \<in> set es \<Longrightarrow> \<exists>i < m.
    object_id key = object_id (inventory s ! i) \<and>
    (\<forall>j < length (inventory s). ItemDeleteOrder (inventory s ! j) < ItemDeleteOrder (inventory s ! i) \<longrightarrow>
       fin es (inventory t ! j))"
  unfolding invar_def by blast

lemma invar_step:
  assumes sorted: "sorted (map ItemDeleteOrder (inventory s))"
    and inv: "invar s k k es t" and fins: "numToBeDeleted c = 0 \<longrightarrow> (\<forall>j < k. fin es (inventory t ! j))"
    and k: "k < length (inventory s)" and run: "step k c t = (res, u)"
  obtains fs where "invar s k (Suc k) fs u" and "\<forall>x. res = Ok x \<longrightarrow>
      (\<exists>c'. x = Next c' \<and> invar s (Suc k) (Suc k) fs u \<and> (numToBeDeleted c' = 0 \<longrightarrow> (\<forall>j < Suc k. fin fs (inventory u ! j))))
      \<or> (\<exists>c'. x = Break c' \<and> 0 < numToBeDeleted c')"
proof -
  have cores: "map core (inventory t) = map core (inventory s)" using inv by (simp add: invar_def)
  then have len: "length (inventory t) = length (inventory s)" by (metis length_map)
  from frame [OF run] k len have frm: "map core (inventory u) = map core (inventory t)"
    "\<And>j. j \<noteq> k \<Longrightarrow> inventory u ! j = inventory t ! j" by auto
  from calls [OF run] k len obtain es' where es': "trace u = trace t @ es'"
    and del: "\<And>key pre err. EDelete key pre err \<in> set es' \<Longrightarrow> object_id key = object_id (inventory t ! k)"
    and res: "\<And>x. res = Ok x \<Longrightarrow> \<exists>c' pending. numToBeDeleted c' = numToBeDeleted c + of_bool pending
             \<and> (\<not> pending \<longrightarrow> fin es' (inventory u ! k))
             \<and> x = (if lastOfWave (inventory t) k \<and> 0 < numToBeDeleted c' then Break c' else Next c')"
    by auto
  let ?fs = "es @ es'"
  have old: "fin ?fs (inventory u ! j)" if "fin es (inventory t ! j)" "j < k" for j
    using that frm(2) [of j] fin_mono [of es] by auto
  have waves: "fin ?fs (inventory u ! j)" if "l < k" "lastOfWave (inventory s) l" "j \<le> l" for l j
    using inv that old [of j] by (auto simp: invar_def)
  have lower: "fin ?fs (inventory u ! j)"
    if "j < length (inventory s)" "ItemDeleteOrder (inventory s ! j) < ItemDeleteOrder (inventory s ! k)" for j
    using wave_end_between [OF sorted k that] waves by metis
  have dels: "\<exists>i < Suc k. object_id key = object_id (inventory s ! i) \<and>
      (\<forall>j < length (inventory s). ItemDeleteOrder (inventory s ! j) < ItemDeleteOrder (inventory s ! i) \<longrightarrow> fin ?fs (inventory u ! j))"
    if ev: "EDelete key pre err \<in> set ?fs" for key pre err
  proof (cases "EDelete key pre err \<in> set es'")
    case True
    have "object_id key = object_id (inventory s ! k)"
      using del [OF True] order_nth(2) [OF cores, of k] k len by simp
    then show ?thesis using lower by blast
  next
    case False
    then obtain i where i: "i < k" "object_id key = object_id (inventory s ! i)"
      and low: "\<And>j. j < length (inventory s) \<Longrightarrow> ItemDeleteOrder (inventory s ! j) < ItemDeleteOrder (inventory s ! i) \<Longrightarrow> fin es (inventory t ! j)"
      using invar_del [OF inv] ev by auto blast
    have "fin ?fs (inventory u ! j)" if j: "j < length (inventory s)" "ItemDeleteOrder (inventory s ! j) < ItemDeleteOrder (inventory s ! i)" for j
    proof -
      have "j \<noteq> k" using sorted_nth_mono [OF sorted, of i k] j i(1) k by auto
      then show ?thesis using low [OF j] frm(2) fin_mono [of es] by auto
    qed
    with i show ?thesis by (meson less_SucI)
  qed
  have trc: "map core (inventory u) = map core (inventory s)" "trace u = trace s @ ?fs"
    using frm(1) cores es' inv by (auto simp: invar_def)
  have last: "lastOfWave (inventory t) k \<longleftrightarrow> lastOfWave (inventory s) k"
    using lastOfWave_core [OF cores] k len by simp
  show ?thesis
  proof (rule that [of ?fs])
    show "invar s k (Suc k) ?fs u"
      using trc waves dels unfolding invar_def by blast
    show "\<forall>x. res = Ok x \<longrightarrow> (\<exists>c'. x = Next c' \<and> invar s (Suc k) (Suc k) ?fs u \<and> (numToBeDeleted c' = 0 \<longrightarrow> (\<forall>j < Suc k. fin ?fs (inventory u ! j))))
      \<or> (\<exists>c'. x = Break c' \<and> 0 < numToBeDeleted c')"
    proof (intro allI impI)
    fix x assume "res = Ok x"
    from res [OF this] obtain c' pending where c': "numToBeDeleted c' = numToBeDeleted c + of_bool pending"
      "\<not> pending \<longrightarrow> fin es' (inventory u ! k)"
      "x = (if lastOfWave (inventory s) k \<and> 0 < numToBeDeleted c' then Break c' else Next c')"
      unfolding last by blast
    have fin_all: "\<forall>j < Suc k. fin ?fs (inventory u ! j)" if "numToBeDeleted c' = 0"
      using that c'(1,2) fins old fin_mono [of es' _ ?fs] by (auto simp: less_Suc_eq)
    show "(\<exists>c'. x = Next c' \<and> invar s (Suc k) (Suc k) ?fs u \<and> (numToBeDeleted c' = 0 \<longrightarrow> (\<forall>j < Suc k. fin ?fs (inventory u ! j))))
      \<or> (\<exists>c'. x = Break c' \<and> 0 < numToBeDeleted c')"
    proof (cases "lastOfWave (inventory s) k \<and> 0 < numToBeDeleted c'")
      case False
      have "\<forall>l < Suc k. lastOfWave (inventory s) l \<longrightarrow> (\<forall>j \<le> l. fin ?fs (inventory u ! j))"
        using waves fin_all False by (metis le_imp_less_Suc less_SucE neq0_conv)
      then have "invar s (Suc k) (Suc k) ?fs u" using trc dels unfolding invar_def by blast
      then show ?thesis using c'(3) False fin_all by auto
    qed (use c'(3) in auto)
    qed
  qed
qed

text \<open>
  The whole loop: if nothing is left to be deleted, all items are finished; and a delete
  request is sent for an item only if all items of lower order are finished.
\<close>

lemma purge_waves:
  assumes sorted: "sorted (map ItemDeleteOrder (inventory s))"
    and run: "for_each [0..<length (inventory s)] c step s = (res, t)" and c: "numToBeDeleted c = 0"
  obtains es where "map core (inventory t) = map core (inventory s)" "trace t = trace s @ es"
    "\<forall>key pre err. EDelete key pre err \<in> set es \<longrightarrow> (\<exists>i < length (inventory s).
       object_id key = object_id (inventory s ! i) \<and>
       (\<forall>j < length (inventory s). ItemDeleteOrder (inventory s ! j) < ItemDeleteOrder (inventory s ! i) \<longrightarrow> fin es (inventory t ! j)))"
    "\<forall>x. res = Ok x \<longrightarrow> (\<exists>c'. x = Next c' \<and> (numToBeDeleted c' = 0 \<longrightarrow> (\<forall>j < length (inventory s). fin es (inventory t ! j))))"
proof -
  let ?n = "length (inventory s)"
  let ?I = "\<lambda>(pre :: nat list) c t. \<exists>es. invar s (length pre) (length pre) es t \<and> (numToBeDeleted c = 0 \<longrightarrow> (\<forall>j < length pre. fin es (inventory t ! j)))"
  let ?E = "\<lambda>es t. \<exists>k m. m \<le> ?n \<and> invar s k m es t"
  let ?Q = "\<lambda>res t. \<exists>es. ?E es t \<and> (\<forall>x. res = Ok x \<longrightarrow>
      (\<exists>c'. x = Next c' \<and> (numToBeDeleted c' = 0 \<longrightarrow> (\<forall>j < ?n. fin es (inventory t ! j)))))"
  have "triple (?I [] c) (for_each [0..<?n] c step) ?Q"
  proof (rule triple_for_each [where I = ?I and B = "\<lambda>c t. 0 < numToBeDeleted c \<and> (\<exists>es. ?E es t)"])
    fix pre k post c
    assume split: "[0..<?n] = pre @ k # post"
    then have "length pre < ?n" by (metis length_append length_upt diff_zero less_add_same_cancel1 list.size(4) zero_less_Suc add_Suc_right)
    then have k: "k < ?n" "length pre = k"
      using split by (metis nth_append_length nth_upt add.left_neutral)+
    show "triple (?I pre c) (step k c) (\<lambda>r t. case r of
          Ok (Next c') \<Rightarrow> ?I (pre @ [k]) c' t | Ok (Break c') \<Rightarrow> 0 < numToBeDeleted c' \<and> (\<exists>es. ?E es t)
        | Ok (Return x) \<Rightarrow> ?Q (Ok (Return x)) t | Err e \<Rightarrow> ?Q (Err e) t | Panic p \<Rightarrow> ?Q (Panic p) t)"
    proof (rule tripleI, elim exE conjE)
      fix t res u es
      assume inv: "invar s (length pre) (length pre) es t"
        and fins: "numToBeDeleted c = 0 \<longrightarrow> (\<forall>j < length pre. fin es (inventory t ! j))"
        and run: "step k c t = (res, u)"
      obtain fs where fs: "invar s k (Suc k) fs u" and ok: "\<forall>x. res = Ok x \<longrightarrow>
          (\<exists>c'. x = Next c' \<and> invar s (Suc k) (Suc k) fs u \<and> (numToBeDeleted c' = 0 \<longrightarrow> (\<forall>j < Suc k. fin fs (inventory u ! j))))
          \<or> (\<exists>c'. x = Break c' \<and> 0 < numToBeDeleted c')"
        by (rule invar_step [OF sorted inv [unfolded k(2)] fins [unfolded k(2)] k(1) run])
      then have E: "?E fs u" using k(1) Suc_leI by blast
      show "case res of
          Ok (Next c') \<Rightarrow> ?I (pre @ [k]) c' u | Ok (Break c') \<Rightarrow> 0 < numToBeDeleted c' \<and> (\<exists>es. ?E es u)
        | Ok (Return x) \<Rightarrow> ?Q (Ok (Return x)) u | Err e \<Rightarrow> ?Q (Err e) u | Panic p \<Rightarrow> ?Q (Panic p) u"
      proof (cases res)
        case (Ok x)
        with ok consider c' where "x = Next c'" "invar s (Suc k) (Suc k) fs u"
              "numToBeDeleted c' = 0 \<longrightarrow> (\<forall>j < Suc k. fin fs (inventory u ! j))"
            | c' where "x = Break c'" "0 < numToBeDeleted c'" by blast
        then show ?thesis
        proof cases
          case 1
          then show ?thesis using Ok k(2) by auto
        next
          case 2
          then show ?thesis unfolding Ok outcome.case 2(1) ctl.case using E by blast
        qed
      qed (use E in auto)
    qed
  next
    fix c t assume "?I [0..<?n] c t"
    then obtain es where inv: "invar s ?n ?n es t" and "numToBeDeleted c = 0 \<longrightarrow> (\<forall>j < ?n. fin es (inventory t ! j))"
      by auto
    moreover from inv have "?E es t" by blast
    ultimately show "?Q (Ok (Next c)) t" by (intro exI [of _ es]) auto
  next
    fix c t assume "0 < numToBeDeleted c \<and> (\<exists>es. ?E es t)"
    then show "?Q (Ok (Next c)) t" by auto
  qed
  moreover have "?I [] c s" using c by (auto simp: invar_def)
  ultimately have "?Q res t" using run by (rule tripleD)
  then obtain es k m where m: "m \<le> ?n" and inv: "invar s k m es t"
    and ok: "\<forall>x. res = Ok x \<longrightarrow> (\<exists>c'. x = Next c' \<and> (numToBeDeleted c' = 0 \<longrightarrow> (\<forall>j < ?n. fin es (inventory t ! j))))"
    by blast
  show ?thesis
  proof (rule that [of es])
    show "map core (inventory t) = map core (inventory s)" "trace t = trace s @ es"
      using inv by (simp_all add: invar_def)
    show "\<forall>key pre err. EDelete key pre err \<in> set es \<longrightarrow> (\<exists>i < ?n. object_id key = object_id (inventory s ! i) \<and>
       (\<forall>j < ?n. ItemDeleteOrder (inventory s ! j) < ItemDeleteOrder (inventory s ! i) \<longrightarrow> fin es (inventory t ! j)))"
      using invar_del [OF inv] m by (meson less_le_trans)
  qed (use ok in blast)
qed

text \<open>The phase of an item is cleared for a reason only.\<close>

definition cleared :: "InventoryItem list \<Rightarrow> 'w rst \<Rightarrow> 'w rst \<Rightarrow> bool" where
  "cleared cores s t \<longleftrightarrow> map core (inventory s) = cores \<longrightarrow> map core (inventory t) = cores \<and>
     (\<exists>es. trace t = trace s @ es \<and> (\<forall>j < length cores. ItemPhase (inventory t ! j) = PhaseNone \<longrightarrow>
        ItemPhase (inventory s ! j) = PhaseNone \<or> why es (cores ! j)))"

lemma cleared_trans:
  assumes "cleared cores s t" and "cleared cores t u"
  shows "cleared cores s u"
proof (cases "map core (inventory s) = cores")
  case True
  from True assms obtain es fs where "map core (inventory u) = cores"
    and es: "trace t = trace s @ es" "\<forall>j < length cores. ItemPhase (inventory t ! j) = PhaseNone \<longrightarrow>
        ItemPhase (inventory s ! j) = PhaseNone \<or> why es (cores ! j)"
    and fs: "trace u = trace t @ fs" "\<forall>j < length cores. ItemPhase (inventory u ! j) = PhaseNone \<longrightarrow>
        ItemPhase (inventory t ! j) = PhaseNone \<or> why fs (cores ! j)"
    unfolding cleared_def by blast
  moreover have "why es x \<Longrightarrow> why (es @ fs) x" "why fs x \<Longrightarrow> why (es @ fs) x" for x
    by (auto intro: why_mono)
  ultimately show ?thesis
    unfolding cleared_def by (metis append_assoc)
qed (simp add: cleared_def)

lemma cleared_step: "k < length cores \<Longrightarrow> steps (cleared cores) (step k c)"
  unfolding steps_def
proof
  fix s assume k: "k < length cores"
  obtain res s' where run: "step k c s = (res, s')" by force
  show "cleared cores s (snd (step k c s))"
  proof (cases "map core (inventory s) = cores")
    case True
    then have k': "k < length (inventory s)" and ck: "core (inventory s ! k) = core (cores ! k)"
      using k by (auto simp flip: True)
    from calls [OF run k'] obtain es where es: "trace s' = trace s @ es"
      "ItemPhase (inventory s' ! k) = PhaseNone \<longrightarrow> ItemPhase (inventory s ! k) = PhaseNone \<or> why es (inventory s ! k)"
      by blast
    then have "ItemPhase (inventory s' ! j) = PhaseNone \<longrightarrow> ItemPhase (inventory s ! j) = PhaseNone \<or> why es (cores ! j)" for j
      using frame [OF run k'] why_core [OF ck] by (cases "j = k") auto
    then show ?thesis
      unfolding cleared_def run snd_conv using frame [OF run k'] True es(1) by blast
  qed (simp add: cleared_def)
qed

end

sublocale purge_loop \<subseteq> cl: step_relation "cleared cores" for cores
proof
  show "cleared cores s s" for s unfolding cleared_def by (auto intro: exI [of _ "[]"])
qed (rule cleared_trans)

context purge_loop begin

lemma purge_cleared:
  assumes "for_each [0..<length (inventory s)] c step s = (res, t)" and "trace t = trace s @ es"
    and "j < length (inventory s)" and "ItemPhase (inventory t ! j) = PhaseNone" and "ItemPhase (inventory s ! j) \<noteq> PhaseNone"
  shows "why es (inventory s ! j)"
proof -
  let ?cores = "map core (inventory s)"
  have "steps (cleared ?cores) (for_each [0..<length (inventory s)] c step)"
    by (intro cl.steps_for_each cleared_step) simp
  from stepsD [OF this assms(1)] have "why es (?cores ! j)"
    using assms(2-5) by (auto simp: cleared_def)
  then show ?thesis using why_core [of "core (inventory s ! j)"] assms(3) by simp
qed

end

section \<open>One item\<close>

text \<open>The guard that allows delete requests for one key only.\<close>

definition deletes_only :: "string \<times> string \<times> string \<times> string \<Rightarrow> facts \<Rightarrow> event \<Rightarrow> bool" where
  "deletes_only i K e \<longleftrightarrow> (case e of EDelete k _ _ \<Rightarrow> object_id k = i | _ \<Rightarrow> True)"

interpretation only: guard "deletes_only i" for i
  by unfold_locales (auto simp: deletes_only_def split: event.splits)

lemma safe_deletes_only:
  "safe (deletes_only i) K es \<Longrightarrow> EDelete key pre err \<in> set es \<Longrightarrow> object_id key = i"
  by (induction es arbitrary: K) (auto simp: deletes_only_def)

text \<open>
  A computation that decides about the item at \<open>k\<close>: it touches that item only, in phase,
  status and time, and answers \<open>False\<close> (not pending) only with the phase cleared, because
  \<open>reason\<close>.
\<close>

definition decides :: "nat \<Rightarrow> string \<times> string \<times> string \<times> string \<Rightarrow> bool \<Rightarrow> ('w, bool) rcomp \<Rightarrow> bool" where
  "decides k i reason m \<longleftrightarrow> (\<forall>s res s'. m s = (res, s') \<longrightarrow> k < length (inventory s) \<longrightarrow>
     (\<exists>es item. trace s' = trace s @ es \<and> safe (deletes_only i) {} es \<and>
        core item = core (inventory s ! k) \<and> inventory s' = (inventory s)[k := item] \<and>
        (res = Ok False \<longrightarrow> ItemPhase item = PhaseNone \<and> reason) \<and>
        (ItemPhase item = PhaseNone \<longrightarrow> ItemPhase (inventory s ! k) = PhaseNone \<or> reason) \<and>
        ItemPhase item \<in> {ItemPhase (inventory s ! k), PhaseNone, PhaseDeleting}))"

lemma decidesD:
  assumes "decides k i reason m" and "m s = (res, s')" and "k < length (inventory s)"
  obtains es item where "trace s' = trace s @ es" "safe (deletes_only i) {} es"
    "core item = core (inventory s ! k)" "inventory s' = (inventory s)[k := item]"
    "res = Ok False \<Longrightarrow> ItemPhase item = PhaseNone \<and> reason"
    "ItemPhase item = PhaseNone \<Longrightarrow> ItemPhase (inventory s ! k) = PhaseNone \<or> reason"
    "ItemPhase item \<in> {ItemPhase (inventory s ! k), PhaseNone, PhaseDeleting}"
  using assms unfolding decides_def by blast

lemma decides_keep: "inventory s' = inventory s \<Longrightarrow> trace s' = trace s @ es \<Longrightarrow> safe (deletes_only i) {} es \<Longrightarrow>
    res \<noteq> Ok False \<Longrightarrow> \<exists>es item. trace s' = trace s @ es \<and> safe (deletes_only i) {} es \<and>
        core item = core (inventory s ! k) \<and> inventory s' = (inventory s)[k := item] \<and>
        (res = Ok False \<longrightarrow> ItemPhase item = PhaseNone \<and> reason) \<and>
        (ItemPhase item = PhaseNone \<longrightarrow> ItemPhase (inventory s ! k) = PhaseNone \<or> reason) \<and>
        ItemPhase item \<in> {ItemPhase (inventory s ! k), PhaseNone, PhaseDeleting}"
  by (intro exI [of _ es] exI [of _ "inventory s ! k"]) simp

lemma decides_ret: "decides k i reason (ret True)"
  unfolding decides_def ret_def by (auto intro!: decides_keep [where es = "[]"])

lemma decides_if: "(b \<Longrightarrow> decides k i reason m) \<Longrightarrow> (\<not> b \<Longrightarrow> decides k i reason n) \<Longrightarrow> decides k i reason (if b then m else n)"
  by simp

lemma decides_fail: "decides k i reason (fail e)"
  unfolding decides_def fail_def by (auto intro!: decides_keep [where es = "[]"])

lemma decides_clear:
  "reason \<Longrightarrow> decides k i reason (seq (upd_item k (\<lambda>item. item\<lparr>ItemPhase := PhaseNone\<rparr>)) (ret False))"
  unfolding decides_def
  by (auto simp: upd_item_def seq_def bind_def run_simps intro!: exI [of _ "[]"] exI [of _ "_\<lparr>ItemPhase := PhaseNone\<rparr>"])

lemma decides_awaitDeletion:
  assumes "existing = None \<or> foreignOwner r h existing \<Longrightarrow> reason"
  shows "decides k i reason (awaitDeletion P r h k item existing)"
  using assms unfolding awaitDeletion_def
  by (cases existing) (auto simp: foreignOwner_def intro!: decides_clear decides_ret decides_fail decides_if)

lemma decides_orphanOrDelete:
  assumes "orphan \<Longrightarrow> reason" and i: "object_id item = i"
  shows "decides k i reason (orphanOrDelete P r h k item existing orphan)"
  unfolding decides_def
proof (intro allI impI)
  fix s res s'
  assume run: "orphanOrDelete P r h k item existing orphan s = (res, s')" and k: "k < length (inventory s)"
  let ?call = "if orphan then map_err (wrapItem P ''error orphaning object %s'' item) (orphanObject P r existing h)
    else map_err (wrapItem P ''error deleting object %s'' item) (deleteObject P r item existing h)"
  obtain x t where call: "?call s = (x, t)" by force
  have "steps (quiet (deletes_only i) {}) ?call"
    using i by (intro step_if only.q.steps_map_err only.q.steps_orphanObject only.q.steps_deleteObject)
      (auto simp: deletes_only_def may_delete_def may_release_def)
  from stepsD [OF this call] obtain es where es: "inventory t = inventory s" "trace t = trace s @ es"
    "safe (deletes_only i) {} es" by (auto simp: quiet_def)
  let ?f = "if orphan then (\<lambda>item. item\<lparr>ItemPhase := PhaseNone\<rparr>)
    else (\<lambda>item. item\<lparr>ItemPhase := PhaseDeleting, ItemStatus := TerminatingStatus\<rparr>)"
  show "\<exists>es item. trace s' = trace s @ es \<and> safe (deletes_only i) {} es \<and>
        core item = core (inventory s ! k) \<and> inventory s' = (inventory s)[k := item] \<and>
        (res = Ok False \<longrightarrow> ItemPhase item = PhaseNone \<and> reason) \<and>
        (ItemPhase item = PhaseNone \<longrightarrow> ItemPhase (inventory s ! k) = PhaseNone \<or> reason) \<and>
        ItemPhase item \<in> {ItemPhase (inventory s ! k), PhaseNone, PhaseDeleting}"
  proof (cases x)
    case (Ok y)
    then have "inventory s' = (inventory s)[k := ?f (inventory s ! k)]" "trace s' = trace t" "res = Ok (\<not> orphan)"
      using run call es(1) by (auto simp: orphanOrDelete_def seq_def bind_def upd_item_def run_simps split: if_splits)
    then show ?thesis
      using es assms(1) by (intro exI [of _ es] exI [of _ "?f (inventory s ! k)"]) auto
  next
    case (Err e)
    then show ?thesis
      using run call es by (intro decides_keep) (auto simp: orphanOrDelete_def seq_def bind_def split: if_splits)
  next
    case (Panic p)
    then show ?thesis
      using run call es by (intro decides_keep) (auto simp: orphanOrDelete_def seq_def bind_def split: if_splits)
  qed
qed

text \<open>A read of the object before the decision shows in the calls.\<close>

definition read_gone :: "'w Reconciler \<Rightarrow> string \<Rightarrow> string \<times> string \<times> string \<times> string \<Rightarrow> event list \<Rightarrow> bool" where
  "read_gone r h i es \<longleftrightarrow> (\<exists>key res. EGet key res \<in> set es \<and> object_id key = i \<and> (case res of
     Inr obj \<Rightarrow> getString (Labels obj) (labelKeyOwnerId r) \<noteq> h
   | Inl err \<Rightarrow> IsNoMatchError err \<or> IsNotFound err))"

definition settles :: "nat \<Rightarrow> string \<times> string \<times> string \<times> string \<Rightarrow> (event list \<Rightarrow> InventoryItem \<Rightarrow> bool) \<Rightarrow>
    (event list \<Rightarrow> bool) \<Rightarrow> ('w, bool) rcomp \<Rightarrow> bool" where
  "settles k i Q C m \<longleftrightarrow> (\<forall>s res s'. m s = (res, s') \<longrightarrow> k < length (inventory s) \<longrightarrow>
     (\<exists>es item. trace s' = trace s @ es \<and> safe (deletes_only i) {} es \<and>
        core item = core (inventory s ! k) \<and> inventory s' = (inventory s)[k := item] \<and>
        (res = Ok False \<longrightarrow> Q es item) \<and>
        (ItemPhase item = PhaseNone \<longrightarrow> ItemPhase (inventory s ! k) = PhaseNone \<or> C es) \<and>
        ItemPhase item \<in> {ItemPhase (inventory s ! k), PhaseNone, PhaseDeleting}))"

lemma settles_read:
  fixes r :: "'w Reconciler"
  assumes m: "\<And>x. decides k (object_id key) (orphan \<or> x = None \<or> foreignOwner r h x) (m x)"
  shows "settles k (object_id key) (\<lambda>es item. ItemPhase item = PhaseNone \<and> (orphan \<or> read_gone r h (object_id key) es))
    (\<lambda>es. orphan \<or> read_gone r h (object_id key) es) (bind (map_err w (readObject r key)) m)"
  unfolding settles_def
proof (intro allI impI)
  fix s res s'
  assume run: "bind (map_err w (readObject r key)) m s = (res, s')" and k: "k < length (inventory s)"
  let ?i = "object_id key"
  obtain a w' ms where ms: "ms = [] \<or> ms = [EMetric ReadCounter]"
    and read: "readObject r key s = (case a of Inr obj \<Rightarrow> Ok (Some obj)
       | Inl err \<Rightarrow> if IsNoMatchError err \<or> IsNotFound err then Ok None else Err err,
       s\<lparr>world := w', trace := trace s @ ms @ [EGet (ObjectKeyOf key) a]\<rparr>)" (is "_ = (_, ?t)")
    by (rule readObject_run)
  let ?es = "ms @ [EGet (ObjectKeyOf key) a]"
  have safe: "safe (deletes_only ?i) {} ?es"
    using ms by (auto simp: deletes_only_def)
  show "\<exists>es item. trace s' = trace s @ es \<and> safe (deletes_only ?i) {} es \<and>
        core item = core (inventory s ! k) \<and> inventory s' = (inventory s)[k := item] \<and>
        (res = Ok False \<longrightarrow> ItemPhase item = PhaseNone \<and> (orphan \<or> read_gone r h ?i es)) \<and>
        (ItemPhase item = PhaseNone \<longrightarrow> ItemPhase (inventory s ! k) = PhaseNone \<or> (orphan \<or> read_gone r h ?i es)) \<and>
        ItemPhase item \<in> {ItemPhase (inventory s ! k), PhaseNone, PhaseDeleting}"
  proof (cases "fst (readObject r key s)")
    case (Ok x)
    then have mx: "m x ?t = (res, s')" using run read by (auto simp: bind_def map_err_def)
    have "k < length (inventory ?t)" using k by simp
    with decidesD [OF m mx] obtain fs item where fs: "trace s' = trace ?t @ fs" "safe (deletes_only ?i) {} fs"
      "core item = core (inventory s ! k)" "inventory s' = (inventory s)[k := item]"
      "res = Ok False \<Longrightarrow> ItemPhase item = PhaseNone \<and> (orphan \<or> x = None \<or> foreignOwner r h x)"
      "ItemPhase item = PhaseNone \<Longrightarrow> ItemPhase (inventory s ! k) = PhaseNone \<or> (orphan \<or> x = None \<or> foreignOwner r h x)"
      "ItemPhase item \<in> {ItemPhase (inventory s ! k), PhaseNone, PhaseDeleting}"
      by auto
    have "x = None \<or> foreignOwner r h x \<Longrightarrow> read_gone r h ?i (?es @ fs)"
      using Ok read unfolding read_gone_def
      by (intro exI [of _ "ObjectKeyOf key"] exI [of _ a])
        (auto simp: foreignOwner_def split: sum.splits if_splits)
    then show ?thesis
      using fs only.safe_trans [OF safe fs(2)] by (intro exI [of _ "?es @ fs"] exI [of _ item]) auto
  next
    case (Err e)
    then show ?thesis
      using run read safe
      by (intro exI [of _ ?es] exI [of _ "inventory s ! k"]) (auto simp: bind_def map_err_def)
  next
    case (Panic p)
    then show ?thesis using read by (auto split: sum.splits if_splits)
  qed
qed

definition endOfItem :: "InventoryItem list \<Rightarrow> nat \<Rightarrow> delete_counters \<Rightarrow> bool \<Rightarrow> (delete_counters, unit) ctl" where
  "endOfItem items k c pending =
     (let c = (if pending then c\<lparr>numToBeDeleted := Suc (numToBeDeleted c)\<rparr> else c)
      in if lastOfWave items k \<and> 0 < numToBeDeleted c then Break c else Next c)"

lemma settles_step:
  assumes m: "settles k i Q C m" and run: "bind m (\<lambda>pending. ret (endOfItem (inventory s) k c pending)) s = (res, s')"
    and k: "k < length (inventory s)" and i: "i = object_id (inventory s ! k)"
  shows "map core (inventory s') = map core (inventory s) \<and> (\<forall>j. j \<noteq> k \<longrightarrow> inventory s' ! j = inventory s ! j)"
    and "\<exists>es. trace s' = trace s @ es \<and> (\<forall>key pre err. EDelete key pre err \<in> set es \<longrightarrow> object_id key = object_id (inventory s ! k))
        \<and> (ItemPhase (inventory s' ! k) = PhaseNone \<longrightarrow> ItemPhase (inventory s ! k) = PhaseNone \<or> C es)
        \<and> (\<forall>x. res = Ok x \<longrightarrow> (\<exists>c' pending. numToBeDeleted c' = numToBeDeleted c + of_bool pending
             \<and> (\<not> pending \<longrightarrow> Q es (inventory s' ! k))
             \<and> x = (if lastOfWave (inventory s) k \<and> 0 < numToBeDeleted c' then Break c' else Next c')))"
    and "ItemPhase (inventory s' ! k) \<in> {ItemPhase (inventory s ! k), PhaseNone, PhaseDeleting}"
proof -
  obtain y t where mt: "m s = (y, t)" by force
  then obtain es item where es: "trace t = trace s @ es" "safe (deletes_only i) {} es"
      "core item = core (inventory s ! k)" "inventory t = (inventory s)[k := item]" "y = Ok False \<Longrightarrow> Q es item"
      "ItemPhase item = PhaseNone \<longrightarrow> ItemPhase (inventory s ! k) = PhaseNone \<or> C es"
      "ItemPhase item \<in> {ItemPhase (inventory s ! k), PhaseNone, PhaseDeleting}"
    using m k unfolding settles_def by metis
  have t: "s' = t" and res: "res = (case y of Ok p \<Rightarrow> Ok (endOfItem (inventory s) k c p) | Err e \<Rightarrow> Err e | Panic p \<Rightarrow> Panic p)"
    using run mt by (auto simp: bind_def run_simps split: outcome.splits)
  show "ItemPhase (inventory s' ! k) \<in> {ItemPhase (inventory s ! k), PhaseNone, PhaseDeleting}"
    using es(4,7) k t by simp
  show "map core (inventory s') = map core (inventory s) \<and> (\<forall>j. j \<noteq> k \<longrightarrow> inventory s' ! j = inventory s ! j)"
    using es(3,4) k t by (auto simp: map_update list_update_same_conv)
  show "\<exists>es. trace s' = trace s @ es \<and> (\<forall>key pre err. EDelete key pre err \<in> set es \<longrightarrow> object_id key = object_id (inventory s ! k))
        \<and> (ItemPhase (inventory s' ! k) = PhaseNone \<longrightarrow> ItemPhase (inventory s ! k) = PhaseNone \<or> C es)
        \<and> (\<forall>x. res = Ok x \<longrightarrow> (\<exists>c' pending. numToBeDeleted c' = numToBeDeleted c + of_bool pending
             \<and> (\<not> pending \<longrightarrow> Q es (inventory s' ! k))
             \<and> x = (if lastOfWave (inventory s) k \<and> 0 < numToBeDeleted c' then Break c' else Next c')))"
  proof (intro exI [of _ es] conjI allI impI)
    fix x assume x: "res = Ok x"
    then obtain p where p: "y = Ok p" "x = endOfItem (inventory s) k c p"
      using res by (auto split: outcome.splits)
    let ?c = "if p then c\<lparr>numToBeDeleted := Suc (numToBeDeleted c)\<rparr> else c"
    show "\<exists>c' pending. numToBeDeleted c' = numToBeDeleted c + of_bool pending
             \<and> (\<not> pending \<longrightarrow> Q es (inventory s' ! k))
             \<and> x = (if lastOfWave (inventory s) k \<and> 0 < numToBeDeleted c' then Break c' else Next c')"
      using p es(4,5) k t by (intro exI [of _ ?c] exI [of _ p]) (auto simp: endOfItem_def)
  qed (use es t i k safe_deletes_only in auto)
qed

section \<open>The two loops\<close>

text \<open>
  Why \<open>Delete\<close> is finished with an item: its policy leaves the object in the cluster, or it
  was read as gone or as somebody else's.
\<close>

definition done_with :: "'w Reconciler \<Rightarrow> string \<Rightarrow> (InventoryItem \<Rightarrow> bool) \<Rightarrow> event list \<Rightarrow> InventoryItem \<Rightarrow> bool" where
  "done_with r h keep es item \<longleftrightarrow> keep item \<or> read_gone r h (object_id item) es"

lemma done_with_mono: "done_with r h keep es item \<Longrightarrow> set es \<subseteq> set es' \<Longrightarrow> done_with r h keep es' item"
  unfolding done_with_def read_gone_def by blast

lemma done_with_core: "(\<And>item. keep (core item) = keep item) \<Longrightarrow> core item = core item' \<Longrightarrow>
    done_with r h keep es item \<Longrightarrow> done_with r h keep es item'"
  unfolding done_with_def by (metis core_sel(11))

definition gone :: "'w Reconciler \<Rightarrow> string \<Rightarrow> event list \<Rightarrow> InventoryItem \<Rightarrow> bool" where
  "gone r h es item \<longleftrightarrow> ItemPhase item = PhaseNone \<and> done_with r h orphanedOnDelete es item"

lemma orphanedOnDelete_core [simp]: "orphanedOnDelete (core item) = orphanedOnDelete item"
  by (simp add: orphanedOnDelete_def)

lemma orphanedOnApply_core [simp]: "orphanedOnApply (core item) = orphanedOnApply item"
  by (simp add: orphanedOnApply_def)

lemma deleteStep_settles:
  fixes s :: "'w rst"
  obtains m c' where "settles k (object_id (inventory s ! k))
      (\<lambda>es item. ItemPhase item = PhaseNone \<and> done_with r h orphanedOnDelete es (inventory s ! k))
      (\<lambda>es. done_with r h orphanedOnDelete es (inventory s ! k)) m"
    "numToBeDeleted c' = numToBeDeleted c"
    "deleteStep P r h k c s = bind m (\<lambda>pending. ret (endOfItem (inventory s) k c' pending)) s"
proof -
  let ?items = "inventory s"
  let ?item = "?items ! k"
  let ?c = "if firstOfWave ?items k
    then c\<lparr>numManagedToBeDeleted := length (filter (isManaged r ?items) (deleteWave ?items k))\<rparr> else c"
  define m where "m existing = (if ItemPhase ?item = PhaseDeleting then awaitDeletion P r h k ?item existing
              else
                (let orphan = orphanedOnDelete ?item \<or> foreignOwner r h existing in
                 if (\<not> isNamespace ?item \<or> \<not> isNamespaceUsed ?items (Name ?item))
                    \<and> (numManagedToBeDeleted ?c = 0 \<or> isManaged r ?items ?item)
                 then orphanOrDelete P r h k ?item existing orphan
                 else ret True))" for existing
  have dec: "decides k (object_id ?item) (orphanedOnDelete ?item \<or> x = None \<or> foreignOwner r h x) (m x)" for x
    unfolding m_def Let_def
    by (intro decides_if decides_awaitDeletion decides_orphanOrDelete decides_ret) auto
  have eq: "deleteStep P r h k c s = bind (bind (map_err (wrapItem P ''error reading object %s'' ?item) (readObject r ?item)) m)
      (\<lambda>pending. ret (endOfItem ?items k ?c pending)) s"
    by (simp only: deleteStep_def m_def Let_def endOfItem_def bind_assoc bind_gets)
  show ?thesis
    by (rule that [OF settles_read [OF dec, folded done_with_def [of r h orphanedOnDelete]] _ eq]) simp
qed

interpretation del: purge_loop "deleteStep P r h" "gone r h" "done_with r h orphanedOnDelete"
  for P and r :: "'w Reconciler" and h
proof
  show "gone r h es' item" if "gone r h es item" "set es \<subseteq> set es'" for es es' item
    using that done_with_mono unfolding gone_def by blast
next
  show "done_with r h orphanedOnDelete es' item" if "done_with r h orphanedOnDelete es item" "set es \<subseteq> set es'" for es es' item
    using that by (rule done_with_mono)
next
  show "done_with r h orphanedOnDelete es item'" if "core item = core item'" "done_with r h orphanedOnDelete es item" for es item item'
    by (rule done_with_core [where keep = orphanedOnDelete, OF orphanedOnDelete_core that])
next
  fix k c and s s' :: "'w rst" and res
  assume run: "deleteStep P r h k c s = (res, s')" and k: "k < length (inventory s)"
  let ?done = "\<lambda>es. done_with r h orphanedOnDelete es (inventory s ! k)"
  from deleteStep_settles [where s = s and r = r and h = h and k = k and c = c and P = P]
  obtain m c' where m: "settles k (object_id (inventory s ! k)) (\<lambda>es item. ItemPhase item = PhaseNone \<and> ?done es) ?done m"
    "numToBeDeleted c' = numToBeDeleted c" "bind m (\<lambda>pending. ret (endOfItem (inventory s) k c' pending)) s = (res, s')"
    using run by metis
  show frm: "map core (inventory s') = map core (inventory s) \<and> (\<forall>j. j \<noteq> k \<longrightarrow> inventory s' ! j = inventory s ! j)"
    by (rule settles_step(1) [OF m(1,3) k refl])
  then have "core (inventory s ! k) = core (inventory s' ! k)"
    using k by (metis length_map nth_map)
  then have "gone r h es (inventory s' ! k)" if "ItemPhase (inventory s' ! k) = PhaseNone \<and> ?done es" for es
    using that done_with_core [where keep = orphanedOnDelete, OF orphanedOnDelete_core] unfolding gone_def by blast
  then show "\<exists>es. trace s' = trace s @ es \<and> (\<forall>key pre err. EDelete key pre err \<in> set es \<longrightarrow> object_id key = object_id (inventory s ! k))
        \<and> (ItemPhase (inventory s' ! k) = PhaseNone \<longrightarrow> ItemPhase (inventory s ! k) = PhaseNone \<or> ?done es)
        \<and> (\<forall>x. res = Ok x \<longrightarrow> (\<exists>c' pending. numToBeDeleted c' = numToBeDeleted c + of_bool pending
             \<and> (\<not> pending \<longrightarrow> gone r h es (inventory s' ! k))
             \<and> x = (if lastOfWave (inventory s) k \<and> 0 < numToBeDeleted c' then Break c' else Next c')))"
    using settles_step(2) [OF m(1,3) k refl] unfolding m(2) by blast
qed

lemma settles_conseq:
  assumes "settles k i Q C m" and "\<And>es item. Q es item \<Longrightarrow> Q' es item"
  shows "settles k i Q' C m"
  using assms unfolding settles_def by meson

lemma deleteRedundantStep_settles:
  fixes s :: "'w rst"
  assumes k: "k < length (inventory s)"
  shows "\<exists>c'. numToBeDeleted c' = numToBeDeleted c \<and> (
     (\<not> inDeletion (ItemPhase (inventory s ! k)) \<and>
       deleteRedundantStep P r h k c s = (Ok (endOfItem (inventory s) k c' False), s)) \<or>
     inDeletion (ItemPhase (inventory s ! k)) \<and>
     (\<exists>m. settles k (object_id (inventory s ! k)) (\<lambda>es item. \<not> inDeletion (ItemPhase item))
         (\<lambda>es. done_with r h orphanedOnApply es (inventory s ! k)) m \<and>
       deleteRedundantStep P r h k c s = bind m (\<lambda>pending. ret (endOfItem (inventory s) k c' pending)) s))"
proof -
  let ?items = "inventory s"
  let ?item = "?items ! k"
  let ?c = "if firstOfWave ?items k
    then c\<lparr>numManagedToBeDeleted := length (filter (\<lambda>i. inDeletion (ItemPhase i) \<and> isManaged r ?items i)
                (deleteWave ?items k))\<rparr> else c"
  show ?thesis
  proof (cases "inDeletion (ItemPhase ?item)")
    case True
    define m where "m existing = (if ItemPhase ?item = PhaseScheduledForDeletion then
             (if \<not> isUsedNamespace ?items ?item \<and> (numManagedToBeDeleted ?c = 0 \<or> isManaged r ?items ?item) then
                (let orphan = ItemDeletePolicy ?item = DeletePolicyOrphan
                       \<or> ItemDeletePolicy ?item = DeletePolicyOrphanOnApply
                       \<or> foreignOwner r h existing
                 in orphanOrDelete P r h k ?item existing orphan)
              else ret True)
           else awaitDeletion P r h k ?item existing)" for existing
    have dec: "decides k (object_id ?item) (orphanedOnApply ?item \<or> x = None \<or> foreignOwner r h x) (m x)" for x
      unfolding m_def Let_def orphanedOnApply_def
      by (intro decides_if decides_awaitDeletion decides_orphanOrDelete decides_ret) auto
    have eq: "deleteRedundantStep P r h k c s = bind (bind (map_err (wrapItem P ''error reading object %s'' ?item) (readObject r ?item)) m)
        (\<lambda>pending. ret (endOfItem ?items k ?c pending)) s"
      using True by (simp only: deleteRedundantStep_def m_def Let_def endOfItem_def bind_assoc bind_gets if_True)
    have "settles k (object_id ?item) (\<lambda>es item. \<not> inDeletion (ItemPhase item))
         (\<lambda>es. done_with r h orphanedOnApply es ?item) (bind (map_err (wrapItem P ''error reading object %s'' ?item) (readObject r ?item)) m)"
      by (rule settles_conseq [OF settles_read [OF dec, folded done_with_def [of r h orphanedOnApply]]])
        (simp add: inDeletion_def)
    with eq True show ?thesis by (intro exI [of _ ?c]) auto
  next
    case False
    then have "deleteRedundantStep P r h k c s = (Ok (endOfItem ?items k ?c False), s)"
      by (simp only: deleteRedundantStep_def Let_def endOfItem_def bind_gets if_False bind_ret ret_app)
    with False show ?thesis by (intro exI [of _ ?c]) auto
  qed
qed

interpretation red: purge_loop "deleteRedundantStep P r h" "\<lambda>es item. \<not> inDeletion (ItemPhase item)"
  "done_with r h orphanedOnApply" for P and r :: "'w Reconciler" and h
proof
  show "done_with r h orphanedOnApply es' item" if "done_with r h orphanedOnApply es item" "set es \<subseteq> set es'" for es es' item
    using that by (rule done_with_mono)
next
  show "done_with r h orphanedOnApply es item'" if "core item = core item'" "done_with r h orphanedOnApply es item" for es item item'
    by (rule done_with_core [where keep = orphanedOnApply, OF orphanedOnApply_core that])
next
  fix k c and s s' :: "'w rst" and res
  assume run: "deleteRedundantStep P r h k c s = (res, s')" and k: "k < length (inventory s)"
  let ?done = "\<lambda>es. done_with r h orphanedOnApply es (inventory s ! k)"
  let ?frame = "map core (inventory s') = map core (inventory s) \<and> (\<forall>j. j \<noteq> k \<longrightarrow> inventory s' ! j = inventory s ! j)"
  let ?calls = "\<lambda>es. trace s' = trace s @ es \<and> (\<forall>key pre err. EDelete key pre err \<in> set es \<longrightarrow> object_id key = object_id (inventory s ! k))
        \<and> (ItemPhase (inventory s' ! k) = PhaseNone \<longrightarrow> ItemPhase (inventory s ! k) = PhaseNone \<or> ?done es)
        \<and> (\<forall>x. res = Ok x \<longrightarrow> (\<exists>c' pending. numToBeDeleted c' = numToBeDeleted c + of_bool pending
             \<and> (\<not> pending \<longrightarrow> \<not> inDeletion (ItemPhase (inventory s' ! k)))
             \<and> x = (if lastOfWave (inventory s) k \<and> 0 < numToBeDeleted c' then Break c' else Next c')))"
  obtain c' where c': "numToBeDeleted c' = numToBeDeleted c" and
    "\<not> inDeletion (ItemPhase (inventory s ! k)) \<and> deleteRedundantStep P r h k c s = (Ok (endOfItem (inventory s) k c' False), s) \<or>
     (\<exists>m. settles k (object_id (inventory s ! k)) (\<lambda>es item. \<not> inDeletion (ItemPhase item)) ?done m \<and>
       deleteRedundantStep P r h k c s = bind m (\<lambda>pending. ret (endOfItem (inventory s) k c' pending)) s)"
    using deleteRedundantStep_settles [OF k] by metis
  then consider "\<not> inDeletion (ItemPhase (inventory s ! k))" "res = Ok (endOfItem (inventory s) k c' False)" "s' = s"
    | m where "settles k (object_id (inventory s ! k)) (\<lambda>es item. \<not> inDeletion (ItemPhase item)) ?done m"
        "bind m (\<lambda>pending. ret (endOfItem (inventory s) k c' pending)) s = (res, s')"
    using run by auto
  then have "?frame \<and> (\<exists>es. ?calls es)"
  proof cases
    case 1
    have "?calls []"
      using 1 c' by (auto simp: endOfItem_def intro!: exI [of _ c'] exI [of _ False])
    then show ?thesis using 1 by blast
  next
    case 2
    then show ?thesis
      using settles_step(1) [OF 2(1,2) k refl] settles_step(2) [OF 2(1,2) k refl] unfolding c' by blast
  qed
  then show ?frame "\<exists>es. ?calls es" by blast+
qed

section \<open>Delete\<close>

lemma DeleteAll_run:
  fixes r :: "'w Reconciler"
  assumes run: "DeleteAll P r ownerId s = (res, s')"
  obtains x t where "for_each [0..<length (inventory s)] \<lparr>numManagedToBeDeleted = 0, numToBeDeleted = 0\<rparr>
      (deleteStep P r (Sha256base32 P ownerId)) s = (x, t)" "trace s' = trace t"
    "\<forall>b. res = Ok b \<longrightarrow> b = (inventory s' = []) \<and>
      inventory s' = filter (\<lambda>item. ItemPhase item \<noteq> PhaseNone) (inventory t)"
proof -
  obtain x t where loop: "for_each [0..<length (inventory s)] \<lparr>numManagedToBeDeleted = 0, numToBeDeleted = 0\<rparr>
      (deleteStep P r (Sha256base32 P ownerId)) s = (x, t)" by force
  show ?thesis
    using run loop by (intro that [OF loop]) (cases x; auto simp: DeleteAll_def Let_def bind_def seq_def dropGoneItems_def)+
qed

text \<open>
  C10: \<open>Delete\<close> works in waves. If it sends a delete request, then for an item of the
  inventory such that every item with a smaller delete order is finished: its policy
  orphans it, or it was read in this very call as absent or owned by somebody else.
  (\<open>Apply\<close> leaves the inventory sorted by delete order.)
\<close>

theorem DeleteAll_in_waves:
  assumes "sorted (map ItemDeleteOrder (inventory s))"
  shows "list_all (\<lambda>e. case e of
      EDelete key _ _ \<Rightarrow> \<exists>item \<in> set (inventory s). object_id item = object_id key \<and>
        list_all (done_with r (Sha256base32 P ownerId) orphanedOnDelete (new_calls (DeleteAll P r ownerId) s))
          (filter (\<lambda>other. ItemDeleteOrder other < ItemDeleteOrder item) (inventory s))
    | _ \<Rightarrow> True) (new_calls (DeleteAll P r ownerId) s)"
proof -
  let ?h = "Sha256base32 P ownerId"
  obtain res s' where run: "DeleteAll P r ownerId s = (res, s')" by force
  from run obtain x t where loop: "for_each [0..<length (inventory s)] \<lparr>numManagedToBeDeleted = 0, numToBeDeleted = 0\<rparr>
      (deleteStep P r ?h) s = (x, t)" and tr: "trace s' = trace t" by (rule DeleteAll_run)
  obtain es where cores: "map core (inventory t) = map core (inventory s)" and es: "trace t = trace s @ es"
    and dels: "\<forall>key pre err. EDelete key pre err \<in> set es \<longrightarrow> (\<exists>i < length (inventory s).
       object_id key = object_id (inventory s ! i) \<and>
       (\<forall>j < length (inventory s). ItemDeleteOrder (inventory s ! j) < ItemDeleteOrder (inventory s ! i) \<longrightarrow> gone r ?h es (inventory t ! j)))"
    by (rule del.purge_waves [OF assms loop]) auto
  have new: "new_calls (DeleteAll P r ownerId) s = es" using run es tr by (simp add: new_calls_eq)
  have fin: "done_with r ?h orphanedOnDelete es (inventory s ! j)" if "gone r ?h es (inventory t ! j)" "j < length (inventory s)" for j
  proof (rule done_with_core [where keep = orphanedOnDelete, OF orphanedOnDelete_core])
    show "core (inventory t ! j) = core (inventory s ! j)" using cores that(2) by (metis length_map nth_map)
  qed (use that in \<open>simp add: gone_def\<close>)
  show ?thesis
    unfolding new list_all_iff
  proof (intro ballI, split event.split, intro conjI allI impI TrueI)
    fix e key pre err assume "e \<in> set es" "e = EDelete key pre err"
    then obtain i where i: "i < length (inventory s)" "object_id key = object_id (inventory s ! i)"
      and low: "\<forall>j < length (inventory s). ItemDeleteOrder (inventory s ! j) < ItemDeleteOrder (inventory s ! i) \<longrightarrow> gone r ?h es (inventory t ! j)"
      using dels by blast
    show "\<exists>item \<in> set (inventory s). object_id item = object_id key \<and>
        Ball (set (filter (\<lambda>other. ItemDeleteOrder other < ItemDeleteOrder item) (inventory s))) (done_with r ?h orphanedOnDelete es)"
    proof (intro bexI [of _ "inventory s ! i"] conjI ballI)
      fix other assume "other \<in> set (filter (\<lambda>other. ItemDeleteOrder other < ItemDeleteOrder (inventory s ! i)) (inventory s))"
      then obtain j where "j < length (inventory s)" "other = inventory s ! j" "ItemDeleteOrder other < ItemDeleteOrder (inventory s ! i)"
        by (auto simp: in_set_conv_nth)
      then show "done_with r ?h orphanedOnDelete es other" using low fin by auto
    qed (use i in auto)
  qed
qed

theorem DeleteAll_in_waves_witness:
  "list_ex is_delete (new_calls (DeleteAll samplePlatform sampleReconciler ''owner'') appliedState) \<and>
   list_all (\<lambda>e. case e of
      EDelete key _ _ \<Rightarrow> \<exists>item \<in> set (inventory appliedState). object_id item = object_id key \<and>
        list_all (done_with sampleReconciler (Sha256base32 samplePlatform ''owner'') orphanedOnDelete
            (new_calls (DeleteAll samplePlatform sampleReconciler ''owner'') appliedState))
          (filter (\<lambda>other. ItemDeleteOrder other < ItemDeleteOrder item) (inventory appliedState))
    | _ \<Rightarrow> True) (new_calls (DeleteAll samplePlatform sampleReconciler ''owner'') appliedState)"
proof
  show "list_ex is_delete (new_calls (DeleteAll samplePlatform sampleReconciler ''owner'') appliedState)"
    by code_simp
  have "sorted (map ItemDeleteOrder (inventory appliedState))" by code_simp
  then show "list_all (\<lambda>e. case e of
      EDelete key _ _ \<Rightarrow> \<exists>item \<in> set (inventory appliedState). object_id item = object_id key \<and>
        list_all (done_with sampleReconciler (Sha256base32 samplePlatform ''owner'') orphanedOnDelete
            (new_calls (DeleteAll samplePlatform sampleReconciler ''owner'') appliedState))
          (filter (\<lambda>other. ItemDeleteOrder other < ItemDeleteOrder item) (inventory appliedState))
    | _ \<Rightarrow> True) (new_calls (DeleteAll samplePlatform sampleReconciler ''owner'') appliedState)"
    by (rule DeleteAll_in_waves)
qed

lemma DeleteAll_finished:
  assumes "DeleteAll P r ownerId s = (Ok b, s')"
  shows "b = (inventory s' = []) \<and> (b \<longrightarrow> list_all (\<lambda>item. ItemPhase item = PhaseNone \<or>
    done_with r (Sha256base32 P ownerId) orphanedOnDelete (new_calls (DeleteAll P r ownerId) s) item) (inventory s))"
proof -
  let ?h = "Sha256base32 P ownerId"
  from assms obtain x t where loop: "for_each [0..<length (inventory s)] \<lparr>numManagedToBeDeleted = 0, numToBeDeleted = 0\<rparr>
      (deleteStep P r ?h) s = (x, t)" and tr: "trace s' = trace t"
    and ok: "\<forall>b'. (Ok b :: (goerr, bool) outcome) = Ok b' \<longrightarrow> b' = (inventory s' = []) \<and>
      inventory s' = filter (\<lambda>item. ItemPhase item \<noteq> PhaseNone) (inventory t)"
    by (rule DeleteAll_run)
  then have b: "b = (inventory s' = [])" and inv: "inventory s' = filter (\<lambda>item. ItemPhase item \<noteq> PhaseNone) (inventory t)"
    by blast+
  obtain es where es: "trace t = trace s @ es" and new: "new_calls (DeleteAll P r ownerId) s = es"
    using DeleteAll_owned [of P r ownerId s] assms tr by (auto simp: new_calls_def)
  have "steps (tracked (owned_delete r ?h) {} (map core (inventory s))) (for_each [0..<length (inventory s)]
      \<lparr>numManagedToBeDeleted = 0, numToBeDeleted = 0\<rparr> (deleteStep P r ?h))"
    by (intro own.t.steps_for_each own.p.steps_deleteStep [where keep = "\<lambda>_. False"]) auto
  from stepsD [OF this loop] have "length (inventory t) = length (inventory s)"
    unfolding tracked_def by (metis length_map)
  moreover have "ItemPhase (inventory t ! j) = PhaseNone" if b "j < length (inventory t)" for j
    using that b inv by (auto simp: filter_empty_conv)
  ultimately have "ItemPhase (inventory s ! j) = PhaseNone \<or> done_with r ?h orphanedOnDelete es (inventory s ! j)"
    if b "j < length (inventory s)" for j
    using del.purge_cleared [OF loop es that(2)] that by auto
  then show ?thesis using b unfolding new by (auto simp: list_all_length)
qed

text \<open>
  C11: \<open>Delete\<close> returns true exactly if it leaves the inventory empty, and then every item
  of the inventory was finished: orphaned by its policy, or read in this very call as
  absent or owned by somebody else. So the component's finalizer is only removed when
  all its objects are gone. That the items have a phase at the start is assumed: an item is
  stored without one only if an earlier call failed after it had settled that item.
\<close>

theorem DeleteAll_complete:
  assumes "\<And>item. item \<in> set (inventory s) \<Longrightarrow> ItemPhase item \<noteq> PhaseNone"
    and "DeleteAll P r ownerId s = (Ok b, s')"
  shows "b = (inventory s' = []) \<and> (b \<longrightarrow>
    list_all (done_with r (Sha256base32 P ownerId) orphanedOnDelete (new_calls (DeleteAll P r ownerId) s)) (inventory s))"
  using DeleteAll_finished [OF assms(2)] assms(1) by (auto simp: list_all_iff)

theorem DeleteAll_complete_witness:
  "fst (DeleteAll samplePlatform sampleReconciler ''owner'' goneState) = Ok True \<and>
   list_all (done_with sampleReconciler (Sha256base32 samplePlatform ''owner'') orphanedOnDelete
     (new_calls (DeleteAll samplePlatform sampleReconciler ''owner'') goneState)) (inventory goneState)"
proof -
  have ok: "fst (DeleteAll samplePlatform sampleReconciler ''owner'' goneState) = Ok True" by code_simp
  have "ItemPhase item \<noteq> PhaseNone" if "item \<in> set (inventory goneState)" for item
    using that by (simp add: goneState_def)
  moreover have "DeleteAll samplePlatform sampleReconciler ''owner'' goneState =
      (Ok True, snd (DeleteAll samplePlatform sampleReconciler ''owner'' goneState))"
    using ok by (simp add: prod_eq_iff)
  ultimately show ?thesis using ok DeleteAll_complete by blast
qed

end
