(* ===== verification/Component_Inventory.thy ===== *)
theory Component_Inventory
  imports Component_Finalizer Deletion_Waves
begin

text \<open>
  What the guarantees of the inner reconciler mean for a run of the component reconciler:
  the inventory in the status, as it was read, is a write-ahead log of all requests to the
  target cluster, and the finalizer goes only when everything in it is gone.
\<close>

section \<open>The inner reconciler\<close>

lemma DeleteAll_logged:
  assumes "unstructured_keeps P" and "reads_keep (client r)" and run: "DeleteAll P r ownerId s = (res, s')"
  obtains es where "trace s' = trace s @ es" "writes_logged (inventory s) es"
proof -
  let ?cores = "map core (inventory s)"
  have "steps (wal.p.purged P r ?cores) (DeleteAll P r ownerId)"
    by (rule wal.p.purged_DeleteAll [where keep = "\<lambda>_. False"]) simp_all
  from stepsD [OF this run] obtain es where
    es: "trace s' = trace s @ es" "safe (logged_write P (client r) ?cores) {} es"
    by (auto simp: wal.p.purged_def)
  have "logged (inventory s) e" if "e \<in> set es" for e
  proof (rule logged_ids [of ?cores])
    show "logged ?cores e"
      using that safe_nth [OF es(2)] assms(1,2) by (auto simp: in_set_conv_nth logged_write_def)
  qed (simp add: image_image)
  then have "writes_logged (inventory s) es" by (auto simp: writes_logged_def)
  with es(1) show thesis by (rule that)
qed

lemma IsDeletionAllowed_reads:
  assumes "IsDeletionAllowed P r ownerId s = (res, s')"
  obtains es where "inventory s' = inventory s" "trace s' = trace s @ es" "\<forall>e \<in> set es. \<not> is_write e"
  by (rule quiet_reads [OF rd.q.steps_IsDeletionAllowed assms])

lemma writes_logged_simps [simp]:
  "writes_logged items []"
  "writes_logged items (es @ es') \<longleftrightarrow> writes_logged items es \<and> writes_logged items es'"
  by (auto simp: writes_logged_def)

lemma writes_logged_reads [simp]: "\<forall>e \<in> set es. \<not> is_write e \<Longrightarrow> writes_logged items es"
  by (simp add: writes_logged_def)

section \<open>The calls of the target\<close>

lemma allowed_readI:
  assumes "\<And>res t es. same_run s t \<Longrightarrow> ctrace t = ctrace s @ map CTarget es @ [CIsDeletionAllowed res] \<Longrightarrow>
    \<forall>e \<in> set es. \<not> is_write e \<Longrightarrow> comp t = comp s \<Longrightarrow> Q res t"
  shows "wp (target_IsDeletionAllowed P tg) Q s"
proof (rule wp_conseq [OF wp_target_IsDeletionAllowed])
  fix res t
  assume "\<exists>u. IsDeletionAllowed P (TargetReconciler tg) (targetOwnerId tg (comp s)) (inner_state s) = (res, u) \<and>
     inventory_run s (map CTarget (trace u) @ [CIsDeletionAllowed res]) (inventory u) t"
  then obtain u where u: "IsDeletionAllowed P (TargetReconciler tg) (targetOwnerId tg (comp s)) (inner_state s) = (res, u)"
    "inventory_run s (map CTarget (trace u) @ [CIsDeletionAllowed res]) (inventory u) t" by blast
  from u(1) obtain es where "inventory u = items_of (comp s)" "trace u = es" "\<forall>e \<in> set es. \<not> is_write e"
    by (rule IsDeletionAllowed_reads) (simp add: inner_state_def)
  then show "Q res t" using u(2) by (intro assms) (auto simp: inventory_run_def set_inventory_same)
qed

lemma delete_loggedI:
  assumes "unstructured_keeps P" "reads_keep (client (TargetReconciler tg))"
    and "\<And>res t es items. same_run s t \<Longrightarrow> ctrace t = ctrace s @ map CTarget es @ [CDelete res] \<Longrightarrow>
      comp t = set_inventory items (comp s) \<Longrightarrow> writes_logged (items_of (comp s)) es \<Longrightarrow>
      (res = Ok True \<Longrightarrow> list_all (\<lambda>item. ItemPhase item = PhaseNone \<or>
         done_with (TargetReconciler tg) (Sha256base32 P (targetOwnerId tg (comp s))) orphanedOnDelete es item) (items_of (comp s))) \<Longrightarrow>
      Q res t"
  shows "wp (target_Delete P tg) Q s"
proof (rule delete_callI)
  fix res t u
  assume u: "DeleteAll P (TargetReconciler tg) (targetOwnerId tg (comp s)) (inner_state s) = (res, u)"
    "inventory_run s (map CTarget (trace u) @ [CDelete res]) (inventory u) t"
  let ?s = "inner_state s"
  obtain es where es: "trace u = es" "writes_logged (items_of (comp s)) es"
    by (rule DeleteAll_logged [OF assms(1,2) u(1)]) (simp add: inner_state_def)
  show "Q res t"
  proof (rule assms(3))
    assume "res = Ok True"
    then show "list_all (\<lambda>item. ItemPhase item = PhaseNone \<or>
        done_with (TargetReconciler tg) (Sha256base32 P (targetOwnerId tg (comp s))) orphanedOnDelete es item) (items_of (comp s))"
      using DeleteAll_finished [of P "TargetReconciler tg" "targetOwnerId tg (comp s)" ?s True u] u(1) es(1)
      by (auto simp: inner_state_def list_all_iff new_calls_def)
  qed (use u(2) es in \<open>simp_all add: inventory_run_def\<close>)
qed

lemma apply_loggedI:
  assumes "sorts P" "unstructured_keeps P" "reads_keep (client (TargetReconciler tg))"
    and "\<And>res t es items. same_run s t \<Longrightarrow> ctrace t = ctrace s @ es @ [CApply res] \<Longrightarrow>
      comp t = set_inventory items (comp s) \<Longrightarrow> writes_logged (items_of (comp s)) (target_calls es) \<Longrightarrow> target_only es \<Longrightarrow> Q res t"
  shows "wp (target_Apply P tg digest) Q s"
proof (rule apply_callI)
  fix res t es items
  assume t: "inventory_run s (es @ [CApply res]) items t"
    and es: "(es = [] \<or> (\<exists>ns name. es = [CGenerate ns name])) \<and> items = items_of (comp s) \<and> (\<forall>b. res \<noteq> Ok b) \<or>
      apply_run P tg digest s es res items"
  have "writes_logged (items_of (comp s)) (target_calls es) \<and> target_only es"
    using es
  proof
    assume "apply_run P tg digest s es res items"
    then obtain ns name objects w u where u: "Apply P (TargetReconciler tg) objects (deploymentNamespace (comp s)) (targetOwnerId tg (comp s)) digest
        ((inner_state s)\<lparr>world := w\<rparr>) = (res, u)" "es = CGenerate ns name # map CTarget (trace u)"
      unfolding apply_run_def by blast
    from Apply_logged [OF assms(1-3) u(1)] show ?thesis
      by (auto simp: u(2) inner_state_def writes_logged_def target_only_def list_all_iff)
  qed (auto simp: target_only_def)
  then show "Q res t" using t by (intro assms(4)) (auto simp: inventory_run_def)
qed

section \<open>A run\<close>

text \<open>
  An item is released when its policy orphans it, or when it was read as absent or as owned
  by somebody else.
\<close>

definition released :: "platform \<Rightarrow> 'w ComponentReconciler \<Rightarrow> Component \<Rightarrow> event list \<Rightarrow> InventoryItem \<Rightarrow> bool" where
  "released P r c es item \<longleftrightarrow> orphanedOnDelete item \<or>
     (\<exists>key res. EGet key res \<in> set es \<and> object_id key = object_id item \<and> (case res of
        Inr obj \<Rightarrow> getString (Labels obj) (CrName r @ ''/'' @ LabelKeySuffixOwnerId) \<noteq>
          Sha256base32 P (CrId r @ ''/'' @ Namespace c @ ''/'' @ Name c)
      | Inl err \<Rightarrow> IsNoMatchError err \<or> IsNotFound err))"

definition lets_go :: "string \<Rightarrow> cevent \<Rightarrow> bool" where
  "lets_go f e \<longleftrightarrow> (case e of CPatchFinalizers fs _ \<Rightarrow> f \<notin> set fs | _ \<Rightarrow> False)"

definition inventory_ok :: "platform \<Rightarrow> 'w ComponentReconciler \<Rightarrow> Component \<Rightarrow> cevent list \<Rightarrow> bool" where
  "inventory_ok P r c es \<longleftrightarrow> writes_logged (handedOver (items_of c) es) (target_calls es) \<and>
     (list_ex (lets_go (finalizerOf r)) es \<longrightarrow>
      list_all (\<lambda>item. ItemPhase item = PhaseNone \<or> released P r c (target_calls es) item) (handedOver (items_of c) es))"

lemma lets_go_simps [simp]:
  "lets_go f (CPatchFinalizers fs err) \<longleftrightarrow> f \<notin> set fs"
  "\<not> lets_go f (CApply b)" "\<not> lets_go f (CDelete b)" "\<not> lets_go f (CIsDeletionAllowed x)" "\<not> lets_go f (CGet req y)"
  "\<not> lets_go f (CStatusUpdate c err)" "\<not> lets_go f (CGenerate ns name)" "\<not> lets_go f CReconciles"
  "\<not> list_ex (lets_go f) (map CTarget xs)"
  by (auto simp: lets_go_def list_ex_iff)

lemma lets_go_silent [simp]:
  "hooks_only es \<Longrightarrow> \<not> list_ex (lets_go f) es" "target_only es \<Longrightarrow> \<not> list_ex (lets_go f) es"
  "reports_only es \<Longrightarrow> \<not> list_ex (lets_go f) es"
  by (induction es; force simp: lets_go_def hooks_only_def target_only_def reports_only_def split: cevent.splits)+

lemma target_calls_reports [simp]: "reports_only es \<Longrightarrow> target_calls es = []"
  by (induction es) (auto simp: reports_only_def split: cevent.splits)

lemma target_of_sel:
  assumes "target_of P r c tg"
  shows "labelKeyOwnerId (TargetReconciler tg) = CrName r @ ''/'' @ LabelKeySuffixOwnerId" "TargetReconcilerId tg = CrId r"
  using assms by (auto simp: target_of_def newReconcileTarget_def NewReconciler_def)

lemma target_of_released:
  assumes "target_of P r c' tg" "done_with (TargetReconciler tg) (Sha256base32 P (targetOwnerId tg c)) orphanedOnDelete es item"
  shows "released P r c es item"
  using assms(2) unfolding done_with_def read_gone_def released_def targetOwnerId_def target_of_sel [OF assms(1)] .

lemma released_mono: "released P r c es item \<Longrightarrow> set es \<subseteq> set es' \<Longrightarrow> released P r c es' item"
  unfolding released_def by blast

lemma serves_target: "target_of P r c tg \<Longrightarrow> serves r (client (TargetReconciler tg))"
  by (auto simp: target_of_def newReconcileTarget_def NewReconciler_def)

lemma keeps_metadata_names:
  assumes "keeps_metadata c d"
  shows "Namespace d = Namespace c" "Name d = Name c"
  using assms by (auto simp: keeps_metadata_def)

lemma handedOver_apply [simp]: "target_only es \<Longrightarrow> handedOver items (es @ CApply x # es') = items"
  by (induction es) (auto simp: target_only_def split: cevent.splits)

lemma handedOver_tail:
  "list_all (\<lambda>e. case e of CHook _ _ _ \<Rightarrow> False | _ \<Rightarrow> True) es' \<Longrightarrow> handedOver items (es @ es') = handedOver items es"
proof (induction es arbitrary: items)
  case Nil
  then show ?case by (induction es') (auto split: cevent.splits)
qed (auto split: cevent.splits)

lemma set_inventory_sel [simp]:
  "items_of (set_inventory items c) = items" "Namespace (set_inventory items c) = Namespace c" "Name (set_inventory items c) = Name c"
  "Finalizers (set_inventory items c) = Finalizers c"
  by (simp_all add: set_inventory_def)

lemma released_comp: "Namespace d = Namespace c \<Longrightarrow> Name d = Name c \<Longrightarrow> released P r d = released P r c"
  by (intro ext) (simp add: released_def cong: sum.case_cong)

lemma inventory_ok_comp:
  "Namespace d = Namespace c \<Longrightarrow> Name d = Name c \<Longrightarrow> items_of d = items_of c \<Longrightarrow> inventory_ok P r d = inventory_ok P r c"
  by (simp add: inventory_ok_def [abs_def] released_comp [of d c])

lemma inventory_ok_hooks:
  assumes "hooks_only es" and "Namespace d = Namespace c" "Name d = Name c" and "items_of d = handedOver (items_of c) es"
    and "inventory_ok P r d es'"
  shows "inventory_ok P r c (es @ es')"
  using assms by (simp add: inventory_ok_def released_comp [of d c])

text \<open>What follows the call of Delete sends nothing to the target.\<close>

definition afterDelete :: "platform \<Rightarrow> 'w ComponentReconciler \<Rightarrow> request \<Rightarrow> ComponentStatus \<Rightarrow> 'w reconcileTarget \<Rightarrow> bool \<Rightarrow>
    ('w, int \<times> bool) ccomp" where
  "afterDelete P r req savedStatus t ok =
     (if ok then
        seq (runHooks PostDelete (targetCtx r t) 0 (postDeleteHooks r))
        (bind (gets comp) (\<lambda>component.
         let (component, removed) = RemoveFinalizer P component (finalizerOf r) in
         seq (upd_comp (\<lambda>_. component))
         (seq (if removed then map_err (\<lambda>e. Wrapf e ''error removing finalizer'' []) (updateFinalizers r) else ret ())
           (ret (0, True)))))
      else
        bind (gets (CompStatus \<circ> comp)) (\<lambda>st.
        seq (if StatusInventory st \<noteq> StatusInventory savedStatus then backoffForget r req else ret ())
        (seq (setState StateDeleting ''DeletionProcessing''
               ''Deletion of dependent resources triggered; waiting until dependent resources are deleted'')
        (bind (backoffNext r req ''DeletionProcessing'') (\<lambda>d. ret (d, False))))))"

definition deleteAllowed :: "platform \<Rightarrow> 'w ComponentReconciler \<Rightarrow> request \<Rightarrow> ComponentStatus \<Rightarrow> 'w reconcileTarget \<Rightarrow>
    ('w, int \<times> bool) ccomp" where
  "deleteAllowed P r req savedStatus t =
     bind (map_err (\<lambda>e. Wrapf e ''error deleting dependent resources'' []) (target_Delete P t)) (afterDelete P r req savedStatus t)"

lemma deletePhase_steps:
  "deletePhase P r req savedStatus t =
     seq (runHooks PreDelete (targetCtx r t) 0 (preDeleteHooks r))
     (bind (map_err (\<lambda>e. Wrapf e ''error checking whether deletion is possible'' []) (target_IsDeletionAllowed P t)) (\<lambda>(allowed, msg).
      if \<not> allowed then
        seq (setState StateDeleting ''DeletionBlocked'' (''Deletion blocked: '' @ msg))
          (bind (backoffNext r req ''DeletionBlocked'') (\<lambda>d. ret (1 * Second + d, False)))
      else bind (gets comp) (\<lambda>component.
      if filter (\<lambda>f. f \<noteq> finalizerOf r) (Finalizers component) \<noteq> [] then
        seq (setState StateDeleting ''DeletionBlocked'' ''Deletion blocked due to existing foreign finalizers'')
          (bind (backoffNext r req ''DeletionBlocked'') (\<lambda>d. ret (1 * Second + d, False)))
      else deleteAllowed P r req savedStatus t)))"
  unfolding deletePhase_def deleteAllowed_def afterDelete_def [abs_def] by (rule HOL.refl)

lemma wp_afterDelete:
  fixes r :: "'w ComponentReconciler"
  assumes "component_run H r"
  shows "wp (afterDelete P r req saved tg ok) (\<lambda>res t. \<exists>es. ctrace t = ctrace s @ es \<and> target_calls es = [] \<and>
    (list_ex (lets_go (finalizerOf r)) es \<longrightarrow> ok)) s"
  unfolding afterDelete_def wp_simps Let_def
  by (auto simp: wp_simps Let_def split: outcome.splits prod.splits option.splits
     intro!: next_callI component_run.hook_calls [OF assms(1)] finalizers_callI)

lemma deletePhase_inventory:
  fixes r :: "'w ComponentReconciler"
  assumes "component_run keeps_metadata r" and P: "unstructured_keeps P"
    and c: "\<And>c. serves r c \<Longrightarrow> reads_keep c" and tg: "target_of P r c' tg"
  shows "wp (deletePhase P r req saved tg) (\<lambda>res t. \<exists>es. ctrace t = ctrace s @ es \<and> inventory_ok P r (comp s) es) s"
proof -
  have keep: "reads_keep (client (TargetReconciler tg))" using c serves_target [OF tg] by blast
  let ?Q = "\<lambda>res t. \<exists>es. ctrace t = ctrace s @ es \<and> inventory_ok P r (comp s) es"
  have deletes: "wp (deleteAllowed P r req saved tg) ?Q u"
    if u: "ctrace u = ctrace s @ es" "target_calls es = reads" "\<forall>e \<in> set reads. \<not> is_write e" "\<not> list_ex (lets_go (finalizerOf r)) es"
      "\<And>rest. handedOver (items_of (comp s)) (es @ rest) = items_of (comp u)"
      "Namespace (comp u) = Namespace (comp s)" "Name (comp u) = Name (comp s)" for u es reads
    unfolding deleteAllowed_def wp_bind wp_map_err
  proof (rule delete_loggedI [OF P keep], goal_cases)
    case (1 res t es' items)
    let ?items = "items_of (comp u)"
    note t = 1(2,4,5)
    have logged: "writes_logged ?items (reads @ es')" using t(2) u by simp
    have gone: "list_all (\<lambda>item. ItemPhase item = PhaseNone \<or> released P r (comp s) (reads @ es') item) ?items" if "res = Ok True"
    proof -
      have "list_all (\<lambda>item. ItemPhase item = PhaseNone \<or>
          done_with (TargetReconciler tg) (Sha256base32 P (targetOwnerId tg (comp s))) orphanedOnDelete es' item) ?items"
        using t(3) that u by (simp add: targetOwnerId_def)
      then show ?thesis
        by (auto simp: list_all_iff intro: released_mono [OF target_of_released [OF tg]])
    qed
    have ok: "inventory_ok P r (comp s) (es @ map CTarget es' @ CDelete res' # es'')"
      if "res' = res" "target_calls es'' = []" "list_ex (lets_go (finalizerOf r)) es'' \<longrightarrow> res = Ok True" for res' es''
      using that logged gone u(2,4,5) by (auto simp: inventory_ok_def)
    show ?case
      using ok [of _ "[]"] t(1) u(1)
      by (cases res) (auto intro!: wp_conseq [OF wp_afterDelete [OF assms(1)]] ok)
  qed
  show ?thesis
    unfolding deletePhase_steps
    by (auto simp: wp_simps inventory_ok_def split: outcome.splits prod.splits
       intro!: next_callI component_run.hook_calls [OF assms(1)] allowed_readI deletes [unfolded inventory_ok_def]
       intro: keeps_metadata_names)
qed

lemma nextRevision_inventory [simp]: "StatusInventory (nextRevision st) = StatusInventory st"
  by (simp add: nextRevision_def Let_def)

text \<open>The preparations of Apply leave inventory and identity of the component alone.\<close>

lemma applyPhase_inventory:
  fixes r :: "'w ComponentReconciler"
  assumes "component_run keeps_metadata r" and fin: "finalizers_documented P" and P: "sorts P" "unstructured_keeps P"
    and c: "\<And>c. serves r c \<Longrightarrow> reads_keep c" and tg: "target_of P r c' tg"
  shows "wp (applyPhase P r req now interval saved tg) (\<lambda>res t. \<exists>es. ctrace t = ctrace s @ es \<and>
    writes_logged (handedOver (items_of (comp s)) es) (target_calls es) \<and> \<not> list_ex (lets_go (finalizerOf r)) es) s"
proof -
  have keep: "reads_keep (client (TargetReconciler tg))" using c serves_target [OF tg] by blast
  show ?thesis
    unfolding applyPhase_def wp_simps Let_def
    by (auto simp: wp_simps Let_def finalizers_simps [OF fin]
       split: outcome.splits prod.splits option.splits
       intro!: next_callI component_run.hook_calls [OF assms(1)] apply_loggedI [OF P keep] finalizers_callI)
qed

lemma body_inventory:
  fixes r :: "'w ComponentReconciler"
  assumes run: "component_run keeps_metadata r" and fin: "finalizers_documented P" and P: "sorts P" "unstructured_keeps P"
    and c: "\<And>c. serves r c \<Longrightarrow> reads_keep c"
  shows "wp (reconcileBody P r req now interval saved) (\<lambda>res t. \<exists>es. ctrace t = ctrace s @ es \<and>
    inventory_ok P r (comp s) es \<and> component_read es = None) s"
proof -
  let ?Q = "\<lambda>res t. \<exists>es. ctrace t = ctrace s @ es \<and> inventory_ok P r (comp s) es"
  have "wp (reconcileBody P r req now interval saved) ?Q s"
  proof (rule component_run.body_callI [OF run])
    fix t :: "'w cst" and es tg
    assume t: "ctrace t = ctrace s @ es" "hooks_only es" "keeps_metadata (prepared (cdigest t) (comp s)) (comp t)" "target_of P r (comp t) tg"
      "items_of (comp t) = handedOver (items_of (comp s)) es"
    have tail: "?Q res u" if "\<exists>es'. ctrace u = ctrace t @ es' \<and> inventory_ok P r (comp t) es'" for res and u :: "'w cst"
      using that t(1) keeps_metadata_names [OF t(3)] by (auto intro: inventory_ok_hooks [OF t(2) _ _ t(5)])
    show "wp (if DeletionTimestamp (comp t) = None then applyPhase P r req now interval saved tg else deletePhase P r req saved tg) ?Q t"
    proof (cases "DeletionTimestamp (comp t) = None")
      case True
      show ?thesis
        unfolding if_P [OF True] by (rule wp_conseq [OF applyPhase_inventory [OF run fin P c t(4)]], assumption, rule tail)
          (auto simp: inventory_ok_def)
    next
      case False
      show ?thesis
        unfolding if_not_P [OF False] by (rule wp_conseq [OF deletePhase_inventory [OF run P(2) c t(4)]], assumption, rule tail)
    qed
  qed (auto simp: inventory_ok_def)
  then show ?thesis
    using component_run.body_trace [OF run fin keeps_metadata_Finalizers, of req now interval saved s]
    by (rule wp_conseq [OF wp_conj]) (auto simp: trace_ok_def)
qed

text \<open>The calls of \<open>Reconcile\<close> before and after the body.\<close>

lemma inventory_ok_whole:
  assumes "inventory_ok P r c es" and "reports_only es' \<or> (\<exists>es2 d err. reports_only es2 \<and> es' = es2 @ [CStatusUpdate d err])"
  shows "inventory_ok P r c (CReconciles # CGet req (Inr c) # es @ es')"
proof -
  have "list_all (\<lambda>e. case e of CHook _ _ _ \<Rightarrow> False | _ \<Rightarrow> True) es'"
    using assms(2) by (auto simp: reports_only_def list_all_iff split: cevent.splits)
  moreover have "target_calls es' = []" "\<not> list_ex (lets_go (finalizerOf r)) es'" using assms(2) by auto
  ultimately show ?thesis using assms(1) by (auto simp: inventory_ok_def handedOver_tail)
qed

lemma Reconcile_inventory:
  fixes r :: "'w ComponentReconciler"
  assumes run: "component_run keeps_metadata r" and fin: "finalizers_documented P" and P: "sorts P" "unstructured_keeps P"
    and c: "\<And>c. serves r c \<Longrightarrow> reads_keep c" and "setupComplete r"
  shows "wp (Reconcile P r req) (\<lambda>res t. \<exists>es. ctrace t = ctrace s @ es \<and>
    (case component_read es of Some c \<Rightarrow> inventory_ok P r c es | None \<Rightarrow> target_calls es = [])) s"
proof (rule Reconcile_callI [where B = "\<lambda>c now res t. \<exists>es. ctrace t = ctrace s @ [CReconciles, CGet req (Inr c)] @ es \<and>
    inventory_ok P r c es \<and> component_read es = None"])
  fix u :: "'w cst" and c now
  assume u: "ctrace u = ctrace s @ [CReconciles, CGet req (Inr c)]" "comp u = typed r c"
  have "inventory_ok P r (comp u) = inventory_ok P r c"
    by (rule inventory_ok_comp) (simp_all add: u typed_def)
  then show "wp (reconcileBody P r req now (requeueIntervalOf c) (CompStatus c))
      (\<lambda>res t. \<exists>es. ctrace t = ctrace s @ [CReconciles, CGet req (Inr c)] @ es \<and> inventory_ok P r c es \<and> component_read es = None) u"
    by (intro wp_conseq [OF body_inventory [OF run fin P assms(5)]]) (auto simp: u)
next
  fix c now and res :: "goerr + int \<times> bool" and t :: "'w cst"
  assume "case res of Inl e \<Rightarrow> \<exists>es. ctrace t = ctrace s @ [CReconciles, CGet req (Inr c)] @ es \<and> inventory_ok P r c es \<and> component_read es = None
    | Inr x \<Rightarrow> \<exists>es. ctrace t = ctrace s @ [CReconciles, CGet req (Inr c)] @ es \<and> inventory_ok P r c es \<and> component_read es = None"
  then obtain es where t: "ctrace t = ctrace s @ [CReconciles, CGet req (Inr c)] @ es" "inventory_ok P r c es" "component_read es = None"
    by (auto split: sum.splits)
  show "wp (finishReconcile r req now (retryIntervalOf c) (timeoutOf c) (CompStatus c) res) (\<lambda>res t. \<exists>es. ctrace t = ctrace s @ es \<and>
    (case component_read es of Some c \<Rightarrow> inventory_ok P r c es | None \<Rightarrow> target_calls es = [])) t"
  proof (rule wp_conseq [OF finish_trace], elim exE conjE)
    fix t' :: "'w cst" and es' d err
    assume t': "ctrace t' = ctrace t @ es'" "reports_only es' \<or> (\<exists>es2. reports_only es2 \<and> es' = es2 @ [CStatusUpdate d err])"
    then have "inventory_ok P r c (CReconciles # CGet req (Inr c) # es @ es')" by (intro inventory_ok_whole [OF t(2)]) blast
    then show "\<exists>es. ctrace t' = ctrace s @ es \<and> (case component_read es of Some c \<Rightarrow> inventory_ok P r c es | None \<Rightarrow> target_calls es = [])"
      using t t'(1) by (intro exI [of _ "CReconciles # CGet req (Inr c) # es @ es'"]) simp
  qed
qed (use assms inventory_ok_whole [where es' = "[]" and req = req] in \<open>auto simp: reports_only_def\<close>)

text \<open>
  C3: the inventory that a run hands over to the inner reconciler is a write-ahead log of that
  run: every write request to the target cluster is for an object with an item there, or
  for the namespace of one; and a run that does not get the component sends no request.
  This inventory (\<open>handedOver\<close>) is the one in the status of the component as it was read, or
  what the last hook before left of it, because hooks may change the status. So, as long
  as no hook changes the inventory, whatever a controller that crashes leaves in the cluster
  is in the status.
\<close>

theorem Reconcile_writes_ahead:
  assumes "sorts P" and "unstructured_keeps P" and "finalizers_documented P" and "\<And>c. serves r c \<Longrightarrow> reads_keep c"
    and "hooks_respect keeps_metadata r" and "setupComplete r"
  shows "case component_read (calls_of (Reconcile P r req) s) of
      Some c \<Rightarrow> writes_logged (handedOver (StatusInventory (CompStatus c)) (calls_of (Reconcile P r req) s))
        (target_calls (calls_of (Reconcile P r req) s))
    | None \<Rightarrow> target_calls (calls_of (Reconcile P r req) s) = []"
proof -
  have run: "component_run keeps_metadata r"
    using assms(5) documented_hook.hook_relation_axioms by (rule component_runI)
  show ?thesis
    by (rule calls_of_wp, rule wp_conseq [OF Reconcile_inventory [OF run assms(3,1,2,4,6)]])
      (auto simp: inventory_ok_def split: option.splits)
qed

text \<open>Hooks that leave the inventory alone make no difference.\<close>

lemma handedOver_kept:
  "list_all (\<lambda>e. case e of CHook _ _ c \<Rightarrow> items_of c = items | _ \<Rightarrow> True) es \<Longrightarrow> handedOver items es = items"
  by (induction es) (auto split: cevent.splits)

text \<open>
  C4: when a run removes the finalizer of the component, then every item of the inventory that
  was handed over to the inner reconciler (as in C3) was either to be orphaned on
  deletion, or the run read its object as absent or as owned by somebody else. This leaves
  out items without a phase: an item loses its phase only when its object was settled in
  this way by an earlier call (C19), which then failed before it could drop the item.
\<close>

theorem Reconcile_releases_when_gone:
  assumes "sorts P" and "unstructured_keeps P" and "finalizers_documented P" and "\<And>c. serves r c \<Longrightarrow> reads_keep c"
    and "hooks_respect keeps_metadata r" and "setupComplete r"
    and "component_read (calls_of (Reconcile P r req) s) = Some c"
    and "CPatchFinalizers fs err \<in> set (calls_of (Reconcile P r req) s)" and "finalizerOf r \<notin> set fs"
  shows "list_all (\<lambda>item. ItemPhase item = PhaseNone \<or> released P r c (target_calls (calls_of (Reconcile P r req) s)) item)
    (handedOver (StatusInventory (CompStatus c)) (calls_of (Reconcile P r req) s))"
proof -
  have run: "component_run keeps_metadata r"
    using assms(5) documented_hook.hook_relation_axioms by (rule component_runI)
  let ?es = "calls_of (Reconcile P r req) s"
  have "case component_read ?es of Some c \<Rightarrow> inventory_ok P r c ?es | None \<Rightarrow> target_calls ?es = []"
    by (rule calls_of_wp, rule Reconcile_inventory [OF run assms(3,1,2,4,6)])
  moreover have "list_ex (lets_go (finalizerOf r)) ?es"
    using assms(8,9) by (auto simp: list_ex_iff lets_go_def split: cevent.splits intro!: bexI [OF _ assms(8)])
  ultimately show ?thesis using assms(7) by (simp add: inventory_ok_def)
qed

end
