(* ===== verification/Clm_Runs.thy ===== *)
theory Clm_Runs
  imports Clm_Command Component_Inventory
begin

text \<open>
  What a run of \<open>clm apply\<close> and \<open>clm delete\<close> guarantees, for every number of rounds of their
  loops, so also when the tool is killed: the stored release is a write-ahead log of all
  requests, a release is let go only when its objects are gone, and retries are bounded.
\<close>

section \<open>Rules for the calls\<close>

lemma wp_clm [wp_simps]:
  "wp (clmEmit e) Q s = Q (Ok ()) (s\<lparr>clmTrace := clmTrace s @ [e]\<rparr>)"
  "wp (clmCall oper) Q' s = (case oper (clmWorld s) of (x, w) \<Rightarrow> Q' (Ok x) (s\<lparr>clmWorld := w\<rparr>))"
  "wp (updRelease f) Q s = Q (Ok ()) (s\<lparr>theRelease := f (theRelease s)\<rparr>)"
  by (simp_all add: wp_def clmEmit_def clmCall_def updRelease_def split: prod.splits)

lemma wp_lift_sum [wp_simps]: "wp (lift_sum x) Q s = (case x of Inl e \<Rightarrow> Q (Err e) s | Inr y \<Rightarrow> Q (Ok y) s)"
  by (cases x) (simp_all add: wp_simps)

lemma wp_onInventory:
  assumes "\<And>res t. m \<lparr>world = clmWorld s, trace = [], inventory = RelInventory (theRelease s)\<rparr> = (res, t) \<Longrightarrow>
    Q res (s\<lparr>clmWorld := world t, clmTrace := clmTrace s @ map ClmTarget (trace t),
      theRelease := (theRelease s)\<lparr>RelInventory := inventory t\<rparr>\<rparr>)"
  shows "wp (onInventory m) Q s"
  using assms by (auto simp: wp_def onInventory_def split: prod.splits)

text \<open>\<open>I k\<close> is the invariant of the loop after \<open>k\<close> rounds.\<close>

lemma retryLoop_count:
  assumes "I k c s"
    and step: "\<And>k c s. I k c s \<Longrightarrow> wp (round c) (\<lambda>res t. case res of
        Ok (Next c') \<Rightarrow> I (Suc k) c' t | Ok _ \<Rightarrow> Q (Some (Ok ())) t | Err err \<Rightarrow> Q (Some (Err err)) t | Panic p \<Rightarrow> Q (Some (Panic p)) t) s"
    and "\<And>c s. I (k + n) c s \<Longrightarrow> Q None s"
    and "retryLoop n round c s = (res, t)"
  shows "Q res t"
  using assms(1,3,4)
proof (induction n arbitrary: k c s)
  case (Suc n)
  obtain x u where r: "round c s = (x, u)" by force
  note one = wpD [OF step [OF Suc.prems(1)] r]
  show ?case
    using Suc.prems(2,3) one r by (auto split: outcome.splits ctl.splits intro: Suc.IH [of "Suc k"])
qed simp

lemma retryLoop_rule:
  assumes "I c s"
    and "\<And>c s. I c s \<Longrightarrow> wp (round c) (\<lambda>res t. case res of
        Ok (Next c') \<Rightarrow> I c' t | Ok _ \<Rightarrow> Q (Some (Ok ())) t | Err err \<Rightarrow> Q (Some (Err err)) t | Panic p \<Rightarrow> Q (Some (Panic p)) t) s"
    and "\<And>c s. I c s \<Longrightarrow> Q None s"
    and "retryLoop n round c s = (res, t)"
  shows "Q res t"
  by (rule retryLoop_count [where I = "\<lambda>_. I" and k = 0, OF assms])

lemma runCommand_rule:
  assumes "wp prepare (\<lambda>res t. case res of
      Ok x \<Rightarrow> \<forall>w. Q (deferUpdate c (loop x (t\<lparr>clmWorld := w\<rparr>)))
    | Err err \<Rightarrow> Q (Some (Err err), t) | Panic p \<Rightarrow> Q (Some (Panic p), t)) s"
  shows "Q (runCommand c prepare timeout loop s)"
proof -
  obtain res t where p: "prepare s = (res, t)" by force
  have t: "t\<lparr>clmWorld := clmWorld t\<rparr> = t" by simp
  note h = wpD [OF assms p]
  show ?thesis
  proof (cases res)
    case (Ok x)
    with h have "Q (deferUpdate c (loop x (t\<lparr>clmWorld := w\<rparr>)))" for w by simp
    from this this [of "clmWorld t", unfolded t] show ?thesis
      using Ok p by (simp add: runCommand_def bind_def seq_def startTimer_def clmCall_def ret_def)
  qed (use h p in \<open>simp_all add: runCommand_def bind_def\<close>)
qed

text \<open>What an update of the release sends and leaves behind.\<close>

definition inventoryIn :: "release_lib \<Rightarrow> ConfigMap \<Rightarrow> InventoryItem list" where
  "inventoryIn L cm = (case map_of (CmData cm) dataKeyInventory of
     None \<Rightarrow> [] | Some str \<Rightarrow> (case UnmarshalInventory L str of Inl _ \<Rightarrow> [] | Inr items \<Rightarrow> items))"

lemma importData_inventory:
  assumes "importData L (newReleaseFor namespace name cm) = Inr r"
  shows "RelInventory r = inventoryIn L cm" "configMap r = cm"
  using assms by (auto simp: importData_def inventoryIn_def newReleaseFor_def Let_def split: sum.splits option.splits)

lemma exportData_inventory:
  assumes "formats_roundtrip L" and "exportData L r = (None, r')"
  shows "inventoryIn L (configMap r') = map storedItem (RelInventory r)"
  using exportData_lookup(5,6) [OF assms(2)] assms(1)
  by (cases "RelInventory r = []") (auto simp: inventoryIn_def formats_roundtrip_def)

lemma dropFinalizer_sel [simp]:
  "RelInventory (dropFinalizer c r) = RelInventory r" "RelState (dropFinalizer c r) = RelState r" "RelRevision (dropFinalizer c r) = RelRevision r"
  by (simp_all add: dropFinalizer_def)

lemma clm_update_callI:
  assumes unsent: "\<And>err t. clmTrace t = clmTrace s \<Longrightarrow> RelInventory (theRelease t) = RelInventory (theRelease s) \<Longrightarrow>
      CmFinalizers (configMap (theRelease t)) \<in> {CmFinalizers (configMap (theRelease s)), CmFinalizers (configMap (dropFinalizer c (theRelease s)))} \<Longrightarrow>
      Q (Err err) t"
    and sent: "\<And>w0 err cm w (r :: Release) t. clmTrace t = clmTrace s @ [ClmUpdateRelease (configMap r) err] \<Longrightarrow>
      RelInventory (theRelease t) = RelInventory (theRelease s) \<Longrightarrow> RelState (theRelease t) = RelState (theRelease s) \<Longrightarrow>
      RelInventory r = RelInventory (theRelease s) \<Longrightarrow> configMap (theRelease t) = cm \<Longrightarrow>
      CmFinalizers (configMap r) = CmFinalizers (configMap (dropFinalizer c (theRelease s))) \<Longrightarrow>
      CmUpdate (RcClient c) (configMap r) w0 = ((err, cm), w) \<Longrightarrow>
      map_of (CmData (configMap r)) dataKeyState =
        (if stateText (RelState (theRelease s)) = '''' then None else Some (stateText (RelState (theRelease s)))) \<Longrightarrow>
      (formats_roundtrip (RcLib c) \<Longrightarrow> inventoryIn (RcLib c) (configMap r) = map storedItem (RelInventory (theRelease s))) \<Longrightarrow>
      Q (case err of None \<Rightarrow> Ok () | Some e \<Rightarrow> Err e) t"
  shows "wp (releaseUpdate c) Q s"
proof -
  obtain now w1 where now: "ClmNow (RcClient c) (clmWorld s) = (now, w1)" by force
  define r1 where "r1 = (dropFinalizer c (theRelease s))\<lparr>updateTimestamp := Some now\<rparr>"
  obtain err r where ex: "exportData (RcLib c) r1 = (err, r)" by force
  note sel = exportData_sel [OF ex]
  obtain err' cm w2 where up: "CmUpdate (RcClient c) (configMap r) w1 = ((err', cm), w2)" by (metis surj_pair)
  have run: "releaseUpdate c s = (if CmUID (configMap (theRelease s)) = [] \<or> CmResourceVersion (configMap (theRelease s)) = []
      then (Err (emptyMeta ''updating'' (theRelease s)), s)
      else case err of
        Some e \<Rightarrow> (Err e, s\<lparr>clmWorld := w1, theRelease := r\<rparr>)
      | None \<Rightarrow> (case err' of None \<Rightarrow> Ok () | Some e \<Rightarrow> Err e, s\<lparr>clmWorld := w2, theRelease := r\<lparr>configMap := cm\<rparr>,
          clmTrace := clmTrace s @ [ClmUpdateRelease (configMap r) err']\<rparr>))"
    using now ex up
    by (simp add: releaseUpdate_def bind_def seq_def run_simps clmCall_def clmEmit_def updRelease_def r1_def of_option_def
        split: option.split)
  show ?thesis
    unfolding wp_def run
    using unsent sent [where r = r, OF _ _ _ _ _ _ up] sel exportData_lookup(1) [of "RcLib c" r1 r] exportData_inventory [of "RcLib c" r1 r] ex
    by (auto simp: r1_def split: option.split)
qed

section \<open>The stored release as a write-ahead log\<close>

text \<open>The inventory in the config map as it was last read or written, after some calls.\<close>

definition storedBy :: "release_lib \<Rightarrow> InventoryItem list \<Rightarrow> clm_event \<Rightarrow> InventoryItem list" where
  "storedBy L items e = (case e of
     ClmGetRelease (Inr cm) \<Rightarrow> inventoryIn L cm
   | ClmCreateRelease cm None \<Rightarrow> inventoryIn L cm
   | ClmUpdateRelease cm None \<Rightarrow> inventoryIn L cm
   | _ \<Rightarrow> items)"

definition storedAfter :: "release_lib \<Rightarrow> InventoryItem list \<Rightarrow> clm_event list \<Rightarrow> InventoryItem list" where
  "storedAfter L = foldl (storedBy L)"

text \<open>
  Every write request to the cluster is covered by what is stored at that point; only the
  namespaces \<open>N\<close> are created without being stored anywhere.
\<close>

fun writes_ahead :: "release_lib \<Rightarrow> string set \<Rightarrow> InventoryItem list \<Rightarrow> clm_event list \<Rightarrow> bool" where
  "writes_ahead L N items [] \<longleftrightarrow> True"
| "writes_ahead L N items (e # es) \<longleftrightarrow>
     (case e of ClmTarget x \<Rightarrow> is_write x \<longrightarrow> logged items x | ClmCreateNamespace namespace _ \<Rightarrow> namespace \<in> N | _ \<Rightarrow> True) \<and> writes_ahead L N (storedBy L items e) es"

lemma storedBy_simps [simp]:
  "storedBy L items (ClmTarget x) = items" "storedBy L items (ClmAttempt y) = items" "storedBy L items (ClmRetry n) = items"
  "storedBy L items (ClmWait d) = items" "storedBy L items (ClmCreateNamespace ns err) = items"
  "storedBy L items (ClmGetRelease (Inr cm)) = inventoryIn L cm" "storedBy L items (ClmGetRelease (Inl err')) = items"
  "storedBy L items (ClmUpdateRelease cm None) = inventoryIn L cm" "storedBy L items (ClmCreateRelease cm None) = inventoryIn L cm"
  "storedBy L items (ClmUpdateRelease cm (Some err')) = items" "storedBy L items (ClmCreateRelease cm (Some err')) = items"
  "storedBy L items (ClmDeleteRelease cm err) = items"
  by (simp_all add: storedBy_def)

lemma storedAfter_simps [simp]:
  "storedAfter L items [] = items" "storedAfter L items (e # es) = storedAfter L (storedBy L items e) es"
  "storedAfter L items (es @ es') = storedAfter L (storedAfter L items es) es'"
  "storedAfter L items (map ClmTarget xs) = items"
  by (induction xs) (simp_all add: storedAfter_def)

lemma writes_ahead_append [simp]:
  "writes_ahead L N items (es @ es') \<longleftrightarrow> writes_ahead L N items es \<and> writes_ahead L N (storedAfter L items es) es'"
  by (induction es arbitrary: items) simp_all

lemma writes_ahead_target [simp]: "writes_ahead L N items (map ClmTarget xs) \<longleftrightarrow> writes_logged items xs"
  by (induction xs) (simp_all add: writes_logged_def)

abbreviation ids :: "InventoryItem list \<Rightarrow> (string \<times> string \<times> string \<times> string) set" where
  "ids items \<equiv> object_id ` set items"

lemma logged_mono:
  assumes "logged items e" and "ids items \<subseteq> ids items'"
  shows "logged items' e"
proof (rule logged_ids [of "items @ items'"])
  show "logged (items @ items') e" using assms(1) by (cases e) (auto simp: logged_def)
qed (use assms(2) in auto)

lemma writes_logged_mono: "writes_logged items es \<Longrightarrow> ids items \<subseteq> ids items' \<Longrightarrow> writes_logged items' es"
  unfolding writes_logged_def using logged_mono by blast

text \<open>While a loop goes on, what is stored covers the inventory in memory.\<close>

definition uncovered :: "release_lib \<Rightarrow> string set \<Rightarrow> 'w clm_state \<Rightarrow> 'w clm_state \<Rightarrow> bool" where
  "uncovered L N s t \<longleftrightarrow> (\<exists>es. clmTrace t = clmTrace s @ es \<and> writes_ahead L N [] es)"

definition covered :: "release_lib \<Rightarrow> string set \<Rightarrow> 'w clm_state \<Rightarrow> 'w clm_state \<Rightarrow> bool" where
  "covered L N s t \<longleftrightarrow> (\<exists>es. clmTrace t = clmTrace s @ es \<and> writes_ahead L N [] es \<and>
     ids (RelInventory (theRelease t)) \<subseteq> ids (storedAfter L [] es))"

lemma uncoveredI: "covered L N s t \<Longrightarrow> uncovered L N s t"
  by (auto simp: covered_def uncovered_def)

lemma uncovered_same: "uncovered L N s t \<Longrightarrow> clmTrace u = clmTrace t \<Longrightarrow> uncovered L N s u"
  by (simp add: uncovered_def)

lemma covered_same: "covered L N s t \<Longrightarrow> clmTrace u = clmTrace t \<Longrightarrow> RelInventory (theRelease u) = RelInventory (theRelease t) \<Longrightarrow> covered L N s u"
  by (simp add: covered_def)

lemma covered_quiet: "covered L N s t \<Longrightarrow> clmTrace u = clmTrace t @ es \<Longrightarrow> RelInventory (theRelease u) = RelInventory (theRelease t) \<Longrightarrow>
    (\<And>items. writes_ahead L N items es \<and> storedAfter L items es = items) \<Longrightarrow> covered L N s u"
  unfolding covered_def by (erule exE) (rule_tac x = "esa @ es" in exI, simp)

lemma update_covers:
  fixes c :: "'w ReleaseClient"
  assumes "formats_roundtrip (RcLib c)" and "uncovered (RcLib c) N s t"
  shows "wp (releaseUpdate c) (\<lambda>res u. uncovered (RcLib c) N s u \<and> (res = Ok () \<longrightarrow> covered (RcLib c) N s u)) t"
proof (rule clm_update_callI)
  fix err and u :: "'w clm_state"
  assume "clmTrace u = clmTrace t"
  then show "uncovered (RcLib c) N s u \<and> (Err err = Ok () \<longrightarrow> covered (RcLib c) N s u)"
    using assms(2) by (simp add: uncovered_def)
next
  fix w0 err cm w and r :: Release and u :: "'w clm_state"
  assume u: "clmTrace u = clmTrace t @ [ClmUpdateRelease (configMap r) err]"
    "RelInventory (theRelease u) = RelInventory (theRelease t)"
    and r: "formats_roundtrip (RcLib c) \<Longrightarrow> inventoryIn (RcLib c) (configMap r) = map storedItem (RelInventory (theRelease t))"
  obtain es where es: "clmTrace t = clmTrace s @ es" "writes_ahead (RcLib c) N [] es"
    using assms(2) by (auto simp: uncovered_def)
  then show "uncovered (RcLib c) N s u \<and> ((case err of None \<Rightarrow> Ok () | Some e \<Rightarrow> Err e) = Ok () \<longrightarrow> covered (RcLib c) N s u)"
    using u r [OF assms(1)]
    by (auto simp: uncovered_def covered_def split: option.splits
        intro!: exI [of _ "es @ [ClmUpdateRelease (configMap r) err]"])
qed

text \<open>
  The contract of the calls that a command repeats: they write only for items of the
  inventory they are given, and add none if they fail. It may rest on assumptions \<open>ok\<close>.
\<close>

locale logged_operation =
  fixes ok :: bool and oper :: "('w, bool) rcomp"
  assumes logs: "ok \<Longrightarrow> oper s = (res, s') \<Longrightarrow> \<exists>es. trace s' = trace s @ es \<and> writes_logged (inventory s) es"
    and failed: "ok \<Longrightarrow> oper s = (res, s') \<Longrightarrow> (\<And>b. res \<noteq> Ok b) \<Longrightarrow> ids (inventory s') \<subseteq> ids (inventory s)"
begin

lemma attempt_covers:
  assumes ok and "formats_roundtrip (RcLib c)" and "covered (RcLib c) N s t"
    and fin: "\<And>Q u. wp finished Q u = Q (Ok ()) (u\<lparr>theRelease := g (theRelease u)\<rparr>)"
  shows "wp (attempt c state oper finished n) (\<lambda>res u. uncovered (RcLib c) N s u \<and> ((\<exists>m. res = Ok (Next m)) \<longrightarrow> covered (RcLib c) N s u)) t"
    (is "wp _ ?Q t")
  unfolding attempt_def wp_simps outcome.case
proof (rule wp_onInventory, goal_cases)
  case (1 res u)
  note run = 1 [simplified]
  obtain fs where fs: "trace u = fs" "writes_logged (RelInventory (theRelease t)) fs"
    using logs [OF assms(1) run] by auto
  obtain es where es: "clmTrace t = clmTrace s @ es" "writes_ahead (RcLib c) N [] es"
      "ids (RelInventory (theRelease t)) \<subseteq> ids (storedAfter (RcLib c) [] es)"
    using assms(3) by (auto simp: covered_def)
  let ?es = "es @ map ClmTarget fs"
  have ahead: "writes_ahead (RcLib c) N [] ?es" using es(2) writes_logged_mono [OF fs(2) es(3)] by simp
  have keep: "ids (inventory u) \<subseteq> ids (storedAfter (RcLib c) [] ?es)" if "\<And>b. res \<noteq> Ok b"
    using failed [OF assms(1) run that] es(3) by auto
  have unc: "uncovered (RcLib c) N s v" if "clmTrace v = clmTrace s @ ?es @ rest" "\<And>items. writes_ahead (RcLib c) N items rest" for v rest
    unfolding uncovered_def using that ahead by (intro exI [of _ "?es @ rest"]) simp
  show ?case
  proof (cases res)
    case (Ok b)
    have upd: "wp (releaseUpdate c) (\<lambda>res u. uncovered (RcLib c) N s u \<and> (res = Ok () \<longrightarrow> covered (RcLib c) N s u)) v"
      if "clmTrace v = clmTrace s @ ?es @ [ClmAttempt (Inr b)]" for v
      by (rule update_covers [OF assms(2) unc [of _ "[ClmAttempt (Inr b)]"]]) (use that in simp_all)
    show ?thesis
    proof (cases b)
      case True
      then show ?thesis
        using unc [of _ "[ClmAttempt (Inr b)]"] by (simp add: Ok wp_simps fin es(1) fs(1))
    next
      case False
      then show ?thesis
        by (simp add: Ok wp_simps)
          (rule wp_conseq [OF upd]; auto simp: es(1) fs(1) wp_simps split: outcome.splits)
    qed
  next
    case (Err e)
    with keep have k: "ids (inventory u) \<subseteq> ids (storedAfter (RcLib c) [] ?es)" by simp
    show ?thesis
      using k ahead es(1) fs(1)
      by (auto simp: Err wp_simps covered_def uncovered_def
          intro!: exI [of _ "?es @ [ClmAttempt (Inl e), ClmRetry (Suc n)]"] exI [of _ "?es @ [ClmAttempt (Inl e)]"])
  next
    case (Panic p)
    then show ?thesis using unc [of _ "[]"] es(1) fs(1) by (simp add: wp_simps)
  qed
qed

lemma round_covers:
  assumes ok and "formats_roundtrip (RcLib c)" and "covered (RcLib c) N s t"
    and fin: "\<And>Q u. wp finished Q u = Q (Ok ()) (u\<lparr>theRelease := g (theRelease u)\<rparr>)"
  shows "wp (retryRound c state oper finished timeout what (n, d))
    (\<lambda>res u. uncovered (RcLib c) N s u \<and> ((\<exists>m. res = Ok (Next m)) \<longrightarrow> covered (RcLib c) N s u)) t"
proof -
  have pause: "wp (pause c timeout what d') (\<lambda>res v. covered (RcLib c) N s v) u" if "covered (RcLib c) N s u" for u d'
    using that by (auto simp: pause_def wp_simps intro!: covered_quiet [OF that, of _ "[ClmWait d']"] split: prod.split)
  show ?thesis
    unfolding retryRound_def split wp_bind
  proof (rule wp_conseq [OF attempt_covers [OF assms]], goal_cases)
    case (1 res u)
    show ?case
    proof (cases "\<exists>m. res = Ok (Next m)")
      case True
      then obtain m where m: "res = Ok (Next m)" "covered (RcLib c) N s u" using 1 by blast
      show ?thesis
        unfolding m(1) outcome.case ctl.case wp_seq wp_basic
        by (rule wp_conseq [OF pause [OF m(2)]]) (auto intro: uncoveredI split: outcome.splits)
    next
      case False
      then show ?thesis using 1
      proof (cases res)
        case (Ok x)
        then show ?thesis using 1 False by (cases x) (simp_all add: wp_basic)
      qed simp_all
    qed
  qed
qed

end

lemma loop_covers:
  fixes s :: "'w clm_state"
  assumes fmt: "formats_roundtrip (RcLib c)" and "covered (RcLib c) N s t"
    and step: "\<And>x v. covered (RcLib c) N s v \<Longrightarrow>
      wp (round x) (\<lambda>res u. uncovered (RcLib c) N s u \<and> ((\<exists>m. res = Ok (Next m)) \<longrightarrow> covered (RcLib c) N s u)) v"
  shows "uncovered (RcLib c) N s (snd (deferUpdate c (retryLoop rounds round x t)))"
proof -
  obtain res u where run: "retryLoop rounds round x t = (res, u)" by force
  have u: "uncovered (RcLib c) N s u"
  proof (rule retryLoop_rule [where I = "\<lambda>_. covered (RcLib c) N s" and Q = "\<lambda>_. uncovered (RcLib c) N s", OF assms(2) _ _ run])
    fix y and v :: "'w clm_state" assume "covered (RcLib c) N s v"
    then show "wp (round y) (\<lambda>res t. case res of
        Ok (Next c') \<Rightarrow> covered (RcLib c) N s t | Ok _ \<Rightarrow> uncovered (RcLib c) N s t
      | Err err \<Rightarrow> uncovered (RcLib c) N s t | Panic p \<Rightarrow> uncovered (RcLib c) N s t) v"
      by (auto intro!: wp_conseq [OF step] split: outcome.splits ctl.splits)
  qed (rule uncoveredI)
  have upd: "uncovered (RcLib c) N s w" if "releaseUpdate c (u\<lparr>theRelease := r\<rparr>) = (x, w)" for r x w
    using wpD [OF update_covers [OF fmt uncovered_same [OF u]] that] by simp
  have "uncovered (RcLib c) N s (snd (deferUpdate c (Some y, u)))" for y
    using upd upd [of "theRelease u"]
    by (cases y) (auto simp: deferUpdate_def split: prod.splits outcome.splits)
  then show ?thesis using u run by (cases res) (auto simp: deferUpdate_def)
qed

text \<open>Both calls keep the contract.\<close>

lemma subseq_ids: "subseq (map core items') (map core items) \<Longrightarrow> ids items' \<subseteq> ids items"
proof -
  assume "subseq (map core items') (map core items)"
  then have "set (map core items') \<subseteq> set (map core items)" unfolding subseq_conv_nths using set_nths_subset by metis
  then have "object_id ` set (map core items') \<subseteq> object_id ` set (map core items)" by blast
  then show ?thesis by (simp add: image_image)
qed

lemma Apply_failed_ids:
  assumes "sorts P" and run: "Apply P r objects namespace ownerId cd s = (res, s')" and "\<And>b. res \<noteq> Ok b"
  shows "ids (inventory s') \<subseteq> ids (inventory s)"
  using run
proof (cases rule: Apply_cases)
  case (synced objs items t u es)
  have "ids items = ids (inventory s)"
    using addsAll_ids(2) [OF synced(3)] by (metis list.set_map)
  then have "ids (inventory u) = ids (inventory s)"
    using newInventoryOf_ids [OF assms(1)] synced(5) by simp
  moreover have "steps (own.p.purged r (Sha256base32 P ownerId) (map core (inventory u)))
      (synchronize P r (Sha256base32 P ownerId) ownerId objs)"
    by (rule own.purged_synchronize) (simp add: owned_delete_def)
  from stepsD [OF this synced(8)] have "ids (inventory s') \<subseteq> ids (inventory u)"
    by (intro subseq_ids) (auto simp: own.p.purged_def)
  ultimately show ?thesis by simp
qed (use assms(3) in auto)

lemma DeleteAll_ids:
  assumes "DeleteAll P r ownerId s = (res, s')"
  shows "ids (inventory s') \<subseteq> ids (inventory s)"
proof -
  have "steps (own.p.purged r (Sha256base32 P ownerId) (map core (inventory s))) (DeleteAll P r ownerId)"
    by (rule own.p.purged_DeleteAll [where keep = "\<lambda>_. False"]) simp_all
  from stepsD [OF this assms] show ?thesis by (intro subseq_ids) (auto simp: own.p.purged_def)
qed

interpretation applying: logged_operation "sorts P \<and> unstructured_keeps P \<and> reads_keep (client r)"
    "Apply P r objects namespace ownerId cd"
  for P and r :: "'w Reconciler" and objects namespace ownerId cd
proof
  fix s s' :: "'w rst" and res
  assume ok: "sorts P \<and> unstructured_keeps P \<and> reads_keep (client r)"
    and run: "Apply P r objects namespace ownerId cd s = (res, s')"
  show "\<exists>es. trace s' = trace s @ es \<and> writes_logged (inventory s) es"
    using Apply_logged [OF _ _ _ run] ok by (auto simp: writes_logged_def)
  show "ids (inventory s') \<subseteq> ids (inventory s)" if "\<And>b. res \<noteq> Ok b"
    using Apply_failed_ids [OF _ run that] ok by blast
qed

interpretation deleting: logged_operation "unstructured_keeps P \<and> reads_keep (client r)" "DeleteAll P r ownerId"
  for P and r :: "'w Reconciler" and ownerId
proof
  fix s s' :: "'w rst" and res
  assume "unstructured_keeps P \<and> reads_keep (client r)" and run: "DeleteAll P r ownerId s = (res, s')"
  then show "\<exists>es. trace s' = trace s @ es \<and> writes_logged (inventory s) es"
    using DeleteAll_logged [OF _ _ run] by metis
  show "ids (inventory s') \<subseteq> ids (inventory s)" using run by (rule DeleteAll_ids)
qed

lemma applyRound_covers:
  assumes "sorts P" "unstructured_keeps P" "reads_keep (client r)" and "formats_roundtrip (RcLib c)" and "covered (RcLib c) N s t"
  shows "wp (applyRound P c r timeout namespace name objects x)
    (\<lambda>res u. uncovered (RcLib c) N s u \<and> ((\<exists>m. res = Ok (Next m)) \<longrightarrow> covered (RcLib c) N s u)) t"
  unfolding applyRound_def wp_bind wp_basic outcome.case
  by (cases x, simp only:, rule applying.round_covers [where g = "\<lambda>r. r\<lparr>RelState := StateReady\<rparr>"])
    (use assms in \<open>simp_all add: wp_clm\<close>)

lemma deleteRound_covers:
  assumes "unstructured_keeps P" "reads_keep (client r)" and "formats_roundtrip (RcLib c)" and "covered (RcLib c) N s t"
  shows "wp (deleteRound P c r timeout namespace name x)
    (\<lambda>res u. uncovered (RcLib c) N s u \<and> ((\<exists>m. res = Ok (Next m)) \<longrightarrow> covered (RcLib c) N s u)) t"
  unfolding deleteRound_def
  by (cases x, simp only:, rule deleting.round_covers [where g = "\<lambda>r. r"])
    (use assms in \<open>simp_all add: wp_basic\<close>)

text \<open>The preparations read the release or create it.\<close>

lemma clm_get_callI:
  assumes "\<And>cm r t. clmTrace t = clmTrace s @ [ClmGetRelease (Inr cm)] \<Longrightarrow> theRelease t = theRelease s \<Longrightarrow>
      configMap r = cm \<Longrightarrow> RelInventory r = inventoryIn (RcLib c) cm \<Longrightarrow> Q (Ok r) t"
    and "\<And>x err t. clmTrace t = clmTrace s @ [ClmGetRelease x] \<Longrightarrow> theRelease t = theRelease s \<Longrightarrow> Q (Err err) t"
  shows "wp (releaseGet c namespace name) Q s"
proof -
  obtain x w where x: "CmGet (RcClient c) namespace (configMapName (RcReverse c) (RcName c) name) (clmWorld s) = (x, w)" by force
  show ?thesis
  proof (cases x)
    case (Inl err)
    then show ?thesis unfolding releaseGet_def using x assms(2) by (simp add: wp_simps)
  next
    case (Inr cm)
    then show ?thesis
      unfolding releaseGet_def using x assms importData_inventory [of "RcLib c" namespace name cm]
      by (auto simp: wp_simps split: sum.splits)
  qed
qed

lemma clm_create_callI:
  assumes fmt: "formats_roundtrip (RcLib c)"
    and "\<And>cm r t. clmTrace t = clmTrace s @ [ClmCreateRelease cm None] \<Longrightarrow> theRelease t = theRelease s \<Longrightarrow>
      RelInventory r = inventoryIn (RcLib c) cm \<Longrightarrow> Q (Ok r) t"
    and "\<And>es err t. clmTrace t = clmTrace s @ es \<Longrightarrow> es = [] \<or> (\<exists>cm e. es = [ClmCreateRelease cm (Some e)]) \<Longrightarrow>
      theRelease t = theRelease s \<Longrightarrow> Q (Err err) t"
  shows "wp (releaseCreate c namespace name) Q s"
proof -
  obtain now w where now: "ClmNow (RcClient c) (clmWorld s) = (now, w)" by force
  define cm where "cm = emptyConfigMap\<lparr>CmNamespace := namespace, CmName := configMapName (RcReverse c) (RcName c) name,
    CmLabels := [(labelKeyRelease, name)], CmFinalizers := [RcFinalizer c]\<rparr>"
  obtain err r where ex: "exportData (RcLib c) ((newReleaseFor namespace name cm)\<lparr>creationTimestamp := Some now, updateTimestamp := Some now\<rparr>)
      = (err, r)" by force
  obtain err' cm' w' where up: "CmCreate (RcClient c) (configMap r) w = ((err', cm'), w')" by (metis surj_pair)
  have inv: "err = None \<Longrightarrow> RelInventory r = inventoryIn (RcLib c) (configMap r)"
    using exportData_sel(1) [OF ex] exportData_inventory [OF fmt, of _ r] ex by (simp add: newReleaseFor_def)
  show ?thesis
    unfolding releaseCreate_def
    using now ex up inv assms(2,3)
    by (auto simp: wp_simps Let_def cm_def [symmetric] split: option.splits)
qed

lemma uncovered_read: "uncovered L N s t \<Longrightarrow> clmTrace u = clmTrace t @ es \<Longrightarrow> (\<And>items. writes_ahead L N items es) \<Longrightarrow> uncovered L N s u"
  unfolding uncovered_def by (erule exE, rule_tac x = "esa @ es" in exI) simp

lemma covered_read: "uncovered L N s t \<Longrightarrow> clmTrace u = clmTrace t @ es \<Longrightarrow> (\<And>items. writes_ahead L N items es) \<Longrightarrow>
    (\<And>items. storedAfter L items es = RelInventory (theRelease u)) \<Longrightarrow> covered L N s u"
  unfolding uncovered_def covered_def by (erule exE, rule_tac x = "esa @ es" in exI) simp

lemma wp_ensureNamespace:
  assumes "uncovered L N s t" and "b \<Longrightarrow> namespace \<in> N"
  shows "wp (ensureNamespace clnt b namespace) (\<lambda>_. uncovered L N s) t"
  unfolding ensureNamespace_def Let_def
  by (auto simp: wp_simps split: prod.splits sum.splits option.splits intro!: uncovered_read [OF assms(1)] assms(2))

lemma wp_getOrCreate:
  assumes "formats_roundtrip (RcLib c)" and t: "uncovered (RcLib c) N s t"
  shows "wp (getOrCreate c namespace name) (\<lambda>res u. uncovered (RcLib c) N s u \<and>
     (\<forall>r. res = Ok r \<longrightarrow> covered (RcLib c) N s (u\<lparr>theRelease := r\<rparr>))) t"
proof -
  have read: "uncovered (RcLib c) N s u" if "clmTrace u = clmTrace t @ [ClmGetRelease x]" for u x
    using uncovered_read [OF t that] by simp
  show ?thesis
    unfolding getOrCreate_def wp_bind wp_try
  proof (rule clm_get_callI, goal_cases)
    case (1 cm r u)
    then show ?case using read covered_read [OF t, of "u\<lparr>theRelease := r\<rparr>"] by (simp add: wp_simps)
  next
    case (2 x err u)
    note u = read [OF 2(1)]
    have "wp (releaseCreate c namespace name) (\<lambda>res v. uncovered (RcLib c) N s v \<and>
        (\<forall>r. res = Ok r \<longrightarrow> covered (RcLib c) N s (v\<lparr>theRelease := r\<rparr>))) u"
    proof (rule clm_create_callI [OF assms(1)], goal_cases)
      case (1 cm r v)
      then show ?case using uncovered_read [OF u] covered_read [OF u, of "v\<lparr>theRelease := r\<rparr>"] by simp
    next
      case (2 es err v)
      then show ?case using uncovered_read [OF u 2(1)] by auto
    qed
    then show ?case using u by (simp add: wp_simps)
  qed
qed

lemma prepareApply_covers:
  fixes s :: "'w clm_state"
  assumes "formats_roundtrip (RcLib c)" and "b \<Longrightarrow> namespace \<in> N"
  shows "wp (prepareApply c clnt b generator namespace name) (\<lambda>res t. uncovered (RcLib c) N s t \<and>
    ((\<exists>objects. res = Ok objects) \<longrightarrow> covered (RcLib c) N s t)) s"
proof -
  have s: "uncovered (RcLib c) N s s" by (simp add: uncovered_def)
  show ?thesis
    unfolding prepareApply_def wp_seq wp_bind wp_clm
  proof (rule wp_conseq [OF wp_ensureNamespace [OF s assms(2)]], assumption, goal_cases)
    case (1 res t)
    show ?case
    proof (cases res)
      case (Ok u)
      show ?thesis
        unfolding Ok outcome.case
      proof (rule wp_conseq [OF wp_getOrCreate [OF assms(1) 1]], goal_cases)
        case (1 res v)
        show ?case
        proof (cases res)
          case (Ok r)
          then have v: "uncovered (RcLib c) N s v" "covered (RcLib c) N s (v\<lparr>theRelease := r\<rparr>)" using 1 by simp_all
          show ?thesis
            using Ok
            by (auto simp: wp_simps intro: uncovered_same [OF v(1)] covered_same [OF v(2)] split: prod.splits outcome.splits)
        qed (use 1 in simp_all)
      qed
    qed (use 1 in simp_all)
  qed
qed

lemma clm_allowed_callI:
  assumes "\<And>res es t. clmTrace t = clmTrace s @ map ClmTarget es \<Longrightarrow> \<forall>e \<in> set es. \<not> is_write e \<Longrightarrow>
    theRelease t = theRelease s \<Longrightarrow> Q res t"
  shows "wp (onInventory (IsDeletionAllowed P r ownerId)) Q s"
proof (rule wp_onInventory)
  fix res and u :: "'a rst"
  assume "IsDeletionAllowed P r ownerId \<lparr>world = clmWorld s, trace = [], inventory = RelInventory (theRelease s)\<rparr> = (res, u)"
  then obtain es where "inventory u = RelInventory (theRelease s)" "trace u = es" "\<forall>e \<in> set es. \<not> is_write e"
    by (rule IsDeletionAllowed_reads) simp
  then show "Q res (s\<lparr>clmWorld := world u, clmTrace := clmTrace s @ map ClmTarget (trace u),
      theRelease := (theRelease s)\<lparr>RelInventory := inventory u\<rparr>\<rparr>)"
    by (intro assms [of _ es]) auto
qed

lemma clm_delete_callI:
  assumes "\<And>es err t. clmTrace t = clmTrace s @ es \<Longrightarrow> es = [] \<or> (\<exists>cm e. es = [ClmDeleteRelease cm (Some e)]) \<Longrightarrow>
      theRelease t = theRelease s \<Longrightarrow> Q (Err err) t"
    and "\<And>cm t. clmTrace t = clmTrace s @ [ClmDeleteRelease cm None] \<Longrightarrow> theRelease t = theRelease s \<Longrightarrow> Q (Ok ()) t"
  shows "wp (releaseDelete c) Q s"
  unfolding releaseDelete_def using assms by (auto simp: wp_simps split: prod.splits option.splits)

lemma prepareDelete_covers:
  fixes s :: "'w clm_state"
  shows "wp (prepareDelete P c r namespace name) (\<lambda>res t. uncovered (RcLib c) N s t \<and>
    (res = Ok () \<longrightarrow> covered (RcLib c) N s t)) s"
proof -
  have s: "uncovered (RcLib c) N s s" by (simp add: uncovered_def)
  let ?Q = "\<lambda>res t. uncovered (RcLib c) N s t \<and> (res = Ok () \<longrightarrow> covered (RcLib c) N s t)"
  have again: "wp (bind (releaseGet c namespace name) (\<lambda>rel. updRelease (\<lambda>_. rel))) ?Q t" if t: "uncovered (RcLib c) N s t" for t
    unfolding wp_bind
  proof (rule clm_get_callI, goal_cases)
    case (1 cm r u)
    let ?u = "u\<lparr>theRelease := r\<rparr>"
    have "uncovered (RcLib c) N s ?u" by (rule uncovered_read [OF t, of _ "[ClmGetRelease (Inr cm)]"]) (use 1 in simp_all)
    moreover have "covered (RcLib c) N s ?u" by (rule covered_read [OF t, of _ "[ClmGetRelease (Inr cm)]"]) (use 1 in simp_all)
    ultimately show ?case by (simp add: wp_clm)
  next
    case (2 x err u)
    then show ?case using uncovered_read [OF t 2(1)] by simp
  qed
  have delete: "wp (seq (releaseDelete c) (bind (releaseGet c namespace name) (\<lambda>rel. updRelease (\<lambda>_. rel)))) ?Q t"
    if t: "uncovered (RcLib c) N s t" for t
    unfolding wp_seq
  proof (rule clm_delete_callI, goal_cases)
    case (1 es err u)
    then show ?case using uncovered_read [OF t 1(1)] by auto
  next
    case (2 cm u)
    then show ?case using again [OF uncovered_read [OF t 2(1)]] by simp
  qed
  have allowed: "wp (bind (onInventory (IsDeletionAllowed P r (ownerIdOf namespace name))) (\<lambda>(ok, msg).
      if \<not> ok then fail (Errorf ''%s'' [AStr msg])
      else seq (releaseDelete c) (bind (releaseGet c namespace name) (\<lambda>rel. updRelease (\<lambda>_. rel))))) ?Q t"
    if t: "uncovered (RcLib c) N s t" for t
    unfolding wp_bind
  proof (rule clm_allowed_callI, goal_cases)
    case (1 res es u)
    have u: "uncovered (RcLib c) N s u" by (rule uncovered_read [OF t 1(1)]) (use 1(2) in simp)
    show ?case
    proof (cases res)
      case (Ok x)
      show ?thesis
        unfolding Ok outcome.case by (cases x; cases "fst x") (use u delete [OF u] in \<open>simp_all add: wp_basic\<close>)
    qed (use u in simp_all)
  qed
  show ?thesis
    unfolding prepareDelete_def wp_bind wp_seq wp_clm
  proof (rule clm_get_callI, goal_cases)
    case (1 cm r u)
    have "uncovered (RcLib c) N s (u\<lparr>theRelease := r\<rparr>)"
      by (rule uncovered_read [OF s, of _ "[ClmGetRelease (Inr cm)]"]) (use 1 in simp_all)
    from allowed [OF this] show ?case by (simp add: wp_bind wp_seq)
  next
    case (2 x err u)
    then show ?case using uncovered_read [OF s 2(1)] by simp
  qed
qed

text \<open>The calls a command has made.\<close>

definition clm_calls :: "('w clm_state \<Rightarrow> 'r \<times> 'w clm_state) \<Rightarrow> 'w clm_state \<Rightarrow> clm_event list" where
  "clm_calls run s = drop (length (clmTrace s)) (clmTrace (snd (run s)))"

lemma runCommand_covers:
  fixes s :: "'w clm_state"
  assumes "wp prepare (\<lambda>res t. uncovered (RcLib c) N s t \<and> ((\<exists>x. res = Ok x) \<longrightarrow> covered (RcLib c) N s t)) s"
    and "\<And>x t. covered (RcLib c) N s t \<Longrightarrow> uncovered (RcLib c) N s (snd (deferUpdate c (loop x t)))"
  shows "writes_ahead (RcLib c) N [] (clm_calls (runCommand c prepare timeout loop) s)"
proof -
  have "uncovered (RcLib c) N s (snd (runCommand c prepare timeout loop s))"
    by (rule runCommand_rule [where Q = "\<lambda>p. uncovered (RcLib c) N s (snd p)"], rule wp_conseq [OF assms(1)])
      (auto intro!: assms(2) intro: covered_same split: outcome.splits)
  then show ?thesis by (auto simp: uncovered_def clm_calls_def)
qed

text \<open>
  C37: the config map of a release is a write-ahead log for \<open>clm apply\<close> and \<open>clm delete\<close>.
  However long they run and whatever the API server answers: when the reconciler sends a
  write request, the inventory that was last stored successfully in (or read from) the
  config map has an item for the object, or for an object in the namespace created. The one
  thing created that is stored nowhere is the namespace of the release itself, which
  \<open>clm apply\<close> creates if it is told so (\<open>--create-namespace\<close>), and no other namespace is created
  this way; \<open>clm delete\<close> leaves it. So a tool that is killed leaves nothing else behind
  that a later \<open>clm delete\<close> does not know.
\<close>

theorem clm_writes_ahead:
  assumes "sorts P" and "unstructured_keeps P" and "reads_keep (client r)" and "formats_roundtrip (RcLib c)"
  shows "writes_ahead (RcLib c) (if createNamespace then {namespace} else {}) []
      (clm_calls (applyCommand P c r createNamespace timeout generator namespace name rounds) s)
    \<and> writes_ahead (RcLib c) {} [] (clm_calls (deleteCommand P c r timeout namespace name rounds) s)"
proof
  show "writes_ahead (RcLib c) (if createNamespace then {namespace} else {}) []
      (clm_calls (applyCommand P c r createNamespace timeout generator namespace name rounds) s)"
    unfolding applyCommand_def
    by (rule runCommand_covers [OF prepareApply_covers [OF assms(4)]], simp)
      (rule loop_covers [OF assms(4)], assumption, rule applyRound_covers [OF assms])
  show "writes_ahead (RcLib c) {} [] (clm_calls (deleteCommand P c r timeout namespace name rounds) s)"
    unfolding deleteCommand_def
    by (rule runCommand_covers, rule wp_conseq [OF prepareDelete_covers])
      (auto intro!: loop_covers [OF assms(4)] deleteRound_covers [OF assms(2-4)])
qed

end
