(* ===== verification/Clm_Delete.thy ===== *)
theory Clm_Delete
  imports Clm_Runs
begin

text \<open>
  When \<open>clm delete\<close> lets a release go. The items of the release are followed through all
  rounds of the command, failed ones included, by a relation between the states of the
  command that every step of its loop respects.
\<close>

section \<open>The reconciler's Delete\<close>

text \<open>Whatever its result, an item stays in the inventory unless its object is settled.\<close>

lemma DeleteAll_remaining:
  assumes run: "DeleteAll P r ownerId s = (res, s')" and tr: "trace s' = trace s @ es"
    and item: "item \<in> set (inventory s)" "ItemPhase item \<noteq> PhaseNone"
  shows "(\<exists>item' \<in> set (inventory s'). core item' = core item \<and> ItemPhase item' \<noteq> PhaseNone) \<or>
    done_with r (Sha256base32 P ownerId) orphanedOnDelete es item"
proof -
  let ?h = "Sha256base32 P ownerId"
  obtain x t where loop: "for_each [0..<length (inventory s)] \<lparr>numManagedToBeDeleted = 0, numToBeDeleted = 0\<rparr>
      (deleteStep P r ?h) s = (x, t)" by force
  then have t: "trace s' = trace t" and inv: "inventory s' = filter (\<lambda>item. ItemPhase item \<noteq> PhaseNone) (inventory t) \<or>
      inventory s' = inventory t"
    using run by (cases x; auto simp: DeleteAll_def Let_def bind_def seq_def dropGoneItems_def)+
  have "steps (tracked (owned_delete r ?h) {} (map core (inventory s))) (for_each [0..<length (inventory s)]
      \<lparr>numManagedToBeDeleted = 0, numToBeDeleted = 0\<rparr> (deleteStep P r ?h))"
    by (intro own.t.steps_for_each own.p.steps_deleteStep [where keep = "\<lambda>_. False"]) auto
  from stepsD [OF this loop] have cores: "map core (inventory t) = map core (inventory s)"
    unfolding tracked_def by simp
  obtain j where j: "j < length (inventory s)" "item = inventory s ! j" using item(1) by (auto simp: in_set_conv_nth)
  then have jt: "j < length (inventory t)" "core (inventory t ! j) = core item"
    using cores by (metis length_map, metis length_map nth_map)
  show ?thesis
  proof (cases "ItemPhase (inventory t ! j) = PhaseNone")
    case True
    then show ?thesis using del.purge_cleared [OF loop _ j(1) True] tr t item(2) j(2) by simp
  next
    case False
    then have "inventory t ! j \<in> set (inventory s')" using inv jt(1) by auto
    then show ?thesis using False jt(2) by blast
  qed
qed

section \<open>Following the items\<close>

definition targetsOf :: "clm_event list \<Rightarrow> event list" where
  "targetsOf es = concat (map (\<lambda>e. case e of ClmTarget x \<Rightarrow> [x] | _ \<Rightarrow> []) es)"

lemma targetsOf_simps [simp]:
  "targetsOf [] = []" "targetsOf (es @ es') = targetsOf es @ targetsOf es'" "targetsOf (map ClmTarget xs) = xs"
  by (induction xs) (simp_all add: targetsOf_def)

text \<open>The config map read last.\<close>

fun lastRead :: "clm_event list \<Rightarrow> ConfigMap option" where
  "lastRead [] = None"
| "lastRead (e # es) = (case lastRead es of Some cm \<Rightarrow> Some cm
     | None \<Rightarrow> (case e of ClmGetRelease (Inr cm) \<Rightarrow> Some cm | _ \<Rightarrow> None))"

lemma lastRead_append: "lastRead (es @ es') = (case lastRead es' of Some cm \<Rightarrow> Some cm | None \<Rightarrow> lastRead es)"
  by (induction es) (auto split: option.splits)

text \<open>
  The relation: an item with a phase is kept or settled; the finalizer goes only when all are
  settled, both from the release in memory and from what is sent.
\<close>

definition settledIn :: "'w Reconciler \<Rightarrow> string \<Rightarrow> event list \<Rightarrow> InventoryItem list \<Rightarrow> bool" where
  "settledIn r h es items \<longleftrightarrow> (\<forall>item \<in> set items. ItemPhase item \<noteq> PhaseNone \<longrightarrow> done_with r h orphanedOnDelete es item)"

definition kept_or_settled :: "'w Reconciler \<Rightarrow> string \<Rightarrow> event list \<Rightarrow> InventoryItem list \<Rightarrow> InventoryItem list \<Rightarrow> bool" where
  "kept_or_settled r h es items items' \<longleftrightarrow> (\<forall>item \<in> set items. ItemPhase item \<noteq> PhaseNone \<longrightarrow>
     (\<exists>item' \<in> set items'. core item' = core item \<and> ItemPhase item' \<noteq> PhaseNone) \<or> done_with r h orphanedOnDelete es item)"

abbreviation hasFinalizer :: "'w ReleaseClient \<Rightarrow> ConfigMap \<Rightarrow> bool" where
  "hasFinalizer c cm \<equiv> RcFinalizer c \<in> set (CmFinalizers cm)"

definition letting_go :: "'w ReleaseClient \<Rightarrow> 'w Reconciler \<Rightarrow> string \<Rightarrow> 'w clm_state \<Rightarrow> 'w clm_state \<Rightarrow> bool" where
  "letting_go c r h s t \<longleftrightarrow> (\<exists>es. clmTrace t = clmTrace s @ es \<and> lastRead es = None \<and>
     kept_or_settled r h (targetsOf es) (RelInventory (theRelease s)) (RelInventory (theRelease t)) \<and>
     (hasFinalizer c (configMap (theRelease s)) \<longrightarrow>
        hasFinalizer c (configMap (theRelease t)) \<or> settledIn r h (targetsOf es) (RelInventory (theRelease s))) \<and>
     (hasFinalizer c (configMap (theRelease s)) \<longrightarrow> (\<forall>cm err. ClmUpdateRelease cm err \<in> set es \<longrightarrow>
        hasFinalizer c cm \<or> settledIn r h (targetsOf es) (RelInventory (theRelease s)))))"

lemma settledIn_mono: "settledIn r h es items \<Longrightarrow> set es \<subseteq> set es' \<Longrightarrow> settledIn r h es' items"
  unfolding settledIn_def using done_with_mono by blast

lemma kept_or_settled_mono: "kept_or_settled r h es items items' \<Longrightarrow> set es \<subseteq> set es' \<Longrightarrow> kept_or_settled r h es' items items'"
  unfolding kept_or_settled_def using done_with_mono by blast

lemma kept_or_settled_refl: "kept_or_settled r h es items items"
  unfolding kept_or_settled_def by blast

lemma kept_or_settled_trans:
  assumes "kept_or_settled r h es items items'" and "kept_or_settled r h es items' items''"
  shows "kept_or_settled r h es items items''"
  unfolding kept_or_settled_def
proof (intro ballI impI)
  fix item assume item: "item \<in> set items" "ItemPhase item \<noteq> PhaseNone"
  then consider item' where "item' \<in> set items'" "core item' = core item" "ItemPhase item' \<noteq> PhaseNone"
    | "done_with r h orphanedOnDelete es item"
    using assms(1) by (auto simp: kept_or_settled_def)
  then show "(\<exists>item' \<in> set items''. core item' = core item \<and> ItemPhase item' \<noteq> PhaseNone) \<or> done_with r h orphanedOnDelete es item"
  proof cases
    case 1
    then have "(\<exists>item'' \<in> set items''. core item'' = core item' \<and> ItemPhase item'' \<noteq> PhaseNone) \<or> done_with r h orphanedOnDelete es item'"
      using assms(2) unfolding kept_or_settled_def by blast
    then show ?thesis using 1(2) done_with_core [where keep = orphanedOnDelete, OF orphanedOnDelete_core 1(2)] by auto
  qed blast
qed

lemma kept_or_settled_settled:
  assumes "kept_or_settled r h es items items'" and "settledIn r h es items'"
  shows "settledIn r h es items"
proof -
  have "kept_or_settled r h es items' []" using assms(2) by (auto simp: settledIn_def kept_or_settled_def)
  from kept_or_settled_trans [OF assms(1) this] show ?thesis by (auto simp: settledIn_def kept_or_settled_def)
qed

lemma letting_go_trans:
  assumes "letting_go c r h s t" and "letting_go c r h t u"
  shows "letting_go c r h s u"
proof -
  let ?fin = "\<lambda>x :: 'a clm_state. hasFinalizer c (configMap (theRelease x))" and ?inv = "\<lambda>x :: 'a clm_state. RelInventory (theRelease x)"
  obtain es where es: "clmTrace t = clmTrace s @ es" "lastRead es = None" "kept_or_settled r h (targetsOf es) (?inv s) (?inv t)"
      "?fin s \<Longrightarrow> ?fin t \<or> settledIn r h (targetsOf es) (?inv s)"
      "\<And>cm err. ?fin s \<Longrightarrow> ClmUpdateRelease cm err \<in> set es \<Longrightarrow> hasFinalizer c cm \<or> settledIn r h (targetsOf es) (?inv s)"
    using assms(1) by (auto simp: letting_go_def)
  obtain fs where fs: "clmTrace u = clmTrace t @ fs" "lastRead fs = None" "kept_or_settled r h (targetsOf fs) (?inv t) (?inv u)"
      "?fin t \<Longrightarrow> ?fin u \<or> settledIn r h (targetsOf fs) (?inv t)"
      "\<And>cm err. ?fin t \<Longrightarrow> ClmUpdateRelease cm err \<in> set fs \<Longrightarrow> hasFinalizer c cm \<or> settledIn r h (targetsOf fs) (?inv t)"
    using assms(2) by (auto simp: letting_go_def)
  let ?es = "targetsOf (es @ fs)"
  have 1: "kept_or_settled r h ?es (?inv s) (?inv t)" "settledIn r h (targetsOf es) (?inv s) \<Longrightarrow> settledIn r h ?es (?inv s)"
    using es(3) by (auto intro: kept_or_settled_mono settledIn_mono)
  have 2: "kept_or_settled r h ?es (?inv t) (?inv u)" "settledIn r h (targetsOf fs) (?inv t) \<Longrightarrow> settledIn r h ?es (?inv s)"
    using fs(3) kept_or_settled_settled [OF 1(1)] settledIn_mono [of r h "targetsOf fs" _ ?es] by (auto intro: kept_or_settled_mono)
  show ?thesis
    unfolding letting_go_def
  proof (intro exI [of _ "es @ fs"] conjI impI allI)
    show "kept_or_settled r h ?es (?inv s) (?inv u)" by (rule kept_or_settled_trans [OF 1(1) 2(1)])
    show "?fin u \<or> settledIn r h ?es (?inv s)" if "?fin s" using es(4) [OF that] fs(4) 1(2) 2(2) by blast
    show "hasFinalizer c cm \<or> settledIn r h ?es (?inv s)" if "?fin s" "ClmUpdateRelease cm err \<in> set (es @ fs)" for cm err
      using that es(4,5) fs(5) 1(2) 2(2) by auto
  qed (use es fs in \<open>simp_all add: lastRead_append\<close>)
qed

text \<open>A relation on the states of a command goes along with its loop.\<close>

locale clm_relation = step_relation R for R :: "'w clm_state \<Rightarrow> 'w clm_state \<Rightarrow> bool"
begin

lemma retryLoop_steps:
  assumes "\<And>x. steps R (round x)" and "retryLoop n round x s = (res, t)"
  shows "R s t"
  using assms(2)
proof (induction n arbitrary: x s)
  case (Suc n)
  obtain y u where y: "round x s = (y, u)" by force
  have "R s u" using stepsD [OF assms(1) y] .
  then show ?case
    using Suc y by (auto split: outcome.splits ctl.splits intro: trans)
qed (simp add: refl)

end

interpretation go: clm_relation "letting_go c r h" for c :: "'w ReleaseClient" and r h
proof
  show "letting_go c r h s s" for s
    unfolding letting_go_def by (intro exI [of _ "[]"]) (simp add: kept_or_settled_refl)
qed (rule letting_go_trans)

text \<open>Steps that leave release and requests alone, the calls of the loop, and the loop.\<close>

lemma letting_go_quiet:
  assumes "clmTrace t = clmTrace s @ es" and "lastRead es = None" and "\<And>cm err. ClmUpdateRelease cm err \<notin> set es"
    and "RelInventory (theRelease t) = RelInventory (theRelease s)" and "configMap (theRelease t) = configMap (theRelease s)"
  shows "letting_go c r h s t"
  unfolding letting_go_def using assms by (intro exI [of _ es]) (simp add: kept_or_settled_refl)

lemma steps_wp: "(\<And>s. wp m (\<lambda>_. R s) s) \<Longrightarrow> steps R m"
  by (simp add: steps_def wp_def split_def)

lemma go_emit: "(\<forall>x. e \<noteq> ClmGetRelease x) \<Longrightarrow> (\<forall>cm err. e \<noteq> ClmUpdateRelease cm err) \<Longrightarrow> steps (letting_go c r h) (clmEmit e)"
  by (rule steps_wp) (auto simp: wp_clm intro!: letting_go_quiet [of _ _ "[e]"] split: clm_event.splits)

lemma go_state: "(\<And>rel. RelInventory (f rel) = RelInventory rel \<and> configMap (f rel) = configMap rel) \<Longrightarrow>
    steps (letting_go c r h) (updRelease f)"
  by (rule steps_wp) (auto simp: wp_clm intro!: letting_go_quiet [of _ _ "[]"])

lemma go_call: "steps (letting_go c r h) (clmCall oper)"
  by (rule steps_wp) (auto simp: wp_clm intro!: letting_go_quiet [of _ _ "[]"] split: prod.split)

lemma go_DeleteAll: "steps (letting_go c r (Sha256base32 P ownerId)) (onInventory (DeleteAll P r ownerId))"
proof (rule steps_wp, rule wp_onInventory)
  fix s :: "'a clm_state" and res and u :: "'a rst"
  let ?h = "Sha256base32 P ownerId"
  assume run: "DeleteAll P r ownerId \<lparr>world = clmWorld s, trace = [], inventory = RelInventory (theRelease s)\<rparr> = (res, u)"
  have "kept_or_settled r ?h (trace u) (RelInventory (theRelease s)) (inventory u)"
    unfolding kept_or_settled_def using DeleteAll_remaining [OF run, of "trace u"] by simp
  then show "letting_go c r ?h s (s\<lparr>clmWorld := world u, clmTrace := clmTrace s @ map ClmTarget (trace u),
      theRelease := (theRelease s)\<lparr>RelInventory := inventory u\<rparr>\<rparr>)"
  proof -
    have "lastRead (map ClmTarget xs) = None" for xs by (induction xs) simp_all
    then show ?thesis
      unfolding letting_go_def using \<open>kept_or_settled r ?h (trace u) _ _\<close> by (intro exI [of _ "map ClmTarget (trace u)"]) auto
  qed
qed

lemma go_update:
  assumes keep: "\<And>cm w err cm' w'. CmUpdate (RcClient c) cm w = ((err, cm'), w') \<Longrightarrow> hasFinalizer c cm \<Longrightarrow> hasFinalizer c cm'"
  shows "steps (letting_go c r h) (releaseUpdate c)"
proof (rule steps_wp, rule clm_update_callI)
  fix s t :: "'a clm_state" and w0 err cm w and rel :: Release
  assume t: "clmTrace t = clmTrace s @ [ClmUpdateRelease (configMap rel) err]" "RelInventory (theRelease t) = RelInventory (theRelease s)"
      "configMap (theRelease t) = cm" "CmUpdate (RcClient c) (configMap rel) w0 = ((err, cm), w)"
      "CmFinalizers (configMap rel) = CmFinalizers (configMap (dropFinalizer c (theRelease s)))"
  have "hasFinalizer c (configMap (theRelease s)) \<Longrightarrow> hasFinalizer c (configMap rel) \<or> RelInventory (theRelease s) = []"
    unfolding t(5) by (auto simp: dropFinalizer_def)
  moreover have "settledIn r h es []" for es by (simp add: settledIn_def)
  ultimately show "letting_go c r h s t"
    unfolding letting_go_def using t(1-3) keep [OF t(4)]
    by (intro exI [of _ "[ClmUpdateRelease (configMap rel) err]"]) (auto simp: kept_or_settled_refl)
next
  fix s t :: "'a clm_state"
  assume t: "clmTrace t = clmTrace s" "RelInventory (theRelease t) = RelInventory (theRelease s)"
    "CmFinalizers (configMap (theRelease t)) \<in> {CmFinalizers (configMap (theRelease s)), CmFinalizers (configMap (dropFinalizer c (theRelease s)))}"
  then have "hasFinalizer c (configMap (theRelease s)) \<Longrightarrow> hasFinalizer c (configMap (theRelease t)) \<or> RelInventory (theRelease s) = []"
    by (auto simp: dropFinalizer_def split: if_splits)
  moreover have "settledIn r h es []" for es by (simp add: settledIn_def)
  ultimately show "letting_go c r h s t"
    unfolding letting_go_def using t(1,2) by (intro exI [of _ "[]"]) (auto simp: kept_or_settled_refl)
qed

lemma go_round:
  assumes "\<And>cm w err cm' w'. CmUpdate (RcClient c) cm w = ((err, cm'), w') \<Longrightarrow> hasFinalizer c cm \<Longrightarrow> hasFinalizer c cm'"
  shows "steps (letting_go c r (Sha256base32 P (ownerIdOf namespace name))) (deleteRound P c r timeout namespace name x)"
proof -
  note calls = go_DeleteAll go_call go_emit go_state go_update [OF assms]
  have pause: "steps (letting_go c r (Sha256base32 P (ownerIdOf namespace name))) (pause c timeout ''deleting'' d)" for d
    unfolding pause_def by (auto intro!: step_rules calls)
  show ?thesis
    unfolding deleteRound_def retryRound_def attempt_def
    by (cases x) (auto intro!: step_rules calls pause split: sum.split ctl.split)
qed

lemma go_defer:
  assumes "\<And>cm w err cm' w'. CmUpdate (RcClient c) cm w = ((err, cm'), w') \<Longrightarrow> hasFinalizer c cm \<Longrightarrow> hasFinalizer c cm'"
  shows "letting_go c r h s (snd (deferUpdate c (res, s)))"
proof -
  have upd: "letting_go c r h s u"
    if "releaseUpdate c v = (y, u)" "letting_go c r h s v" for v y u
    by (rule letting_go_trans [OF that(2) stepsD [OF go_update [OF assms] that(1)]])
  have "letting_go c r h s s" "letting_go c r h s (s\<lparr>theRelease := (theRelease s)\<lparr>RelState := StateError\<rparr>\<rparr>)"
    by (auto intro!: letting_go_quiet [of _ _ "[]"])
  note upd = upd [OF _ this(1)] upd [OF _ this(2)] this
  show ?thesis
  proof (cases res)
    case (Some x)
    then show ?thesis using upd by (cases x) (auto simp: deferUpdate_def split: prod.splits outcome.splits)
  qed (use upd(3) in \<open>simp add: deferUpdate_def\<close>)
qed

section \<open>A run of clm delete\<close>

lemma lastRead_target [simp]: "lastRead (map ClmTarget xs) = None"
  by (induction xs) simp_all

definition no_update :: "clm_event list \<Rightarrow> bool" where
  "no_update es \<longleftrightarrow> (\<forall>cm err. ClmUpdateRelease cm err \<notin> set es)"

lemma no_update_simps [simp]:
  "no_update []" "no_update (es @ es') \<longleftrightarrow> no_update es \<and> no_update es'" "no_update (map ClmTarget xs)"
  "no_update (e # es) \<longleftrightarrow> (\<forall>cm err. e \<noteq> ClmUpdateRelease cm err) \<and> no_update es"
  by (auto simp: no_update_def)

definition reread :: "'w ReleaseClient \<Rightarrow> 'w clm_state \<Rightarrow> (goerr, unit) outcome \<Rightarrow> 'w clm_state \<Rightarrow> bool" where
  "reread c s res t \<longleftrightarrow> (\<exists>es. clmTrace t = clmTrace s @ es \<and> no_update es \<and> (res = Ok () \<longrightarrow>
     (\<exists>cm. lastRead es = Some cm \<and> configMap (theRelease t) = cm \<and> RelInventory (theRelease t) = inventoryIn (RcLib c) cm)))"

lemma reread_failed: "clmTrace t = clmTrace s @ es \<Longrightarrow> no_update es \<Longrightarrow> res \<noteq> Ok () \<Longrightarrow> reread c s res t"
  by (auto simp: reread_def)

lemma prepareDelete_reread:
  fixes s :: "'w clm_state"
  shows "wp (prepareDelete P c r namespace name) (reread c s) s"
proof -
  have again: "wp (bind (releaseGet c namespace name) (\<lambda>rel. updRelease (\<lambda>_. rel))) (reread c s) t"
    if t: "clmTrace t = clmTrace s @ es" "no_update es" for t es
    unfolding wp_bind
    by (rule clm_get_callI) (auto simp: wp_clm reread_def t lastRead_append
       intro!: exI [of _ "es @ [ClmGetRelease (Inr _)]"] exI [of _ "es @ [ClmGetRelease _]"])
  have delete: "wp (seq (releaseDelete c) (bind (releaseGet c namespace name) (\<lambda>rel. updRelease (\<lambda>_. rel)))) (reread c s) t"
    if t: "clmTrace t = clmTrace s @ es" "no_update es" for t es
    unfolding wp_seq
  proof (rule clm_delete_callI, goal_cases)
    case (1 fs err u)
    then show ?case using t by (auto intro!: reread_failed [of _ _ "es @ fs"])
  next
    case (2 cm u)
    then show ?case using again [of u "es @ [ClmDeleteRelease cm None]"] t by simp
  qed
  have allowed: "wp (bind (onInventory (IsDeletionAllowed P r (ownerIdOf namespace name))) (\<lambda>(ok, msg).
      if \<not> ok then fail (Errorf ''%s'' [AStr msg])
      else seq (releaseDelete c) (bind (releaseGet c namespace name) (\<lambda>rel. updRelease (\<lambda>_. rel))))) (reread c s) t"
    if t: "clmTrace t = clmTrace s @ es" "no_update es" for t es
    unfolding wp_bind
  proof (rule clm_allowed_callI, goal_cases)
    case (1 res fs u)
    then have u: "clmTrace u = clmTrace s @ (es @ map ClmTarget fs)" "no_update (es @ map ClmTarget fs)" using t by simp_all
    show ?case
    proof (cases res)
      case (Ok x)
      show ?thesis
        unfolding Ok outcome.case
        by (cases x; cases "fst x") (use delete [OF u] reread_failed [OF u] in \<open>simp_all add: wp_basic\<close>)
    qed (use reread_failed [OF u] in simp_all)
  qed
  show ?thesis
    unfolding prepareDelete_def wp_bind wp_seq wp_clm
  proof (rule clm_get_callI, goal_cases)
    case (1 cm r u)
    from allowed [of "u\<lparr>theRelease := r\<rparr>" "[ClmGetRelease (Inr cm)]"] 1(1) show ?case by (simp add: wp_bind wp_seq)
  next
    case (2 x err u)
    then show ?case by (auto intro: reread_failed)
  qed
qed

text \<open>
  C38: \<open>clm delete\<close> removes the finalizer of a release only when all is gone: then every item
  of the inventory it read after marking the release as deleted was orphaned by its policy,
  or the command read its object as absent or as owned by somebody else; over all its
  rounds, failed ones included. (Assumed: an update does not remove finalizers by itself.
  An item has no phase if a call failed after settling it.)
\<close>

theorem clm_delete_lets_go:
  assumes "\<And>cm w err cm' w'. CmUpdate (RcClient c) cm w = ((err, cm'), w') \<Longrightarrow> hasFinalizer c cm \<Longrightarrow> hasFinalizer c cm'"
    and "lastRead (clm_calls (deleteCommand P c r timeout namespace name rounds) s) = Some cm0" and "hasFinalizer c cm0"
    and "ClmUpdateRelease cm err \<in> set (clm_calls (deleteCommand P c r timeout namespace name rounds) s)" and "\<not> hasFinalizer c cm"
  shows "list_all (\<lambda>item. ItemPhase item \<noteq> PhaseNone \<longrightarrow>
      done_with r (Sha256base32 P (ownerIdOf namespace name)) orphanedOnDelete
        (targetsOf (clm_calls (deleteCommand P c r timeout namespace name rounds) s)) item) (inventoryIn (RcLib c) cm0)"
proof -
  let ?h = "Sha256base32 P (ownerIdOf namespace name)"
  let ?run = "deleteCommand P c r timeout namespace name rounds"
  define good where "good u \<longleftrightarrow> (\<exists>es. clmTrace u = clmTrace s @ es \<and> (no_update es \<or>
      (\<exists>cm0. lastRead es = Some cm0 \<and> (hasFinalizer c cm0 \<longrightarrow> (\<forall>cm err. ClmUpdateRelease cm err \<in> set es \<longrightarrow>
        hasFinalizer c cm \<or> settledIn r ?h (targetsOf es) (inventoryIn (RcLib c) cm0))))))" for u :: "'a clm_state"
  have "good (snd (?run s))"
    unfolding deleteCommand_def
  proof (rule runCommand_rule [where Q = "\<lambda>p. good (snd p)"], rule wp_conseq [OF prepareDelete_reread], goal_cases)
    case (1 res t)
    then obtain es where es: "clmTrace t = clmTrace s @ es" "no_update es"
        "res = Ok () \<Longrightarrow> (\<exists>cm. lastRead es = Some cm \<and> configMap (theRelease t) = cm \<and> RelInventory (theRelease t) = inventoryIn (RcLib c) cm)"
      by (auto simp: reread_def)
    show ?case
    proof (cases res)
      case (Ok x)
      with es(3) obtain cm0 where cm0: "lastRead es = Some cm0" "configMap (theRelease t) = cm0"
        "RelInventory (theRelease t) = inventoryIn (RcLib c) cm0" by auto
      have "good (snd (deferUpdate c (retryLoop rounds (deleteRound P c r timeout namespace name) (0, 0) (t\<lparr>clmWorld := w\<rparr>))))" for w
      proof -
        let ?t = "t\<lparr>clmWorld := w\<rparr>"
        obtain y u where loop: "retryLoop rounds (deleteRound P c r timeout namespace name) (0, 0) ?t = (y, u)" by force
        have "letting_go c r ?h ?t (snd (deferUpdate c (y, u)))"
          by (rule letting_go_trans [OF go.retryLoop_steps [OF go_round [OF assms(1)] loop] go_defer [OF assms(1)]])
        then obtain fs where fs: "clmTrace (snd (deferUpdate c (y, u))) = clmTrace t @ fs" "lastRead fs = None"
            "hasFinalizer c cm0 \<longrightarrow> (\<forall>cm err. ClmUpdateRelease cm err \<in> set fs \<longrightarrow>
               hasFinalizer c cm \<or> settledIn r ?h (targetsOf fs) (inventoryIn (RcLib c) cm0))"
          by (auto simp: letting_go_def cm0)
        have "lastRead (es @ fs) = Some cm0" using fs(2) cm0(1) by (simp add: lastRead_append)
        moreover have "settledIn r ?h (targetsOf (es @ fs)) items" if "settledIn r ?h (targetsOf fs) items" for items
          using that by (rule settledIn_mono) simp
        ultimately show ?thesis
          unfolding loop good_def using fs es(1,2) by (intro exI [of _ "es @ fs"]) (auto simp: no_update_def)
      qed
      then show ?thesis using Ok by simp
    qed (use es in \<open>auto simp: good_def\<close>)
  qed
  then obtain es where es: "clmTrace (snd (?run s)) = clmTrace s @ es" "no_update es \<or>
      (\<exists>cm0. lastRead es = Some cm0 \<and> (hasFinalizer c cm0 \<longrightarrow> (\<forall>cm err. ClmUpdateRelease cm err \<in> set es \<longrightarrow>
        hasFinalizer c cm \<or> settledIn r ?h (targetsOf es) (inventoryIn (RcLib c) cm0))))"
    by (auto simp: good_def)
  then have "clm_calls ?run s = es" by (simp add: clm_calls_def)
  then have "settledIn r ?h (targetsOf es) (inventoryIn (RcLib c) cm0)"
    using es(2) assms(2-5) by (auto simp: no_update_def)
  then show ?thesis using \<open>clm_calls ?run s = es\<close> by (simp add: settledIn_def list_all_iff)
qed

end
