(* ===== verification/Clm_Retries.thy ===== *)
theory Clm_Retries
  imports Clm_Delete
begin

text \<open>
  How long \<open>clm apply\<close> and \<open>clm delete\<close> go on, what they wait in between, and what they leave
  in the release when they return.
\<close>

section \<open>Attempts and waits\<close>

definition attemptsOf :: "clm_event list \<Rightarrow> (goerr + bool) list" where
  "attemptsOf es = concat (map (\<lambda>e. case e of ClmAttempt x \<Rightarrow> [x] | _ \<Rightarrow> []) es)"

definition waitsOf :: "clm_event list \<Rightarrow> int list" where
  "waitsOf es = concat (map (\<lambda>e. case e of ClmWait d \<Rightarrow> [d] | _ \<Rightarrow> []) es)"

lemma attemptsOf_simps [simp]:
  "attemptsOf [] = []" "attemptsOf (es @ es') = attemptsOf es @ attemptsOf es'" "attemptsOf (map ClmTarget xs) = []"
  "attemptsOf (e # es) = (case e of ClmAttempt x \<Rightarrow> x # attemptsOf es | _ \<Rightarrow> attemptsOf es)"
  by (induction xs) (simp_all add: attemptsOf_def split: clm_event.split)

lemma waitsOf_simps [simp]:
  "waitsOf [] = []" "waitsOf (es @ es') = waitsOf es @ waitsOf es'" "waitsOf (map ClmTarget xs) = []"
  "waitsOf (e # es) = (case e of ClmWait d \<Rightarrow> d # waitsOf es | _ \<Rightarrow> waitsOf es)"
  by (induction xs) (simp_all add: waitsOf_def split: clm_event.split)

text \<open>Everything but the loop itself is silent in this respect.\<close>

definition silent :: "'w clm_state \<Rightarrow> 'w clm_state \<Rightarrow> bool" where
  "silent s t \<longleftrightarrow> (\<exists>es. clmTrace t = clmTrace s @ es \<and> attemptsOf es = [] \<and> waitsOf es = [])"

interpretation sil: clm_relation "silent :: 'w clm_state \<Rightarrow> 'w clm_state \<Rightarrow> bool"
proof
  show "silent s s" for s :: "'w clm_state" unfolding silent_def by (intro exI [of _ "[]"]) simp
  show "silent s u" if "silent s t" "silent t u" for s t u :: "'w clm_state"
    using that by (auto simp: silent_def)
qed

lemma silentI: "clmTrace t = clmTrace s @ es \<Longrightarrow> attemptsOf es = [] \<Longrightarrow> waitsOf es = [] \<Longrightarrow> silent s t"
  by (auto simp: silent_def)

lemma silent_emit: "(\<forall>x. e \<noteq> ClmAttempt x) \<Longrightarrow> (\<forall>d. e \<noteq> ClmWait d) \<Longrightarrow> steps silent (clmEmit e)"
  by (rule steps_wp) (auto simp: wp_clm intro!: silentI [of _ _ "[e]"] split: clm_event.split)

lemma silent_calls: "steps silent (clmCall oper)" "steps silent (updRelease f)"
  by (rule steps_wp; auto simp: wp_clm intro!: silentI [of _ _ "[]"] split: prod.split)+

lemma silent_inventory: "steps silent (onInventory m)"
  by (rule steps_wp, rule wp_onInventory) (auto intro!: silentI)

lemma silent_update: "steps silent (releaseUpdate c)"
proof (rule steps_wp, rule clm_update_callI)
  show "silent s t" if "clmTrace t = clmTrace s" for s t :: "'a clm_state" using that by (auto intro: silentI [of _ _ "[]"])
  show "silent s t" if "clmTrace t = clmTrace s @ [ClmUpdateRelease cm err]" for s t :: "'a clm_state" and cm err
    using that by (rule silentI) simp_all
qed

lemmas silent_steps = step_rules silent_emit silent_calls silent_inventory silent_update

lemma silent_client: "steps silent (releaseGet c namespace name)" "steps silent (releaseCreate c namespace name)"
    "steps silent (releaseDelete c)"
  unfolding releaseGet_def releaseCreate_def releaseDelete_def
  by (auto simp: Let_def intro!: silent_steps split: prod.split sum.split option.split)

lemma silent_prepare: "steps silent (prepareApply c clnt b generator namespace name)" "steps silent (prepareDelete P c r namespace name)"
  unfolding prepareApply_def prepareDelete_def ensureNamespace_def getOrCreate_def
  by (auto simp: Let_def intro!: silent_steps silent_client split: prod.split sum.split option.split outcome.split)

section \<open>The bound\<close>

text \<open>\<open>failures rs\<close> are the failures since the last success.\<close>

definition failures :: "(goerr + bool) list \<Rightarrow> nat" where
  "failures rs = length (takeWhile isl (rev rs))"

lemma failures_simps [simp]: "failures [] = 0" "failures (rs @ [Inl e]) = Suc (failures rs)" "failures (rs @ [Inr b]) = 0"
  by (simp_all add: failures_def)

definition waitAt :: "nat \<Rightarrow> int" where
  "waitAt k = min maxBackoff (2 ^ k * minBackoff)"

lemma waitAt_Suc: "nextDuration (waitAt k) = waitAt (Suc k)"
proof -
  define x :: int where "x = 2 ^ k"
  have "1 \<le> x" by (simp add: x_def)
  then show ?thesis
    unfolding waitAt_def nextDuration_def Let_def power_Suc x_def [symmetric]
    by (auto simp: min_def minBackoff_def maxBackoff_def Millisecond_def Second_def)
qed

lemma waitAt_0: "nextDuration 0 = waitAt 0"
  by (simp add: waitAt_def nextDuration_def minBackoff_def maxBackoff_def Millisecond_def Second_def)

text \<open>The attempts before the \<open>k\<close>-th are followed by another: they ended in a way to go on.\<close>

definition goes_on :: "nat \<Rightarrow> (goerr + bool) list \<Rightarrow> bool" where
  "goes_on k rs \<longleftrightarrow> (\<forall>i < k. rs ! i = Inr False \<or> (\<exists>e. rs ! i = Inl e \<and> IsConflict e)) \<and>
     (\<forall>i \<le> k. failures (take i rs) \<le> maxErrCount)"

lemma goes_on_append: "k \<le> length rs \<Longrightarrow> goes_on k (rs @ rs') = goes_on k rs"
  by (auto simp: goes_on_def nth_append)

lemma goes_on_Suc:
  assumes "goes_on (length rs) rs" and "x = Inr False \<or> (\<exists>e. x = Inl e \<and> IsConflict e)" and "failures (rs @ [x]) \<le> maxErrCount"
  shows "goes_on (Suc (length rs)) (rs @ [x])"
  using assms by (auto simp: goes_on_def nth_append le_Suc_eq less_Suc_eq)

definition on_track :: "'w clm_state \<Rightarrow> nat \<Rightarrow> nat \<times> int \<Rightarrow> 'w clm_state \<Rightarrow> bool" where
  "on_track s k x t \<longleftrightarrow> (\<exists>es. clmTrace t = clmTrace s @ es \<and> length (attemptsOf es) = k \<and> fst x = failures (attemptsOf es) \<and>
     goes_on k (attemptsOf es) \<and> waitsOf es = map waitAt [0..<k] \<and> nextDuration (snd x) = waitAt k)"

definition off_track :: "'w clm_state \<Rightarrow> (goerr, unit) outcome option \<Rightarrow> 'w clm_state \<Rightarrow> bool" where
  "off_track s res t \<longleftrightarrow> (\<exists>es k m. clmTrace t = clmTrace s @ es \<and> length (attemptsOf es) \<le> Suc k \<and> k \<le> length (attemptsOf es) \<and>
     goes_on k (attemptsOf es) \<and> waitsOf es = map waitAt [0..<m] \<and>
     (res = Some (Ok ()) \<longrightarrow> attemptsOf es \<noteq> [] \<and> last (attemptsOf es) = Inr True))"

lemma silent_wp: "steps silent m \<Longrightarrow> wp m (\<lambda>_. silent s) s"
  by (auto simp: steps_def wp_def split: prod.split) (metis snd_conv)

text \<open>What an attempt leaves in the trace; the state the release has when it succeeds is that of the command.\<close>

lemma wp_attempt:
  assumes "steps silent finished"
  shows "wp (attempt c state oper finished n) (\<lambda>res t.
      (silent s t \<and> (\<exists>p. res = Panic p)) \<or>
      (\<exists>es x. clmTrace t = clmTrace s @ es \<and> attemptsOf es = [x] \<and> waitsOf es = [] \<and> (case res of
         Ok (Next m) \<Rightarrow> (x = Inr False \<and> m = 0) \<or> (\<exists>e. x = Inl e \<and> IsConflict e \<and> n < maxErrCount \<and> m = Suc n)
       | Ok _ \<Rightarrow> x = Inr True
       | _ \<Rightarrow> True))) s"
    (is "wp _ ?Q s")
proof -
  have "wp (seq (clmEmit (ClmAttempt x)) m) ?Q t"
    if t: "silent s t" and m: "\<And>u. wp m (\<lambda>res v. silent u v \<and> (case res of
         Ok (Next m) \<Rightarrow> (x = Inr False \<and> m = 0) \<or> (\<exists>e. x = Inl e \<and> IsConflict e \<and> n < maxErrCount \<and> m = Suc n)
       | Ok _ \<Rightarrow> x = Inr True
       | _ \<Rightarrow> True)) u" for t x and m :: "('a, (nat, unit) ctl) clm"
    unfolding wp_seq wp_clm outcome.case
  proof (rule wp_conseq [OF m], goal_cases)
    case (1 res v)
    then obtain es fs where "clmTrace t = clmTrace s @ es" "attemptsOf es = []" "waitsOf es = []"
      "clmTrace v = clmTrace t @ [ClmAttempt x] @ fs" "attemptsOf fs = []" "waitsOf fs = []"
      using t by (auto simp: silent_def)
    with 1 show ?case by (intro disjI2 exI [of _ "es @ [ClmAttempt x] @ fs"] exI [of _ x]) simp
  qed
  note attempt = this
  have pre: "silent s (s\<lparr>theRelease := f\<rparr>)" for f by (rule silentI [of _ _ "[]"]) simp_all
  show ?thesis
    unfolding attempt_def wp_seq wp_clm wp_bind wp_try outcome.case
  proof (rule wp_conseq [OF silent_wp [OF silent_inventory]], goal_cases)
    case (1 res t)
    have t: "silent s t" using sil.trans [OF pre 1] .
    show ?case
    proof (cases res)
      case (Ok ok)
      show ?thesis
        unfolding Ok outcome.case
      proof (rule attempt [OF t, unfolded wp_seq wp_clm outcome.case])
        fix u :: "'a clm_state"
        show "wp (case Inr ok of Inl err \<Rightarrow> if \<not> isEphmeralError err \<or> maxErrCount \<le> n then fail err
              else seq (clmEmit (ClmRetry (Suc n))) (ret (Next (Suc n)))
            | Inr ok \<Rightarrow> if ok then seq finished (ret (Break 0)) else seq (releaseUpdate c) (ret (Next 0)))
          (\<lambda>res v. silent u v \<and> (case res of
             Ok (Next m) \<Rightarrow> (Inr ok = Inr False \<and> m = 0) \<or> (\<exists>e. Inr ok = Inl e \<and> IsConflict e \<and> n < maxErrCount \<and> m = Suc n)
           | Ok _ \<Rightarrow> Inr ok = Inr True | _ \<Rightarrow> True)) u"
          by (cases ok; simp add: wp_simps, rule wp_conseq [OF silent_wp [OF assms]] wp_conseq [OF silent_wp [OF silent_update]])
            (simp_all add: wp_basic split: outcome.split)
      qed
    next
      case (Err e)
      show ?thesis
        unfolding Err outcome.case
      proof (rule attempt [OF t, unfolded wp_seq wp_clm outcome.case])
        fix u :: "'a clm_state"
        have "silent u (u\<lparr>clmTrace := clmTrace u @ [ClmRetry (Suc n)]\<rparr>)" by (rule silentI [of _ _ "[ClmRetry (Suc n)]"]) simp_all
        then show "wp (case Inl e of Inl err \<Rightarrow> if \<not> isEphmeralError err \<or> maxErrCount \<le> n then fail err
              else seq (clmEmit (ClmRetry (Suc n))) (ret (Next (Suc n)))
            | Inr ok \<Rightarrow> if ok then seq finished (ret (Break 0)) else seq (releaseUpdate c) (ret (Next 0)))
          (\<lambda>res v. silent u v \<and> (case res of
             Ok (Next m) \<Rightarrow> (Inl e = Inr False \<and> m = 0) \<or> (\<exists>e'. Inl e = Inl e' \<and> IsConflict e' \<and> n < maxErrCount \<and> m = Suc n)
           | Ok _ \<Rightarrow> Inl e = Inr True | _ \<Rightarrow> True)) u"
          by (auto simp: wp_simps isEphmeralError_def sil.refl)
      qed
    qed (use t in simp)
  qed
qed


lemma wp_pause: "wp (pause c timeout what d) (\<lambda>res t. \<exists>es. clmTrace t = clmTrace s @ es \<and> attemptsOf es = [] \<and> waitsOf es = [d]) s"
  by (auto simp: pause_def wp_simps split: prod.split)

lemma on_track_round:
  assumes "steps silent finished" and s: "on_track s k x t"
  shows "wp (retryRound c state oper finished timeout what x) (\<lambda>res u. case res of
      Ok (Next y) \<Rightarrow> on_track s (Suc k) y u | Ok _ \<Rightarrow> off_track s (Some (Ok ())) u
    | Err e \<Rightarrow> off_track s (Some (Err e)) u | Panic p \<Rightarrow> off_track s (Some (Panic p)) u) t"
proof -
  obtain es where es: "clmTrace t = clmTrace s @ es" "length (attemptsOf es) = k" "fst x = failures (attemptsOf es)"
      "goes_on k (attemptsOf es)" "waitsOf es = map waitAt [0..<k]" "nextDuration (snd x) = waitAt k"
    using s by (auto simp: on_track_def)
  let ?rs = "attemptsOf es"
  have off: "off_track s res u" if "clmTrace u = clmTrace t @ fs" "attemptsOf fs = [] \<or> (\<exists>y. attemptsOf fs = [y])" "waitsOf fs = []"
      "res = Some (Ok ()) \<Longrightarrow> attemptsOf fs = [Inr True]" for res u fs
    unfolding off_track_def using that es goes_on_append [of k ?rs "attemptsOf fs"]
    by (intro exI [of _ "es @ fs"] exI [of _ k]) auto
  have on: "wp (seq (pause c timeout what (nextDuration (snd x))) (ret (Next (m, nextDuration (snd x))))) (\<lambda>res u. case res of
      Ok (Next y) \<Rightarrow> on_track s (Suc k) y u | Ok _ \<Rightarrow> off_track s (Some (Ok ())) u
    | Err e \<Rightarrow> off_track s (Some (Err e)) u | Panic p \<Rightarrow> off_track s (Some (Panic p)) u) u"
    if u: "clmTrace u = clmTrace t @ fs" "attemptsOf fs = [y]" "waitsOf fs = []"
      and m: "(y = Inr False \<and> m = 0) \<or> (\<exists>e. y = Inl e \<and> IsConflict e \<and> fst x < maxErrCount \<and> m = Suc (fst x))" for u fs y m
    unfolding wp_seq
  proof (rule wp_conseq [OF wp_pause], goal_cases)
    case (1 res v)
    then obtain gs where gs: "clmTrace v = clmTrace u @ gs" "attemptsOf gs = []" "waitsOf gs = [nextDuration (snd x)]" by blast
    let ?es = "es @ fs @ gs"
    have m': "m = failures (?rs @ [y])" "failures (?rs @ [y]) \<le> maxErrCount" using m es(3) by auto
    have on: "goes_on (Suc k) (?rs @ [y])"
      using goes_on_Suc [of ?rs y] es(2,4) m m'(2) by auto
    have tr: "clmTrace v = clmTrace s @ ?es" "attemptsOf ?es = ?rs @ [y]" "waitsOf ?es = map waitAt [0..<Suc k]"
      using gs u es by simp_all
    have "on_track s (Suc k) (m, nextDuration (snd x)) v"
      unfolding on_track_def using tr on m'(1) es(2,6) by (intro exI [of _ ?es]) (simp add: waitAt_Suc)
    moreover have "off_track s (Some r) v" if "r \<noteq> Ok ()" for r
      unfolding off_track_def using tr on es(2) that by (intro exI [of _ ?es] exI [of _ "Suc k"]) auto
    ultimately show ?case by (auto simp: wp_basic split: outcome.split)
  qed
  obtain n d where x: "x = (n, d)" by force
  show ?thesis
    unfolding retryRound_def x split wp_bind
  proof (rule wp_conseq [OF wp_attempt [OF assms(1)]], goal_cases)
    case (1 res u)
    then show ?case
    proof (elim disjE conjE exE, goal_cases)
      case (1 p)
      then show ?case by (auto simp: silent_def intro!: off)
    next
      case (2 fs y)
      show ?case
      proof (cases res)
        case (Ok r)
        then show ?thesis
          using 2 on [of u fs y, unfolded x] off [of u fs] by (cases r) (auto simp: wp_basic)
      qed (use 2 off [of u fs] in auto)
    qed
  qed
qed

section \<open>A run\<close>

text \<open>What the deferred update adds.\<close>

lemma defer_cases:
  assumes "deferUpdate c (Some x, s) = (res, t)"
  obtains (stored) cm where "res = Some x" "clmTrace t = clmTrace s @ [ClmUpdateRelease cm None]"
      "map_of (CmData cm) dataKeyState = (let st = stateText (case x of Err _ \<Rightarrow> StateError | _ \<Rightarrow> RelState (theRelease s))
         in if st = '''' then None else Some st)"
  | (failed) errs where "res = Some (case x of Panic p \<Rightarrow> Panic p | _ \<Rightarrow> Err (JoinError errs))" "silent s t"
proof -
  define s' where "s' = (case x of Err _ \<Rightarrow> s\<lparr>theRelease := (theRelease s)\<lparr>RelState := StateError\<rparr>\<rparr> | _ \<Rightarrow> s)"
  have s': "clmTrace s' = clmTrace s" "RelState (theRelease s') = (case x of Err _ \<Rightarrow> StateError | _ \<Rightarrow> RelState (theRelease s))"
    by (simp_all add: s'_def split: outcome.split)
  obtain y u where u: "releaseUpdate c s' = (y, u)" by force
  have sil: "silent s u"
    using stepsD [OF silent_update u] by (simp add: silent_def s'(1))
  have wp: "wp (releaseUpdate c) (\<lambda>y u. y = Ok () \<longrightarrow> (\<exists>cm. clmTrace u = clmTrace s @ [ClmUpdateRelease cm None] \<and>
      map_of (CmData cm) dataKeyState = (let st = stateText (RelState (theRelease s')) in if st = '''' then None else Some st))) s'"
    by (rule clm_update_callI) (auto simp: s'(1) Let_def split: option.splits)
  have res: "deferUpdate c (Some x, s) = (case y of
         Ok _ \<Rightarrow> (Some x, u)
       | Err updateErr \<Rightarrow> (Some (case x of
             Ok _ \<Rightarrow> Err (JoinError [updateErr]) | Err err \<Rightarrow> Err (JoinError [err, updateErr]) | Panic p \<Rightarrow> Panic p), u)
       | Panic p \<Rightarrow> (Some (Panic p), u))"
    using u by (simp add: deferUpdate_def s'_def Let_def)
  have no_panic: "y \<noteq> Panic p" for p
  proof -
    have "wp (releaseUpdate c) (\<lambda>y _. y \<noteq> Panic p) s'" by (rule clm_update_callI) (simp_all split: option.split)
    from wpD [OF this u] show ?thesis .
  qed
  show ?thesis
  proof (cases y)
    case (Ok z)
    from wpD [OF wp u] Ok obtain cm where cm: "clmTrace u = clmTrace s @ [ClmUpdateRelease cm None]"
      "map_of (CmData cm) dataKeyState = (let st = stateText (RelState (theRelease s')) in if st = '''' then None else Some st)"
      by auto
    have "res = Some x" "t = u" using assms res Ok by simp_all
    with cm s'(2) show ?thesis by (intro stored [of cm]) simp_all
  next
    case (Err e)
    have u': "t = u" using assms res Err by simp
    show ?thesis
    proof (rule failed [of "case x of Err e0 \<Rightarrow> [e0, e] | _ \<Rightarrow> [e]"])
      show "res = Some (case x of Panic p \<Rightarrow> Panic p | _ \<Rightarrow> Err (JoinError (case x of Err e0 \<Rightarrow> [e0, e] | _ \<Rightarrow> [e])))"
        using assms res Err by (cases x) simp_all
    qed (use u' sil in simp)
  qed (use no_panic in simp)
qed

definition track_end :: "'w clm_state \<Rightarrow> nat \<Rightarrow> (goerr, unit) outcome option \<Rightarrow> 'w clm_state \<Rightarrow> bool" where
  "track_end s rounds res t \<longleftrightarrow> (if res = None then \<exists>x. on_track s rounds x t else off_track s res t)"

lemma off_track_silent:
  assumes "off_track s res t" and "silent t u" and "res' = Some (Ok ()) \<Longrightarrow> res = Some (Ok ())"
  shows "off_track s res' u"
proof -
  obtain es k m where es: "clmTrace t = clmTrace s @ es" "length (attemptsOf es) \<le> Suc k \<and> k \<le> length (attemptsOf es) \<and>
     goes_on k (attemptsOf es) \<and> waitsOf es = map waitAt [0..<m] \<and>
     (res = Some (Ok ()) \<longrightarrow> attemptsOf es \<noteq> [] \<and> last (attemptsOf es) = Inr True)"
    using assms(1) by (auto simp: off_track_def)
  obtain fs where "clmTrace u = clmTrace t @ fs" "attemptsOf fs = []" "waitsOf fs = []"
    using assms(2) by (auto simp: silent_def)
  then show ?thesis
    unfolding off_track_def using es assms(3) by (intro exI [of _ "es @ fs"] exI [of _ k] exI [of _ m]) auto
qed

lemma loop_tracks:
  fixes s :: "'w clm_state"
  assumes "silent s t"
    and round: "\<And>k x v. on_track s k x v \<Longrightarrow> wp (round x) (\<lambda>res u. case res of
      Ok (Next y) \<Rightarrow> on_track s (Suc k) y u | Ok _ \<Rightarrow> off_track s (Some (Ok ())) u
    | Err e \<Rightarrow> off_track s (Some (Err e)) u | Panic p \<Rightarrow> off_track s (Some (Panic p)) u) v"
    and run: "deferUpdate c (retryLoop rounds round (0, 0) t) = (res, u)"
  shows "track_end s rounds res u"
proof -
  obtain res0 v where loop: "retryLoop rounds round (0, 0) t = (res0, v)" by force
  have start: "on_track s 0 (0, 0) t"
    using assms(1) by (auto simp: silent_def on_track_def goes_on_def waitAt_0)
  have v: "track_end s rounds res0 v"
    by (rule retryLoop_count [where I = "on_track s" and Q = "track_end s rounds" and k = 0, OF start _ _ loop])
      (auto simp: track_end_def intro!: wp_conseq [OF round] split: outcome.splits ctl.splits)
  show ?thesis
  proof (cases res0)
    case None
    then show ?thesis using v run loop by (simp add: deferUpdate_def)
  next
    case (Some x)
    have "deferUpdate c (Some x, v) = (res, u)" using run loop Some by simp
    then show ?thesis
    proof (cases rule: defer_cases)
      case (stored cm)
      have "silent v u" using stored(2) by (rule silentI) simp_all
      then show ?thesis using v stored(1) Some off_track_silent by (auto simp: track_end_def)
    next
      case (failed errs)
      have "off_track s (Some x) v" using v Some by (simp add: track_end_def)
      then have "off_track s res u" by (rule off_track_silent) (use failed in \<open>auto split: outcome.splits\<close>)
      then show ?thesis using failed(1) by (simp add: track_end_def)
    qed
  qed
qed

lemma command_tracks:
  fixes s :: "'w clm_state"
  assumes prep: "steps silent prepare"
    and round: "\<And>y k x v. on_track s k x v \<Longrightarrow> wp (round y x) (\<lambda>res u. case res of
      Ok (Next x') \<Rightarrow> on_track s (Suc k) x' u | Ok _ \<Rightarrow> off_track s (Some (Ok ())) u
    | Err e \<Rightarrow> off_track s (Some (Err e)) u | Panic p \<Rightarrow> off_track s (Some (Panic p)) u) v"
    and run: "runCommand c prepare timeout (\<lambda>y. retryLoop rounds (round y) (0, 0)) s = (res, t)"
  shows "track_end s rounds res t"
proof -
  have early: "track_end s rounds (Some x) u" if "silent s u" "x \<noteq> Ok ()" for x u
    using that by (auto simp: track_end_def off_track_def silent_def goes_on_def intro!: exI [of _ 0])
  have "track_end s rounds (fst (runCommand c prepare timeout (\<lambda>y. retryLoop rounds (round y) (0, 0)) s))
      (snd (runCommand c prepare timeout (\<lambda>y. retryLoop rounds (round y) (0, 0)) s))"
  proof (rule runCommand_rule [where Q = "\<lambda>p. track_end s rounds (fst p) (snd p)"], rule wp_conseq [OF silent_wp [OF prep]], goal_cases)
    case (1 r u)
    have "track_end s rounds (fst (deferUpdate c (retryLoop rounds (round y) (0, 0) (u\<lparr>clmWorld := w\<rparr>))))
        (snd (deferUpdate c (retryLoop rounds (round y) (0, 0) (u\<lparr>clmWorld := w\<rparr>))))" for y w
      by (rule loop_tracks [OF _ round]) (use 1 in \<open>auto simp: silent_def\<close>)
    then show ?case using early [OF 1] by (auto split: outcome.split)
  qed
  then show ?thesis using run by simp
qed

definition bounded_retries :: "nat \<Rightarrow> (goerr, unit) outcome option \<Rightarrow> clm_event list \<Rightarrow> bool" where
  "bounded_retries rounds res es \<longleftrightarrow>
     (\<forall>i. i + 16 < length (attemptsOf es) \<longrightarrow> (\<exists>j < 16. attemptsOf es ! (i + j) = Inr False)) \<and>
     (\<forall>i. i + 1 < length (attemptsOf es) \<longrightarrow>
        attemptsOf es ! i = Inr False \<or> (\<exists>err. attemptsOf es ! i = Inl err \<and> IsConflict err)) \<and>
     waitsOf es = map (\<lambda>k. min (10 * Second) (2 ^ k * Millisecond)) [0..<length (waitsOf es)] \<and>
     (case res of
        None \<Rightarrow> length (attemptsOf es) = rounds \<and> (16 < rounds \<longrightarrow> Inr False \<in> set (attemptsOf es))
      | Some (Ok _) \<Rightarrow> attemptsOf es \<noteq> [] \<and> last (attemptsOf es) = Inr True
      | _ \<Rightarrow> True)"

lemma failures_run:
  "i + m \<le> length rs \<Longrightarrow> (\<And>j. j < m \<Longrightarrow> isl (rs ! (i + j))) \<Longrightarrow> m \<le> failures (take (i + m) rs)"
proof (induction m)
  case (Suc m)
  obtain e where "rs ! (i + m) = Inl e" using Suc.prems(2) [of m] by (auto simp: isl_def)
  then have "take (i + Suc m) rs = take (i + m) rs @ [Inl e]"
    using Suc.prems(1) by (simp add: take_Suc_conv_app_nth)
  then show ?case using Suc by simp
qed simp

lemma goes_on_window:
  assumes "goes_on k rs" and "k \<le> length rs" and "i + 16 \<le> k"
  shows "\<exists>j < 16. rs ! (i + j) = Inr False"
proof (rule ccontr)
  assume no: "\<not> (\<exists>j < 16. rs ! (i + j) = Inr False)"
  have "16 \<le> failures (take (i + 16) rs)"
  proof (rule failures_run)
    show "isl (rs ! (i + j))" if "j < 16" for j
    proof -
      have "i + j < k" using assms(3) that by simp
      then have "rs ! (i + j) = Inr False \<or> (\<exists>e. rs ! (i + j) = Inl e \<and> IsConflict e)"
        using assms(1) by (simp add: goes_on_def)
      then show ?thesis using no that by auto
    qed
  qed (use assms in simp)
  moreover have "failures (take (i + 16) rs) \<le> maxErrCount" using assms(1,3) by (simp add: goes_on_def)
  ultimately show False by (simp add: maxErrCount_def)
qed

lemma goes_on_bounded:
  assumes "goes_on k rs" and "k \<le> length rs" "length rs \<le> Suc k"
  shows "i + 16 < length rs \<Longrightarrow> \<exists>j < 16. rs ! (i + j) = Inr False"
    and "i + 1 < length rs \<Longrightarrow> rs ! i = Inr False \<or> (\<exists>err. rs ! i = Inl err \<and> IsConflict err)"
  using goes_on_window [OF assms(1,2)] assms by (auto simp: goes_on_def)

lemma track_end_bounded:
  assumes "track_end s rounds res t" and "clmTrace t = clmTrace s @ es"
  shows "bounded_retries rounds res es"
proof -
  have waits: "map waitAt [0..<m] = map (\<lambda>k. min (10 * Second) (2 ^ k * Millisecond)) [0..<length (map waitAt [0..<m])]" for m
    by (simp add: waitAt_def maxBackoff_def minBackoff_def)
  show ?thesis
  proof (cases "res = None")
    case True
    then obtain k where k: "k = rounds" "length (attemptsOf es) = k" "goes_on k (attemptsOf es)" "waitsOf es = map waitAt [0..<k]"
      using assms by (auto simp: track_end_def on_track_def)
    have "Inr False \<in> set (attemptsOf es)" if r: "16 < rounds"
    proof -
      obtain j where "j < 16" "attemptsOf es ! j = Inr False" using goes_on_window [OF k(3), of 0] k(1,2) r by auto
      then show ?thesis using k(1,2) r nth_mem [of j "attemptsOf es"] by simp
    qed
    then show ?thesis
      unfolding bounded_retries_def
      using True k waits [of k] goes_on_bounded [OF k(3)] by auto
  next
    case False
    then obtain k m where k: "length (attemptsOf es) \<le> Suc k" "k \<le> length (attemptsOf es)" "goes_on k (attemptsOf es)"
        "waitsOf es = map waitAt [0..<m]" "res = Some (Ok ()) \<longrightarrow> attemptsOf es \<noteq> [] \<and> last (attemptsOf es) = Inr True"
      using assms by (auto simp: track_end_def off_track_def)
    then show ?thesis
      unfolding bounded_retries_def
      using False waits [of m] goes_on_bounded [OF k(3,2,1)] by (auto split: outcome.splits)
  qed
qed

lemma track_end_calls:
  assumes "track_end s rounds (fst (run s)) (snd (run s))"
  shows "bounded_retries rounds (fst (run s)) (clm_calls run s)"
proof (rule track_end_bounded [OF assms])
  show "clmTrace (snd (run s)) = clmTrace s @ clm_calls run s"
    using assms by (auto simp: track_end_def on_track_def off_track_def clm_calls_def split: if_splits)
qed

text \<open>
  C39: \<open>clm apply\<close> and \<open>clm delete\<close> give up. Among any sixteen attempts in a row that are
  followed by another one, one did not fail; only conflicts are retried; the \<open>k\<close>-th wait
  is \<open>2^k\<close> milliseconds, at most ten seconds; success means that the last attempt returned
  true. A command that still runs after more than sixteen rounds has made progress: one of
  its attempts succeeded and asked to go on.
\<close>

theorem clm_retries:
  "bounded_retries rounds (fst (applyCommand P c r createNamespace timeout generator namespace name rounds s))
      (clm_calls (applyCommand P c r createNamespace timeout generator namespace name rounds) s)
   \<and> bounded_retries rounds (fst (deleteCommand P c r timeout namespace name rounds s))
      (clm_calls (deleteCommand P c r timeout namespace name rounds) s)"
proof
  have fin: "steps silent (ret ())" "steps silent (updRelease f)" for f :: "Release \<Rightarrow> Release"
    by (rule sil.steps_ret, rule silent_calls)
  have "track_end s rounds (fst (applyCommand P c r createNamespace timeout generator namespace name rounds s))
      (snd (applyCommand P c r createNamespace timeout generator namespace name rounds s))"
    unfolding applyCommand_def
    by (rule command_tracks [OF silent_prepare(1)]) (auto simp: applyRound_def wp_simps intro!: on_track_round fin)
  then show "bounded_retries rounds (fst (applyCommand P c r createNamespace timeout generator namespace name rounds s))
      (clm_calls (applyCommand P c r createNamespace timeout generator namespace name rounds) s)"
    by (rule track_end_calls)
  have "track_end s rounds (fst (deleteCommand P c r timeout namespace name rounds s))
      (snd (deleteCommand P c r timeout namespace name rounds s))"
    unfolding deleteCommand_def
    by (rule command_tracks [OF silent_prepare(2)]) (auto simp: deleteRound_def intro!: on_track_round fin)
  then show "bounded_retries rounds (fst (deleteCommand P c r timeout namespace name rounds s))
      (clm_calls (deleteCommand P c r timeout namespace name rounds) s)"
    by (rule track_end_calls)
qed

section \<open>What is left in the release\<close>

definition records_outcome :: "string \<Rightarrow> (goerr, unit) outcome option \<Rightarrow> clm_event list \<Rightarrow> bool" where
  "records_outcome state res es \<longleftrightarrow> (case res of
     Some (Ok _) \<Rightarrow> \<exists>es' cm. es = es' @ [ClmUpdateRelease cm None] \<and> map_of (CmData cm) ''state'' = Some state
   | Some (Err err) \<Rightarrow> attemptsOf es = [] \<or> (\<exists>errs. err = JoinError errs) \<or>
       (\<exists>es' cm. es = es' @ [ClmUpdateRelease cm None] \<and> map_of (CmData cm) ''state'' = Some ''Error'')
   | _ \<Rightarrow> True)"

lemma wp_attempt_state:
  assumes fin: "\<And>Q u. wp finished Q u = Q (Ok ()) (u\<lparr>theRelease := g (theRelease u)\<rparr>)"
    and "\<forall>rel. RelState rel = state \<longrightarrow> RelState (g rel) = final"
  shows "wp (attempt c state oper finished n) (\<lambda>res t. (\<exists>m. res = Ok (Break m)) \<longrightarrow> RelState (theRelease t) = final) s"
  unfolding attempt_def wp_seq wp_clm outcome.case wp_bind wp_try
proof (rule wp_onInventory, goal_cases)
  case (1 res t)
  have upd: "wp (releaseUpdate c) (\<lambda>r u. case r of Ok x \<Rightarrow> wp (ret (Next 0)) (\<lambda>res t. (\<exists>m. res = Ok (Break m)) \<longrightarrow> Q t) u
      | Err e \<Rightarrow> (\<exists>m. Err e = Ok (Break m)) \<longrightarrow> Q u | Panic p \<Rightarrow> (\<exists>m. Panic p = Ok (Break m)) \<longrightarrow> Q u) v" for Q v
    by (rule wpI) (simp add: wp_basic split: outcome.split)
  show ?case
  proof (cases res)
    case (Ok b)
    then show ?thesis using assms(2) upd by (cases b) (simp_all add: wp_simps fin)
  qed (simp_all add: wp_simps)
qed

lemma wp_round_state:
  assumes fin: "\<And>Q u. wp finished Q u = Q (Ok ()) (u\<lparr>theRelease := g (theRelease u)\<rparr>)"
    and "\<forall>rel. RelState rel = state \<longrightarrow> RelState (g rel) = final"
    and "\<And>t. wp (attempt c state oper finished (fst x)) (\<lambda>res _. \<forall>u. res \<noteq> Ok (Return u)) t"
  shows "wp (retryRound c state oper finished timeout what x) (\<lambda>res t. case res of
      Ok (Next _) \<Rightarrow> True | Ok _ \<Rightarrow> RelState (theRelease t) = final | _ \<Rightarrow> True) s"
proof -
  obtain n d where x: "x = (n, d)" by force
  have pause: "wp (seq (pause c timeout what d') (ret (Next y))) (\<lambda>res t. case res of
      Ok (Next _) \<Rightarrow> True | Ok _ \<Rightarrow> RelState (theRelease t) = final | _ \<Rightarrow> True) t" for d' y t
    unfolding wp_seq by (rule wpI) (simp add: wp_basic split: outcome.split)
  show ?thesis
    unfolding retryRound_def x split wp_bind
  proof (rule wp_conseq [OF wp_conj [OF wp_attempt_state [OF assms(1,2)] assms(3) [unfolded x fst_conv]]], goal_cases)
    case (1 res t)
    show ?case
    proof (cases res)
      case (Ok y)
      then show ?thesis using 1 pause by (cases y) (simp_all add: wp_basic)
    qed simp_all
  qed
qed

lemma no_return: "(\<And>t. wp finished (\<lambda>res _. True) t) \<Longrightarrow> wp (attempt c state oper finished n) (\<lambda>res _. \<forall>u. res \<noteq> Ok (Return u)) t"
  by (auto simp: attempt_def wp_simps wp_def bind_def seq_def run_simps split: prod.split outcome.split sum.split)

lemma command_outcome:
  fixes s :: "'w clm_state"
  assumes prep: "steps silent prepare"
    and round: "\<And>y x v. wp (round y x) (\<lambda>res t. case res of
      Ok (Next _) \<Rightarrow> True | Ok _ \<Rightarrow> RelState (theRelease t) = final | _ \<Rightarrow> True) v"
    and tracks: "\<And>y k x v. on_track s k x v \<Longrightarrow> wp (round y x) (\<lambda>res u. case res of
      Ok (Next x') \<Rightarrow> on_track s (Suc k) x' u | Ok _ \<Rightarrow> off_track s (Some (Ok ())) u
    | Err e \<Rightarrow> off_track s (Some (Err e)) u | Panic p \<Rightarrow> off_track s (Some (Panic p)) u) v"
    and final: "stateText final \<noteq> ''''"
    and run: "run = runCommand c prepare timeout (\<lambda>y. retryLoop rounds (round y) (0, 0))"
  shows "records_outcome (stateText final) (fst (run s)) (clm_calls run s)"
proof -
  define good where "good p \<longleftrightarrow> (\<exists>es. clmTrace (snd p) = clmTrace s @ es \<and> records_outcome (stateText final) (fst p) es)"
    for p :: "(goerr, unit) outcome option \<times> 'w clm_state"
  have early: "good (Some x, u)" if "silent s u" "x \<noteq> Ok ()" for x u
    using that by (auto simp: good_def records_outcome_def silent_def split: outcome.split)
  have "good (run s)"
    unfolding run
  proof (rule runCommand_rule [where Q = good], rule wp_conseq [OF silent_wp [OF prep]], goal_cases)
    case (1 r u)
    have "good (deferUpdate c (retryLoop rounds (round y) (0, 0) (u\<lparr>clmWorld := w\<rparr>)))" for y w
    proof -
      let ?u = "u\<lparr>clmWorld := w\<rparr>"
      obtain res0 v where loop: "retryLoop rounds (round y) (0, 0) ?u = (res0, v)" by force
      have u: "silent s ?u" using 1 by (auto simp: silent_def)
      have "on_track s 0 (0, 0) ?u"
        using u by (auto simp: silent_def on_track_def goes_on_def waitAt_0)
      then have "\<exists>es. clmTrace v = clmTrace s @ es"
        by (rule retryLoop_count [where I = "on_track s" and Q = "\<lambda>_ v. \<exists>es. clmTrace v = clmTrace s @ es" and k = 0, OF _ _ _ loop])
          (auto simp: on_track_def off_track_def intro!: wp_conseq [OF tracks] split: outcome.splits ctl.splits)
      then obtain es where es: "clmTrace v = clmTrace s @ es" by blast
      have ready: "res0 = Some (Ok ()) \<longrightarrow> RelState (theRelease v) = final"
        by (rule retryLoop_rule [where I = "\<lambda>_ _. True" and Q = "\<lambda>res v. res = Some (Ok ()) \<longrightarrow> RelState (theRelease v) = final", OF _ _ _ loop])
          (auto intro!: wp_conseq [OF round] split: outcome.splits ctl.splits)
      obtain res t where d: "deferUpdate c (res0, v) = (res, t)" by force
      show ?thesis
      proof (cases res0)
        case None
        then show ?thesis using loop es by (auto simp: deferUpdate_def good_def records_outcome_def)
      next
        case (Some x)
        from d [unfolded Some] show ?thesis
        proof (cases rule: defer_cases)
          case (stored cm)
          then show ?thesis
            using es loop d Some ready final
            by (cases x) (auto simp: good_def records_outcome_def Let_def)
        next
          case (failed errs)
          obtain fs where "clmTrace t = clmTrace s @ es @ fs" using failed(2) es by (auto simp: silent_def)
          then show ?thesis
            using failed(1) loop d Some by (cases x) (auto simp: good_def records_outcome_def)
        qed
      qed
    qed
    then show ?case using early [OF 1] by (auto split: outcome.split)
  qed
  then show ?thesis by (auto simp: good_def clm_calls_def)
qed

text \<open>
  C40: the release says how a command ended. If \<open>clm apply\<close> succeeds, its last call stored the
  release in state \<open>Ready\<close>; if \<open>clm delete\<close> succeeds, in state \<open>Deleting\<close>; if either returns an error
  after its first attempt, it stored the state \<open>Error\<close>, or the error tells that it could not.
\<close>

theorem clm_outcome:
  "records_outcome ''Ready'' (fst (applyCommand P c r createNamespace timeout generator namespace name rounds s))
      (clm_calls (applyCommand P c r createNamespace timeout generator namespace name rounds) s)
   \<and> records_outcome ''Deleting'' (fst (deleteCommand P c r timeout namespace name rounds s))
      (clm_calls (deleteCommand P c r timeout namespace name rounds) s)"
proof
  have fin: "steps silent (ret ())" "steps silent (updRelease f)" for f :: "Release \<Rightarrow> Release"
    by (rule sil.steps_ret, rule silent_calls)
  have "records_outcome (stateText StateReady) (fst (applyCommand P c r createNamespace timeout generator namespace name rounds s))
      (clm_calls (applyCommand P c r createNamespace timeout generator namespace name rounds) s)"
    by (rule command_outcome [OF silent_prepare(1) _ _ _ applyCommand_def])
      (auto simp: applyRound_def wp_simps intro!: on_track_round fin no_return
         wp_round_state [where g = "\<lambda>r. r\<lparr>RelState := StateReady\<rparr>"])
  then show "records_outcome ''Ready'' (fst (applyCommand P c r createNamespace timeout generator namespace name rounds s))
      (clm_calls (applyCommand P c r createNamespace timeout generator namespace name rounds) s)" by simp
  have "records_outcome (stateText StateDeleting) (fst (deleteCommand P c r timeout namespace name rounds s))
      (clm_calls (deleteCommand P c r timeout namespace name rounds) s)"
    by (rule command_outcome [OF silent_prepare(2) _ _ _ deleteCommand_def])
      (auto simp: deleteRound_def wp_simps intro!: on_track_round fin no_return wp_round_state [where g = "\<lambda>r. r"])
  then show "records_outcome ''Deleting'' (fst (deleteCommand P c r timeout namespace name rounds s))
      (clm_calls (deleteCommand P c r timeout namespace name rounds) s)" by simp
qed

end
