(* ===== verification/Clm_Sample.thy ===== *)
theory Clm_Sample
  imports Clm_Retries
begin

text \<open>
  Concrete runs of the commands on the sample cluster: an apply that creates a config map in
  its second round, and a delete of a release whose only object is gone.
\<close>

text \<open>A format for times, and one for the two inventories that occur.\<close>

definition sampleFormat :: "int \<Rightarrow> string" where
  "sampleFormat t = (let n = t div 1000000000 in (if n < 0 then ''-'' else ''+'') @ replicate (nat \<bar>n\<bar>) (CHR ''i''))"

definition sampleParse :: "string \<Rightarrow> goerr + int" where
  "sampleParse str = (case str of
     [] \<Rightarrow> Inl (Errorf ''cannot parse'' [])
   | c # cs \<Rightarrow> Inr (1000000000 * (if c = CHR ''-'' then - int (length cs) else int (length cs))))"

definition sampleRelease :: Release where
  "sampleRelease = newReleaseFor ''ns'' ''rel'' emptyConfigMap"

definition firstInventory :: "InventoryItem list" where
  "firstInventory = inventory (snd (Apply samplePlatform sampleReconciler [sampleConfigMap ''a''] ''ns'' (ownerIdOf ''ns'' ''rel'')
     (GetDigest samplePlatform (sampleRelease\<lparr>RelRevision := 1\<rparr>)) emptyState))"

definition goneInventory :: "InventoryItem list" where
  "goneInventory = inventory goneState"

definition sampleLib :: release_lib where
  "sampleLib = \<lparr>FormatTime = sampleFormat, ParseTime = sampleParse,
     MarshalInventory = (\<lambda>items. if items = firstInventory then Inr ''first'' else if items = goneInventory then Inr ''gone''
       else Inl (Errorf ''cannot marshal'' [])),
     UnmarshalInventory = (\<lambda>str. if str = ''first'' then Inr (map storedItem firstInventory) else if str = ''gone'' then Inr (map storedItem goneInventory)
       else Inl (Errorf ''cannot unmarshal'' []))\<rparr>"

lemma sampleLib_roundtrip: "formats_roundtrip sampleLib"
proof -
  have "sampleParse (sampleFormat t) = Inr (wholeSeconds t)" for t
    by (simp add: sampleParse_def sampleFormat_def wholeSeconds_def Let_def minus_mod_eq_mult_div)
  then show ?thesis by (simp add: formats_roundtrip_def sampleLib_def)
qed

text \<open>The config map of the deleted release.\<close>

definition goneConfigMap :: ConfigMap where
  "goneConfigMap = emptyConfigMap\<lparr>CmName := ''io.test.release.rel'', CmUID := ''u'', CmResourceVersion := ''1'',
     CmDeletionTimestamp := Some 0, CmFinalizers := [''test.io/finalizer''], CmData := [(''inventory'', ''gone'')]\<rparr>"

definition sampleConfigMaps :: "(goerr + ConfigMap) \<Rightarrow> cluster clm_client" where
  "sampleConfigMaps found = \<lparr>CmGet = (\<lambda>_ _ w. (found, w)), CmList = (\<lambda>_ _ w. (Inr [], w)),
     CmCreate = (\<lambda>cm w. ((None, cm\<lparr>CmUID := ''u'', CmResourceVersion := ''1''\<rparr>), w)),
     CmUpdate = (\<lambda>cm w. ((None, cm), w)), CmDelete = (\<lambda>_ _ w. (None, w)), ClmNow = (\<lambda>w. (snd w, w)),
     ClmStartTimer = (\<lambda>_ w. w), ClmTimedOut = (\<lambda>_ w. (False, w))\<rparr>"

definition sampleReleases :: "(goerr + ConfigMap) \<Rightarrow> cluster ReleaseClient" where
  "sampleReleases found = NewReleaseClient ''test.io'' (sampleConfigMaps found) sampleLib samplePlatform rev"

definition clmStart :: "Object list \<Rightarrow> cluster clm_state" where
  "clmStart objects = \<lparr>clmWorld = (objects, 0), clmTrace = [], theRelease = sampleRelease\<rparr>"

definition sampleFirstApply :: "nat \<Rightarrow> cluster clm_state \<Rightarrow> (goerr, unit) outcome option \<times> cluster clm_state" where
  "sampleFirstApply = applyCommand samplePlatform (sampleReleases (Inl notFound)) sampleReconciler True 0
     (\<lambda>_ w. (Ok [sampleConfigMap ''a''], w)) ''ns'' ''rel''"

definition sampleDeleteCommand :: "nat \<Rightarrow> cluster clm_state \<Rightarrow> (goerr, unit) outcome option \<times> cluster clm_state" where
  "sampleDeleteCommand = deleteCommand samplePlatform (sampleReleases (Inr goneConfigMap)) sampleReconciler 0 ''ns'' ''rel''"

fun is_target_write :: "clm_event \<Rightarrow> bool" where
  "is_target_write (ClmTarget e) = is_write e"
| "is_target_write _ = False"

fun creates_namespace :: "clm_event \<Rightarrow> bool" where
  "creates_namespace (ClmCreateNamespace ns err) \<longleftrightarrow> err = None"
| "creates_namespace _ \<longleftrightarrow> False"

lemma sampleFirstApply_writes:
  "list_ex is_target_write (clm_calls (sampleFirstApply 3) (clmStart []))" "list_ex creates_namespace (clm_calls (sampleFirstApply 3) (clmStart []))"
  by code_simp+

theorem clm_writes_ahead_witness:
  "list_ex is_target_write (clm_calls (sampleFirstApply 3) (clmStart [])) \<and> list_ex creates_namespace (clm_calls (sampleFirstApply 3) (clmStart [])) \<and>
   writes_ahead sampleLib {''ns''} [] (clm_calls (sampleFirstApply 3) (clmStart []))"
proof -
  have "reads_keep (client sampleReconciler)" "RcLib (sampleReleases found) = sampleLib" for found
    by (simp_all add: sampleClient_keeps sampleReleases_def NewReleaseClient_def)
  then show ?thesis
    using sampleFirstApply_writes sampleLib_roundtrip
      clm_writes_ahead [OF samplePlatform_sorts samplePlatform_keeps, of sampleReconciler "sampleReleases (Inl notFound)" True "''ns''"]
    by (simp add: sampleFirstApply_def)
qed

text \<open>A release that is written and read back.\<close>

definition appliedRelease :: Release where
  "appliedRelease = sampleRelease\<lparr>creationTimestamp := Some 1500000000, RelRevision := 3, RelInventory := firstInventory, RelState := StateReady\<rparr>"

theorem release_roundtrip_witness:
  "importData sampleLib (newReleaseFor ''ns'' ''rel'' (configMap (snd (exportData sampleLib appliedRelease)))) =
     Inr ((snd (exportData sampleLib appliedRelease))\<lparr>creationTimestamp := Some 1000000000, updateTimestamp := None,
       RelInventory := map storedItem firstInventory\<rparr>)"
proof -
  have "firstInventory \<noteq> []" by code_simp
  then have "fst (exportData sampleLib appliedRelease) = None"
    by (simp add: exportData_def appliedRelease_def sampleLib_def Let_def)
  then have "exportData sampleLib appliedRelease = (None, snd (exportData sampleLib appliedRelease))"
    by (metis prod.collapse)
  from release_roundtrip [OF sampleLib_roundtrip this] show ?thesis
    by (simp add: appliedRelease_def sampleRelease_def newReleaseFor_def wholeSeconds_def)
qed

text \<open>The delete reads the release, and sends an update without the finalizer.\<close>

fun drops_finalizer :: "string \<Rightarrow> clm_event \<Rightarrow> bool" where
  "drops_finalizer f (ClmUpdateRelease cm _) \<longleftrightarrow> f \<notin> set (CmFinalizers cm)"
| "drops_finalizer f _ \<longleftrightarrow> False"

lemma sampleDelete_run:
  "lastRead (clm_calls (sampleDeleteCommand 3) (clmStart [])) = Some goneConfigMap"
  "list_ex (drops_finalizer ''test.io/finalizer'') (clm_calls (sampleDeleteCommand 3) (clmStart []))"
  by code_simp+

theorem clm_delete_lets_go_witness:
  "list_all (\<lambda>item. ItemPhase item \<noteq> PhaseNone \<longrightarrow>
      done_with sampleReconciler (Sha256base32 samplePlatform (ownerIdOf ''ns'' ''rel'')) orphanedOnDelete
        (targetsOf (clm_calls (sampleDeleteCommand 3) (clmStart []))) item) (map storedItem goneInventory)"
proof -
  let ?c = "sampleReleases (Inr goneConfigMap)"
  obtain cm err where sent: "ClmUpdateRelease cm err \<in> set (clm_calls (sampleDeleteCommand 3) (clmStart []))"
      "''test.io/finalizer'' \<notin> set (CmFinalizers cm)"
    using sampleDelete_run(2) unfolding list_ex_iff by (auto elim!: drops_finalizer.elims(2))
  have fin: "RcFinalizer (sampleReleases found) = ''test.io/finalizer''" and lib: "RcLib (sampleReleases found) = sampleLib"
    and upd: "CmUpdate (RcClient (sampleReleases found)) = (\<lambda>cm w. ((None, cm), w))" for found
    by (simp_all add: sampleReleases_def NewReleaseClient_def sampleConfigMaps_def)
  have "inventoryIn sampleLib goneConfigMap = map storedItem goneInventory"
    by (simp add: inventoryIn_def goneConfigMap_def sampleLib_def)
  moreover have "hasFinalizer ?c goneConfigMap" by (simp add: fin goneConfigMap_def)
  ultimately show ?thesis
    using clm_delete_lets_go [of ?c samplePlatform sampleReconciler 0 "''ns''" "''rel''" 3 "clmStart []" goneConfigMap cm err]
      sent sampleDelete_run(1) by (simp add: fin lib upd sampleDeleteCommand_def)
qed

end
