(* ===== verification/Clm_Status.thy ===== *)
theory Clm_Status
  imports Clm_Command "HOL-Library.Signed_Division"
begin

text \<open>
  \<open>clm/cmd/util.go\<close>: what \<open>clm status\<close> and \<open>clm ls\<close> show of a release.
\<close>

definition HourNs :: int where
  "HourNs = 60 * Minute"

text \<open>Durations are 64 bit integers; \<open>time.Since\<close> stays in their range, and they are divided with truncation. The first case divides by 24 and then multiplies.\<close>

definition formatTimestamp :: "int \<Rightarrow> int \<Rightarrow> string" where
  "formatTimestamp now t =
     (let d = max (- (2 ^ 63)) (min (2 ^ 63 - 1) (now - t)) in
      if 24 * HourNs < d then Itoa (wrap64 (d sdiv 24 * HourNs)) @ ''d''
      else if HourNs < d then Itoa (d sdiv HourNs) @ ''h''
      else if Minute < d then Itoa (d sdiv Minute) @ ''m''
      else Itoa (d sdiv Second) @ ''s'')"

record releaseDetails =
  DetNamespace :: string
  DetName :: string
  DetRevision :: int
  DetState :: string
  NumAllObjects :: int
  NumReadyObjects :: int
  NumCompletedObjects :: int
  CreatedAt :: string
  LastUpdatedAt :: string

text \<open>A release without one of the timestamps is a nil pointer here; \<open>now\<close> and \<open>now'\<close> are the times of the two calls.\<close>

definition getReleaseDetails :: "int \<Rightarrow> int \<Rightarrow> Release \<Rightarrow> (goerr, releaseDetails) outcome" where
  "getReleaseDetails now now' r =
     obind (or_panic ''invalid memory address or nil pointer dereference'' (creationTimestamp r)) (\<lambda>created.
     obind (or_panic ''invalid memory address or nil pointer dereference'' (updateTimestamp r)) (\<lambda>updated.
     Ok \<lparr>DetNamespace = RelNamespace r, DetName = RelName r, DetRevision = RelRevision r, DetState = stateText (RelState r),
         NumAllObjects = int (length (RelInventory r)),
         NumReadyObjects = int (length (filter (\<lambda>item. ItemPhase item = PhaseReady) (RelInventory r))),
         NumCompletedObjects = int (length (filter (\<lambda>item. ItemPhase item = PhaseCompleted) (RelInventory r))),
         CreatedAt = formatTimestamp now created, LastUpdatedAt = formatTimestamp now' updated\<rparr>))"

text \<open>What is ready or completed are different objects of the release.\<close>

lemma getReleaseDetails_counts:
  assumes "getReleaseDetails now now' r = Ok details"
  shows "NumReadyObjects details + NumCompletedObjects details \<le> NumAllObjects details"
proof -
  have "length (filter (\<lambda>item. ItemPhase item = PhaseReady) items) + length (filter (\<lambda>item. ItemPhase item = PhaseCompleted) items)
      \<le> length items" for items by (induction items) auto
  then have "int (length (filter (\<lambda>item. ItemPhase item = PhaseReady) items)) + int (length (filter (\<lambda>item. ItemPhase item = PhaseCompleted) items))
      \<le> int (length items)" for items by (metis of_nat_add of_nat_le_iff)
  then show ?thesis using assms by (auto simp: getReleaseDetails_def obind_Ok)
qed

text \<open>A release without timestamps, as after a change of its config map by hand, cannot be shown.\<close>

lemma getReleaseDetails_panics:
  "creationTimestamp r = None \<Longrightarrow> \<exists>p. getReleaseDetails now now' r = Panic p"
  by (simp add: getReleaseDetails_def)

text \<open>An age of two days.\<close>

lemma formatTimestamp_days: "formatTimestamp (48 * HourNs) 0 \<noteq> ''2d''"
proof -
  let ?n = "wrap64 ((48 * HourNs) sdiv 24 * HourNs)"
  have n: "?n = 286684792576016384"
    by (simp add: wrap64_def HourNs_def Minute_def signed_divide_int_def)
  have "Itoa ?n \<noteq> ''2''"
  proof
    assume "Itoa ?n = ''2''"
    moreover have "Atoi ''2'' = Inr 2" by code_simp
    moreover have "Atoi (Itoa ?n) = Inr ?n" by (rule Atoi_Itoa) (simp_all add: n)
    ultimately show False by (simp add: n)
  qed
  then show ?thesis by (simp add: formatTimestamp_def HourNs_def Minute_def)
qed

end
