(* ===== verification/Component_Phases.thy ===== *)
theory Component_Phases
  imports Component_Inventory
begin

text \<open>
  The abstract machine of a component: how a run of the body of \<open>Reconcile\<close> may end, with
  the calls it makes, the component it leaves and its result; and the refinement of the code
  to it.
\<close>

section \<open>The machine\<close>

definition backoffDelay :: "'w ComponentReconciler \<Rightarrow> int \<Rightarrow> bool" where
  "backoffDelay r d \<longleftrightarrow> (\<exists>n. d = defaultDelay (CrLimiters r) (10 * Second) n)"

text \<open>What a successful patch may return that carries the resource version of the component \<open>c\<close>.\<close>

definition patched :: "'w ComponentReconciler \<Rightarrow> Component \<Rightarrow> Component \<Rightarrow> bool" where
  "patched r c c' \<longleftrightarrow> (\<exists>component finalizers owner w. requestOf component = requestOf c \<and>
     fst (PatchComponent (CrClient r) component (ResourceVersion c) finalizers owner w) = (None, c'))"

lemma patched_cong:
  "ResourceVersion d = ResourceVersion c \<Longrightarrow> Namespace d = Namespace c \<Longrightarrow> Name d = Name c \<Longrightarrow> patched r d = patched r c"
  by (intro ext) (simp add: patched_def requestOf_def)

lemma patched_updates [simp]:
  "patched r (c\<lparr>CompStatus := st\<rparr>) = patched r c" "patched r (c\<lparr>Finalizers := fs\<rparr>) = patched r c" "patched r (typed r' c) = patched r c"
  by (rule patched_cong; simp add: typed_def)+

definition touches_nothing :: "cevent list \<Rightarrow> bool" where
  "touches_nothing es \<longleftrightarrow> \<not> applies es \<and> target_calls es = []"

fun fails :: "('e, 'a) outcome \<Rightarrow> bool" where
  "fails (Ok x) = False"
| "fails (Err e) = True"
| "fails (Panic p) = True"

lemma failsI: "(\<And>x. res \<noteq> Ok x) \<Longrightarrow> fails res"
  by (cases res) auto

inductive phase_end :: "'w ComponentReconciler \<Rightarrow> int \<Rightarrow> Component \<Rightarrow> cevent list \<Rightarrow> Component \<Rightarrow> (goerr, int \<times> bool) outcome \<Rightarrow> bool"
  for r :: "'w ComponentReconciler" and now :: int and c :: Component where
  first_seen: "ObservedGeneration (CompStatus c) \<le> 0 \<Longrightarrow>
    phase_end r now c [] (with_state StatePending ''FirstSeen'' ''First seen'' c) (Ok (Millisecond, False))"
| suspended: "0 < ObservedGeneration (CompStatus c) \<Longrightarrow> isSuspended c \<Longrightarrow> backoffDelay r d \<Longrightarrow>
    phase_end r now c [] (with_state StatePending ''Suspended'' ''Reconciliation is suspended'' c) (Ok (d, False))"
| restarting: "0 < ObservedGeneration (CompStatus c) \<Longrightarrow> \<not> isSuspended c \<Longrightarrow> restarts digest c \<Longrightarrow>
    phase_end r now c [] (with_state StateProcessing ''Restarting'' ''Restarting processing due to component changes'' (prepared digest c))
      (Ok (Millisecond, False))"
| failed: "0 < ObservedGeneration (CompStatus c) \<Longrightarrow> \<not> isSuspended c \<Longrightarrow> fails res \<Longrightarrow>
    phase_end r now c es c' res"
| finalizer_added: "0 < ObservedGeneration (CompStatus c) \<Longrightarrow> \<not> isSuspended c \<Longrightarrow> DeletionTimestamp c = None \<Longrightarrow>
    finalizerOf r \<notin> set (Finalizers c) \<Longrightarrow> touches_nothing es \<Longrightarrow> CPatchFinalizers (Finalizers c @ [finalizerOf r]) None \<in> set es \<Longrightarrow>
    patched r c c' \<Longrightarrow> phase_end r now c es c' (Ok (Millisecond, False))"
| ready: "0 < ObservedGeneration (CompStatus c) \<Longrightarrow> \<not> isSuspended c \<Longrightarrow> DeletionTimestamp c = None \<Longrightarrow>
    finalizerOf r \<in> set (Finalizers c) \<Longrightarrow> CApply (Ok True) \<in> set es \<Longrightarrow> keeps_metadata c c' \<Longrightarrow>
    CompState (CompStatus c') = StateReady \<Longrightarrow> AppliedGeneration (CompStatus c') = Generation c \<Longrightarrow>
    StatusLastAppliedAt (CompStatus c') = Some now \<Longrightarrow>
    phase_end r now c es c' (Ok (requeueIntervalOf c, False))"
| processing: "0 < ObservedGeneration (CompStatus c) \<Longrightarrow> \<not> isSuspended c \<Longrightarrow> DeletionTimestamp c = None \<Longrightarrow>
    finalizerOf r \<in> set (Finalizers c) \<Longrightarrow> CApply (Ok False) \<in> set es \<Longrightarrow> keeps_metadata c c' \<Longrightarrow>
    CompState (CompStatus c') = StateProcessing \<Longrightarrow> ProcessingSince (CompStatus c') \<noteq> None \<Longrightarrow> backoffDelay r d \<Longrightarrow>
    phase_end r now c es c' (Ok (d, False))"
| blocked: "0 < ObservedGeneration (CompStatus c) \<Longrightarrow> DeletionTimestamp c \<noteq> None \<Longrightarrow> \<not> applies es \<Longrightarrow>
    (\<forall>x. CDelete x \<notin> set es) \<Longrightarrow> keeps_metadata c c' \<Longrightarrow> CompState (CompStatus c') = StateDeleting \<Longrightarrow> backoffDelay r d \<Longrightarrow>
    phase_end r now c es c' (Ok (Second + d, False))"
| deleting: "0 < ObservedGeneration (CompStatus c) \<Longrightarrow> DeletionTimestamp c \<noteq> None \<Longrightarrow> \<not> applies es \<Longrightarrow>
    CDelete (Ok False) \<in> set es \<Longrightarrow> set (Finalizers c) \<subseteq> {finalizerOf r} \<Longrightarrow> keeps_metadata c c' \<Longrightarrow> CompState (CompStatus c') = StateDeleting \<Longrightarrow> backoffDelay r d \<Longrightarrow>
    phase_end r now c es c' (Ok (d, False))"
| released: "0 < ObservedGeneration (CompStatus c) \<Longrightarrow> DeletionTimestamp c \<noteq> None \<Longrightarrow> \<not> applies es \<Longrightarrow>
    CDelete (Ok True) \<in> set es \<Longrightarrow> set (Finalizers c) \<subseteq> {finalizerOf r} \<Longrightarrow>
    patched r c c' \<or> DeletionTimestamp c' = DeletionTimestamp c \<Longrightarrow> phase_end r now c es c' (Ok (0, True))"

lemma delay_callI:
  assumes "\<And>d b. backoffDelay r d \<Longrightarrow> Q (Ok d) (s\<lparr>cbackoff := b\<rparr>)"
  shows "wp (backoffNext r req act) Q s"
  by (auto simp: wp_def backoffNext_def Next_backoff_def NewDefaultRateLimiter_def backoffDelay_def Let_def split: prod.splits intro!: assms)

lemma documented_callI:
  fixes r :: "'w ComponentReconciler"
  assumes "component_run keeps_metadata r"
    and "hooks \<in> {postReadHooks r, preReconcileHooks r, postReconcileHooks r, preDeleteHooks r, postDeleteHooks r}"
    and "\<And>res t es st. comp t = (comp s)\<lparr>CompStatus := st\<rparr> \<Longrightarrow> ctrace t = ctrace s @ es \<Longrightarrow> hooks_only es \<Longrightarrow> Q res t"
  shows "wp (runHooks kind ctx n hooks) Q s"
  by (rule component_run.hooks_callI [OF assms(1,2)]) (use assms(3) in \<open>auto simp: keeps_metadata_def\<close>)

lemma finalizers_patchI:
  assumes "\<And>err c w. (err = None \<Longrightarrow> patched r (comp s) c) \<Longrightarrow> Q (case err of None \<Rightarrow> Ok () | Some e \<Rightarrow> Err e)
     (s\<lparr>cworld := w, ctrace := ctrace s @ [CPatchFinalizers (Finalizers (comp s)) err], comp := c\<rparr>)"
  shows "wp (updateFinalizers r) Q s"
proof -
  obtain err c w where p: "PatchComponent (CrClient r) (comp s) (ResourceVersion (comp s)) (Finalizers (comp s)) (fieldOwnerOf r) (cworld s) = ((err, c), w)"
    by (metis surj_pair)
  then have "patched r (comp s) c" if "err = None"
    using that unfolding patched_def by (metis fst_conv)
  then have "Q (case err of None \<Rightarrow> Ok () | Some e \<Rightarrow> Err e)
     (s\<lparr>cworld := w, ctrace := ctrace s @ [CPatchFinalizers (Finalizers (comp s)) err], comp := c\<rparr>)"
    by (rule assms)
  with p show ?thesis
    by (cases err) (simp_all add: updateFinalizers_def wp_simps)
qed

section \<open>The phases refine it\<close>

lemma keeps_metadata_sel:
  assumes "keeps_metadata c d"
  shows "DeletionTimestamp d = DeletionTimestamp c" "Finalizers d = Finalizers c" "Generation d = Generation c"
    "patched r d = patched r c"
  using assms by (auto simp: keeps_metadata_def)

lemmas keeps_metadata_trans = documented_hook.trans

lemma hooks_marks [simp]:
  assumes "hooks_only es"
  shows "CApply x \<notin> set es" "touches_nothing es"
  using assms by (auto simp: hooks_only_def list_all_iff touches_nothing_def)

text \<open>The calls between two states of a run.\<close>

abbreviation since :: "'w cst \<Rightarrow> 'w cst \<Rightarrow> cevent list" where
  "since s t \<equiv> drop (length (ctrace s)) (ctrace t)"

abbreviation extends :: "'w cst \<Rightarrow> 'w cst \<Rightarrow> bool" where
  "extends s t \<equiv> take (length (ctrace s)) (ctrace t) = ctrace s"

lemma extends_since: "extends s t \<Longrightarrow> ctrace t = ctrace s @ since s t"
  using append_take_drop_id [of "length (ctrace s)" "ctrace t"] by simp

lemma keeps_metadata_simp [simp]: "keeps_metadata c (c\<lparr>CompStatus := st\<rparr>)"
  by (auto simp: keeps_metadata_def)

lemma deletePhase_callI:
  fixes r :: "'w ComponentReconciler"
  assumes run: "component_run keeps_metadata r" and fin: "finalizers_documented P"
    and failed: "\<And>res t. fails res \<Longrightarrow> extends s t \<Longrightarrow> Q res t"
    and blocked: "\<And>t d. extends s t \<Longrightarrow> \<not> applies (since s t) \<Longrightarrow> \<forall>x. CDelete x \<notin> set (since s t) \<Longrightarrow>
      keeps_metadata (comp s) (comp t) \<Longrightarrow> CompState (CompStatus (comp t)) = StateDeleting \<Longrightarrow> backoffDelay r d \<Longrightarrow> Q (Ok (Second + d, False)) t"
    and deleting: "\<And>t d. extends s t \<Longrightarrow> \<not> applies (since s t) \<Longrightarrow> CDelete (Ok False) \<in> set (since s t) \<Longrightarrow>
      set (Finalizers (comp s)) \<subseteq> {finalizerOf r} \<Longrightarrow>
      keeps_metadata (comp s) (comp t) \<Longrightarrow> CompState (CompStatus (comp t)) = StateDeleting \<Longrightarrow> backoffDelay r d \<Longrightarrow> Q (Ok (d, False)) t"
    and released: "\<And>t. extends s t \<Longrightarrow> \<not> applies (since s t) \<Longrightarrow> CDelete (Ok True) \<in> set (since s t) \<Longrightarrow>
      set (Finalizers (comp s)) \<subseteq> {finalizerOf r} \<Longrightarrow>
      patched r (comp s) (comp t) \<or> DeletionTimestamp (comp t) = DeletionTimestamp (comp s) \<Longrightarrow> Q (Ok (0, True)) t"
  shows "wp (deletePhase P r req saved tg) Q s"
proof -
  have foreign: "filter (\<lambda>f. f \<noteq> finalizerOf r) fs = [] \<longleftrightarrow> set fs \<subseteq> {finalizerOf r}" for fs
    by (auto simp: filter_empty_conv)
  show ?thesis
    unfolding deletePhase_def wp_simps Let_def
    by (rule documented_callI [OF run], simp)
      (auto simp: wp_simps Let_def inventory_run_def set_inventory_def finalizers_simps [OF fin] foreign
         split: outcome.splits prod.splits option.splits
         intro!: delay_callI documented_callI [OF run] allowed_callI delete_callI finalizers_patchI,
       (rule failed blocked deleting released; auto; fail)+)
qed

lemma apply_markI:
  assumes "\<And>res t es items. comp t = set_inventory items (comp s) \<Longrightarrow> ctrace t = ctrace s @ es @ [CApply res] \<Longrightarrow> Q res t"
  shows "wp (target_Apply P tg digest) Q s"
  by (rule apply_callI) (auto simp: inventory_run_def intro: assms)

lemma applyPhase_callI:
  fixes r :: "'w ComponentReconciler"
  assumes run: "component_run keeps_metadata r" and fin: "finalizers_documented P"
    and failed: "\<And>res t. fails res \<Longrightarrow> extends s t \<Longrightarrow> Q res t"
    and added: "\<And>t. extends s t \<Longrightarrow> finalizerOf r \<notin> set (Finalizers (comp s)) \<Longrightarrow>
      since s t = [CPatchFinalizers (Finalizers (comp s) @ [finalizerOf r]) None] \<Longrightarrow> patched r (comp s) (comp t) \<Longrightarrow>
      Q (Ok (Millisecond, False)) t"
    and ready: "\<And>t. extends s t \<Longrightarrow> finalizerOf r \<in> set (Finalizers (comp s)) \<Longrightarrow> CApply (Ok True) \<in> set (since s t) \<Longrightarrow>
      keeps_metadata (comp s) (comp t) \<Longrightarrow> CompState (CompStatus (comp t)) = StateReady \<Longrightarrow>
      AppliedGeneration (CompStatus (comp t)) = Generation (comp s) \<Longrightarrow> StatusLastAppliedAt (CompStatus (comp t)) = Some now \<Longrightarrow>
      Q (Ok (interval, False)) t"
    and processing: "\<And>t d. extends s t \<Longrightarrow> finalizerOf r \<in> set (Finalizers (comp s)) \<Longrightarrow> CApply (Ok False) \<in> set (since s t) \<Longrightarrow>
      keeps_metadata (comp s) (comp t) \<Longrightarrow> CompState (CompStatus (comp t)) = StateProcessing \<Longrightarrow>
      ProcessingSince (CompStatus (comp t)) \<noteq> None \<Longrightarrow> backoffDelay r d \<Longrightarrow> Q (Ok (d, False)) t"
  shows "wp (applyPhase P r req now interval saved tg) Q s"
proof (cases "finalizerOf r \<in> set (Finalizers (comp s))")
  case False
  show ?thesis
    unfolding applyPhase_def wp_simps Let_def
    by (auto simp: wp_simps finalizers_simps [OF fin] False split: option.splits outcome.splits intro!: finalizers_patchI,
       (rule failed added; auto simp: False; fail)+)
next
  case True
  show ?thesis
    unfolding applyPhase_def wp_simps Let_def
    by (auto simp: wp_simps Let_def set_inventory_def finalizers_simps [OF fin] True split: outcome.splits
         intro!: delay_callI documented_callI [OF run] apply_markI,
       (rule failed ready processing; auto simp: True; fail)+)
qed

lemma body_end:
  fixes r :: "'w ComponentReconciler"
  assumes run: "component_run keeps_metadata r" and fin: "finalizers_documented P"
  shows "wp (reconcileBody P r req now (requeueIntervalOf (comp s)) saved)
    (\<lambda>res t. extends s t \<and> phase_end r now (comp s) (since s t) (comp t) res) s"
proof (cases "0 < ObservedGeneration (CompStatus (comp s)) \<and> \<not> isSuspended (comp s)")
  case False
  then show ?thesis
    using phase_end.first_seen [of "comp s" r now] phase_end.suspended [of "comp s" r _ now]
    by (auto simp: reconcileBody_def wp_simps with_state_def not_less intro!: delay_callI)
next
  case alive: True
  let ?Q = "\<lambda>res t. extends s t \<and> phase_end r now (comp s) (since s t) (comp t) res"
  show ?thesis
  proof (rule component_run.body_callI [OF run])
    fix t :: "'w cst" and es tg
    assume t: "ctrace t = ctrace s @ es" "hooks_only es" "keeps_metadata (prepared (cdigest t) (comp s)) (comp t)"
    have meta: "keeps_metadata (comp s) (comp t)"
      using t(3) by (auto simp: keeps_metadata_def prepared_def Let_def split: if_splits)
    have same_patch: "patched r (comp t) = patched r (comp s)" by (rule keeps_metadata_sel [OF meta])
    note sel = keeps_metadata_sel(1-3) [OF meta] same_patch
    have tail: "extends s u \<and> since s u = es @ since t u" if "extends t u" for u :: "'w cst"
    proof -
      have "ctrace u = ctrace t @ since t u"
        using append_take_drop_id [of "length (ctrace t)" "ctrace u", symmetric] unfolding that .
      then obtain x where "ctrace u = ctrace t @ x" ..
      then show ?thesis using t(1) by simp
    qed
    have step: "?Q res u" if "extends t u" "phase_end r now (comp s) (es @ since t u) (comp u) res" for res and u :: "'w cst"
      using tail [OF that(1)] that(2) by simp
    show "wp (if DeletionTimestamp (comp t) = None then applyPhase P r req now (requeueIntervalOf (comp s)) saved tg
        else deletePhase P r req saved tg) ?Q t"
    proof (cases "DeletionTimestamp (comp t) = None")
      case True
      show ?thesis
        unfolding if_P [OF True]
        by (rule applyPhase_callI [OF run fin]; rule step, assumption)
          (use alive True t(2) sel in \<open>auto simp: touches_nothing_def intro: phase_end.failed phase_end.finalizer_added
             phase_end.ready phase_end.processing keeps_metadata_trans [OF meta]\<close>)
    next
      case False
      show ?thesis
        unfolding if_not_P [OF False]
        by (rule deletePhase_callI [OF run fin]; rule step, assumption)
          (use alive False t(2) sel in \<open>auto intro: phase_end.failed phase_end.blocked phase_end.deleting phase_end.released
             keeps_metadata_trans [OF meta]\<close>)
    qed
  next
    show "?Q res t" if "\<And>x. res \<noteq> Ok x" "ctrace t = ctrace s @ es" for res and t :: "'w cst" and es
    proof -
      have "phase_end r now (comp s) es (comp t) res" using alive by (intro phase_end.failed failsI [OF that(1)]) simp_all
      then show ?thesis using that(2) by simp
    qed
  qed (use alive in \<open>auto intro: phase_end.restarting\<close>)
qed

section \<open>The whole run\<close>

fun outcome_of :: "goerr + 'a \<Rightarrow> (goerr, 'a) outcome" where
  "outcome_of (Inl e) = Err e"
| "outcome_of (Inr x) = Ok x"

abbreviation settled :: "'w ComponentReconciler \<Rightarrow> int \<Rightarrow> Component \<Rightarrow> Component \<Rightarrow> goerr + int \<times> bool \<Rightarrow> Component \<times> int \<times> goerr option" where
  "settled r now c c' res \<equiv> settledAs r (timedOut now (timeoutOf c) (CompStatus (observed c'))) (retryIntervalOf c) (observed c') res"

text \<open>
  Here \<open>b\<close> is what the body returned; the delay, the error and the status that follow from it
  are those of \<open>settledAs\<close>.
\<close>

inductive run_end :: "'w ComponentReconciler \<Rightarrow> request \<Rightarrow> (goerr, int \<times> bool) outcome option \<Rightarrow> cevent list \<Rightarrow> (goerr, int) outcome \<Rightarrow> bool"
  for r :: "'w ComponentReconciler" and req :: request where
  absent: "IsNotFound err \<Longrightarrow> run_end r req None [CReconciles, CGet req (Inl err)] (Ok 0)"
| unread: "\<not> IsNotFound err \<Longrightarrow>
    run_end r req None [CReconciles, CGet req (Inl err)] (Err (Wrapf err ''unexpected get error'' []))"
| panicked: "\<not> updates es \<Longrightarrow> phase_end r now (typed r c) es c' (Panic p) \<Longrightarrow>
    run_end r req (Some (Panic p)) (CReconciles # CGet req (Inr c) # es) (Panic p)"
| stuck: "\<not> updates es \<Longrightarrow> phase_end r now (typed r c) es c' (outcome_of res) \<Longrightarrow> \<not> handles (observed c') res \<Longrightarrow>
    run_end r req (Some (outcome_of res)) (CReconciles # CGet req (Inr c) # es) (Panic ''this cannot happen'')"
| skipped: "\<not> updates es \<Longrightarrow> phase_end r now (typed r c) es c' (outcome_of res) \<Longrightarrow> handles (observed c') res \<Longrightarrow> skips res \<Longrightarrow>
    settled r now c c' res = (d, n, err) \<Longrightarrow> jittered r n n' \<Longrightarrow> reports_only es' \<Longrightarrow>
    run_end r req (Some (outcome_of res)) (CReconciles # CGet req (Inr c) # es @ es') (result_of n' err None)"
| updated: "\<not> updates es \<Longrightarrow> phase_end r now (typed r c) es c' (outcome_of res) \<Longrightarrow> handles (observed c') res \<Longrightarrow> \<not> skips res \<Longrightarrow>
    settled r now c c' res = (d, n, err) \<Longrightarrow> jittered r n n' \<Longrightarrow> reports_only es' \<Longrightarrow>
    run_end r req (Some (outcome_of res)) (CReconciles # CGet req (Inr c) # es @ es' @ [CStatusUpdate (stamped now (CompStatus c) d) updateErr])
      (result_of n' err updateErr)"

lemma typed_sel [simp]:
  "CompStatus (typed r c) = CompStatus c" "DeletionTimestamp (typed r c) = DeletionTimestamp c" "Finalizers (typed r c) = Finalizers c"
  "Generation (typed r c) = Generation c" "requeueIntervalOf (typed r c) = requeueIntervalOf c" "isSuspended (typed r c) = isSuspended c"
  by (simp_all add: typed_def requeueIntervalOf_def isSuspended_def assertRequeueConfiguration_def assertSuspensionConfiguration_def
      assertConfiguration_def cong: option.case_cong)

lemma Reconcile_run_end:
  fixes r :: "'w ComponentReconciler"
  assumes run: "component_run keeps_metadata r" and fin: "finalizers_documented P" and "setupComplete r"
  shows "wp (Reconcile P r req) (\<lambda>res t. \<exists>es. ctrace t = ctrace s @ es \<and> run_end r req (bodyResult P r req s) es res) s"
proof (rule Reconcile_callI [where B = "\<lambda>c now res t. \<exists>es. ctrace t = ctrace s @ CReconciles # CGet req (Inr c) # es \<and>
    \<not> updates es \<and> phase_end r now (typed r c) es (comp t) res \<and> bodyResult P r req s = Some res"])
  fix u :: "'w cst" and c now
  assume u: "ctrace u = ctrace s @ [CReconciles, CGet req (Inr c)]" "comp u = typed r c"
    "bodyResult P r req s = Some (fst (reconcileBody P r req now (requeueIntervalOf c) (CompStatus c) u))"
  let ?body = "reconcileBody P r req now (requeueIntervalOf c) (CompStatus c)"
  have step: "\<exists>es. ctrace t = ctrace s @ CReconciles # CGet req (Inr c) # es \<and> \<not> updates es \<and> phase_end r now (typed r c) es (comp t) res"
    if t: "extends u t \<and> phase_end r now (comp u) (since u t) (comp t) res" "\<exists>es. ctrace t = ctrace u @ es \<and> trace_ok f has es"
    for res and t :: "'w cst" and f has
  proof -
    from t(2) obtain es where "ctrace t = ctrace u @ es" "\<not> updates es" by (auto simp: trace_ok_def)
    then show ?thesis using t(1) u by simp
  qed
  have this_result: "wp ?body (\<lambda>res t. bodyResult P r req s = Some res) u"
    using u(3) by (simp add: wp_def split: prod.splits)
  have "wp (reconcileBody P r req now (requeueIntervalOf (comp u)) (CompStatus c))
     (\<lambda>res t. \<exists>es. ctrace t = ctrace s @ CReconciles # CGet req (Inr c) # es \<and> \<not> updates es \<and> phase_end r now (typed r c) es (comp t) res) u"
    by (rule wp_conseq [OF wp_conj [OF body_end [OF run fin] component_run.body_trace [OF run fin keeps_metadata_Finalizers]]], assumption)
      (rule step, erule conjunct1, erule conjunct2)
  moreover have "requeueIntervalOf c = requeueIntervalOf (comp u)" by (simp add: u)
  ultimately have "wp ?body (\<lambda>res t. \<exists>es. ctrace t = ctrace s @ CReconciles # CGet req (Inr c) # es \<and> \<not> updates es \<and>
      phase_end r now (typed r c) es (comp t) res) u"
    by simp
  then show "wp ?body (\<lambda>res t. \<exists>es. ctrace t = ctrace s @ CReconciles # CGet req (Inr c) # es \<and> \<not> updates es \<and>
      phase_end r now (typed r c) es (comp t) res \<and> bodyResult P r req s = Some res) u"
    by (rule wp_conseq [OF wp_conj [OF _ this_result]]) blast
next
  fix c now and res :: "goerr + int \<times> bool" and t :: "'w cst"
  assume "case res of Inl e \<Rightarrow> \<exists>es. ctrace t = ctrace s @ CReconciles # CGet req (Inr c) # es \<and> \<not> updates es \<and>
        phase_end r now (typed r c) es (comp t) (Err e) \<and> bodyResult P r req s = Some (Err e)
    | Inr x \<Rightarrow> \<exists>es. ctrace t = ctrace s @ CReconciles # CGet req (Inr c) # es \<and> \<not> updates es \<and>
        phase_end r now (typed r c) es (comp t) (Ok x) \<and> bodyResult P r req s = Some (Ok x)"
  then obtain es where t: "ctrace t = ctrace s @ CReconciles # CGet req (Inr c) # es" "\<not> updates es" "phase_end r now (typed r c) es (comp t) (outcome_of res)"
    and b: "bodyResult P r req s = Some (outcome_of res)"
    by (cases res) auto
  obtain d n err where d: "settled r now c (comp t) res = (d, n, err)" by (metis surj_pair)
  show "wp (finishReconcile r req now (retryIntervalOf c) (timeoutOf c) (CompStatus c) res)
      (\<lambda>res t. \<exists>es. ctrace t = ctrace s @ es \<and> run_end r req (bodyResult P r req s) es res) t"
    unfolding b
  proof (rule finish_callI [OF d], goal_cases)
    case (1 b)
    then show ?case using t run_end.stuck [OF t(2,3)] by simp
  next
    case (2 t' es' n')
    then show ?case using t run_end.skipped [OF t(2,3) 2(1,2) d 2(6,5)] by auto
  next
    case (3 t' es' n' updateErr)
    then show ?case using t run_end.updated [OF t(2,3) 3(1,2) d 3(6,5)] by auto
  qed
qed (auto simp: assms(3) intro: run_end.absent run_end.unread run_end.panicked)


end
