(* ===== verification/Component_Outcomes.thy ===== *)
theory Component_Outcomes
  imports Component_Phases
begin

text \<open>
  What follows from the abstract machine for every run of \<open>Reconcile\<close>: the status that is
  written, the result that is returned, and the states a component can be in.
\<close>

section \<open>Case analysis\<close>

lemma Reconcile_refined:
  assumes "hooks_respect keeps_metadata r" and "finalizers_documented P" and "setupComplete r"
  shows "run_end r req (bodyResult P r req s) (calls_of (Reconcile P r req) s) (fst (Reconcile P r req s))"
proof -
  have run: "component_run keeps_metadata r"
    using assms(1) documented_hook.hook_relation_axioms by (rule component_runI)
  obtain res t where t: "Reconcile P r req s = (res, t)" by force
  from wpD [OF Reconcile_run_end [OF run assms(2,3)] this] show ?thesis by (auto simp: calls_of_def t)
qed

inductive_cases phase_okE: "phase_end r now c es c' (Ok x)"
inductive_cases phase_errE: "phase_end r now c es c' (Err e)"
inductive_cases phase_panicE: "phase_end r now c es c' (Panic p)"
inductive_simps phase_panic: "phase_end r now c es c' (Panic p)"

lemma observed_sel [simp]:
  "CompState (CompStatus (observed c)) = CompState (CompStatus c)" "DeletionTimestamp (observed c) = DeletionTimestamp c"
  "Generation (observed c) = Generation c" "ObservedGeneration (CompStatus (observed c)) = Generation c"
  "AppliedGeneration (CompStatus (observed c)) = AppliedGeneration (CompStatus c)"
  by (simp_all add: observed_def)

lemma with_state_sel [simp]:
  "CompState (CompStatus (with_state st reason msg c)) = st" "DeletionTimestamp (with_state st reason msg c) = DeletionTimestamp c"
  "Generation (with_state st reason msg c) = Generation c"
  "ObservedGeneration (CompStatus (with_state st reason msg c)) = ObservedGeneration (CompStatus c)"
  "AppliedGeneration (CompStatus (with_state st reason msg c)) = AppliedGeneration (CompStatus c)"
  by (simp_all add: with_state_def)

lemma stamped_sel [simp]:
  "CompState (CompStatus (stamped now saved c)) = CompState (CompStatus c)" "DeletionTimestamp (stamped now saved c) = DeletionTimestamp c"
  "Generation (stamped now saved c) = Generation c"
  "ObservedGeneration (CompStatus (stamped now saved c)) = ObservedGeneration (CompStatus c)"
  "AppliedGeneration (CompStatus (stamped now saved c)) = AppliedGeneration (CompStatus c)"
  "LastObservedAt (CompStatus (stamped now saved c)) = Some now"
  by (simp_all add: stamped_def)

text \<open>What settling does to the component, for each kind of outcome.\<close>

lemma settledAs_keeps:
  assumes "settledAs r haveTimeout retryInterval c res = (d, n, err)"
  shows "DeletionTimestamp d = DeletionTimestamp c" "Generation d = Generation c"
    "ObservedGeneration (CompStatus d) = ObservedGeneration (CompStatus c)"
    "AppliedGeneration (CompStatus d) = AppliedGeneration (CompStatus c)"
  using assms by (auto simp: settledAs_def Let_def split: sum.splits option.splits prod.splits if_splits)

lemma settledAs_err:
  assumes "settledAs r haveTimeout retryInterval c (Inl e) = (d, n, err)"
  shows "CompState (CompStatus d) \<in> (if DeletionTimestamp c = None then {StatePending, StateError} else {StateDeletionPending, StateError})"
    and "err = (if asRetriableError e = None then Some e else None)"
    and "asRetriableError e = None \<longleftrightarrow> CompState (CompStatus d) = StateError"
    and "n = (case asRetriableError e of Some (_, Some after) \<Rightarrow> if after = 0 then retryInterval else after | Some (_, None) \<Rightarrow> retryInterval | None \<Rightarrow> 0)"
  using assms by (auto simp: settledAs_def Let_def split: option.splits prod.splits if_splits)

lemma settledAs_ok:
  assumes "settledAs r haveTimeout retryInterval c (Inr (m, skip)) = (d, n, err)"
  shows "err = None" and "n = m \<or> n = Millisecond"
    and "CompState (CompStatus d) = (if DeletionTimestamp c = None \<and> CompState (CompStatus c) = StateProcessing \<and> haveTimeout
           then StateError else CompState (CompStatus c))"
  using assms by (auto simp: settledAs_def Let_def split: if_splits)

lemma result_of_Ok: "result_of n err updateErr = Ok m \<longleftrightarrow> updateErr = None \<and> err = None \<and> m = n"
  by (auto simp: result_of_def split: option.splits)

lemma run_read: "run_end r req b es res \<Longrightarrow> component_read es = Some c \<Longrightarrow> \<exists>es'. es = CReconciles # CGet req (Inr c) # es'"
  by (cases rule: run_end.cases) auto

section \<open>The status that is written\<close>

text \<open>A run that writes the status ends with that, after a body with one of the outcomes of the machine.\<close>

lemma run_updates:
  assumes "run_end r req b es res" and "CStatusUpdate d updateErr \<in> set es"
  obtains c now es1 es2 c' out d0 n err n' where "es = CReconciles # CGet req (Inr c) # es1 @ es2 @ [CStatusUpdate d updateErr]"
    "phase_end r now (typed r c) es1 c' (outcome_of out)" "handles (observed c') out" "\<not> skips out" "\<not> updates es1"
    "settled r now c c' out = (d0, n, err)" "d = stamped now (CompStatus c) d0" "jittered r n n'" "reports_only es2"
    "res = result_of n' err updateErr" "b = Some (outcome_of out)"
  using assms
proof (cases rule: run_end.cases)
  case (updated es1 now c c' out d0 n err n' es2 updateErr')
  then have "d = stamped now (CompStatus c) d0 \<and> updateErr = updateErr'"
    using assms(2) updates_mem [of es1] updates_mem [OF updates_reports [OF updated(10)]] by auto
  then show thesis using updated that by blast
qed (auto dest: updates_mem simp: updates_mem [OF updates_reports])

text \<open>
  C5: every run of the component reconciler is a run of the abstract machine: what its body
  returns, its calls and its result are those of one of the ways a run may end there. What
  hooks are documented to leave alone, they leave alone.
\<close>

theorem Reconcile_refines:
  assumes "hooks_respect keeps_metadata r" and "finalizers_documented P" and "setupComplete r"
  shows "run_end r req (bodyResult P r req s) (calls_of (Reconcile P r req) s) (fst (Reconcile P r req s))"
  using assms by (rule Reconcile_refined)

lemma written_state:
  assumes "phase_end r now (typed r c) es c' (outcome_of out)" "handles (observed c') out" "settled r now c c' out = (d, n, err)"
  shows "DeletionTimestamp d = None \<Longrightarrow> CompState (CompStatus d) \<in> live_states"
    and "ObservedGeneration (CompStatus d) = Generation d"
proof -
  note keeps = settledAs_keeps [OF assms(3)]
  show "ObservedGeneration (CompStatus d) = Generation d" using keeps by simp
  show "CompState (CompStatus d) \<in> live_states" if "DeletionTimestamp d = None"
  proof (cases out)
    case (Inl e)
    then show ?thesis using settledAs_err(1) assms(3) that keeps(1) by (fastforce simp: live_states_def)
  next
    case (Inr x)
    obtain m skip where x: "x = (m, skip)" by force
    show ?thesis
      using settledAs_ok(3) [OF assms(3) [unfolded Inr x]] assms(2) that keeps(1) by (auto simp: Inr x handles_def live_states_def)
  qed
qed

text \<open>
  C15: the status is written last, for the generation that was read; and as long as the
  component is not in deletion, with one of the states Ready, Processing, Pending and Error.
\<close>

theorem Reconcile_writes_status:
  assumes "hooks_respect keeps_metadata r" and "finalizers_documented P" and "setupComplete r"
    and "CStatusUpdate d updateErr \<in> set (calls_of (Reconcile P r req) s)"
  shows "last (calls_of (Reconcile P r req) s) = CStatusUpdate d updateErr \<and>
    ObservedGeneration (CompStatus d) = Generation d \<and>
    (DeletionTimestamp d = None \<longrightarrow> CompState (CompStatus d) \<in> live_states)"
  using Reconcile_refined [OF assms(1-3)] assms(4)
proof (cases rule: run_updates)
  case (1 c now es1 es2 c' out d0 n err n')
  then show ?thesis using written_state [OF 1(2,3,6)] by simp
qed

lemma live_in_deletion: "phase_end r now c es c' (Ok x) \<Longrightarrow> CompState (CompStatus c') = StateReady \<Longrightarrow>
    CApply (Ok True) \<in> set es \<and> AppliedGeneration (CompStatus c') = Generation c \<and> Generation c' = Generation c \<or>
    touches_nothing es \<and> finalizerOf r \<notin> set (Finalizers c) \<and> CPatchFinalizers (Finalizers c @ [finalizerOf r]) None \<in> set es \<and>
      patched r c c' \<or> CDelete (Ok True) \<in> set es \<and> snd x"
  by (auto elim!: phase_okE simp: keeps_metadata_def)

text \<open>
  What the API server documents of patches and resource versions, for a component that was
  read: a patch with the resource version of the component succeeds only as long as the
  component has not changed since; and one that sets finalizers leaves the status (it has
  to go through the status subresource), the generation and the time of deletion alone.
\<close>

definition patch_documented :: "'w ComponentReconciler \<Rightarrow> Component \<Rightarrow> bool" where
  "patch_documented r c \<longleftrightarrow> (\<forall>component finalizers owner w c'. requestOf component = requestOf c \<longrightarrow>
     fst (PatchComponent (CrClient r) component (ResourceVersion c) finalizers owner w) = (None, c') \<longrightarrow>
     CompStatus c' = CompStatus c \<and> Generation c' = Generation c \<and> DeletionTimestamp c' = DeletionTimestamp c)"

lemma patch_documentedD:
  assumes "patch_documented r c" and "patched r c c'"
  shows "CompStatus c' = CompStatus c" "Generation c' = Generation c" "DeletionTimestamp c' = DeletionTimestamp c"
  using assms by (auto simp: patch_documented_def patched_def)

text \<open>
  C7: the state Ready is only written by a run whose Apply returned true, and then the applied
  generation written is the generation that was read; with one exception: a run that found
  the finalizer missing, and did nothing but add it and send no request to the target, writes
  the state Ready and the applied generation that were in the status already.
\<close>

theorem Reconcile_ready_applied:
  assumes "hooks_respect keeps_metadata r" and "finalizers_documented P" and "setupComplete r"
    and "component_read (calls_of (Reconcile P r req) s) = Some c" and "patch_documented r c"
    and "CStatusUpdate d updateErr \<in> set (calls_of (Reconcile P r req) s)" and "CompState (CompStatus d) = StateReady"
  shows "CApply (Ok True) \<in> set (calls_of (Reconcile P r req) s) \<and>
      AppliedGeneration (CompStatus d) = Generation c \<and> Generation d = Generation c \<or>
    finalizerOf r \<notin> set (Finalizers c) \<and> CPatchFinalizers (Finalizers c @ [finalizerOf r]) None \<in> set (calls_of (Reconcile P r req) s) \<and>
      \<not> applies (calls_of (Reconcile P r req) s) \<and> target_calls (calls_of (Reconcile P r req) s) = [] \<and>
      CompState (CompStatus c) = StateReady \<and> AppliedGeneration (CompStatus d) = AppliedGeneration (CompStatus c)"
  using Reconcile_refined [OF assms(1-3)] assms(6)
proof (cases rule: run_updates)
  case (1 c0 now es1 es2 c' out d0 n err n')
  have c0: "c0 = c" using assms(4) unfolding 1(1) by simp
  show ?thesis
  proof (cases out)
    case (Inl e)
    then show ?thesis
      using settledAs_err(1) [OF 1(6) [unfolded Inl]] assms(7) 1(7) by (auto split: if_splits)
  next
    case (Inr x)
    obtain m where x: "x = (m, False)" using 1(4) Inr by (cases x) (auto simp: skips_def)
    have ready: "CompState (CompStatus c') = StateReady"
      using settledAs_ok(3) [OF 1(6) [unfolded Inr x]] assms(7) 1(7) by (auto split: if_splits)
    have gen: "AppliedGeneration (CompStatus d) = AppliedGeneration (CompStatus c')" "Generation d = Generation c'"
      using settledAs_keeps [OF 1(6)] 1(7) by simp_all
    have "phase_end r now (typed r c) es1 c' (Ok (m, False))" using 1(2) by (simp add: Inr x c0)
    from live_in_deletion [OF this ready] show ?thesis
      using gen ready patch_documentedD(1) [OF assms(5), of c'] unfolding 1(1) c0 by (auto simp: touches_nothing_def 1(9))
  qed
qed

section \<open>The result\<close>


lemma sdiv_100: "0 \<le> x \<Longrightarrow> (x::int) sdiv 100 = x div 100"
  by (cases "x = 0") (simp_all add: signed_divide_int_def)

lemma div_100: "0 \<le> (x::int) \<Longrightarrow> 0 \<le> x div 100 \<and> x div 100 \<le> x"
  by presburger

lemma wrap64_small: "0 \<le> x \<Longrightarrow> x < 2 ^ 63 \<Longrightarrow> wrap64 x = x"
  by (simp add: wrap64_def)

text \<open>What math/rand documents.\<close>

definition random_documented :: "'w component_client \<Rightarrow> bool" where
  "random_documented c \<longleftrightarrow> (\<forall>n w. 0 < n \<longrightarrow> 0 \<le> fst (Int63n c n w) \<and> fst (Int63n c n w) < n)"

lemma jitter_range:
  assumes "0 \<le> d" "0 \<le> mn" "mn \<le> k" "k \<le> mx" "mx * d + d < 2 ^ 63"
  shows "d + mn * d div 100 \<le> wrap64 (d + wrap64 (k * d) sdiv 100) \<and> wrap64 (d + wrap64 (k * d) sdiv 100) \<le> d + mx * d div 100"
proof -
  have low: "mn * d \<le> k * d" and high: "k * d \<le> mx * d" and pos: "0 \<le> k * d"
    using assms by (simp_all add: mult_right_mono)
  have w: "wrap64 (k * d) = k * d" using assms high pos by (intro wrap64_small) auto
  have q: "0 \<le> k * d div 100" "k * d div 100 \<le> k * d" using div_100 [OF pos] by simp_all
  have "wrap64 (d + k * d div 100) = d + k * d div 100" using assms high q by (intro wrap64_small) linarith+
  then show ?thesis
    using w sdiv_100 [OF pos] zdiv_mono1 [OF low, of 100] zdiv_mono1 [OF high, of 100] by simp
qed

text \<open>
  C25: \<open>addJitter\<close> lengthens the delay by the given percentages of it, for delays for which
  nothing overflows in 64 bits.
\<close>

theorem addJitter_bounds:
  assumes "random_documented (CrClient r)" and "0 \<le> d" and "0 \<le> minPercent" and "minPercent \<le> maxPercent"
    and "maxPercent * d + d < 2 ^ 63"
  shows "\<exists>d' t. addJitter r d minPercent maxPercent s = (Ok d', t) \<and>
    d + minPercent * d div 100 \<le> d' \<and> d' \<le> d + maxPercent * d div 100"
proof -
  obtain k w where k: "Int63n (CrClient r) (maxPercent - minPercent + 1) (cworld s) = (k, w)" by force
  have "0 \<le> k \<and> k < maxPercent - minPercent + 1"
    using assms(1,4) k unfolding random_documented_def by (metis fst_conv zle_iff_zadd add_strict_increasing2 diff_ge_0_iff_ge zero_less_one add.commute)
  then have "d + minPercent * d div 100 \<le> wrap64 (d + wrap64 ((k + minPercent) * d) sdiv 100) \<and>
      wrap64 (d + wrap64 ((k + minPercent) * d) sdiv 100) \<le> d + maxPercent * d div 100"
    using assms by (intro jitter_range) auto
  moreover have "addJitter r d minPercent maxPercent s = (Ok (wrap64 (d + wrap64 ((k + minPercent) * d) sdiv 100)), s\<lparr>cworld := w\<rparr>)"
    using assms(4) k by (simp add: addJitter_def bind_def ccall_def ret_def)
  ultimately show ?thesis by blast
qed

section \<open>The next run\<close>

lemma transition_sel [simp]:
  "CondType (transition saved now c) = CondType c" "CondStatus (transition saved now c) = CondStatus c"
  "CondReason (transition saved now c) = CondReason c" "CondMessage (transition saved now c) = CondMessage c"
  by (simp_all add: transition_def split: option.splits)

lemma GetState_stamped [simp]: "GetState (CompStatus (stamped now saved c)) = GetState (CompStatus c)"
proof -
  let ?cs = "Conditions (CompStatus c)" let ?ds = "map (transition saved now) ?cs"
  have find: "findCondition ?ds ConditionTypeReady = findCondition ?cs ConditionTypeReady"
    by (rule findCondition_types) simp
  show ?thesis
    by (cases "findCondition ?cs ConditionTypeReady")
      (auto simp: GetState_def getCondition_def stamped_def find dest: findCondition_Some)
qed

lemma backoffDelay_range:
  assumes "limiters_documented (CrLimiters r)" "backoffDelay r d"
  shows "0 < d \<and> d \<le> 10 * Second"
proof -
  obtain n where d: "d = defaultDelay (CrLimiters r) (10 * Second) n" using assms(2) by (auto simp: backoffDelay_def)
  have "50 * Millisecond * 2 ^ n \<le> 50 * Millisecond * 2 ^ 4" if "n < 5"
    using that by (intro mult_left_mono power_increasing) (simp_all add: Millisecond_def)
  then show ?thesis
    unfolding d using defaultDelay_values [OF assms(1), of "10 * Second" n]
    by (auto simp: Millisecond_def Second_def split: if_splits)
qed

lemma jittered_range:
  assumes "random_documented (CrClient r)" "jittered r n n'" "0 < n" "n \<le> 2 ^ 60"
  shows "n + n div 100 \<le> n' \<and> n' \<le> n + 5 * n div 100"
proof -
  obtain w where n': "n' = wrap64 (n + wrap64 ((fst (Int63n (CrClient r) 5 w) + 1) * n) sdiv 100)"
    using assms(2,3) by (auto simp: jittered_def)
  have k: "1 \<le> fst (Int63n (CrClient r) 5 w) + 1" "fst (Int63n (CrClient r) 5 w) + 1 \<le> 5"
    using assms(1) [unfolded random_documented_def, rule_format, of 5 w] by simp_all
  show ?thesis
    unfolding n' using jitter_range [of n 1 _ 5, OF _ _ k] assms(3,4) by simp
qed

text \<open>
  The delays a run asks for, before jitter. Without an error, the handler may replace the one
  of the body by a millisecond; a retriable error brings a delay, or else the retry interval
  of the component is taken.
\<close>

definition delays :: "Component \<Rightarrow> (goerr, int \<times> bool) outcome \<Rightarrow> int set" where
  "delays c b = (case b of
     Ok (n, _) \<Rightarrow> {n, Millisecond}
   | Err e \<Rightarrow> (case asRetriableError e of
       Some (_, Some after) \<Rightarrow> {if after = 0 then retryIntervalOf c else after}
     | Some (_, None) \<Rightarrow> {retryIntervalOf c}
     | None \<Rightarrow> {})
   | Panic _ \<Rightarrow> {})"

lemma settledAs_delay:
  assumes "settledAs r haveTimeout (retryIntervalOf c) c' out = (d, n, None)"
  shows "n \<in> delays c (outcome_of out)"
  using assms by (auto simp: settledAs_def delays_def Let_def split: sum.splits option.splits prod.splits if_splits)

text \<open>
  C14: a component is never forgotten: a run that writes the status and succeeds asks for
  another run after a positive delay, which is the one asked for by its body or, if that
  failed, by the retriable error (by default the retry interval of the component), or a
  millisecond, plus one to five percent. This is for intervals, and delays asked for by
  errors, that are not negative and at most \<open>2 ^ 60\<close> nanoseconds (more than thirty years).
\<close>

theorem Reconcile_requeues:
  assumes "hooks_respect keeps_metadata r" and "finalizers_documented P" and "setupComplete r"
    and "limiters_documented (CrLimiters r)" and "random_documented (CrClient r)"
    and "component_read (calls_of (Reconcile P r req) s) = Some c"
    and "0 < requeueIntervalOf c \<and> requeueIntervalOf c \<le> 2 ^ 60" and "0 < retryIntervalOf c \<and> retryIntervalOf c \<le> 2 ^ 60"
    and "\<And>e inner after. bodyResult P r req s = Some (Err e) \<Longrightarrow> asRetriableError e = Some (inner, Some after) \<Longrightarrow>
      0 \<le> after \<and> after \<le> 2 ^ 60"
    and "CStatusUpdate d updateErr \<in> set (calls_of (Reconcile P r req) s)" and "fst (Reconcile P r req s) = Ok n"
  shows "0 < n \<and> (\<exists>b m. bodyResult P r req s = Some b \<and> m \<in> delays c b \<and> m + m div 100 \<le> n \<and> n \<le> m + 5 * m div 100)"
  using Reconcile_refined [OF assms(1-3)] assms(10)
proof (cases rule: run_updates)
  case (1 c0 now es1 es2 c' out d0 m err n')
  have c0: "c0 = c" using assms(6) unfolding 1(1) by simp
  have n: "err = None" "n = n'" using assms(11) unfolding 1(10) result_of_Ok by simp_all
  have m: "m \<in> delays c (outcome_of out)" using settledAs_delay 1(6) unfolding n c0 by blast
  have "0 < m \<and> m \<le> 2 ^ 60"
  proof (cases out)
    case (Inl e)
    then show ?thesis
      using m assms(8) assms(9) [of e] 1(11) by (fastforce simp: delays_def split: option.splits prod.splits if_splits)
  next
    case (Inr x)
    obtain m0 where x: "x = (m0, False)" using 1(4) Inr by (cases x) (auto simp: skips_def)
    have "phase_end r now (typed r c) es1 c' (Ok (m0, False))" using 1(2) by (simp add: Inr x c0)
    then have "0 < m0 \<and> m0 \<le> 2 ^ 60"
      using assms(7) backoffDelay_range [OF assms(4)] by (auto elim!: phase_okE simp: Millisecond_def Second_def) fastforce+
    then show ?thesis using m by (auto simp: Inr x delays_def Millisecond_def)
  qed
  then have "m + m div 100 \<le> n \<and> n \<le> m + 5 * m div 100"
    using jittered_range [OF assms(5) 1(8)] n(2) by blast
  then show ?thesis using m 1(11) \<open>0 < m \<and> m \<le> 2 ^ 60\<close> div_100 [of m] by auto
qed

section \<open>Components that are left alone\<close>

text \<open>
  C16: a component in its first run, and a suspended one that is not in deletion, is left
  alone: nothing is rendered, applied, deleted or patched, no hook is called, and the state
  Pending is written.
\<close>

theorem Reconcile_suspended:
  assumes "hooks_respect keeps_metadata r" and "finalizers_documented P" and "setupComplete r"
    and "component_read (calls_of (Reconcile P r req) s) = Some c"
    and "ObservedGeneration (CompStatus c) \<le> 0 \<or> isSuspended c"
  shows "\<exists>es d updateErr. calls_of (Reconcile P r req) s = CReconciles # CGet req (Inr c) # es @ [CStatusUpdate d updateErr] \<and>
    reports_only es \<and> CompState (CompStatus d) = StatePending"
proof -
  have alive: "isSuspended c \<Longrightarrow> DeletionTimestamp c = None" by (simp add: isSuspended_def)
  have pending: "es1 = [] \<and> DeletionTimestamp c' = DeletionTimestamp c \<and> CompState (CompStatus c') = StatePending \<and> (\<exists>n. res = Ok (n, False))"
    if "phase_end r now (typed r c) es1 c' res" for now es1 c' res
    using that assms(5) alive by (cases rule: phase_end.cases) auto
  have handled: "handles (observed c') (Inr x)" if "CompState (CompStatus c') = StatePending" for c' x
    using that by (cases x) (simp add: handles_def live_states_def)
  show ?thesis
    using Reconcile_refined [OF assms(1-3), of req s] assms(4)
  proof (cases rule: run_end.cases)
    case (panicked es now c0 c' p)
    then show ?thesis using assms(4) pending by fastforce
  next
    case (stuck es now c0 c' out)
    then have "c0 = c" using assms(4) by simp
    with stuck pending have "(\<exists>n. outcome_of out = Ok (n, False))" "CompState (CompStatus c') = StatePending" by blast+
    then show ?thesis using stuck handled by (cases out) auto
  next
    case (skipped es now c0 c' out d n err n' es')
    then have "c0 = c" using assms(4) by simp
    with skipped pending have "(\<exists>n. outcome_of out = Ok (n, False))" by blast
    then show ?thesis using skipped by (cases out) (auto simp: skips_def)
  next
    case (updated es now c0 c' out d n err n' es' updateErr)
    then have c0: "c0 = c" using assms(4) by simp
    with updated pending have end': "es = []" "(\<exists>n. outcome_of out = Ok (n, False))" "CompState (CompStatus c') = StatePending" by blast+
    then obtain m where "out = Inr (m, False)" by (cases out) auto
    then have "CompState (CompStatus d) = StatePending"
      using settledAs_ok(3) [of r _ _ "observed c'" m False d n err] updated end'(3) by simp
    then show ?thesis
      using updated(2,10) end'(1) by (auto simp: c0 intro!: exI [of _ es'])
  qed (use assms(4) in simp_all)
qed

section \<open>States\<close>

text \<open>
  The components the API server can have: new ones, of which no generation was observed;
  changed ones, by anybody, but for the status, and a component in deletion stays in
  deletion; and those with a status written by a run.
\<close>

inductive stored :: "'w ComponentReconciler \<Rightarrow> Component \<Rightarrow> bool" for r :: "'w ComponentReconciler" where
  created: "ObservedGeneration (CompStatus c) = 0 \<Longrightarrow> stored r c"
| edited: "stored r c \<Longrightarrow> CompStatus c' = CompStatus c \<Longrightarrow> (DeletionTimestamp c' = None \<Longrightarrow> DeletionTimestamp c = None) \<Longrightarrow> stored r c'"
| written: "stored r c \<Longrightarrow> run_end r req b es res \<Longrightarrow> component_read es = Some c \<Longrightarrow> CStatusUpdate d updateErr \<in> set es \<Longrightarrow>
    CompStatus c' = CompStatus d \<Longrightarrow> (DeletionTimestamp c' = None \<Longrightarrow> DeletionTimestamp d = None) \<Longrightarrow> stored r c'"

lemma stored_live:
  assumes "stored r c"
  shows "DeletionTimestamp c = None \<Longrightarrow> 0 < ObservedGeneration (CompStatus c) \<Longrightarrow> CompState (CompStatus c) \<in> live_states"
  using assms
proof (induction rule: stored.induct)
  case (written c req b es res d updateErr c')
  from run_updates [OF written.hyps(2,4)] show ?case
    using written.prems written.hyps(5,6) written_state(1) by (metis stamped_sel(1,2))
qed simp_all

text \<open>
  C8: the status handler never panics on a state it does not expect, for a component the API
  server can have. Here \<open>out\<close> is what the body returned for this component. This holds also
  when the body added the finalizer, after which the component is what the server returned.
\<close>

theorem finishReconcile_total:
  fixes r :: "'w ComponentReconciler"
  assumes "hooks_respect keeps_metadata r" and "finalizers_documented P"
    and "stored r c" and "patch_documented r c" and "comp u = typed r c"
    and "reconcileBody P r req now (requeueIntervalOf c) saved u = (outcome_of out, t)"
  shows "\<exists>res t'. finishReconcile r req now retryInterval timeout saved out t = (res, t') \<and> (\<forall>p. res \<noteq> Panic p)"
proof -
  have run: "component_run keeps_metadata r"
    using assms(1) documented_hook.hook_relation_axioms by (rule component_runI)
  have "phase_end r now (typed r c) (since u t) (comp t) (outcome_of out)"
    using wpD [OF body_end [OF run assms(2)], of req now u saved "outcome_of out" t] assms(5,6) by simp
  then have handled: "handles (observed (comp t)) out"
  proof (cases out)
    case (Inl e)
    then show ?thesis by (simp add: handles_def)
  next
    case (Inr x)
    have "DeletionTimestamp (comp t) \<noteq> None \<or> CompState (CompStatus (comp t)) \<in> live_states"
      if "phase_end r now (typed r c) (since u t) (comp t) (Ok x)"
      using that patch_documentedD [OF assms(4)] stored_live [OF assms(3)]
      by (cases rule: phase_okE) (auto simp: live_states_def keeps_metadata_def)
    then show ?thesis using \<open>phase_end _ _ _ _ _ _\<close> by (cases x) (auto simp: Inr handles_def)
  qed
  obtain d n err where d: "settledAs r (timedOut now timeout (CompStatus (observed (comp t)))) retryInterval (observed (comp t)) out = (d, n, err)"
    by (metis surj_pair)
  have "wp (finishReconcile r req now retryInterval timeout saved out) (\<lambda>res t. \<forall>p. res \<noteq> Panic p) t"
    by (rule finish_callI [OF d]) (use handled in \<open>auto simp: result_of_def split: option.splits\<close>)
  then show ?thesis by (auto simp: wp_def split: prod.splits)
qed


end
