(* ===== verification/Component_Sample.thy ===== *)
theory Component_Sample
  imports Component_Outcomes
begin

text \<open>
  A concrete component reconciler on the API server of \<open>Sample_Cluster\<close>, and components in
  the situations the properties speak about. The witnesses are evaluated on them.
\<close>

section \<open>The reconciler\<close>

definition noConfiguration :: Configuration where
  "noConfiguration = \<lparr>PlacementConfiguration = None, ClientConfiguration = None, ImpersonationConfiguration = None,
     SuspensionConfiguration = None, RequeueConfiguration = None, RetryConfiguration = None, TimeoutConfiguration = None,
     PolicyConfiguration = None, TypeConfiguration = None, ReapplyConfiguration = None, EventAnnotationProvider = None\<rparr>"

text \<open>The component API of a server with a single component; \<open>p\<close> is what a patch returns.\<close>

definition sampleComponentClient :: "Component \<Rightarrow> Component \<Rightarrow> cluster component_client" where
  "sampleComponentClient c p = \<lparr>GetComponent = (\<lambda>req w. (Inr c, w)),
     PatchComponent = (\<lambda>x rv fs owner w. ((None, p\<lparr>Finalizers := fs\<rparr>), w)),
     UpdateComponentStatus = (\<lambda>x owner w. (None, w)), ClockNow = (\<lambda>w. (snd w, w)), Int63n = (\<lambda>n w. (0, w)),
     ErrorText = (\<lambda>_. ''failed''), StatusCode = (\<lambda>_. None), ToUpper = (\<lambda>s. s)\<rparr>"

definition sampleRefClient :: "cluster refclient" where
  "sampleRefClient = \<lparr>GetConfigMap = (\<lambda>ns n w. (Inl notFound, w)), GetSecret = (\<lambda>ns n w. (Inl notFound, w)),
     LoadGeneric = (\<lambda>_ _ w. (None, w)), DigestGeneric = (\<lambda>_ _. ''g''), CalculateDigest = (\<lambda>_. ''digest''),
     MarshalStrings = concat, GrowCap = (\<lambda>n. n + 1)\<rparr>"

definition sampleStatusLib :: status_lib where
  "sampleStatusLib = \<lparr>DecodeStatus = (\<lambda>_. Inr \<lparr>StatusObservedGeneration = None, StatusConditions = []\<rparr>),
     SetObservedGeneration = (\<lambda>_. Inr), GetConditions = (\<lambda>_. Inr []), SetConditions = (\<lambda>_. Inr), ConditionJson = append,
     Compute = (\<lambda>_. Inr CurrentStatus)\<rparr>"

definition sampleOptions :: ComponentReconcilerOptions where
  "sampleOptions = \<lparr>CoFieldOwner = None, CoFinalizer = None, CoDefaultServiceAccount = None, CoAdoptionPolicy = None,
     CoUpdatePolicy = None, CoDeletePolicy = None, CoMissingNamespacesPolicy = Some MissingNamespacesPolicyDoNotCreate,
     CoReapplyInterval = None\<rparr>"

definition sampleCR :: "Component \<Rightarrow> Component \<Rightarrow> Object list \<Rightarrow> cluster ComponentReconciler" where
  "sampleCR c p objects = (NewComponentReconciler ''test.io'' (\<lambda>_ _ _ _ _ w. (Ok objects, w)) sampleOptions
     \<lparr>CrName = '''', CrId = ''id'', CrGroupVersionKind = \<lparr>Group = ''test.io'', Kind = ''Sample'', Version = ''v1''\<rparr>,
      CrClient = sampleComponentClient c p, CrRefClient = sampleRefClient, CrEventDigest = EventMessage,
      CrGenerator = (\<lambda>_ _ _ _ _ w. (Ok [], w)), CrStatusLib = sampleStatusLib, CrOptions = sampleOptions,
      CrClients = (\<lambda>_ _ _ w. (Inr sampleClient, w)), CrLimiters = sampleLimiters,
      postReadHooks = [], preReconcileHooks = [], postReconcileHooks = [], preDeleteHooks = [], postDeleteHooks = [],
      setupComplete = False\<rparr>)\<lparr>setupComplete := True\<rparr>"

section \<open>Components\<close>

definition sampleStatus :: ComponentStatus where
  "sampleStatus = \<lparr>ObservedGeneration = 1, AppliedGeneration = 0, LastObservedAt = None, StatusLastAppliedAt = None,
     ProcessingDigest = ''digest'', ProcessingSince = None, LastProcessingDigest = [], Revision = 0, Conditions = [],
     CompState = StatePending, StatusInventory = []\<rparr>"

definition sampleComponent :: Component where
  "sampleComponent = \<lparr>Group = ''test.io'', Kind = ''Sample'', Version = ''v1'', Namespace = ''ns'', Name = ''c'',
     GoType = GoTyped, GenerateName = [], Labels = [], Annotations = [], Finalizers = [''test.io''],
     ResourceVersion = ''1'', Generation = 1, DeletionTimestamp = None, ManagedFields = [], ObjBody = JsonBody [],
     Uid = ''uid'', Spec = GPointer (GBasic (PlainNode ''x'')), CompStatus = sampleStatus,
     ComponentImpl = noConfiguration, SpecImpl = noConfiguration\<rparr>"

definition sampleStart :: "Object list \<Rightarrow> cluster cst" where
  "sampleStart objects = \<lparr>cworld = (objects, 7), ctrace = [], comp = sampleComponent, crefs = (\<lambda>_. None),
     cbackoff = (\<lambda>_. None, \<lambda>_. 0), cdigest = [], crecorder = (\<lambda>_. None, [])\<rparr>"

abbreviation sampleReconcile :: "Component \<Rightarrow> Object list \<Rightarrow> (cluster, int) ccomp" where
  "sampleReconcile c objects \<equiv> Reconcile samplePlatform (sampleCR c c objects) (''ns'', ''c'')"

definition sampleCalls :: "Component \<Rightarrow> Object list \<Rightarrow> Object list \<Rightarrow> cevent list" where
  "sampleCalls c objects existing = calls_of (sampleReconcile c objects) (sampleStart existing)"

text \<open>The component that was read, and the one written at the end.\<close>

definition readIn :: "cevent list \<Rightarrow> Component" where
  "readIn es = (case component_read es of Some c \<Rightarrow> c | None \<Rightarrow> sampleComponent)"

definition writtenIn :: "cevent list \<Rightarrow> Component" where
  "writtenIn es = (case last es of CStatusUpdate d _ \<Rightarrow> d | _ \<Rightarrow> sampleComponent)"

definition writes :: "cevent list \<Rightarrow> bool" where
  "writes es \<longleftrightarrow> es \<noteq> [] \<and> (case last es of CStatusUpdate d None \<Rightarrow> True | _ \<Rightarrow> False)"

lemma writtenI: "writes es \<Longrightarrow> CStatusUpdate (writtenIn es) None \<in> set es"
  unfolding writes_def writtenIn_def by (cases es rule: rev_cases) (auto split: cevent.splits option.splits)

definition hasRead :: "cevent list \<Rightarrow> bool" where
  "hasRead es \<longleftrightarrow> (case component_read es of Some _ \<Rightarrow> True | None \<Rightarrow> False)"

lemma hasReadI: "hasRead es \<Longrightarrow> component_read es = Some (readIn es)"
  by (auto simp: hasRead_def readIn_def split: option.splits)

fun deletesAll :: "cevent \<Rightarrow> bool" where
  "deletesAll (CDelete (Ok True)) = True"
| "deletesAll _ = False"

fun empties :: "cevent \<Rightarrow> bool" where
  "empties (CPatchFinalizers [] None) = True"
| "empties _ = False"

lemma deletesAllI: "list_ex deletesAll es \<Longrightarrow> CDelete (Ok True) \<in> set es"
  by (auto simp: list_ex_iff elim: deletesAll.elims(2))

lemma emptiesI: "list_ex empties es \<Longrightarrow> CPatchFinalizers [] None \<in> set es"
  by (auto simp: list_ex_iff elim: empties.elims(2))

section \<open>The hypotheses hold\<close>

lemma sample_finalizers: "finalizers_documented samplePlatform"
  by (simp add: finalizers_documented_def samplePlatform_def)

lemma sample_hooks: "hooks_respect H (sampleCR c p objects)"
  by (simp add: hooks_respect_def sampleCR_def NewComponentReconciler_def)

lemma sample_setup: "setupComplete (sampleCR c p objects)"
  by (simp add: sampleCR_def)

lemma sample_serves: "serves (sampleCR c p objects) x \<Longrightarrow> reads_keep x"
  using sampleClient_keeps by (simp add: serves_def sampleCR_def NewComponentReconciler_def)

lemma sample_limiters: "limiters_documented (CrLimiters (sampleCR c p objects))"
  by (simp add: limiters_documented_def sampleCR_def NewComponentReconciler_def sampleLimiters_def)

lemma sample_random: "random_documented (CrClient (sampleCR c p objects))"
  by (simp add: random_documented_def sampleCR_def NewComponentReconciler_def sampleComponentClient_def)

lemmas sample_documented = sample_hooks sample_finalizers sample_setup

section \<open>Runs\<close>

text \<open>
  A component to be deleted, of which nothing is left; one with an applied config map in its
  inventory; one that is suspended; and a new one.
\<close>

definition deletedComponent :: Component where
  "deletedComponent = sampleComponent\<lparr>DeletionTimestamp := Some 5, CompStatus := sampleStatus
     \<lparr>CompState := StateDeleting, StatusInventory := [sampleItem ''a'' 0 \<lparr>ItemPhase := PhaseDeleting\<rparr>]\<rparr>\<rparr>"

definition appliedComponent :: Component where
  "appliedComponent = sampleComponent\<lparr>CompStatus := sampleStatus\<lparr>StatusInventory := [sampleItem ''a'' 0]\<rparr>\<rparr>"

definition suspendedComponent :: Component where
  "suspendedComponent = sampleComponent\<lparr>ComponentImpl := noConfiguration\<lparr>SuspensionConfiguration := Some True\<rparr>\<rparr>"

definition newComponent :: Component where
  "newComponent = sampleComponent\<lparr>Finalizers := [], CompStatus := sampleStatus\<lparr>ObservedGeneration := 0, CompState := StateOther ''''\<rparr>\<rparr>"

section \<open>Witnesses\<close>

theorem Reconcile_finalizer_witness:
  "CDelete (Ok True) \<in> set (sampleCalls deletedComponent [] []) \<and>
   removes_after_delete ''test.io'' False (sampleCalls deletedComponent [] [])"
proof -
  have "CDelete (Ok True) \<in> set (sampleCalls deletedComponent [] [])" by (rule deletesAllI) code_simp
  moreover have "finalizerOf (sampleCR deletedComponent deletedComponent []) = ''test.io''" by code_simp
  ultimately show ?thesis
    using Reconcile_finalizer [where r = "sampleCR deletedComponent deletedComponent []" and req = "(''ns'', ''c'')" and s = "sampleStart []",
        OF sample_finalizers sample_hooks sample_setup] by (simp add: sampleCalls_def)
qed

theorem Reconcile_writes_ahead_witness:
  "list_ex is_write (target_calls (sampleCalls appliedComponent [sampleConfigMap ''a''] [])) \<and>
   writes_logged (handedOver (StatusInventory (CompStatus (readIn (sampleCalls appliedComponent [sampleConfigMap ''a''] []))))
       (sampleCalls appliedComponent [sampleConfigMap ''a''] []))
     (target_calls (sampleCalls appliedComponent [sampleConfigMap ''a''] []))"
proof -
  let ?r = "sampleCR appliedComponent appliedComponent [sampleConfigMap ''a'']"
  have "list_ex is_write (target_calls (sampleCalls appliedComponent [sampleConfigMap ''a''] []))" by code_simp
  moreover have "hasRead (sampleCalls appliedComponent [sampleConfigMap ''a''] [])" by code_simp
  note hasReadI [OF this]
  ultimately show ?thesis
    using Reconcile_writes_ahead [where r = ?r and req = "(''ns'', ''c'')" and s = "sampleStart []",
        OF samplePlatform_sorts samplePlatform_keeps sample_finalizers sample_serves sample_hooks sample_setup]
    by (simp add: sampleCalls_def)
qed

theorem Reconcile_releases_when_gone_witness:
  "length (handedOver (StatusInventory (CompStatus (readIn (sampleCalls deletedComponent [] [])))) (sampleCalls deletedComponent [] [])) = 1 \<and>
   list_all (\<lambda>item. ItemPhase item = PhaseNone \<or>
       released samplePlatform (sampleCR deletedComponent deletedComponent []) (readIn (sampleCalls deletedComponent [] []))
         (target_calls (sampleCalls deletedComponent [] [])) item)
     (handedOver (StatusInventory (CompStatus (readIn (sampleCalls deletedComponent [] [])))) (sampleCalls deletedComponent [] []))"
proof -
  let ?es = "sampleCalls deletedComponent [] []"
  have patch: "CPatchFinalizers [] None \<in> set ?es" by (rule emptiesI) code_simp
  have read: "component_read ?es = Some (readIn ?es)" by (rule hasReadI) code_simp
  have "length (handedOver (StatusInventory (CompStatus (readIn ?es))) ?es) = 1" by code_simp
  then show ?thesis
    using Reconcile_releases_when_gone [OF samplePlatform_sorts samplePlatform_keeps sample_finalizers sample_serves sample_hooks sample_setup
        read [unfolded sampleCalls_def] patch [unfolded sampleCalls_def]]
    by (simp add: sampleCalls_def)
qed

lemma sample_patch:
  "CompStatus c = CompStatus p \<Longrightarrow> Generation c = Generation p \<Longrightarrow> DeletionTimestamp c = DeletionTimestamp p \<Longrightarrow>
   patch_documented (sampleCR c' p objects) c"
  by (auto simp: patch_documented_def sampleCR_def NewComponentReconciler_def sampleComponentClient_def)

text \<open>The run that applies nothing successfully, and the run of a suspended component.\<close>

lemma ready_run:
  "let es = sampleCalls sampleComponent [] []; d = writtenIn es; c = readIn es in
   writes es \<and> hasRead es \<and> applies es \<and> Generation d = 1 \<and> CompState (CompStatus d) = StateReady \<and>
   0 < requeueIntervalOf c \<and> requeueIntervalOf c \<le> 2 ^ 60 \<and> 0 < retryIntervalOf c \<and> retryIntervalOf c \<le> 2 ^ 60 \<and>
   CompStatus c = sampleStatus \<and> Generation c = 1 \<and> DeletionTimestamp c = None \<and> finalizerOf (sampleCR c c []) \<in> set (Finalizers c)"
  by code_simp

lemma suspended_run:
  "let es = sampleCalls suspendedComponent [] [] in hasRead es \<and> isSuspended (readIn es)"
  by code_simp

lemma sample_result: "fst (sampleReconcile sampleComponent [] (sampleStart [])) = Ok 606000000000"
  by code_simp

lemmas ready_facts = ready_run [unfolded Let_def]
lemmas ready_written = writtenI [OF ready_facts [THEN conjunct1], unfolded sampleCalls_def]
lemmas ready_read = hasReadI [OF ready_facts [THEN conjunct2, THEN conjunct1], unfolded sampleCalls_def]

theorem Reconcile_refines_witness:
  "run_end (sampleCR sampleComponent sampleComponent []) (''ns'', ''c'')
     (bodyResult samplePlatform (sampleCR sampleComponent sampleComponent []) (''ns'', ''c'') (sampleStart [])) (sampleCalls sampleComponent [] [])
     (fst (sampleReconcile sampleComponent [] (sampleStart [])))"
  unfolding sampleCalls_def by (rule Reconcile_refines [OF sample_documented])

theorem Reconcile_writes_status_witness:
  "last (sampleCalls sampleComponent [] []) = CStatusUpdate (writtenIn (sampleCalls sampleComponent [] [])) None \<and>
   ObservedGeneration (CompStatus (writtenIn (sampleCalls sampleComponent [] []))) = 1"
  using Reconcile_writes_status [OF sample_documented ready_written] ready_facts by (simp add: sampleCalls_def)

lemma ready_patch: "patch_documented (sampleCR sampleComponent sampleComponent []) (readIn (sampleCalls sampleComponent [] []))"
  using ready_facts by (intro sample_patch) (simp_all add: sampleComponent_def)

theorem Reconcile_ready_applied_witness:
  "CApply (Ok True) \<in> set (sampleCalls sampleComponent [] []) \<and>
   AppliedGeneration (CompStatus (writtenIn (sampleCalls sampleComponent [] []))) = 1"
  using Reconcile_ready_applied [OF sample_documented ready_read ready_patch [unfolded sampleCalls_def] ready_written] ready_facts
  by (simp add: sampleCalls_def)




theorem Reconcile_requeues_witness:
  "fst (sampleReconcile sampleComponent [] (sampleStart [])) = Ok 606000000000 \<and>
   (\<exists>b m. bodyResult samplePlatform (sampleCR sampleComponent sampleComponent []) (''ns'', ''c'') (sampleStart []) = Some b \<and>
      m \<in> delays (readIn (sampleCalls sampleComponent [] [])) b \<and> m + m div 100 \<le> 606000000000 \<and> 606000000000 \<le> m + 5 * m div 100)"
proof -
  have "case bodyResult samplePlatform (sampleCR sampleComponent sampleComponent []) (''ns'', ''c'') (sampleStart []) of
      Some (Err e) \<Rightarrow> False | _ \<Rightarrow> True"
    by code_simp
  then have noerr: "bodyResult samplePlatform (sampleCR sampleComponent sampleComponent []) (''ns'', ''c'') (sampleStart []) \<noteq> Some (Err e)" for e
    by auto
  show ?thesis
    using Reconcile_requeues [OF sample_documented sample_limiters sample_random ready_read _ _ _ ready_written sample_result]
      ready_facts sample_result noerr by (simp add: sampleCalls_def)
qed

theorem Reconcile_suspended_witness:
  "\<exists>es d updateErr. sampleCalls suspendedComponent [] [] =
     CReconciles # CGet (''ns'', ''c'') (Inr (readIn (sampleCalls suspendedComponent [] []))) # es @ [CStatusUpdate d updateErr] \<and>
     reports_only es \<and> CompState (CompStatus d) = StatePending"
proof -
  have "hasRead (sampleCalls suspendedComponent [] [])" using suspended_run by (simp add: Let_def)
  note read = hasReadI [OF this, unfolded sampleCalls_def]
  show ?thesis
    using Reconcile_suspended [OF sample_documented read] suspended_run by (simp add: sampleCalls_def Let_def)
qed

theorem addJitter_bounds_witness:
  "\<exists>d' t. addJitter (sampleCR sampleComponent sampleComponent []) 600000000000 1 5 (sampleStart []) = (Ok d', t) \<and>
     606000000000 \<le> d' \<and> d' \<le> 630000000000"
  using addJitter_bounds [OF sample_random, of 600000000000 1 5 sampleComponent sampleComponent "[]" "sampleStart []"] by simp

text \<open>After its first run, a new component is one the API server can have.\<close>

definition observedComponent :: Component where
  "observedComponent = newComponent\<lparr>CompStatus := CompStatus (writtenIn (sampleCalls newComponent [] []))\<rparr>"

definition observedCR :: "cluster ComponentReconciler" where
  "observedCR = sampleCR newComponent observedComponent []"

definition observedStart :: "cluster cst" where
  "observedStart = (sampleStart [])\<lparr>comp := typed observedCR observedComponent\<rparr>"

definition observedBody :: "(goerr, int \<times> bool) outcome \<times> cluster cst" where
  "observedBody = reconcileBody samplePlatform observedCR (''ns'', ''c'') 7 (requeueIntervalOf observedComponent)
     (CompStatus observedComponent) observedStart"

theorem finishReconcile_total_witness:
  "\<exists>res t'. finishReconcile observedCR (''ns'', ''c'') 7 1 1 (CompStatus observedComponent) (Inr (Millisecond, False)) (snd observedBody) = (res, t') \<and>
     (\<forall>p. res \<noteq> Panic p)"
proof -
  let ?es = "calls_of (Reconcile samplePlatform observedCR (''ns'', ''c'')) (sampleStart [])"
  have run: "let es = ?es; d = writtenIn es in writes es \<and> hasRead es \<and> ObservedGeneration (CompStatus (readIn es)) = 0 \<and>
      0 < ObservedGeneration (CompStatus d) \<and> DeletionTimestamp d = None \<and>
      CompStatus observedComponent = CompStatus d \<and> fst observedBody = Ok (Millisecond, False)"
    by code_simp
  note facts = run [unfolded Let_def]
  have "stored observedCR (readIn ?es)" using facts by (intro stored.created) simp
  moreover have "run_end observedCR (''ns'', ''c'') (bodyResult samplePlatform observedCR (''ns'', ''c'') (sampleStart [])) ?es (fst (Reconcile samplePlatform observedCR (''ns'', ''c'') (sampleStart [])))"
    unfolding observedCR_def by (rule Reconcile_refined) (rule sample_documented)+
  ultimately have stored: "stored observedCR observedComponent"
    by (rule stored.written [where d = "writtenIn ?es" and updateErr = None]) (use facts in \<open>simp_all add: hasReadI writtenI\<close>)
  have "patch_documented observedCR observedComponent" unfolding observedCR_def by (rule sample_patch) simp_all
  moreover have "hooks_respect keeps_metadata observedCR" "finalizers_documented samplePlatform"
    unfolding observedCR_def by (rule sample_documented)+
  moreover have "observedBody = (outcome_of (Inr (Millisecond, False)), snd observedBody)"
    using facts by (simp add: prod_eq_iff)
  note this [unfolded observedBody_def]
  ultimately show ?thesis
    using stored unfolding observedBody_def
    by (intro finishReconcile_total [where c = observedComponent and u = observedStart]) (simp_all add: observedStart_def)
qed

section \<open>References\<close>

definition refComponent :: Component where
  "refComponent = sampleComponent\<lparr>Spec := GPointer (GBasic (ConfigMapReference 1 ''m''))\<rparr>"

definition refStart :: "cluster ref_env" where
  "refStart = \<lparr>rworld = ([], 0), refs = (\<lambda>_. None), digestData = (\<lambda>_. None)\<rparr>"

definition loadingClient :: "cluster refclient" where
  "loadingClient = sampleRefClient\<lparr>GetConfigMap := (\<lambda>ns n w. (Inr [(''k'', ''v'')], w))\<rparr>"

theorem resolveReferences_loads_witness:
  "loaded refComponent (ConfigMapReference 1 ''m'') [] (refs (snd (resolveReferences samplePlatform loadingClient refComponent refStart)))"
proof -
  let ?run = "resolveReferences samplePlatform loadingClient refComponent refStart"
  have "fst ?run = Ok ''digest''" by code_simp
  then have run: "?run = (Ok ''digest'', snd ?run)" by (simp add: prod_eq_iff)
  have spec: "Spec refComponent = GPointer (GBasic (ConfigMapReference 1 ''m''))" by (simp add: refComponent_def)
  have "Some (ConfigMapReference 1 ''m'', [], []) \<in> set (visits (GBasic (ConfigMapReference 1 ''m'')) [] [])" by (subst visits.simps) simp
  from resolveReferences_loads [OF spec run this] show ?thesis .
qed

theorem resolveReferences_error_witness:
  "\<exists>errs err. fst (resolveReferences samplePlatform sampleRefClient refComponent refStart) = Err err \<and>
     fst (run_visits (resolveNode samplePlatform sampleRefClient refComponent) (visits (GBasic (ConfigMapReference 1 ''m'')) [] [])
       refStart) = Ok errs \<and> asRetriableError err = asRetriableError_list errs \<and> asRetriableError err \<noteq> None"
proof -
  let ?run = "resolveReferences samplePlatform sampleRefClient refComponent refStart"
  have "case fst ?run of Err e \<Rightarrow> asRetriableError e \<noteq> None | _ \<Rightarrow> False" by code_simp
  then obtain err where err: "fst ?run = Err err" "asRetriableError err \<noteq> None" by (auto split: outcome.splits)
  then have run: "?run = (Err err, snd ?run)" by (simp add: prod_eq_iff)
  have spec: "Spec refComponent = GPointer (GBasic (ConfigMapReference 1 ''m''))" by (simp add: refComponent_def)
  have start: "refStart\<lparr>digestData := (\<lambda>_. None)\<rparr> = refStart" by (simp add: refStart_def)
  show ?thesis using resolveReferences_error [OF spec run] err unfolding start by blast
qed


end
