(* ===== verification/Apply_Result.thy ===== *)
theory Apply_Result
  imports Deletion_Waves
begin

text \<open>
  What a successful \<open>Apply\<close> means. The apply loop lets an object pass only if it was read as
  being in sync and ready; the deletion loop ends without pending items only if the redundant
  objects are gone; so if \<open>Apply\<close> returns true, the inventory consists of the
  objects to be applied, all of them ready (or completed).
\<close>

section \<open>One object\<close>

text \<open>
  The calls show the object of an item as in sync and ready: it was read, is not being
  deleted, carries the digest of the item, and its status is current.
\<close>

definition read_ready :: "'w Reconciler \<Rightarrow> event list \<Rightarrow> InventoryItem \<Rightarrow> bool" where
  "read_ready r es item \<longleftrightarrow> (\<exists>key obj. EGet key (Inr obj) \<in> set es \<and> object_id key = object_id item \<and>
     DeletionTimestamp obj = None \<and> getString (Annotations obj) (annotationKeyDigest r) = Digest item \<and>
     statusAnalyzer r obj = Inr CurrentStatus)"

definition ready_item :: "'w Reconciler \<Rightarrow> event list \<Rightarrow> InventoryItem \<Rightarrow> bool" where
  "ready_item r es item \<longleftrightarrow> ItemPhase item = PhaseCompleted \<or> ItemPhase item = PhaseReady \<and> read_ready r es item"

lemma ready_item_mono: "ready_item r es item \<Longrightarrow> set es \<subseteq> set es' \<Longrightarrow> ready_item r es' item"
  unfolding ready_item_def read_ready_def by blast

lemma call_Ok: "call oper ev s = (Ok x, s') \<longleftrightarrow> (\<exists>w. oper (world s) = (x, w) \<and> s' = s\<lparr>world := w, trace := trace s @ [ev x]\<rparr>)"
  by (auto simp: call_def split: prod.splits)

lemma readObject_Ok:
  assumes "readObject r key s = (Ok x, s')"
  obtains es res where "inventory s' = inventory s" "trace s' = trace s @ es" "EGet (ObjectKeyOf key) res \<in> set es"
    "x = (case res of Inr obj \<Rightarrow> Some obj | Inl _ \<Rightarrow> None)"
proof (rule readObject_run [of r key s])
  fix res w ms
  assume "readObject r key s = (case res of Inr obj \<Rightarrow> Ok (Some obj)
       | Inl err \<Rightarrow> if IsNoMatchError err \<or> IsNotFound err then Ok None else Err err,
       s\<lparr>world := w, trace := trace s @ ms @ [EGet (ObjectKeyOf key) res]\<rparr>)"
  then show thesis
    using assms by (intro that [of "ms @ [EGet (ObjectKeyOf key) res]" res]) (auto split: sum.splits if_splits)
qed

lemma reconcileObject_ready:
  assumes "reconcileObject P r h ownerId object i item s = (Ok False, s')"
  obtains es st where "trace s' = trace s @ es" "read_ready r es item"
    "inventory s' = (inventory s)[i := (inventory s ! i)\<lparr>ItemPhase := PhaseReady, ItemStatus := st\<rparr>]"
proof -
  from assms obtain ex t where "map_err (wrapItem P ''error reading object %s'' item) (readObject r item) s = (Ok ex, t)"
    and rest: "(let object = ownedObject r h ownerId (Digest item) object;
         policy = updatePolicyOf P r object;
         interval = reapplyIntervalOf P r object
     in bind (call (Now (client r)) (\<lambda>_. ENow)) (\<lambda>now.
     case ex of
       None \<Rightarrow>
         seq (map_err (wrapItem P ''error creating object %s'' item) (createObject P r object policy))
        (seq (upd_item i (\<lambda>item. item\<lparr>ItemPhase := PhaseCreating, ItemStatus := InProgressStatus, LastAppliedAt := Some now\<rparr>))
        (ret True))
     | Some existingObject \<Rightarrow>
         if needsUpdate r item existingObject interval now then
           seq (if policy = UpdatePolicyRecreate
                then map_err (wrapItem P ''error deleting (while recreating) object %s'' item)
                  (deleteObject P r object ex h)
                else map_err (wrapItem P ''error updating object %s'' item)
                  (updateObject P r object existingObject policy))
          (seq (upd_item i (\<lambda>item. item\<lparr>ItemPhase := PhaseUpdating, ItemStatus := InProgressStatus, LastAppliedAt := Some now\<rparr>))
          (ret True))
         else
           bind (map_err (wrapItem P ''error checking status of object %s'' item)
             (lift_sum (statusAnalyzer r existingObject))) (\<lambda>existingStatus.
           if DeletionTimestamp existingObject = None \<and> existingStatus = CurrentStatus then
             seq (upd_item i (\<lambda>item. item\<lparr>ItemPhase := PhaseReady, ItemStatus := existingStatus\<rparr>)) (ret False)
           else seq (upd_item i (\<lambda>item. item\<lparr>ItemStatus := existingStatus\<rparr>)) (ret True)))) t = (Ok False, s')"
    unfolding reconcileObject_def by (rule bind_Ok_cases)
  then have read: "readObject r item s = (Ok ex, t)" by (simp add: run_iffs)
  from rest obtain now w obj interval where now: "Now (client r) (world t) = (now, w)" and obj: "ex = Some obj"
    "\<not> needsUpdate r item obj interval now"
    "statusAnalyzer r obj = Inr CurrentStatus" "DeletionTimestamp obj = None"
    and s': "s' = t\<lparr>world := w, trace := trace t @ [ENow],
        inventory := (inventory t)[i := (inventory t ! i)\<lparr>ItemPhase := PhaseReady, ItemStatus := CurrentStatus\<rparr>]\<rparr>"
    unfolding Let_def
    by (auto simp: run_iffs call_Ok upd_item_def elim!: run_elims split: option.splits if_splits)
  from read obtain es res where es: "inventory t = inventory s" "trace t = trace s @ es"
    "EGet (ObjectKeyOf item) res \<in> set es" "ex = (case res of Inr obj \<Rightarrow> Some obj | Inl _ \<Rightarrow> None)"
    by (rule readObject_Ok)
  then have "EGet (ObjectKeyOf item) (Inr obj) \<in> set es" using obj(1) by (auto split: sum.splits)
  moreover have "getString (Annotations obj) (annotationKeyDigest r) = Digest item"
    using obj(2,4) by (auto simp: needsUpdate_def Let_def)
  ultimately have "read_ready r (es @ [ENow]) item"
    using obj(3,4) unfolding read_ready_def by (intro exI [of _ "ObjectKeyOf item"] exI [of _ obj]) auto
  then show ?thesis
    using es s' by (intro that [of "es @ [ENow]" CurrentStatus]) auto
qed

section \<open>The apply loop\<close>

interpretation unchanged: step_relation "(=)"
  by unfold_locales simp_all

lemma countWave_Ok:
  fixes r :: "'w Reconciler"
  assumes "countWave r wave c s = (Ok c', s')"
  shows "s' = s \<and> numUnready c' = numUnready c"
proof -
  let ?c = "c\<lparr>numRegularToBeApplied := 0, numLateToBeApplied := 0\<rparr>"
  define body :: "Object \<Rightarrow> apply_counters \<Rightarrow> ('w, (apply_counters, unit) ctl) rcomp" where "body = (\<lambda>object c. bind (gets inventory) (\<lambda>items.
       bind (the_or_panic (mustGetItem items object)) (\<lambda>i.
       if \<not> settled (ItemPhase (items ! i)) then
         (let c = (if isRegular r items object
                   then c\<lparr>numRegularToBeApplied := Suc (numRegularToBeApplied c)\<rparr> else c);
              c = (if isLate object
                   then c\<lparr>numLateToBeApplied := Suc (numLateToBeApplied c)\<rparr> else c)
          in ret (Next c :: (apply_counters, unit) ctl))
       else ret (Next c))))"
  obtain x t where loop: "for_each wave ?c body s = (Ok x, t)" and x: "s' = t" "c' = (case x of Next c \<Rightarrow> c | _ \<Rightarrow> c)"
    using assms unfolding countWave_def body_def by (auto elim!: run_elims simp: run_iffs)
  have "\<exists>c''. x = Next c'' \<and> chain (\<lambda>_ c d. numUnready d = numUnready c) wave ?c c''"
    by (rule for_each_chain [OF loop]) (auto simp: body_def Let_def run_iffs elim!: run_elims split: if_splits)
  then obtain c'' where "x = Next c''" "chain (\<lambda>_ c d. numUnready d = numUnready c) wave ?c c''" by blast
  moreover from this(2) have "numUnready c'' = numUnready ?c"
    by (rule chain_inv [where I = "\<lambda>d. numUnready d = numUnready ?c"]) auto
  moreover have "steps (=) (for_each wave ?c body)"
    unfolding body_def Let_def
    by (intro unchanged.steps_for_each unchanged.steps_bind unchanged.steps_gets step_if unchanged.steps_ret)
      (simp add: the_or_panic_def unchanged.steps_ret unchanged.steps_panic split: option.split)
  from stepsD [OF this loop] have "t = s" by simp
  ultimately show ?thesis using x by simp
qed

lemma triggerCompletions_none:
  fixes r :: "'w Reconciler"
  assumes "triggerCompletions r objects k s = (Ok 0, s')"
  shows "s' = s"
proof -
  define body :: "nat \<Rightarrow> nat \<Rightarrow> ('w, (nat, unit) ctl) rcomp" where "body = (\<lambda>j numPurged. bind (gets inventory) (\<lambda>items.
       bind (the_or_panic (mustGetItem items (objects ! j))) (\<lambda>i.
       let item = items ! i; purgeOrder = purgeOrderOf r (objects ! j) in
       if (k = length objects - 1 \<and> purgeOrder \<le> maxOrder \<or> purgeOrder \<le> applyOrderOf r (objects ! k))
          \<and> ItemPhase item \<noteq> PhaseCompleted
       then seq (upd_item i (\<lambda>item. item\<lparr>ItemPhase := PhaseScheduledForCompletion\<rparr>))
              (ret (Next (Suc numPurged) :: (nat, unit) ctl))
       else ret (Next numPurged))))"
  have "triple (\<lambda>t. 0 < (0::nat) \<or> t = s) (for_each [0..<Suc k] 0 body)
      (\<lambda>res t. \<forall>x. res = Ok x \<longrightarrow> (\<exists>n. x = Next n \<and> (0 < n \<or> t = s)))"
  proof (rule triple_for_each [where I = "\<lambda>_ (n::nat) t. 0 < n \<or> t = s" and B = "\<lambda>_ _. False"])
    have step: "(\<exists>p. res = Panic p) \<or> res = Ok (Next (Suc n)) \<or> res = Ok (Next n) \<and> u = t"
      if "body j n t = (res, u)" for j n t res u
      using that unfolding body_def Let_def
      by (cases "mustGetItem (inventory t) (objects ! j)")
        (auto simp: bind_gets seq_def bind_def upd_item_def run_simps split: if_splits)
    show "triple (\<lambda>t. 0 < n \<or> t = s) (body j n) (\<lambda>res t. case res of
        Ok (Next n) \<Rightarrow> 0 < n \<or> t = s | Ok (Break n) \<Rightarrow> False
      | Ok (Return x) \<Rightarrow> \<forall>y. Ok (Return x) = Ok y \<longrightarrow> (\<exists>n. y = Next n \<and> (0 < n \<or> t = s))
      | Err e \<Rightarrow> \<forall>y. Err e = Ok y \<longrightarrow> (\<exists>n. y = Next n \<and> (0 < n \<or> t = s))
      | Panic p \<Rightarrow> \<forall>y. Panic p = Ok y \<longrightarrow> (\<exists>n. y = Next n \<and> (0 < n \<or> t = s)))" for j n
      by (rule tripleI) (use step in force)
  qed auto
  moreover obtain x t where "for_each [0..<Suc k] 0 body s = (Ok x, t)" "s' = t" "0 = (case x of Next n \<Rightarrow> n | _ \<Rightarrow> 0)"
    using assms unfolding triggerCompletions_def body_def by (auto elim!: run_elims simp: run_iffs)
  ultimately show ?thesis by (auto dest!: tripleD)
qed

lemma getItem_loop_ids:
  "map object_id items = map object_id items' \<Longrightarrow> getItem_loop items key k a = getItem_loop items' key k a"
proof (induction items arbitrary: items' k a)
  case (Cons item items)
  then obtain item' items'' where "items' = item' # items''" "object_id item = object_id item'"
    "map object_id items = map object_id items''" by auto
  then show ?case using Cons.IH by (simp add: Matches_iff)
qed simp

lemma ids_of_cores: "map core items = map core items' \<Longrightarrow> map object_id items = map object_id items'"
  by (drule arg_cong [of _ _ "map object_id"]) (simp add: comp_def)

lemma mustGetItem_core:
  "map core items = map core items' \<Longrightarrow> mustGetItem items key = mustGetItem items' key"
  unfolding mustGetItem_def getItem_def
  using getItem_loop_ids [OF ids_of_cores, of items items' key 0 None] by simp

lemma core_update: "k < length items \<Longrightarrow> core item = core (items ! k) \<Longrightarrow> map core (items[k := item]) = map core items"
  by (simp add: map_update list_update_same_conv)

text \<open>An iteration that goes on without anything unready has found its object settled.\<close>

lemma applyStep_ready:
  assumes run: "applyStep P r h ownerId objects k c s = (Ok x, s')"
  obtains (stop) "x = Return ()"
  | (next_unready) c' where "x = Next c'" "0 < numUnready c'"
  | (next_ready) c' i es item where "x = Next c'" "numUnready c' = 0" "numUnready c = 0"
      "mustGetItem (inventory s) (objects ! k) = Some i" "trace s' = trace s @ es"
      "inventory s' = (inventory s)[i := item]" "core item = core (inventory s ! i)" "ready_item r es item"
proof -
  let ?items = "inventory s" and ?object = "objects ! k"
  let ?last = "k = length objects - 1 \<or> applyOrderOf r ?object < applyOrderOf r (objects ! Suc k)"
  from run obtain i c1 t unready u where i: "mustGetItem ?items ?object = Some i"
    and c1: "(if k = 0 \<or> applyOrderOf r (objects ! (k - 1)) < applyOrderOf r ?object
            then countWave r (takeWhile (\<lambda>o'. applyOrderOf r o' = applyOrderOf r ?object) (drop k objects)) c
            else ret c) s = (Ok c1, t)"
    and unready: "(if ItemPhase (?items ! i) \<noteq> PhaseCompleted then
              (if isDue r ?items c1 ?object then reconcileObject P r h ownerId ?object i (?items ! i) else ret True)
            else ret False) t = (Ok unready, u)"
    and rest: "(let c = (if unready then c1\<lparr>numUnready := Suc (numUnready c1)\<rparr> else c1) in
      if ?last then
        (if numUnready c = 0 then
           bind (triggerCompletions r objects k) (\<lambda>numPurged.
           ret (if 0 < numPurged then Return () else Next c))
         else ret (Return ()))
      else ret (Next c)) u = (Ok x, s')"
    unfolding applyStep_def Let_def by (auto simp: run_iffs elim!: run_elims)
  have t: "t = s" "numUnready c1 = numUnready c"
    using c1 countWave_Ok [of r _ c s c1 t] by (auto simp: run_iffs split: if_splits)
  let ?c = "if unready then c1\<lparr>numUnready := Suc (numUnready c1)\<rparr> else c1"
  consider "x = Return ()" | "x = Next ?c" "s' = u"
  proof (cases "?last \<and> numUnready ?c = 0")
    case True
    then obtain n where "triggerCompletions r objects k u = (Ok n, s')" "x = (if 0 < n then Return () else Next ?c)"
      using rest by (auto simp: run_iffs elim!: run_elims)
    then show ?thesis using that triggerCompletions_none [of r objects k u s'] by (cases "n = 0") auto
  next
    case False
    then show ?thesis using rest that by (auto simp: run_iffs Let_def split: if_splits)
  qed
  then show ?thesis
  proof cases
    case 2
    show ?thesis
    proof (cases "unready \<or> 0 < numUnready c")
      case True
      then show ?thesis using next_unready [OF 2(1)] t by auto
    next
      case False
      then have c: "numUnready ?c = 0" "numUnready c = 0" using t by auto
      have il: "i < length ?items" using mustGetItem_Some [OF i] by simp
      show ?thesis
      proof (cases "ItemPhase (?items ! i) = PhaseCompleted")
        case True
        then have "u = s" using unready t(1) by (simp add: run_iffs)
        then show ?thesis
          using next_ready [OF 2(1) c i, of "[]" "?items ! i"] 2(2) True by (simp add: ready_item_def)
      next
        case False
        then have "reconcileObject P r h ownerId ?object i (?items ! i) s = (Ok False, u)"
          using unready t(1) \<open>\<not> (unready \<or> 0 < numUnready c)\<close> by (auto simp: run_iffs split: if_splits)
        then obtain es st where es: "trace u = trace s @ es" "read_ready r es (?items ! i)"
          "inventory u = ?items[i := (?items ! i)\<lparr>ItemPhase := PhaseReady, ItemStatus := st\<rparr>]"
          by (rule reconcileObject_ready)
        then have "ready_item r es ((?items ! i)\<lparr>ItemPhase := PhaseReady, ItemStatus := st\<rparr>)"
          by (simp add: ready_item_def read_ready_def object_id_def)
        then show ?thesis
          using next_ready [OF 2(1) c i] 2(2) es by auto
      qed
    qed
  qed (rule stop)
qed

lemma upt_split: "[0..<n] = pre @ k # post \<Longrightarrow> k < n \<and> length pre = k"
proof -
  assume split: "[0..<n] = pre @ k # post"
  then have "length pre < n"
    by (metis length_append length_upt diff_zero less_add_same_cancel1 list.size(4) zero_less_Suc add_Suc_right)
  with split show ?thesis by (metis nth_append_length nth_upt add.left_neutral)
qed

lemma applyObjects_ready:
  assumes run: "applyObjects P r h ownerId objects s = (Ok True, s')"
  obtains es where "trace s' = trace s @ es" "map core (inventory s') = map core (inventory s)"
    "\<forall>object \<in> set objects. \<exists>i. mustGetItem (inventory s) object = Some i \<and> ready_item r es (inventory s' ! i)"
proof -
  let ?n = "length objects"
  let ?good = "\<lambda>k es t. trace t = trace s @ es \<and> map core (inventory t) = map core (inventory s) \<and>
    (\<forall>j < k. \<exists>i. mustGetItem (inventory s) (objects ! j) = Some i \<and> ready_item r es (inventory t ! i))"
  let ?I = "\<lambda>(pre :: nat list) c t. numUnready c = 0 \<longrightarrow> (\<exists>es. ?good (length pre) es t)"
  let ?Q = "\<lambda>res t. \<forall>c. res = Ok (Next c) \<longrightarrow> numUnready c = 0 \<longrightarrow> (\<exists>es. ?good ?n es t)"
  let ?c = "\<lparr>numRegularToBeApplied = 0, numLateToBeApplied = 0, numUnready = 0\<rparr>"
  have "triple (?I [] ?c) (for_each [0..<?n] ?c (applyStep P r h ownerId objects)) ?Q"
  proof (rule triple_for_each [where I = ?I and B = "\<lambda>_ _. False"])
    fix pre k post c
    assume "[0..<?n] = pre @ k # post"
    then have k: "k < ?n" "length pre = k" using upt_split by blast+
    show "triple (?I pre c) (applyStep P r h ownerId objects k c) (\<lambda>res t. case res of
        Ok (Next c') \<Rightarrow> ?I (pre @ [k]) c' t | Ok (Break c') \<Rightarrow> False
      | Ok (Return x) \<Rightarrow> ?Q (Ok (Return x)) t | Err e \<Rightarrow> ?Q (Err e) t | Panic p \<Rightarrow> ?Q (Panic p) t)"
    proof (rule tripleI)
      fix t res u
      assume I: "?I pre c t" and step: "applyStep P r h ownerId objects k c t = (res, u)"
      show "case res of
        Ok (Next c') \<Rightarrow> ?I (pre @ [k]) c' u | Ok (Break c') \<Rightarrow> False
      | Ok (Return x) \<Rightarrow> ?Q (Ok (Return x)) u | Err e \<Rightarrow> ?Q (Err e) u | Panic p \<Rightarrow> ?Q (Panic p) u"
      proof (cases res)
        case (Ok x)
        with step have "applyStep P r h ownerId objects k c t = (Ok x, u)" by simp
        then show ?thesis
        proof (cases rule: applyStep_ready)
          case (next_ready c' i es item)
          then obtain fs where fs: "?good k fs t" using I k(2) by auto
          have i: "mustGetItem (inventory s) (objects ! k) = Some i"
            using next_ready(4) mustGetItem_core [of "inventory t" "inventory s" "objects ! k"] fs by simp
          have il: "i < length (inventory t)" using mustGetItem_Some [OF next_ready(4)] by simp
          have "ready_item r (fs @ es) (inventory u ! j)" if "ready_item r fs (inventory t ! j)" for j
            using that next_ready(6,8) il ready_item_mono [of r es item "fs @ es"]
              ready_item_mono [of r fs "inventory t ! j" "fs @ es"] by (cases "j = i") auto
          moreover have "ready_item r (fs @ es) (inventory u ! i)"
            using next_ready(6,8) il ready_item_mono [of r es item "fs @ es"] by auto
          moreover have "map core (inventory u) = map core (inventory s)"
            using fs next_ready(6,7) il core_update by metis
          ultimately have "?good (Suc k) (fs @ es) u"
            using fs next_ready(5) i by (auto simp: less_Suc_eq)
          then show ?thesis using Ok next_ready(1) k(2) by auto
        qed (use Ok in auto)
      qed auto
    qed
  qed auto
  moreover have "?I [] ?c s" by auto
  moreover obtain x t where "for_each [0..<?n] ?c (applyStep P r h ownerId objects) s = (Ok x, t)" "s' = t"
      "(case x of Next c \<Rightarrow> numUnready c = 0 | _ \<Rightarrow> False)"
    using run unfolding applyObjects_def by (auto elim!: run_elims simp: run_iffs)
  ultimately have "\<exists>es. ?good ?n es s'" by (auto dest!: tripleD split: ctl.splits)
  then show ?thesis using that by (metis in_set_conv_nth)
qed

section \<open>Redundant objects\<close>

text \<open>The deletion of redundant objects leaves all other items alone.\<close>

definition purges :: "InventoryItem list \<Rightarrow> 'w rst \<Rightarrow> 'w rst \<Rightarrow> bool" where
  "purges cores s t \<longleftrightarrow> map core (inventory s) = cores \<longrightarrow> map core (inventory t) = cores \<and>
     (\<forall>j < length cores. if inDeletion (ItemPhase (inventory s ! j))
        then ItemPhase (inventory t ! j) = PhaseNone \<or> inDeletion (ItemPhase (inventory t ! j))
        else inventory t ! j = inventory s ! j)"

interpretation purges: step_relation "purges cores" for cores
proof
  show "purges cores s u" if "purges cores s t" "purges cores t u" for s t u :: "'w rst"
    unfolding purges_def
  proof (intro impI conjI allI)
    assume c: "map core (inventory s) = cores"
    show "map core (inventory u) = cores" using that c by (simp add: purges_def)
    fix j assume j: "j < length cores"
    then show "if inDeletion (ItemPhase (inventory s ! j))
        then ItemPhase (inventory u ! j) = PhaseNone \<or> inDeletion (ItemPhase (inventory u ! j))
        else inventory u ! j = inventory s ! j"
      using that c unfolding purges_def
      by (cases "inDeletion (ItemPhase (inventory s ! j))"; cases "inDeletion (ItemPhase (inventory t ! j))") force+
  qed
qed (simp add: purges_def)

lemma purges_step:
  assumes "k < length cores"
  shows "steps (purges cores) (deleteRedundantStep P r h k c)"
  unfolding steps_def
proof
  fix s :: "'a rst"
  obtain res s' where run: "deleteRedundantStep P r h k c s = (res, s')" by force
  show "purges cores s (snd (deleteRedundantStep P r h k c s))"
  proof (cases "map core (inventory s) = cores")
    case True
    then have k: "k < length (inventory s)" using assms by auto
    from deleteRedundantStep_settles [OF k, of c P r h] run
    consider "\<not> inDeletion (ItemPhase (inventory s ! k))" "s' = s"
      | m c' where "settles k (object_id (inventory s ! k)) (\<lambda>es item. \<not> inDeletion (ItemPhase item))
         (\<lambda>es. done_with r h orphanedOnApply es (inventory s ! k)) m"
        "bind m (\<lambda>pending. ret (endOfItem (inventory s) k c' pending)) s = (res, s')"
        "inDeletion (ItemPhase (inventory s ! k))"
      by (cases "inDeletion (ItemPhase (inventory s ! k))") auto
    then show ?thesis
    proof cases
      case 2
      have "inDeletion (ItemPhase (inventory s' ! k)) \<or> ItemPhase (inventory s' ! k) = PhaseNone"
        using settles_step(3) [OF 2(1,2) k refl] 2(3) by (auto simp: inDeletion_def)
      then show ?thesis
        using settles_step(1) [OF 2(1,2) k refl] 2(3) True unfolding run purges_def snd_conv
        by (metis (mono_tags, lifting))
    qed (use run True in \<open>auto simp: purges_def\<close>)
  qed (simp add: purges_def)
qed

lemma filter_pointwise:
  assumes "length xs = length ys"
    and "\<And>j. j < length ys \<Longrightarrow> if p (ys ! j) then \<not> q (xs ! j) else xs ! j = ys ! j"
  shows "filter q xs = filter (\<lambda>y. \<not> p y \<and> q y) ys"
  using assms
proof (induction xs ys rule: list_induct2)
  case (Cons x xs y ys)
  have "if p (ys ! j) then \<not> q (xs ! j) else xs ! j = ys ! j" if "j < length ys" for j
    using Cons.prems [of "Suc j"] that by (simp split: if_splits)
  then have "filter q xs = filter (\<lambda>y. \<not> p y \<and> q y) ys" by (rule Cons.IH)
  then show ?case using Cons.prems [of 0] by (auto split: if_splits)
qed simp

lemma deleteRedundant_done:
  assumes run: "deleteRedundant P r h s = (Ok True, s')" and sorted: "sorted (map ItemDeleteOrder (inventory s))"
  obtains es where "trace s' = trace s @ es"
    "inventory s' = filter (\<lambda>item. \<not> inDeletion (ItemPhase item) \<and> ItemPhase item \<noteq> PhaseNone) (inventory s)"
    "\<forall>item \<in> set (inventory s). inDeletion (ItemPhase item) \<longrightarrow> done_with r h orphanedOnApply es item"
proof -
  let ?n = "length (inventory s)" and ?c = "\<lparr>numManagedToBeDeleted = 0, numToBeDeleted = 0\<rparr>"
  from run obtain x t where loop: "for_each [0..<?n] ?c (deleteRedundantStep P r h) s = (Ok x, t)"
    and tr: "trace s' = trace t" "inventory s' = filter (\<lambda>item. ItemPhase item \<noteq> PhaseNone) (inventory t)"
    and x: "case x of Next c \<Rightarrow> numToBeDeleted c = 0 | _ \<Rightarrow> False"
    unfolding deleteRedundant_def dropGoneItems_def by (auto elim!: run_elims simp: run_iffs)
  obtain es where es: "map core (inventory t) = map core (inventory s)" "trace t = trace s @ es"
    and fin: "\<forall>x'. (Ok x :: (goerr, (delete_counters, unit) ctl) outcome) = Ok x' \<longrightarrow>
      (\<exists>c'. x' = Next c' \<and> (numToBeDeleted c' = 0 \<longrightarrow> (\<forall>j < ?n. \<not> inDeletion (ItemPhase (inventory t ! j)))))"
    by (rule red.purge_waves [OF sorted loop]) auto
  have len: "length (inventory t) = ?n" using es(1) by (metis length_map)
  have nd: "\<not> inDeletion (ItemPhase (inventory t ! j))" if "j < ?n" for j
    using fin x that by auto
  have "steps (purges (map core (inventory s))) (for_each [0..<?n] ?c (deleteRedundantStep P r h))"
    by (intro purges.steps_for_each purges_step) simp
  from stepsD [OF this loop] have p: "if inDeletion (ItemPhase (inventory s ! j))
        then ItemPhase (inventory t ! j) = PhaseNone else inventory t ! j = inventory s ! j" if "j < ?n" for j
    using that nd [OF that] by (auto simp: purges_def split: if_splits)
  have "filter (\<lambda>item. ItemPhase item \<noteq> PhaseNone) (inventory t) =
      filter (\<lambda>item. \<not> inDeletion (ItemPhase item) \<and> ItemPhase item \<noteq> PhaseNone) (inventory s)"
    using len p by (intro filter_pointwise) auto
  moreover have "done_with r h orphanedOnApply es (inventory s ! j)"
    if j: "j < ?n" "inDeletion (ItemPhase (inventory s ! j))" for j
    using red.purge_cleared [OF loop es(2) j(1)] p [OF j(1)] j(2) by (auto simp: inDeletion_def)
  then have "\<forall>item \<in> set (inventory s). inDeletion (ItemPhase item) \<longrightarrow> done_with r h orphanedOnApply es item"
    by (metis in_set_conv_nth)
  ultimately show ?thesis using that [of es] tr es(2) by simp
qed

section \<open>Obsolete items\<close>

text \<open>A relation that every request respects, so only changes of the inventory matter.\<close>

definition touches :: "nat \<Rightarrow> 'w rst \<Rightarrow> 'w rst \<Rightarrow> bool" where
  "touches k s t \<longleftrightarrow> map core (inventory t) = map core (inventory s) \<and>
     (\<forall>j. j \<noteq> k \<longrightarrow> inventory t ! j = inventory s ! j)"

interpretation touches: rst_relation "touches k" "\<lambda>_. True" for k
  by unfold_locales (auto simp: touches_def)

text \<open>Items without a digest that are in deletion or gone are left alone.\<close>

definition spares :: "InventoryItem list \<Rightarrow> 'w rst \<Rightarrow> 'w rst \<Rightarrow> bool" where
  "spares cores s t \<longleftrightarrow> map core (inventory s) = cores \<longrightarrow> map core (inventory t) = cores \<and>
     (\<forall>j < length cores. Digest (cores ! j) = '''' \<longrightarrow>
       inDeletion (ItemPhase (inventory s ! j)) \<or> ItemPhase (inventory s ! j) = PhaseNone \<longrightarrow>
       inventory t ! j = inventory s ! j)"

interpretation spares: rst_relation "spares cores" "\<lambda>_. True" for cores
  by unfold_locales (simp_all add: spares_def)

lemmas may_all = may_modify_def may_delete_def may_release_def

lemma touches_upd: "(\<And>item. core (f item) = core item) \<Longrightarrow> steps (touches k) (upd_item k f)"
proof -
  assume f: "\<And>item. core (f item) = core item"
  have "map core (xs[k := f (xs ! k)]) = map core xs" for xs
    using f by (cases "k < length xs") (simp_all add: map_update list_update_same_conv list_update_beyond)
  then show ?thesis by (auto simp: steps_def touches_def upd_item_def)
qed

lemma completeItem_touches:
  "(\<exists>x. completeItem P r h k n s = (Ok x, s)) \<or>
   (ItemPhase (inventory s ! k) = PhaseScheduledForCompletion \<or> ItemPhase (inventory s ! k) = PhaseCompleting) \<and>
     touches k s (snd (completeItem P r h k n s))"
proof (cases "ItemPhase (inventory s ! k) = PhaseScheduledForCompletion \<or> ItemPhase (inventory s ! k) = PhaseCompleting")
  case True
  have "steps (touches k) (deleteObject P r key x h)" for key :: InventoryItem and x
    by (rule touches.steps_deleteObject) (simp_all add: may_all)
  then have "steps (touches k) (completeItem P r h k n)"
    unfolding completeItem_def
    by (intro touches.steps_bind touches.steps_gets step_if touches.steps_map_err touches.steps_readObject touches.steps_seq
        touches_upd touches.steps_ret) simp_all
  then show ?thesis using True by (simp add: steps_def)
qed (auto simp: completeItem_def bind_def run_simps)

lemma spares_finishCompletions: "steps (spares cores) (finishCompletions P r h)"
proof -
  have "spares cores s (snd (completeItem P r h k n s))" for k n and s :: "'a rst"
  proof -
    have "j \<noteq> k" if "inDeletion (ItemPhase (inventory s ! j)) \<or> ItemPhase (inventory s ! j) = PhaseNone"
        "ItemPhase (inventory s ! k) = PhaseScheduledForCompletion \<or> ItemPhase (inventory s ! k) = PhaseCompleting" for j
      using that by (auto simp: inDeletion_def)
    then show ?thesis
      using completeItem_touches [of P r h k n s] unfolding spares_def touches_def by (metis snd_conv)
  qed
  then have "steps (spares cores) (completeItem P r h k n)" for k n by (simp add: steps_def)
  then show ?thesis
    unfolding finishCompletions_def by (intro spares.steps_bind spares.steps_gets spares.steps_for_each spares.steps_ret)
qed

lemma spares_gets:
  "(\<And>items. map core items = cores \<Longrightarrow> steps (spares cores) (f items)) \<Longrightarrow>
    steps (spares cores) (bind (gets inventory) f)"
  by (auto simp: steps_def bind_def spares_def)

lemma spares_upd:
  assumes "\<And>item. core (f item) = core item" and "k < length cores" and "Digest (cores ! k) \<noteq> ''''"
  shows "steps (spares cores) (upd_item k f)"
  using assms by (auto simp: steps_def spares_def upd_item_def core_update nth_list_update)

text \<open>The apply loop changes only the items of its objects.\<close>

lemma spares_applyObjects:
  assumes "\<forall>object \<in> set objects. \<forall>i. mustGetItem cores object = Some i \<longrightarrow> Digest (cores ! i) \<noteq> ''''"
  shows "steps (spares cores) (applyObjects P r h ownerId objects)"
proof -
  have found: "i < length cores \<and> Digest (cores ! i) \<noteq> ''''"
    if "map core items = cores" "mustGetItem items object = Some i" "object \<in> set objects" for items object i
  proof -
    have "map core cores = cores" using that(1) by auto
    then have "mustGetItem cores object = Some i"
      using mustGetItem_core [of items cores object] that(1,2) by simp
    then show ?thesis using assms that(3) mustGetItem_Some by blast
  qed
  have upd: "steps (spares cores) (upd_item i f)"
    if "map core items = cores" "mustGetItem items (objects ! j) = Some i" "j < length objects"
      "\<And>item. core (f item) = core item" for items j i f
    using found [OF that(1,2)] that(3,4) by (intro spares_upd) simp_all
  have modify: "steps (spares cores) (createObject P r o' p)" "steps (spares cores) (updateObject P r o' ex p)"
    "steps (spares cores) (deleteObject P r o' x h)" for o' ex x p
    by (auto intro!: spares.steps_createObject spares.steps_updateObject spares.steps_deleteObject simp: may_all)
  have rec: "steps (spares cores) (reconcileObject P r h ownerId object i item)"
    if "map core items = cores" "mustGetItem items (objects ! j) = Some i" "j < length objects" for object items j i item
    unfolding reconcileObject_def Let_def using modify
    by (intro spares.steps_bind spares.steps_read step_option spares.steps_seq spares.steps_map_err
        spares.steps_readObject upd [OF that] spares.steps_ret step_if spares.steps_lift_sum) simp_all
  have trig: "steps (spares cores) (triggerCompletions r objects k)" if "k < length objects" for k
    unfolding triggerCompletions_def Let_def using that
    by (intro spares_gets spares.steps_bind_the spares.steps_bind spares.steps_for_each step_if spares.steps_ret
        spares.steps_seq upd) (assumption | force)+
  have "steps (spares cores) (applyStep P r h ownerId objects k c)" if "k < length objects" for k c
    unfolding applyStep_def Let_def countWave_def using that
    by (intro spares_gets spares.steps_bind_the spares.steps_bind step_if spares.steps_gets spares.steps_for_each
        spares.steps_the_or_panic spares.steps_ret trig rec) (assumption | simp)+
  then show ?thesis
    unfolding applyObjects_def by (intro spares.steps_bind spares.steps_for_each spares.steps_ret) simp
qed

section \<open>Synchronisation\<close>

definition idle :: "InventoryItem \<Rightarrow> bool" where
  "idle item \<longleftrightarrow> inDeletion (ItemPhase item) \<or> ItemPhase item = PhaseNone"

lemma ready_not_idle: "ready_item r es item \<Longrightarrow> \<not> inDeletion (ItemPhase item) \<and> ItemPhase item \<noteq> PhaseNone"
  by (auto simp: ready_item_def inDeletion_def)

lemma sorted_cores:
  assumes "sorted (map ItemDeleteOrder items)" and "map core items' = map core items"
  shows "sorted (map ItemDeleteOrder items')"
proof -
  have "map ItemDeleteOrder xs = map ItemDeleteOrder (map core xs)" for xs by simp
  then show ?thesis using assms by metis
qed

lemma synchronize_cases:
  fixes r :: "'w Reconciler"
  assumes run: "synchronize P r h ownerId objs s = (Ok True, s')"
  obtains t u es where "trace t = trace s @ es" "map core (inventory t) = map core (inventory s)"
    "spares (map core (inventory s)) s t"
    "applyObjects P r h ownerId (sortObjectsForApply P objs (applyOrderOf r)) t = (Ok True, u)"
    "deleteRedundant P r h u = (Ok True, s')"
proof -
  let ?cores = "map core (inventory s)" and ?ok = "owned_delete r h"
  from run obtain x y t1 t u where 1: "createMissingNamespaces r objs s = (Ok x, t1)"
    and 2: "finishCompletions P r h t1 = (Ok y, t)"
    and 3: "applyObjects P r h ownerId (sortObjectsForApply P objs (applyOrderOf r)) t = (Ok True, u)"
    and 4: "deleteRedundant P r h u = (Ok True, s')"
    unfolding synchronize_def Let_def by (auto elim!: run_elims simp: run_iffs split: if_splits)
  have ok: "?ok K (ECreate obj e)" for K obj e by (simp add: owned_delete_def)
  have "tracked ?ok {} ?cores s t1"
    using 1 by (rule stepsD [OF own.t.steps_createMissingNamespaces, rotated]) (rule ok)
  moreover have "tracked ?ok {} ?cores t1 t" using 2 by (rule stepsD [OF own.steps_finishCompletions])
  ultimately have "tracked ?ok {} ?cores s t" by (rule own.t.trans)
  moreover have "spares ?cores s t1"
    using 1 by (rule stepsD [OF spares.steps_createMissingNamespaces, rotated]) simp
  moreover have "spares ?cores t1 t" using 2 by (rule stepsD [OF spares_finishCompletions])
  ultimately have "spares ?cores s t" by (blast intro: spares.trans)
  then show ?thesis
    using \<open>tracked ?ok {} ?cores s t\<close> that [of t _ u] 3 4 by (auto simp: tracked_def)
qed

lemma synchronize_true:
  fixes r :: "'w Reconciler"
  assumes run: "synchronize P r h ownerId objs s = (Ok True, s')" and P: "sorts P"
    and wf: "wf_inventory (inventory s)" and sorted: "sorted (map ItemDeleteOrder (inventory s))"
    and obsolete: "\<And>item. item \<in> set (inventory s) \<Longrightarrow> Digest item = '''' \<Longrightarrow> idle item \<and> object_id item \<notin> object_id ` set objs"
    and wanted: "\<And>item. item \<in> set (inventory s) \<Longrightarrow> Digest item \<noteq> '''' \<Longrightarrow> object_id item \<in> object_id ` set objs"
  obtains es where "trace s' = trace s @ es" "object_id ` set (inventory s') = object_id ` set objs"
    "\<forall>item \<in> set (inventory s'). ready_item r es item"
    "\<forall>item \<in> set (inventory s). Digest item = '''' \<longrightarrow> ItemPhase item \<noteq> PhaseNone \<longrightarrow> done_with r h orphanedOnApply es item"
proof -
  let ?cores = "map core (inventory s)" and ?objs = "sortObjectsForApply P objs (applyOrderOf r)"
  let ?n = "length (inventory s)"
  from run obtain t u es1 where es1: "trace t = trace s @ es1" and t: "map core (inventory t) = ?cores" "spares ?cores s t"
    and app: "applyObjects P r h ownerId ?objs t = (Ok True, u)" and red: "deleteRedundant P r h u = (Ok True, s')"
    by (rule synchronize_cases)
  obtain es2 where es2: "trace u = trace t @ es2" and u: "map core (inventory u) = ?cores"
    and ready: "\<forall>object \<in> set ?objs. \<exists>i. mustGetItem (inventory t) object = Some i \<and> ready_item r es2 (inventory u ! i)"
    using app t by (auto elim: applyObjects_ready)
  have "sorted (map ItemDeleteOrder (inventory u))" using sorted u by (rule sorted_cores)
  with red obtain es3 where es3: "trace s' = trace u @ es3"
    and inv: "inventory s' = filter (\<lambda>item. \<not> inDeletion (ItemPhase item) \<and> ItemPhase item \<noteq> PhaseNone) (inventory u)"
    and fin: "\<forall>item \<in> set (inventory u). inDeletion (ItemPhase item) \<longrightarrow> done_with r h orphanedOnApply es3 item"
    by (rule deleteRedundant_done)
  let ?es = "es1 @ es2 @ es3"
  have objs: "set ?objs = set objs" using P by (simp add: sortObjectsForApply_def set_SortBy)
  have ids: "map object_id (inventory t) = map object_id (inventory s)" "map object_id (inventory u) = map object_id (inventory s)"
    using t(1) u by (blast intro: ids_of_cores)+
  have len: "length (inventory u) = ?n" "length (inventory t) = ?n" using u t(1) by (metis length_map)+
  have idu: "object_id (inventory u ! j) = object_id (inventory s ! j)" if "j < ?n" for j
    using ids(2) that len by (metis nth_map)
  have found: "i < ?n \<and> object_id (inventory s ! i) = object_id object" if "mustGetItem (inventory t) object = Some i" for object :: Object and i
    using mustGetItem_Some [OF that] ids(1) len by (metis nth_map)
  have "steps (spares ?cores) (applyObjects P r h ownerId ?objs)"
  proof (rule spares_applyObjects, intro ballI allI impI)
    fix object i assume "object \<in> set ?objs" "mustGetItem ?cores object = Some i"
    then have "i < ?n" "object_id (inventory s ! i) \<in> object_id ` set objs"
      using mustGetItem_Some [of ?cores object i] objs by auto
    then show "Digest (?cores ! i) \<noteq> []" using obsolete [of "inventory s ! i"] by auto
  qed
  from stepsD [OF this app] t have same: "inventory u ! j = inventory s ! j" if "j < ?n" "Digest (inventory s ! j) = ''''" for j
    using that obsolete [of "inventory s ! j"] by (auto simp: spares_def idle_def)
  have good: "ready_item r es2 (inventory u ! j)" if j: "j < ?n" "Digest (inventory s ! j) \<noteq> ''''" for j
  proof -
    obtain object where "object \<in> set ?objs" "object_id object = object_id (inventory s ! j)"
      using wanted [of "inventory s ! j"] j objs by force
    then obtain i where i: "i < ?n" "object_id (inventory s ! i) = object_id (inventory s ! j)" "ready_item r es2 (inventory u ! i)"
      using ready found by metis
    then have "i = j"
      using wf j(1) unfolding wf_inventory_def by (metis length_map nth_eq_iff_index_eq nth_map)
    then show ?thesis using i(3) by simp
  qed
  have kept: "item \<in> set (inventory s') \<longleftrightarrow> (\<exists>j < ?n. Digest (inventory s ! j) \<noteq> '''' \<and> item = inventory u ! j)" for item
  proof -
    have "(\<not> inDeletion (ItemPhase (inventory u ! j)) \<and> ItemPhase (inventory u ! j) \<noteq> PhaseNone) = (Digest (inventory s ! j) \<noteq> '''')"
      if "j < ?n" for j
      using good [OF that] same [OF that] ready_not_idle obsolete [of "inventory s ! j"] that by (fastforce simp: idle_def)
    then show ?thesis unfolding inv by (auto simp: in_set_conv_nth len)
  qed
  have "object_id ` set (inventory s') = object_id ` set objs"
  proof (intro set_eqI iffI)
    fix x assume "x \<in> object_id ` set (inventory s')"
    then obtain j where "j < ?n" "Digest (inventory s ! j) \<noteq> ''''" "x = object_id (inventory s ! j)"
      using kept idu by auto
    then show "x \<in> object_id ` set objs" using wanted [of "inventory s ! j"] by simp
  next
    fix x assume "x \<in> object_id ` set objs"
    then obtain object i where "object \<in> set objs" "x = object_id object" "i < ?n" "object_id (inventory s ! i) = x"
      using ready found objs by fastforce
    moreover from this have "Digest (inventory s ! i) \<noteq> ''''" using obsolete [of "inventory s ! i"] by auto
    ultimately show "x \<in> object_id ` set (inventory s')" using kept [of "inventory u ! i"] idu by force
  qed
  moreover have "\<forall>item \<in> set (inventory s'). ready_item r ?es item"
    using kept good ready_item_mono [of r es2] by (metis Un_iff set_append subsetI)
  moreover have "\<forall>item \<in> set (inventory s). Digest item = '''' \<longrightarrow> ItemPhase item \<noteq> PhaseNone \<longrightarrow> done_with r h orphanedOnApply ?es item"
  proof (intro ballI impI)
    fix item assume "item \<in> set (inventory s)" "Digest item = ''''" "ItemPhase item \<noteq> PhaseNone"
    then have "item \<in> set (inventory u)" "inDeletion (ItemPhase item)"
      using same obsolete [of item] len by (auto simp: in_set_conv_nth idle_def)
    then show "done_with r h orphanedOnApply ?es item" using fin by (auto intro: done_with_mono)
  qed
  ultimately show ?thesis using that [of ?es] es1 es2 es3 by simp
qed

section \<open>The inventory Apply works on\<close>

lemma object_id_item_updates [simp]:
  "object_id (item\<lparr>Digest := d\<rparr>) = object_id item" "object_id (item\<lparr>ItemPhase := p\<rparr>) = object_id item"
  "object_id (item\<lparr>ItemStatus := st\<rparr>) = object_id item"
  by (simp_all add: object_id_def)

lemma calculateObjectDigest_nonempty:
  assumes "calculateObjectDigest P obj cd policy = Inr digest" and "\<And>x. Sha256 P x \<noteq> ''''"
  shows "digest \<noteq> ''''"
proof -
  have "Sha256hex P x \<noteq> ''''" for x
    using assms(2) [of x] by (cases "Sha256 P x") (auto simp: Sha256hex_def hexEncode_def)
  then show ?thesis
    using assms(1) by (auto simp: calculateObjectDigest_def digestOnce_def Let_def split: if_splits sum.splits)
qed

lemma updateItem_Digest [simp]: "Digest (updateItem P r object digest types item) = digest"
  by (simp add: updateItem_def Let_def)

lemma adds_items:
  assumes add: "adds P r h cd object (items, n) (items', n')" and wf: "wf_inventory items"
    and sha: "\<And>x. Sha256 P x \<noteq> ''''"
  shows "item \<in> set items' \<Longrightarrow> object_id item = object_id object \<and> Digest item \<noteq> '''' \<or>
      item \<in> set items \<and> object_id item \<noteq> object_id object"
    and "item \<in> set items \<Longrightarrow> object_id item \<noteq> object_id object \<Longrightarrow> item \<in> set items'"
proof -
  from add obtain digest types where calc: "calculateObjectDigest P object cd (reconcilePolicyOf P r object) = Inr digest"
    and items': "case getItem items object of
        Some (Some k) \<Rightarrow> items' = items[k := updateItem P r object digest types (items ! k)]
      | Some None \<Rightarrow> items' = items @ [updateItem P r object digest types emptyItem]
      | None \<Rightarrow> False"
    unfolding adds_def by (auto split: option.splits)
  have digest: "digest \<noteq> ''''" using calc sha by (rule calculateObjectDigest_nonempty)
  consider k where "getItem items object = Some (Some k)" "items' = items[k := updateItem P r object digest types (items ! k)]"
    | "getItem items object = Some None" "items' = items @ [updateItem P r object digest types emptyItem]"
    using items' by (auto split: option.splits)
  then have "(item \<in> set items' \<longrightarrow> object_id item = object_id object \<and> Digest item \<noteq> '''' \<or>
      item \<in> set items \<and> object_id item \<noteq> object_id object) \<and>
      (item \<in> set items \<longrightarrow> object_id item \<noteq> object_id object \<longrightarrow> item \<in> set items')"
  proof cases
    case (1 k)
    have "j = k" if "j < length items" "object_id (items ! j) = object_id object" for j
      using that wf inv_list.found_iff [of items object] 1(1) unfolding wf_inventory_def by (metis option.inject)
    moreover have "k < length items" "object_id (items ! k) = object_id object" using inv_list.found [OF 1(1)] by simp_all
    moreover from this have "item \<in> set items' \<longleftrightarrow>
        (item = updateItem P r object digest types (items ! k) \<or> (\<exists>j < length items. j \<noteq> k \<and> item = items ! j))"
      unfolding 1(2) by (auto simp: in_set_conv_nth nth_list_update)
    ultimately show ?thesis
      using digest by (metis in_set_conv_nth object_id_updateItem updateItem_Digest)
  next
    case 2
    then show ?thesis using digest inv_list.missing [of items object] by force
  qed
  then show "item \<in> set items' \<Longrightarrow> object_id item = object_id object \<and> Digest item \<noteq> '''' \<or>
      item \<in> set items \<and> object_id item \<noteq> object_id object"
    "item \<in> set items \<Longrightarrow> object_id item \<noteq> object_id object \<Longrightarrow> item \<in> set items'" by blast+
qed

lemma addsAll_items:
  assumes "addsAll P r h cd objs (items, n) (items', n')" and "wf_inventory items" and sha: "\<And>x. Sha256 P x \<noteq> ''''"
  shows "item \<in> set items' \<Longrightarrow> object_id item \<in> object_id ` set objs \<and> Digest item \<noteq> '''' \<or>
      item \<in> set items \<and> object_id item \<notin> object_id ` set objs"
    and "item \<in> set items \<Longrightarrow> object_id item \<notin> object_id ` set objs \<Longrightarrow> item \<in> set items'"
proof -
  have "(item \<in> set items' \<longrightarrow> object_id item \<in> object_id ` set objs \<and> Digest item \<noteq> '''' \<or>
      item \<in> set items \<and> object_id item \<notin> object_id ` set objs) \<and>
      (item \<in> set items \<longrightarrow> object_id item \<notin> object_id ` set objs \<longrightarrow> item \<in> set items')"
    using assms(1,2) unfolding addsAll_def
  proof (induction objs arbitrary: items n)
    case (Cons object objs)
    then obtain items1 n1 where 1: "adds P r h cd object (items, n) (items1, n1)"
        and rest: "chain (adds P r h cd) objs (items1, n1) (items', n')"
      by auto
    have "wf_inventory items1" using adds_ids [OF 1] Cons.prems(2) by (auto simp: wf_inventory_def)
    from Cons.IH [OF rest this] adds_items [OF 1 Cons.prems(2) sha, of item] show ?case
      by (simp only: list.set image_insert insert_iff) blast
  qed simp
  then show "item \<in> set items' \<Longrightarrow> object_id item \<in> object_id ` set objs \<and> Digest item \<noteq> '''' \<or>
      item \<in> set items \<and> object_id item \<notin> object_id ` set objs"
    "item \<in> set items \<Longrightarrow> object_id item \<notin> object_id ` set objs \<Longrightarrow> item \<in> set items'" by blast+
qed

text \<open>The items of the new inventory: of the objects, or obsolete.\<close>

definition obsolete_idle :: "InventoryItem list \<Rightarrow> bool" where
  "obsolete_idle items \<longleftrightarrow> list_all (\<lambda>item. Digest item = '''' \<longrightarrow> idle item) items"

lemma newInventoryOf_items:
  assumes add: "addsAll P r h cd objs (items, n) (items', n')" and wf: "wf_inventory items" and P: "sorts P"
    and sha: "\<And>x. Sha256 P x \<noteq> ''''" and ok: "obsolete_idle items"
  shows "sorted (map ItemDeleteOrder (newInventoryOf P objs items'))"
    and "wf_inventory (newInventoryOf P objs items')"
    and "item \<in> set (newInventoryOf P objs items') \<Longrightarrow>
      (if Digest item = '''' then idle item \<and> object_id item \<notin> object_id ` set objs else object_id item \<in> object_id ` set objs)"
    and "item \<in> set items \<Longrightarrow> object_id item \<notin> object_id ` set objs \<Longrightarrow>
      markObsolete objs item \<in> set (newInventoryOf P objs items') \<and> Digest (markObsolete objs item) = '''' \<and>
      (ItemPhase item \<noteq> PhaseNone \<longrightarrow> ItemPhase (markObsolete objs item) \<noteq> PhaseNone)"
proof -
  have set: "set (newInventoryOf P objs items') = markObsolete objs ` set items'"
    by (simp add: newInventoryOf_def sortObjectsForDelete_def set_SortBy [OF P])
  show "sorted (map ItemDeleteOrder (newInventoryOf P objs items'))"
    unfolding sorted_iff_nth_mono_less
  proof (intro allI impI)
    let ?xs = "map (markObsolete objs) items'"
    fix i j assume "i < j" "j < length (map ItemDeleteOrder (newInventoryOf P objs items'))"
    then have "j < length ?xs" "j < length (newInventoryOf P objs items')" "i < length (newInventoryOf P objs items')"
      by (simp_all add: newInventoryOf_def sortObjectsForDelete_def length_SortBy [OF P])
    with SortBy_sorted [OF P deleteGreater_strict_weak \<open>i < j\<close>, of ?xs P]
    show "map ItemDeleteOrder (newInventoryOf P objs items') ! i \<le> map ItemDeleteOrder (newInventoryOf P objs items') ! j"
      by (simp add: deleteGreater_def Let_def newInventoryOf_def sortObjectsForDelete_def)
  qed
  show "wf_inventory (newInventoryOf P objs items')"
    using addsAll_ids(4) [OF add wf] unfolding newInventoryOf_def wf_sortObjectsForDelete [OF P]
    by (simp add: wf_inventory_def comp_def)
  have match: "(\<exists>object \<in> set objs. Matches item object) \<longleftrightarrow> object_id item \<in> object_id ` set objs" for item :: InventoryItem
    by (auto simp: Matches_iff image_iff)
  show "if Digest item = '''' then idle item \<and> object_id item \<notin> object_id ` set objs else object_id item \<in> object_id ` set objs"
    if item: "item \<in> set (newInventoryOf P objs items')"
  proof -
    obtain x where x: "x \<in> set items'" "item = markObsolete objs x" using item set by auto
    from addsAll_items(1) [OF add wf sha x(1)] show ?thesis
      using x(2) ok match [of x] by (auto simp: markObsolete_def idle_def inDeletion_def obsolete_idle_def list_all_iff)
  qed
  show "markObsolete objs item \<in> set (newInventoryOf P objs items') \<and> Digest (markObsolete objs item) = '''' \<and>
      (ItemPhase item \<noteq> PhaseNone \<longrightarrow> ItemPhase (markObsolete objs item) \<noteq> PhaseNone)"
    if "item \<in> set items" "object_id item \<notin> object_id ` set objs"
    using addsAll_items(2) [OF add wf sha that] set match [of item] that(2) by (auto simp: markObsolete_def)
qed

section \<open>Apply\<close>

text \<open>
  C12: if \<open>Apply\<close> returns true, it did what it was called for: the inventory has exactly the
  keys of the objects that were passed (after their preparation); each of its items is
  completed, or was read in this very call as existing, not being deleted, carrying the
  item's digest, and ready; and every other item the inventory had before is finished: its
  policy orphans it, or it was read in this call as absent or owned by somebody else.
\<close>

theorem Apply_true:
  assumes "sorts P" and "\<And>x. Sha256 P x \<noteq> ''''"
    and "wf_inventory (inventory s)" and "obsolete_idle (inventory s)"
    and "Apply P r objects namespace ownerId cd s = (Ok True, s')"
  shows "\<exists>objs t. prepareObjects P r objects namespace s = (Ok objs, t) \<and>
    object_id ` set (inventory s') = object_id ` set objs \<and>
    list_all (ready_item r (new_calls (Apply P r objects namespace ownerId cd) s)) (inventory s') \<and>
    list_all (\<lambda>item. object_id item \<in> object_id ` set objs \<or> ItemPhase item = PhaseNone \<or>
      done_with r (Sha256base32 P ownerId) orphanedOnApply (new_calls (Apply P r objects namespace ownerId cd) s) item)
      (inventory s)"
  using assms(5)
proof (cases rule: Apply_cases)
  case (synced objs items t u es)
  let ?h = "Sha256base32 P ownerId"
  note new = newInventoryOf_items [OF synced(3) assms(3,1,2,4)]
  have "idle item \<and> object_id item \<notin> object_id ` set objs" if "item \<in> set (inventory u)" "Digest item = ''''" for item
    using new(3) that synced(5) by (auto split: if_splits)
  moreover have "object_id item \<in> object_id ` set objs" if "item \<in> set (inventory u)" "Digest item \<noteq> ''''" for item
    using new(3) that synced(5) by (auto split: if_splits)
  moreover have "wf_inventory (inventory u)" "sorted (map ItemDeleteOrder (inventory u))" using new(1,2) synced(5) by simp_all
  ultimately obtain fs where fs: "trace s' = trace u @ fs" "object_id ` set (inventory s') = object_id ` set objs"
    and ready: "\<forall>item \<in> set (inventory s'). ready_item r fs item"
    and fin: "\<forall>item \<in> set (inventory u). Digest item = '''' \<longrightarrow> ItemPhase item \<noteq> PhaseNone \<longrightarrow> done_with r ?h orphanedOnApply fs item"
    using synced(8) assms(1) by (elim synchronize_true) auto
  have calls: "new_calls (Apply P r objects namespace ownerId cd) s = es @ fs"
    using assms(5) fs(1) synced(6) by (simp add: new_calls_eq)
  have sub: "set fs \<subseteq> set (es @ fs)" by simp
  have "done_with r ?h orphanedOnApply (es @ fs) item"
    if "item \<in> set (inventory s)" "object_id item \<notin> object_id ` set objs" "ItemPhase item \<noteq> PhaseNone" for item
  proof -
    have "done_with r ?h orphanedOnApply fs (markObsolete objs item)"
      using new(4) that fin synced(5) by auto
    then have "done_with r ?h orphanedOnApply fs item"
      by (auto simp: done_with_def orphanedOnApply_def markObsolete_def Let_def split: if_splits)
    then show ?thesis using sub by (rule done_with_mono)
  qed
  moreover have "ready_item r (es @ fs) item" if "item \<in> set (inventory s')" for item
    using ready that ready_item_mono [OF _ sub] by blast
  ultimately show ?thesis using synced(1) fs(2) unfolding calls by (auto simp: list_all_iff)
qed auto

text \<open>The last call of a rollout: \<open>a\<close> was created and is ready, \<open>b\<close> is redundant and gone.\<close>

definition sampleDigest :: "Object \<Rightarrow> string" where
  "sampleDigest obj = (case calculateObjectDigest samplePlatform obj ''d'' ReconcilePolicyOnObjectChange of
     Inr d \<Rightarrow> d | Inl _ \<Rightarrow> [])"

definition rolloutState :: "cluster rst" where
  "rolloutState = (let d = sampleDigest (sampleConfigMap ''a'') in
     \<lparr>world = ([ownedObject sampleReconciler (Sha256base32 samplePlatform ''owner'') ''owner'' d (sampleConfigMap ''a'')], 0),
      trace = [],
      inventory = [(sampleItem ''a'' 0)\<lparr>Digest := d, ItemPhase := PhaseCreating, LastAppliedAt := Some 0\<rparr>,
                   (sampleItem ''b'' 0)\<lparr>Digest := [], ItemPhase := PhaseDeleting\<rparr>]\<rparr>)"

theorem Apply_true_witness:
  "fst (sampleApply [sampleConfigMap ''a''] rolloutState) = Ok True \<and>
   (\<exists>objs t. prepareObjects samplePlatform sampleReconciler [sampleConfigMap ''a''] ''ns'' rolloutState = (Ok objs, t) \<and>
    object_id ` set (inventory (snd (sampleApply [sampleConfigMap ''a''] rolloutState))) = object_id ` set objs)"
proof
  let ?run = "sampleApply [sampleConfigMap ''a''] rolloutState"
  show ok: "fst ?run = Ok True" by code_simp
  have run: "Apply samplePlatform sampleReconciler [sampleConfigMap ''a''] ''ns'' ''owner'' ''d'' rolloutState = (Ok True, snd ?run)"
    using ok unfolding sampleApply_def by (simp add: prod_eq_iff)
  have sha: "Sha256 samplePlatform x \<noteq> ''''" for x
    by (cases x) (simp_all add: samplePlatform_def)
  have "wf_inventory (inventory rolloutState)" "obsolete_idle (inventory rolloutState)"
    by (simp_all add: rolloutState_def Let_def wf_inventory_def sampleItem_def object_id_def obsolete_idle_def
        idle_def inDeletion_def) code_simp
  from Apply_true [OF samplePlatform_sorts sha this run]
  show "\<exists>objs t. prepareObjects samplePlatform sampleReconciler [sampleConfigMap ''a''] ''ns'' rolloutState = (Ok objs, t) \<and>
    object_id ` set (inventory (snd ?run)) = object_id ` set objs" by blast
qed

end
