(* ===== verification/Inventory_Tracking.thy ===== *)
theory Inventory_Tracking
  imports Apply_Result
begin

text \<open>
  What the inventory keeps track of, whatever the result of a call: an item without a digest
  is one whose object is to be deleted, or gone; and no item is let go, by dropping it or
  by clearing its phase, before its object is settled.
\<close>

section \<open>Obsolete items stay idle\<close>

definition stay_idle :: "'w rst \<Rightarrow> 'w rst \<Rightarrow> bool" where
  "stay_idle s t \<longleftrightarrow> obsolete_idle (inventory s) \<longrightarrow> obsolete_idle (inventory t)"

interpretation stay: rst_relation stay_idle "\<lambda>_. True"
  by unfold_locales (simp_all add: stay_idle_def)

lemma stay_upd: "(\<And>item. idle (f item)) \<Longrightarrow> steps stay_idle (upd_item k f)"
  by (auto simp: steps_def stay_idle_def upd_item_def obsolete_idle_def list_all_iff dest!: set_update_subset_insert [THEN subsetD])

lemma stay_drop: "steps stay_idle dropGoneItems"
  by (auto simp: steps_def stay_idle_def dropGoneItems_def obsolete_idle_def list_all_iff)

lemma stay_deletions:
  "steps stay_idle (awaitDeletion P r h k item ex)" "steps stay_idle (orphanOrDelete P r h k item ex b)"
proof -
  have "steps stay_idle (deleteObject P r item ex h)" by (rule stay.steps_deleteObject) (simp_all add: may_all)
  moreover have "steps stay_idle (orphanObject P r ex h)" by (rule stay.steps_orphanObject) simp
  ultimately show "steps stay_idle (orphanOrDelete P r h k item ex b)"
    unfolding orphanOrDelete_def
    by (intro step_if stay.steps_seq stay.steps_map_err stay_upd stay.steps_ret) (simp_all add: idle_def inDeletion_def)
  show "steps stay_idle (awaitDeletion P r h k item ex)"
    unfolding awaitDeletion_def
    by (intro step_option step_if stay.steps_seq stay_upd stay.steps_ret stay.steps_fail) (simp_all add: idle_def)
qed

lemma stay_deleteRedundant: "steps stay_idle (deleteRedundant P r h)"
  unfolding deleteRedundant_def deleteRedundantStep_def Let_def
  by (intro stay.steps_bind stay.steps_gets stay.steps_for_each step_if stay.steps_map_err stay.steps_readObject
      stay_deletions stay.steps_ret stay.steps_seq stay_drop)

lemma stay_DeleteAll: "steps stay_idle (DeleteAll P r ownerId)"
  unfolding DeleteAll_def deleteStep_def Let_def
  by (intro stay.steps_bind stay.steps_gets stay.steps_for_each step_if stay.steps_map_err stay.steps_readObject
      stay_deletions stay.steps_ret stay.steps_seq stay_drop)

text \<open>Within the synchronisation, this holds for the inventories of a given key list.\<close>

definition stays :: "InventoryItem list \<Rightarrow> 'w rst \<Rightarrow> 'w rst \<Rightarrow> bool" where
  "stays cores s t \<longleftrightarrow> map core (inventory s) = cores \<longrightarrow> stay_idle s t"

lemma spares_stays: "spares cores s t \<Longrightarrow> stays cores s t"
  by (auto simp: spares_def stays_def stay_idle_def obsolete_idle_def list_all_length idle_def) (metis length_map nth_map core_sel(7))+

lemma stays_bind:
  assumes m: "steps (spares cores) m" and f: "\<And>x. steps (stays cores) (f x)"
  shows "steps (stays cores) (bind m f)"
  unfolding steps_def
proof
  fix s
  obtain res t where run: "m s = (res, t)" by force
  have st: "spares cores s t" using m run by (rule stepsD)
  have "stays cores s u" if "stays cores t u" for u
    using that st spares_stays [OF st] by (auto simp: stays_def stay_idle_def spares_def)
  then show "stays cores s (snd (bind m f s))"
    using f spares_stays [OF st] by (cases res) (simp_all add: bind_def run steps_def)
qed

lemma stays_synchronize:
  assumes "sorts P" and "\<forall>object \<in> set objs. \<forall>i. mustGetItem cores object = Some i \<longrightarrow> Digest (cores ! i) \<noteq> ''''"
  shows "steps (stays cores) (synchronize P r h ownerId objs)"
proof -
  have "steps (spares cores) (createMissingNamespaces r objs)" by (rule spares.steps_createMissingNamespaces) simp
  moreover have "steps (spares cores) (applyObjects P r h ownerId (sortObjectsForApply P objs (applyOrderOf r)))"
    using assms by (intro spares_applyObjects) (simp add: sortObjectsForApply_def set_SortBy)
  moreover have "steps (stays cores) (ret x)" "steps (stays cores) (deleteRedundant P r h)" for x :: bool
    using stay_deleteRedundant by (auto simp: steps_def stays_def stay_idle_def ret_def)
  ultimately show ?thesis
    unfolding synchronize_def Let_def seq_def by (intro stays_bind spares_finishCompletions step_if)
qed

section \<open>No item is let go\<close>

definition tracked_in :: "InventoryItem list \<Rightarrow> InventoryItem \<Rightarrow> bool" where
  "tracked_in items item \<longleftrightarrow> (\<exists>item' \<in> set items. object_id item' = object_id item \<and> ItemPhase item' \<noteq> PhaseNone)"

text \<open>Up to the deletion loop, no phase is cleared.\<close>

definition phased :: "'w rst \<Rightarrow> 'w rst \<Rightarrow> bool" where
  "phased s t \<longleftrightarrow> map core (inventory t) = map core (inventory s) \<and>
     (\<forall>j < length (inventory s). ItemPhase (inventory s ! j) \<noteq> PhaseNone \<longrightarrow> ItemPhase (inventory t ! j) \<noteq> PhaseNone)"

interpretation phased: rst_relation phased "\<lambda>_. True"
proof
  fix s t u :: "'w rst"
  assume st: "phased s t" and tu: "phased t u"
  then have "length (inventory t) = length (inventory s)" unfolding phased_def by (metis length_map)
  then show "phased s u" using st tu by (simp add: phased_def)
qed (simp_all add: phased_def)

lemma phased_upd:
  "(\<And>item. core (f item) = core item \<and> (ItemPhase item \<noteq> PhaseNone \<longrightarrow> ItemPhase (f item) \<noteq> PhaseNone)) \<Longrightarrow>
   steps (phased :: 'w rst \<Rightarrow> _) (upd_item k f)"
  unfolding steps_def
proof
  fix s :: "'w rst"
  assume f: "\<And>item. core (f item) = core item \<and> (ItemPhase item \<noteq> PhaseNone \<longrightarrow> ItemPhase (f item) \<noteq> PhaseNone)"
  have "map core ((inventory s)[k := f (inventory s ! k)]) = map core (inventory s)"
    using f by (cases "k < length (inventory s)") (simp_all add: map_update list_update_same_conv list_update_beyond)
  moreover have "ItemPhase ((inventory s)[k := f (inventory s ! k)] ! j) \<noteq> PhaseNone"
    if "j < length (inventory s)" "ItemPhase (inventory s ! j) \<noteq> PhaseNone" for j
    using f that by (cases "j = k") simp_all
  ultimately show "phased s (snd (upd_item k f s))" by (simp add: upd_item_def phased_def)
qed

lemma phased_requests:
  "steps phased (createObject P r o' p)" "steps phased (updateObject P r o' ex p)" "steps phased (deleteObject P r key x h)"
  by (auto intro!: phased.steps_createObject phased.steps_updateObject phased.steps_deleteObject simp: may_all)

lemma phased_finishCompletions: "steps phased (finishCompletions P r h)"
  unfolding finishCompletions_def completeItem_def
  by (intro phased.steps_bind phased.steps_gets phased.steps_for_each step_if phased.steps_map_err phased.steps_readObject
      phased.steps_seq phased_upd phased_requests phased.steps_ret) simp_all

lemma phased_reconcileObject: "steps phased (reconcileObject P r h ownerId object i item)"
  unfolding reconcileObject_def Let_def
  by (intro phased.steps_bind phased.steps_read step_option phased.steps_seq phased.steps_map_err phased_requests
      phased.steps_readObject phased_upd phased.steps_ret step_if phased.steps_lift_sum) simp_all

lemma phased_applyObjects: "steps phased (applyObjects P r h ownerId objects)"
proof -
  have "steps phased (triggerCompletions r objects k)" for k
    unfolding triggerCompletions_def Let_def
    by (intro phased.steps_bind phased.steps_gets phased.steps_the_or_panic phased.steps_for_each step_if phased.steps_ret
        phased.steps_seq phased_upd) simp
  then show ?thesis
    unfolding applyObjects_def applyStep_def Let_def countWave_def
    by (intro phased.steps_bind phased.steps_gets phased.steps_the_or_panic phased.steps_for_each step_if phased.steps_ret
        phased_reconcileObject)
qed

text \<open>After the apply loop, the items of its objects are not in deletion.\<close>

lemma applyObjects_wanted:
  fixes r :: "'w Reconciler"
  assumes app: "applyObjects P r h ownerId objects s = (Ok True, s')" and wf: "wf_inventory (inventory s)"
    and j: "j < length (inventory s)" "object_id (inventory s ! j) \<in> object_id ` set objects"
  shows "\<not> inDeletion (ItemPhase (inventory s' ! j))"
proof -
  from app obtain es where "\<forall>object \<in> set objects. \<exists>i. mustGetItem (inventory s) object = Some i \<and> ready_item r es (inventory s' ! i)"
    by (rule applyObjects_ready)
  moreover obtain object where object: "object \<in> set objects" "object_id object = object_id (inventory s ! j)"
    using j(2) by (metis imageE)
  ultimately obtain i where i: "mustGetItem (inventory s) object = Some i" "ready_item r es (inventory s' ! i)" by blast
  then have "i < length (inventory s)" "object_id (inventory s ! i) = object_id (inventory s ! j)"
    using mustGetItem_Some [OF i(1)] object(2) by simp_all
  then have "i = j" using wf j(1) unfolding wf_inventory_def by (metis length_map nth_eq_iff_index_eq nth_map)
  then show ?thesis using i(2) ready_not_idle by blast
qed

text \<open>The deletion loop: an item is kept, or it was in deletion and is settled.\<close>

lemma deleteRedundant_tracks:
  fixes r :: "'w Reconciler"
  assumes run: "deleteRedundant P r h s = (res, s')"
  obtains es where "trace s' = trace s @ es"
    "\<forall>item \<in> set (inventory s). ItemPhase item \<noteq> PhaseNone \<longrightarrow> tracked_in (inventory s') item \<or>
       inDeletion (ItemPhase item) \<and> done_with r h orphanedOnApply es item"
proof -
  let ?n = "length (inventory s)" and ?c = "\<lparr>numManagedToBeDeleted = 0, numToBeDeleted = 0\<rparr>"
  obtain x t where loop: "for_each [0..<?n] ?c (deleteRedundantStep P r h) s = (x, t)" by force
  have s': "trace s' = trace t" "inventory s' = inventory t \<or> inventory s' = filter (\<lambda>item. ItemPhase item \<noteq> PhaseNone) (inventory t)"
    using run loop by (cases x; auto simp: deleteRedundant_def bind_def seq_def dropGoneItems_def run_simps)+
  have "steps (red.cleared r h (map core (inventory s))) (for_each [0..<?n] ?c (deleteRedundantStep P r h))"
    by (intro red.cl.steps_for_each red.cleared_step) simp
  from stepsD [OF this loop] obtain es where es: "trace t = trace s @ es" and cores: "map core (inventory t) = map core (inventory s)"
    by (auto simp: red.cleared_def)
  have len: "length (inventory t) = ?n" using cores by (metis length_map)
  have "steps (purges (map core (inventory s))) (for_each [0..<?n] ?c (deleteRedundantStep P r h))"
    by (intro purges.steps_for_each purges_step) simp
  from stepsD [OF this loop] have idle: "inventory t ! j = inventory s ! j"
    if "j < ?n" "\<not> inDeletion (ItemPhase (inventory s ! j))" for j
    using that by (auto simp: purges_def)
  have "tracked_in (inventory s') (inventory s ! j) \<or>
      inDeletion (ItemPhase (inventory s ! j)) \<and> done_with r h orphanedOnApply es (inventory s ! j)"
    if j: "j < ?n" "ItemPhase (inventory s ! j) \<noteq> PhaseNone" for j
  proof (cases "ItemPhase (inventory t ! j) = PhaseNone")
    case True
    then show ?thesis using red.purge_cleared [OF loop es j(1) True j(2)] idle [OF j(1)] j(2) by auto
  next
    case False
    have "inventory t ! j \<in> set (inventory t)" "object_id (inventory t ! j) = object_id (inventory s ! j)"
      using j(1) len ids_of_cores [OF cores] by (auto simp: list_eq_iff_nth_eq)
    then show ?thesis using s'(2) False by (auto simp: tracked_in_def)
  qed
  then have "\<forall>item \<in> set (inventory s). ItemPhase item \<noteq> PhaseNone \<longrightarrow> tracked_in (inventory s') item \<or>
      inDeletion (ItemPhase item) \<and> done_with r h orphanedOnApply es item"
    by (metis in_set_conv_nth)
  with s'(1) es show thesis by (intro that [of es]) simp_all
qed

lemma synchronize_split:
  fixes r :: "'w Reconciler"
  assumes run: "synchronize P r h ownerId objs s = (res, s')"
  obtains (early) "phased s s'"
  | (purged) t u es res' where "trace u = trace s @ es" "phased s t" "phased t u"
      "applyObjects P r h ownerId (sortObjectsForApply P objs (applyOrderOf r)) t = (Ok True, u)"
      "deleteRedundant P r h u = (res', s')"
proof -
  let ?cores = "map core (inventory s)" and ?ok = "owned_delete r h"
  have ok: "?ok K (ECreate obj e)" for K obj e by (simp add: owned_delete_def)
  obtain x t1 where 1: "createMissingNamespaces r objs s = (x, t1)" by force
  obtain y t where 2: "finishCompletions P r h t1 = (y, t)" by force
  obtain z u where 3: "applyObjects P r h ownerId (sortObjectsForApply P objs (applyOrderOf r)) t = (z, u)" by force
  have "steps phased (createMissingNamespaces r objs)" by (rule phased.steps_createMissingNamespaces) simp
  from stepsD [OF this 1] stepsD [OF phased_finishCompletions 2] stepsD [OF phased_applyObjects 3]
  have p: "phased s t1" "phased s t" "phased t u" "phased s u" by (blast intro: phased.trans)+
  have "tracked ?ok {} ?cores s t1"
    using 1 by (rule stepsD [OF own.t.steps_createMissingNamespaces, rotated]) (rule ok)
  moreover have "tracked ?ok {} ?cores t1 t" using 2 by (rule stepsD [OF own.steps_finishCompletions])
  ultimately have "tracked ?ok {} ?cores s t" by (rule own.t.trans)
  then obtain es where es: "trace t = trace s @ es" by (auto simp: tracked_def)
  show thesis
  proof (cases "x = Ok () \<and> y = Ok 0 \<and> z = Ok True")
    case True
    then have 3: "applyObjects P r h ownerId (sortObjectsForApply P objs (applyOrderOf r)) t = (Ok True, u)" using 3 by simp
    obtain fs where "trace u = trace t @ fs" using 3 by (auto elim: applyObjects_ready)
    moreover have "deleteRedundant P r h u = (res, s')"
      using run 1 2 3 True by (simp add: synchronize_def seq_def bind_def Let_def)
    ultimately show thesis using purged [OF _ p(2,3) 3] es by auto
  next
    case False
    then have "s' \<in> {t1, t, u}"
      using run 1 2 3 by (auto simp: synchronize_def seq_def bind_def Let_def ret_def split: outcome.splits if_splits)
    then show thesis using early p by blast
  qed
qed

lemma phased_tracks:
  assumes "phased s t" and "item \<in> set (inventory s)" "ItemPhase item \<noteq> PhaseNone"
  shows "tracked_in (inventory t) item"
proof -
  obtain j where j: "j < length (inventory s)" "item = inventory s ! j" using assms(2) by (auto simp: in_set_conv_nth)
  have cores: "map core (inventory t) = map core (inventory s)" using assms(1) by (simp add: phased_def)
  then have "j < length (inventory t)" "object_id (inventory t ! j) = object_id item"
    using j ids_of_cores [OF cores] by (metis length_map, metis length_map nth_map)
  then show ?thesis using assms(1,3) j by (auto simp: tracked_in_def phased_def intro!: bexI [of _ "inventory t ! j"])
qed

lemma synchronize_tracks:
  fixes r :: "'w Reconciler"
  assumes run: "synchronize P r h ownerId objs s = (res, s')" and P: "sorts P" and wf: "wf_inventory (inventory s)"
    and es: "trace s' = trace s @ es"
    and item: "item \<in> set (inventory s)" "ItemPhase item \<noteq> PhaseNone"
  shows "tracked_in (inventory s') item \<or>
    object_id item \<notin> object_id ` set objs \<and> done_with r h orphanedOnApply es item"
  using run
proof (cases rule: synchronize_split)
  case early
  then show ?thesis using phased_tracks item by blast
next
  case (purged t u es1 res')
  have "phased s u" using purged(2,3) by (rule phased.trans)
  then have cores: "map core (inventory u) = map core (inventory s)" "map core (inventory t) = map core (inventory s)"
    using purged(2) by (simp_all add: phased_def)
  obtain j where j: "j < length (inventory s)" "item = inventory s ! j" using item(1) by (auto simp: in_set_conv_nth)
  have len: "length (inventory u) = length (inventory s)" "length (inventory t) = length (inventory s)"
    using cores by (metis length_map)+
  have core: "core (inventory u ! j) = core item" "object_id (inventory t ! j) = object_id item"
    using j len cores ids_of_cores [OF cores(2)] by (metis nth_map)+
  have phase: "ItemPhase (inventory u ! j) \<noteq> PhaseNone" using \<open>phased s u\<close> item(2) j by (simp add: phased_def)
  obtain es3 where es3: "trace s' = trace u @ es3" and kept: "\<forall>item \<in> set (inventory u). ItemPhase item \<noteq> PhaseNone \<longrightarrow>
      tracked_in (inventory s') item \<or> inDeletion (ItemPhase item) \<and> done_with r h orphanedOnApply es3 item"
    by (rule deleteRedundant_tracks [OF purged(5)])
  have sub: "set es3 \<subseteq> set es" using es es3 purged(1) by auto
  have id: "object_id (inventory u ! j) = object_id item" using core(1) by (metis core_sel(11))
  have wft: "wf_inventory (inventory t)"
    using wf ids_of_cores [OF cores(2)] by (simp add: wf_inventory_def)
  have "tracked_in (inventory s') (inventory u ! j) \<or>
      inDeletion (ItemPhase (inventory u ! j)) \<and> done_with r h orphanedOnApply es3 (inventory u ! j)"
    using kept phase j(1) len by simp
  then show ?thesis
  proof
    assume "tracked_in (inventory s') (inventory u ! j)"
    then show ?thesis using id by (simp add: tracked_in_def)
  next
    assume d: "inDeletion (ItemPhase (inventory u ! j)) \<and> done_with r h orphanedOnApply es3 (inventory u ! j)"
    have objs: "set (sortObjectsForApply P objs (applyOrderOf r)) = set objs" using P by (simp add: sortObjectsForApply_def set_SortBy)
    have "object_id item \<notin> object_id ` set objs"
      using applyObjects_wanted [OF purged(4) wft, of j] d core(2) j(1) len objs by auto
    moreover have "done_with r h orphanedOnApply es3 item"
      using done_with_core [where keep = orphanedOnApply, OF orphanedOnApply_core core(1)] d by blast
    ultimately show ?thesis using done_with_mono [OF _ sub] by blast
  qed
qed

text \<open>The preparation of the inventory.\<close>

lemma adds_tracks:
  assumes "adds P r h cd object (items, n) (items', n')" and "tracked_in items item"
  shows "tracked_in items' item"
proof -
  from assms(1) obtain digest types where items': "case getItem items object of
        Some (Some k) \<Rightarrow> items' = items[k := updateItem P r object digest types (items ! k)]
      | Some None \<Rightarrow> items' = items @ [updateItem P r object digest types emptyItem]
      | None \<Rightarrow> False"
    unfolding adds_def by (auto split: option.splits)
  obtain j where j: "j < length items" "object_id (items ! j) = object_id item" "ItemPhase (items ! j) \<noteq> PhaseNone"
    using assms(2) by (auto simp: tracked_in_def in_set_conv_nth)
  have "j < length items' \<and> object_id (items' ! j) = object_id item \<and> ItemPhase (items' ! j) \<noteq> PhaseNone"
  proof (cases "getItem items object")
    case (Some x)
    show ?thesis
    proof (cases x)
      case None
      then show ?thesis using items' j Some by (simp add: nth_append)
    next
      case (Some k)
      then have "k < length items" "object_id (items ! k) = object_id object"
        using inv_list.found [of items object k] \<open>getItem items object = Some x\<close> by simp_all
      then show ?thesis
        using items' j Some \<open>getItem items object = Some x\<close> by (cases "j = k") (simp_all add: updateItem_def Let_def object_id_def)
    qed
  qed (use items' in simp)
  then show ?thesis unfolding tracked_in_def by (metis nth_mem)
qed

lemma markObsolete_kept:
  "object_id (markObsolete objs item) = object_id item"
  "ItemPhase item \<noteq> PhaseNone \<Longrightarrow> ItemPhase (markObsolete objs item) \<noteq> PhaseNone"
  by (simp_all add: markObsolete_def Let_def)

lemma newInventoryOf_tracks:
  assumes "addsAll P r h cd objs (items, n) (items', n')" and "sorts P" and "tracked_in items item"
  shows "tracked_in (newInventoryOf P objs items') item"
proof -
  have "tracked_in items' item"
    using assms(1,3) unfolding addsAll_def
  proof (induction objs arbitrary: items n)
    case (Cons object objs)
    then obtain items1 n1 where "adds P r h cd object (items, n) (items1, n1)" "chain (adds P r h cd) objs (items1, n1) (items', n')"
      by auto
    then show ?case using Cons.IH Cons.prems(2) adds_tracks by blast
  qed simp
  moreover have "set (newInventoryOf P objs items') = markObsolete objs ` set items'"
    by (simp add: newInventoryOf_def sortObjectsForDelete_def set_SortBy [OF assms(2)])
  ultimately show ?thesis
    unfolding tracked_in_def by (metis image_eqI markObsolete_kept)
qed

lemma done_with_markObsolete: "done_with r h orphanedOnApply es (markObsolete objs item) \<longleftrightarrow> done_with r h orphanedOnApply es item"
  by (auto simp: done_with_def orphanedOnApply_def markObsolete_def Let_def)

lemma Apply_tracks:
  fixes r :: "'w Reconciler"
  assumes P: "sorts P" and sha: "\<And>x. Sha256 P x \<noteq> ''''" and wf: "wf_inventory (inventory s)" and ok: "obsolete_idle (inventory s)"
    and run: "Apply P r objects namespace ownerId cd s = (res, s')"
    and item: "item \<in> set (inventory s)" "ItemPhase item \<noteq> PhaseNone"
  shows "tracked_in (inventory s') item \<or>
    done_with r (Sha256base32 P ownerId) orphanedOnApply (new_calls (Apply P r objects namespace ownerId cd) s) item"
proof -
  have own: "tracked_in (inventory s) item" using item by (auto simp: tracked_in_def)
  show ?thesis
    using run
  proof (cases rule: Apply_cases)
    case failed
    then show ?thesis using own by simp
  next
    case (added objs items n t es)
    then show ?thesis using newInventoryOf_tracks [OF added(5) P own] by simp
  next
    case (synced objs items t u es)
    let ?h = "Sha256base32 P ownerId"
    note new = newInventoryOf_items [OF synced(3) wf P sha ok]
    have wfu: "wf_inventory (inventory u)" using new(2) synced(5) by simp
    obtain fs where fs: "trace s' = trace s @ fs" "new_calls (Apply P r objects namespace ownerId cd) s = fs"
      using Apply_owned [of P r objects namespace ownerId cd s] run by (auto simp: new_calls_def)
    have "steps (own.p.purged r ?h (map core (inventory u))) (synchronize P r ?h ownerId objs)"
      by (rule own.purged_synchronize) (simp add: owned_delete_def)
    from stepsD [OF this synced(8)] obtain gs where gs: "trace s' = trace u @ gs" by (auto simp: own.p.purged_def)
    have sub: "set gs \<subseteq> set fs" using fs(1) gs synced(6) by auto
    show ?thesis
    proof (cases "object_id item \<in> object_id ` set objs")
      case True
      obtain item' where item': "item' \<in> set (inventory u)" "object_id item' = object_id item" "ItemPhase item' \<noteq> PhaseNone"
        using newInventoryOf_tracks [OF synced(3) P own] synced(5) by (auto simp: tracked_in_def)
      then have "tracked_in (inventory s') item'"
        using synchronize_tracks [OF synced(8) P wfu gs item'(1,3)] True by simp
      then show ?thesis using item'(2) by (simp add: tracked_in_def)
    next
      case False
      have "markObsolete objs item \<in> set (inventory u)" "ItemPhase (markObsolete objs item) \<noteq> PhaseNone"
        using new(4) [OF item(1) False] item(2) synced(5) by simp_all
      from synchronize_tracks [OF synced(8) P wfu gs this]
      have "tracked_in (inventory s') item \<or> done_with r ?h orphanedOnApply gs item"
        by (simp add: done_with_markObsolete tracked_in_def markObsolete_kept(1)) blast
      then show ?thesis unfolding fs(2) using done_with_mono [OF _ sub] by blast
    qed
  qed
qed

lemma DeleteAll_tracks:
  fixes r :: "'w Reconciler"
  assumes run: "DeleteAll P r ownerId s = (res, s')" and item: "item \<in> set (inventory s)" "ItemPhase item \<noteq> PhaseNone"
  shows "tracked_in (inventory s') item \<or>
    done_with r (Sha256base32 P ownerId) orphanedOnDelete (new_calls (DeleteAll P r ownerId) s) item"
proof -
  let ?h = "Sha256base32 P ownerId" and ?n = "length (inventory s)" and ?c = "\<lparr>numManagedToBeDeleted = 0, numToBeDeleted = 0\<rparr>"
  obtain x t where loop: "for_each [0..<?n] ?c (deleteStep P r ?h) s = (x, t)" by force
  have s': "trace s' = trace t" "inventory s' = inventory t \<or> inventory s' = filter (\<lambda>item. ItemPhase item \<noteq> PhaseNone) (inventory t)"
    using run loop by (cases x; auto simp: DeleteAll_def Let_def bind_def seq_def dropGoneItems_def run_simps)+
  have "steps (del.cleared r ?h (map core (inventory s))) (for_each [0..<?n] ?c (deleteStep P r ?h))"
    by (intro del.cl.steps_for_each del.cleared_step) simp
  from stepsD [OF this loop] obtain es where es: "trace t = trace s @ es" and cores: "map core (inventory t) = map core (inventory s)"
    by (auto simp: del.cleared_def)
  have calls: "new_calls (DeleteAll P r ownerId) s = es" using run es s'(1) by (simp add: new_calls_eq)
  obtain j where j: "j < ?n" "item = inventory s ! j" using item(1) by (auto simp: in_set_conv_nth)
  show ?thesis
  proof (cases "ItemPhase (inventory t ! j) = PhaseNone")
    case True
    then show ?thesis using del.purge_cleared [OF loop es j(1) True] item(2) j(2) calls by simp
  next
    case False
    have "length (inventory t) = ?n" using cores by (metis length_map)
    then have "inventory t ! j \<in> set (inventory t)" "object_id (inventory t ! j) = object_id item"
      using j ids_of_cores [OF cores] by (simp, metis nth_map)
    then show ?thesis using s'(2) False by (auto simp: tracked_in_def)
  qed
qed

lemma reconciler_obsolete_idle:
  assumes "sorts P" and sha: "\<And>x. Sha256 P x \<noteq> ''''" and wf: "wf_inventory (inventory s)" and ok: "obsolete_idle (inventory s)"
  shows "obsolete_idle (inventory (snd (Apply P r objects namespace ownerId cd s))) \<and>
    obsolete_idle (inventory (snd (DeleteAll P r ownerId s)))"
proof
  show "obsolete_idle (inventory (snd (DeleteAll P r ownerId s)))"
    using stay_DeleteAll [of P r ownerId] ok by (simp add: steps_def stay_idle_def)
  obtain res s' where run: "Apply P r objects namespace ownerId cd s = (res, s')" by force
  then show "obsolete_idle (inventory (snd (Apply P r objects namespace ownerId cd s)))"
  proof (cases rule: Apply_cases)
    case failed
    then show ?thesis using run ok by simp
  next
    case (added objs items n t es)
    then show ?thesis
      using run newInventoryOf_items(3) [OF added(5) wf assms(1) sha ok]
      by (auto simp: obsolete_idle_def list_all_iff split: if_splits)
  next
    case (synced objs items t u es)
    let ?cores = "map core (inventory u)"
    note new = newInventoryOf_items(3) [OF synced(3) wf assms(1) sha ok]
    have "Digest (?cores ! i) \<noteq> ''''" if object: "object \<in> set objs" "mustGetItem ?cores object = Some i" for object i
    proof -
      have "i < length (inventory u)" "object_id (inventory u ! i) = object_id object"
        using mustGetItem_Some [OF object(2)] by auto
      then show ?thesis
        using new [of "inventory u ! i"] synced(5) object(1) by (auto split: if_splits)
    qed
    then have "stays ?cores u s'"
      using synced(8) by (intro stepsD [OF stays_synchronize [OF assms(1)]]) blast+
    moreover have "obsolete_idle (inventory u)"
      using new synced(5) by (auto simp: obsolete_idle_def list_all_iff split: if_splits)
    ultimately show ?thesis using run by (simp add: stays_def stay_idle_def)
  qed
qed

text \<open>
  C19: \<open>Apply\<close> and \<open>Delete\<close>, whatever their result, keep track of everything in the inventory.
  No item with a phase is let go, that is, dropped or left without a phase, unless its object
  was settled in this very call: it was read as absent or as owned by somebody else, or
  its policy orphans it. And an item without a digest (one that is not to be applied any
  more) stays in one of the two phases of a deletion, or is left without a phase, and so for
  that reason only.
\<close>

theorem reconciler_keeps_track:
  assumes "sorts P" and "\<And>x. Sha256 P x \<noteq> ''''" and "wf_inventory (inventory s)" and "obsolete_idle (inventory s)"
  shows "list_all (\<lambda>item. ItemPhase item = PhaseNone \<or>
        tracked_in (inventory (snd (Apply P r objects namespace ownerId cd s))) item \<or>
        done_with r (Sha256base32 P ownerId) orphanedOnApply (new_calls (Apply P r objects namespace ownerId cd) s) item)
      (inventory s) \<and>
    list_all (\<lambda>item. ItemPhase item = PhaseNone \<or>
        tracked_in (inventory (snd (DeleteAll P r ownerId s))) item \<or>
        done_with r (Sha256base32 P ownerId) orphanedOnDelete (new_calls (DeleteAll P r ownerId) s) item)
      (inventory s) \<and>
    obsolete_idle (inventory (snd (Apply P r objects namespace ownerId cd s))) \<and>
    obsolete_idle (inventory (snd (DeleteAll P r ownerId s)))"
proof -
  have "tracked_in (inventory (snd (Apply P r objects namespace ownerId cd s))) item \<or>
      done_with r (Sha256base32 P ownerId) orphanedOnApply (new_calls (Apply P r objects namespace ownerId cd) s) item"
    if "item \<in> set (inventory s)" "ItemPhase item \<noteq> PhaseNone" for item
    using Apply_tracks [OF assms prod.collapse [symmetric] that] .
  moreover have "tracked_in (inventory (snd (DeleteAll P r ownerId s))) item \<or>
      done_with r (Sha256base32 P ownerId) orphanedOnDelete (new_calls (DeleteAll P r ownerId) s) item"
    if "item \<in> set (inventory s)" "ItemPhase item \<noteq> PhaseNone" for item
    using DeleteAll_tracks [OF prod.collapse [symmetric] that] .
  ultimately show ?thesis
    using reconciler_obsolete_idle [OF assms] by (auto simp: list_all_iff)
qed

text \<open>The first call of a rollout that makes \<open>b\<close> redundant and adds \<open>c\<close>: \<open>b\<close> is still there, to be deleted.\<close>

definition redundantState :: "cluster rst" where
  "redundantState = \<lparr>world = ([], 0), trace = [],
     inventory = [(sampleItem ''b'' 0)\<lparr>Digest := ''d'', ItemPhase := PhaseReady\<rparr>]\<rparr>"

theorem reconciler_keeps_track_witness:
  "tracked_in (inventory (snd (Apply samplePlatform sampleReconciler [sampleConfigMap ''c''] ''ns'' ''owner'' ''d'' redundantState)))
     (inventory redundantState ! 0) \<and>
   obsolete_idle (inventory (snd (Apply samplePlatform sampleReconciler [sampleConfigMap ''c''] ''ns'' ''owner'' ''d'' redundantState)))"
proof -
  let ?oper = "Apply samplePlatform sampleReconciler [sampleConfigMap ''c''] ''ns'' ''owner'' ''d''"
  have sha: "Sha256 samplePlatform x \<noteq> ''''" for x
    by (cases x) (simp_all add: samplePlatform_def)
  have "wf_inventory (inventory redundantState)" "obsolete_idle (inventory redundantState)"
    by (simp_all add: redundantState_def wf_inventory_def obsolete_idle_def)
  note track = reconciler_keeps_track [OF samplePlatform_sorts sha this, of sampleReconciler "[sampleConfigMap ''c'']" "''ns''" "''owner''" "''d''"]
  have calls: "list_all (\<lambda>e. case e of EGet key _ \<Rightarrow> object_id key \<noteq> object_id (inventory redundantState ! 0) | _ \<Rightarrow> True)
      (new_calls ?oper redundantState)" by code_simp
  have "\<not> read_gone sampleReconciler h (object_id (inventory redundantState ! 0)) (new_calls ?oper redundantState)" for h
    using calls by (auto simp: read_gone_def list_all_iff split: event.splits)
  moreover have "\<not> orphanedOnApply (inventory redundantState ! 0)" "ItemPhase (inventory redundantState ! 0) \<noteq> PhaseNone"
    "inventory redundantState ! 0 \<in> set (inventory redundantState)"
    by (simp_all add: redundantState_def orphanedOnApply_def sampleItem_def)
  ultimately show ?thesis
    using track unfolding list_all_iff done_with_def by blast
qed

end
