(* ===== verification/Helm_Sample.thy ===== *)
theory Helm_Sample
  imports Helm_Parse Sample_Cluster
begin

text \<open>
  An umbrella chart, that is a chart without templates of its own, with one dependency that
  has a template, and a simple template engine. It shows that the dependency's template is
  not rendered as part of the umbrella chart, while it is when the dependency is rendered as
  a chart of its own.
\<close>

section \<open>Files\<close>

abbreviation (input) "regular name \<equiv> \<lparr>EntryName = name, EntryType = 0, EntryIsDir = False\<rparr>"
abbreviation (input) "directory name \<equiv> \<lparr>EntryName = name, EntryType = ModeDir, EntryIsDir = True\<rparr>"

definition chartDirs :: "(string \<times> DirEntry list) list" where
  "chartDirs = [(''u'', [regular ''Chart.yaml'', directory ''charts'']), (''u/charts'', [directory ''sub'']),
     (''u/charts/sub'', [regular ''Chart.yaml'', directory ''templates'']), (''u/charts/sub/templates'', [regular ''cm.yaml''])]"

definition chartTexts :: "(string \<times> string) list" where
  "chartTexts = [(''u/Chart.yaml'', ''umbrella''), (''u/charts/sub/Chart.yaml'', ''sub''),
     (''u/charts/sub/templates/cm.yaml'', ''cm'')]"

definition chartFS :: filesystem where
  "chartFS = \<lparr>ReadDir = (\<lambda>d. case map_of chartDirs d of Some es \<Rightarrow> Inr es | None \<Rightarrow> Inl ErrNotExist),
     ReadFile = (\<lambda>f. case map_of chartTexts f of Some s \<Rightarrow> Inr s | None \<Rightarrow> Inl ErrNotExist),
     StatIsDir = (\<lambda>d. Inr (map_of chartDirs d \<noteq> None))\<rparr>"

section \<open>A template engine\<close>

text \<open>A template set is the list of its templates with their texts; executing one yields its text.\<close>

definition chartLib :: "(string \<times> string) list parse_lib" where
  "chartLib = \<lparr>CloneTemplates = Inr,
     ExecuteTemplate = (\<lambda>ts name data. case map_of ts name of Some s \<Rightarrow> Inr s | None \<Rightarrow> Inl (Errorf ''no template'' [])),
     DecodeDocuments = (\<lambda>s. [Inr (Some (sampleConfigMap s))]),
     NewTemplate = (\<lambda>name. []), AddTemplate = (\<lambda>ts name. ts),
     ParseText = (\<lambda>ts name text. Inr ((name, text) # ts)),
     UnmarshalMetadata = (\<lambda>raw. Inr (\<lparr>MetaName = raw, MetaVersion = ''1'', MetaType = '''', MetaAppVersion = '''',
        MetaDependencies = []\<rparr>, True)),
     UnmarshalRequirements = (\<lambda>raw. Inr []), UnmarshalValues = (\<lambda>raw. Inr None),
     OsFS = chartFS, AbsPath = (\<lambda>p. Inr (CHR ''/'' # p))\<rparr>"

section \<open>Evaluation\<close>

lemma match_all [simp]: "path_Match ''*'' name = Inr (CHR ''/'' \<notin> set name)"
proof -
  have "patternMatches [Star] s \<longleftrightarrow> CHR ''/'' \<notin> set s" for s
    by (induction s) (auto split: list.split)
  then show ?thesis by (simp add: path_Match_def)
qed

lemma match_templates [simp]:
  "path_Match ''[^_]*.yaml'' ''cm.yaml'' = Inr True" "path_Match ''_*'' ''cm.yaml'' = Inr False"
  by code_simp+

lemma chart_types [simp]:
  "fileTypeFromMode 0 AND FileTypeDir = 0" "fileTypeFromMode ModeDir AND FileTypeDir \<noteq> 0"
  "FileTypeDir AND FileTypeAny = FileTypeDir" "FileTypeDir \<noteq> 0"
  by (simp_all add: file_type_defs FileTypeAny_def fileTypeFromMode_def mode_defs ModeType_def)

lemma chart_paths [simp]:
  "Clean ''u'' = ''u''" "Clean ''u/crds'' = ''u/crds''" "Clean ''u/templates'' = ''u/templates''" "Clean ''u/charts'' = ''u/charts''"
  "Clean ''u/charts/sub'' = ''u/charts/sub''" "Clean ''u/Chart.yaml'' = ''u/Chart.yaml''"
  "Clean ''u/requirements.yaml'' = ''u/requirements.yaml''" "Clean ''u/values.yaml'' = ''u/values.yaml''"
  "Clean ''u/charts/sub/crds'' = ''u/charts/sub/crds''" "Clean ''u/charts/sub/templates'' = ''u/charts/sub/templates''"
  "Clean ''u/charts/sub/charts'' = ''u/charts/sub/charts''" "Clean ''u/charts/sub/Chart.yaml'' = ''u/charts/sub/Chart.yaml''"
  "Clean ''u/charts/sub/requirements.yaml'' = ''u/charts/sub/requirements.yaml''"
  "Clean ''u/charts/sub/values.yaml'' = ''u/charts/sub/values.yaml''"
  "Clean ''u/charts/sub/templates/cm.yaml'' = ''u/charts/sub/templates/cm.yaml''"
  "path_base ''u/charts/sub'' = ''sub''"
  by code_simp+

lemma chart_dirs [simp]:
  "ReadDir chartFS d = (case map_of chartDirs d of Some es \<Rightarrow> Inr es | None \<Rightarrow> Inl ErrNotExist)"
  "ReadFile chartFS f = (case map_of chartTexts f of Some s \<Rightarrow> Inr s | None \<Rightarrow> Inl ErrNotExist)"
  by (simp_all add: chartFS_def)

lemma IsErrNotExist_ErrNotExist [simp]: "IsErrNotExist ErrNotExist"
  by (simp add: ErrNotExist_def)

lemma chart_finds [simp]:
  "Find chartFS ''u/crds'' p FileTypeRegular 0 = (if p \<noteq> '''' \<and> CHR ''/'' \<in> set p then Panic ''invalid name pattern; must not contain slashes'' else Ok [])"
  "Find chartFS ''u/templates'' p FileTypeRegular 0 = (if p \<noteq> '''' \<and> CHR ''/'' \<in> set p then Panic ''invalid name pattern; must not contain slashes'' else Ok [])"
  "Find chartFS ''u'' '''' FileTypeRegular 0 = Ok [''u/Chart.yaml'', ''u/charts/sub/Chart.yaml'', ''u/charts/sub/templates/cm.yaml'']"
  "Find chartFS ''u/charts'' ''*'' FileTypeDir (Suc 0) = Ok [''u/charts/sub'']"
  "Find chartFS ''u/charts/sub/crds'' ''*.yaml'' FileTypeRegular 0 = Ok []"
  "Find chartFS ''u/charts/sub/templates'' ''[^_]*.yaml'' FileTypeRegular 0 = Ok [''u/charts/sub/templates/cm.yaml'']"
  "Find chartFS ''u/charts/sub/templates'' ''_*'' FileTypeRegular 0 = Ok []"
  "Find chartFS ''u/charts/sub'' '''' FileTypeRegular 0 = Ok [''u/charts/sub/Chart.yaml'', ''u/charts/sub/templates/cm.yaml'']"
  "Find chartFS ''u/charts/sub/charts'' ''*'' FileTypeDir (Suc 0) = Ok []"
  by (simp_all add: Find.simps [of chartFS] entryPath_def chartDirs_def)

lemma normal_paths [simp]: "normalPath ''u'' = ''u''" "normalPath ''u/charts/sub'' = ''u/charts/sub''"
  by (simp_all add: normalPath_def IsAbs_def HasPrefix_def)

lemmas parse_simps = readMetadata_def readTemplates_def readCrds_def readValues_def chartLib_def chartTexts_def
  parseTemplate_def ChartTypeApplication_def ChartTypeLibrary_def addDependency_def Let_def withAlias_def

definition subChart :: "(string \<times> string) list Chart" where
  "subChart = Chart \<lparr>MetaName = ''sub'', MetaVersion = ''1'', MetaType = ''application'', MetaAppVersion = '''',
       MetaDependencies = []\<rparr>
     [] (Some []) [] (Some [(''u/charts/sub/templates/cm.yaml'', ''cm'')]) [''u/charts/sub/templates/cm.yaml''] []"

definition umbrella :: "(string \<times> string) list Chart" where
  "umbrella = Chart \<lparr>MetaName = ''umbrella'', MetaVersion = ''1'', MetaType = ''application'', MetaAppVersion = '''',
       MetaDependencies = [\<lparr>DepName = ''sub'', DepAlias = ''sub'', DepCondition = '''', DepTags = [], DepImportValues = []\<rparr>]\<rparr>
     [(''sub'', subChart)] (Some []) [] None [] []"

lemma chart_files [simp]:
  "Files_add f (relativeTo ''u'' ''u/Chart.yaml'') s = f" "Files_add f (relativeTo ''u'' ''u/charts/sub/Chart.yaml'') s = f"
  "Files_add f (relativeTo ''u'' ''u/charts/sub/templates/cm.yaml'') s = f"
  "Files_add f (relativeTo ''u/charts/sub'' ''u/charts/sub/Chart.yaml'') s = f"
  "Files_add f (relativeTo ''u/charts/sub'' ''u/charts/sub/templates/cm.yaml'') s = f"
  by (simp_all add: Files_add_def relativeTo_def isIgnored_def HasPrefix_def)

lemma charts_parsed:
  "ParseChart chartLib 2 (Some chartFS) ''u'' = Ok umbrella" "ParseChart chartLib 1 (Some chartFS) ''u/charts/sub'' = Ok subChart"
  by (simp_all add: ParseChart_def numeral_2_eq_2 parse_simps umbrella_def subChart_def)

definition sampleDiscovery :: discovery where
  "sampleDiscovery = \<lparr>ServerVersion = Inr \<lparr>InfoMajor = ''1'', InfoMinor = ''30'', InfoGitVersion = ''v1.30.0''\<rparr>,
     ServerGroupsAndResources = Inr [(''v1'', [''ConfigMap''])], Uniq = remdups\<rparr>"

definition sampleRelease :: Release where
  "sampleRelease = \<lparr>RelNamespace = ''ns'', RelName = ''r'', RelService = ''s'', RelIsInstall = True, RelIsUpgrade = False, RelRevision = 1\<rparr>"

lemma base_path: "basePath (Suc (length ''u/charts/sub/templates/cm.yaml'')) ''u/charts/sub/templates/cm.yaml'' = Some ''u/charts/sub/templates''"
  by code_simp

lemma sub_template [simp]:
  "renderTemplate L t data ''u/charts/sub/templates/cm.yaml'' =
     obind (of_sum (ExecuteTemplate L t ''u/charts/sub/templates/cm.yaml''
       (data \<lparr>TemplateName = ''u/charts/sub/templates/cm.yaml'', TemplateBasePath = ''u/charts/sub/templates''\<rparr>)))
     (\<lambda>text. decodeAll L (AdjustTemplateOutput text))"
  by (simp only: renderTemplate_def base_path or_panic_simps obind_simps)

lemmas render_simps = Render_def RenderValues_def GetCapabilities_def sampleDiscovery_def subChart_def umbrella_def chartLib_def
  MergeMaps_def isEnabled_def dependencyValues_def passDown_def getMap_def writeBack_def Let_def decodeAll_def

text \<open>The template is rendered with the chart it belongs to, but not with the umbrella chart.\<close>

lemma charts_rendered:
  "Render chartLib sampleDiscovery subChart sampleRelease None = Ok [sampleConfigMap (AdjustTemplateOutput ''cm'')]"
  "Render chartLib sampleDiscovery umbrella sampleRelease None = Ok []"
  by (simp_all add: render_simps)

theorem umbrella_renders_no_templates_witness:
  "Render (chartLib\<lparr>ExecuteTemplate := \<lambda>_ _ _. Inr ''other''\<rparr>) sampleDiscovery umbrella sampleRelease None = Ok []"
  using umbrella_renders_no_templates [OF charts_parsed(1), where ex = "\<lambda>_ _ _. Inr ''other''" and D = sampleDiscovery
      and release = sampleRelease and vals = None]
  by (simp add: charts_rendered)

theorem Render_no_nil_pointer_witness:
  "Render chartLib sampleDiscovery umbrella sampleRelease None \<noteq> Panic ''invalid memory address or nil pointer dereference''"
  using Render_no_nil_pointer [OF charts_parsed(1)] by blast

end
