(* ===== verification/Kustomize_Sample.thy ===== *)
theory Kustomize_Sample
  imports Kustomize_Render Helm_Sample
begin

text \<open>
  Two kustomizations: \<open>a\<close> has a configuration, which sets a template suffix and includes \<open>b\<close>;
  \<open>b\<close> has one file, and no kustomization file. The template engine returns the text of a
  template as it is.
\<close>

definition kustDirs :: "(string \<times> DirEntry list) list" where
  "kustDirs = [(''a'', [regular ''.component-config.yaml'', regular ''cm.yaml.tpl'', regular ''ns.yaml'']), (''b'', [regular ''x.yaml''])]"

definition kustTexts :: "(string \<times> string) list" where
  "kustTexts = [(''a/.component-config.yaml'', ''config''), (''a/cm.yaml.tpl'', ''cm''), (''a/ns.yaml'', ''ns''), (''b/x.yaml'', ''x'')]"

definition kustFS :: filesystem where
  "kustFS = \<lparr>ReadDir = (\<lambda>d. case map_of kustDirs d of Some es \<Rightarrow> Inr es | None \<Rightarrow> Inl ErrNotExist),
     ReadFile = (\<lambda>f. case map_of kustTexts f of Some s \<Rightarrow> Inr s | None \<Rightarrow> Inl ErrNotExist),
     StatIsDir = (\<lambda>d. Inr (map_of kustDirs d \<noteq> None))\<rparr>"

definition kustLib :: "(string \<times> string) list kust_lib" where
  "kustLib = \<lparr>KNewTemplate = (\<lambda>name left right. []), KAddTemplate = (\<lambda>ts name. ts), KParseText = (\<lambda>ts name text. Inr ((name, text) # ts)),
     UnmarshalConfig = (\<lambda>raw. Inr (emptyConfig\<lparr>CfgTemplateSuffix := Some ''.tpl'', CfgIncludedKustomizations := [''../b'']\<rparr>)),
     IgnoreMatcher = (\<lambda>patterns path. False), OpenFile = (\<lambda>fs f. ReadFile fs f), KOsFS = kustFS, KAbsPath = (\<lambda>p. Inr (CHR ''/'' # p))\<rparr>"

definition kustB :: "(string \<times> string) list Kustomization" where
  "kustB = Kustomization ''b'' [(''x.yaml'', ''x'')] [] (Some [(''x.yaml'', ''x'')]) [(''x.yaml'', ''x.yaml'')] None []"

definition kustA :: "(string \<times> string) list Kustomization" where
  "kustA = Kustomization ''a'' [(''.component-config.yaml'', ''config''), (''cm.yaml.tpl'', ''cm''), (''ns.yaml'', ''ns'')]
     [(''ns.yaml'', ''ns'')] (Some [(''cm.yaml.tpl'', ''cm'')]) [(''cm.yaml'', ''cm.yaml.tpl'')] None [kustB]"

lemma regular_types [simp]:
  "fileTypeFromMode 0 AND FileTypeRegular \<noteq> 0" "FileTypeRegular AND FileTypeAny = FileTypeRegular" "FileTypeRegular \<noteq> 0"
  by (simp_all add: file_type_defs FileTypeAny_def fileTypeFromMode_def mode_defs ModeType_def)

lemma kust_paths [simp]:
  "Clean ''a/.component-config.yaml'' = ''a/.component-config.yaml''" "Clean ''a/cm.yaml.tpl'' = ''a/cm.yaml.tpl''"
  "Clean ''a/ns.yaml'' = ''a/ns.yaml''" "Clean ''b/x.yaml'' = ''b/x.yaml''"
  "path_join ''a'' ''.component-config.yaml'' = ''a/.component-config.yaml''" "path_join ''a'' ''.component-ignore'' = ''a/.component-ignore''"
  "path_join ''b'' ''.component-config.yaml'' = ''b/.component-config.yaml''" "path_join ''b'' ''.component-ignore'' = ''b/.component-ignore''"
  "path_join ''a'' ''../b'' = ''b''" "path_join ''b'' ''x.yaml'' = ''b/x.yaml''" "path_join ''b'' ''kustomization.yaml'' = ''b/kustomization.yaml''"
  "normalPath ''a'' = ''a''" "normalPath ''b'' = ''b''"
  "relativeTo ''a'' ''a/.component-config.yaml'' = ''.component-config.yaml''" "relativeTo ''a'' ''a/cm.yaml.tpl'' = ''cm.yaml.tpl''"
  "relativeTo ''a'' ''a/ns.yaml'' = ''ns.yaml''" "relativeTo ''b'' ''b/x.yaml'' = ''x.yaml''"
  "path_base ''.component-config.yaml'' = ''.component-config.yaml''" "path_base ''cm.yaml.tpl'' = ''cm.yaml.tpl''"
  "path_base ''ns.yaml'' = ''ns.yaml''" "path_base ''x.yaml'' = ''x.yaml''" "path_base ''b/x.yaml'' = ''x.yaml''"
  by code_simp+

lemma kust_dirs [simp]:
  "ReadDir kustFS d = (case map_of kustDirs d of Some es \<Rightarrow> Inr es | None \<Rightarrow> Inl ErrNotExist)"
  "ReadFile kustFS f = (case map_of kustTexts f of Some s \<Rightarrow> Inr s | None \<Rightarrow> Inl ErrNotExist)"
  "StatIsDir kustFS d = Inr (map_of kustDirs d \<noteq> None)"
  by (simp_all add: kustFS_def)

lemma kust_finds [simp]:
  "Find kustFS ''a'' ''*'' FileTypeRegular 0 = Ok [''a/.component-config.yaml'', ''a/cm.yaml.tpl'', ''a/ns.yaml'']"
  "Find kustFS ''b'' ''*'' FileTypeRegular 0 = Ok [''b/x.yaml'']"
  by (simp_all add: Find.simps [of kustFS] entryPath_def kustDirs_def)

lemma kust_parsed: "ParseKustomization kustLib 2 (Some kustFS) ''a'' noOptions = Ok kustA"
  by (simp add: ParseKustomization_def numeral_2_eq_2 readKustomization_def readConfig_def readIgnore_def parseFile_def readDecrypted_def
      isLeftOut_def templateFor_def includeKustomization_def kustLib_def kustDirs_def kustTexts_def kustA_def kustB_def emptyConfig_def
      noOptions_def fillIn_def componentConfigFilename_def componentIgnoreFilename_def isSubdirectory_def HasPrefix_def HasSuffix_def
      TrimSuffix_def IsAbs_def Let_def)

theorem ParseKustomization_parsed_witness: "parsed_from kustLib kustFS noOptions [] kustA"
  using ParseKustomization_parsed [OF kust_parsed] by (simp add: fsOf_def)

theorem ParseKustomization_terminates_witness:
  "no_panic (ParseKustomization kustLib 3 (Some kustFS) ''a'' noOptions)
   \<and> ParseKustomization kustLib 7 (Some kustFS) ''a'' noOptions = ParseKustomization kustLib 3 (Some kustFS) ''a'' noOptions"
proof -
  have dirs: "{p. StatIsDir (fsOf kustLib (Some kustFS)) p = Inr True} = {''a'', ''b''}"
    by (auto simp: fsOf_def kustDirs_def)
  show ?thesis
    using ParseKustomization_terminates [of kustLib "Some kustFS" 3 7 "''a''" noOptions] by (simp add: dirs)
qed

section \<open>Rendering\<close>

text \<open>A file system in memory, and a format that lists the resources.\<close>

definition memoryLib :: "((string \<times> string) list, cluster client) render_lib" where
  "memoryLib = \<lparr>KClone = Inr,
     KExecute = (\<lambda>ts fns name data. case map_of ts name of Some s \<Rightarrow> Inr s | None \<Rightarrow> Inl (Errorf ''no template'' [])),
     WriteTo = (\<lambda>fsys p x. Inr (AList.update p x fsys)), ExistsIn = (\<lambda>fsys p. map_of fsys p \<noteq> None),
     IsDirIn = (\<lambda>fsys dir. list_ex (\<lambda>(p, x). inDirectory dir p) fsys),
     WalkIn = (\<lambda>fsys dir. map (\<lambda>(p, x). Inr (p, False)) (filter (\<lambda>(p, x). inDirectory dir p) fsys)),
     RecognizedKustomizationFileNames = [''kustomization.yaml''], KDefaultFileName = ''kustomization.yaml'',
     KMarshal = (\<lambda>k. Inr (concat (KustResources k)))\<rparr>"

definition sampleRenderContext :: "Component \<Rightarrow> cluster client RenderContext" where
  "sampleRenderContext component = \<lparr>RcLocalClient = client sampleReconciler, RcTargetClient = client sampleReconciler,
     RcComponent = component, RcComponentDigest = ''d'', RcComponentRevision = 1, RcNamespace = ''ns'', RcReleaseName = ''r'', RcValues = None\<rparr>"

definition sampleServer :: "cluster client \<Rightarrow> kust_discovery" where
  "sampleServer clnt = \<lparr>KServerVersion = Inr \<lparr>InfoMajor = ''1'', InfoMinor = ''30'', InfoGitVersion = ''v1.30.0''\<rparr>, KServerResources = Inr []\<rparr>"

lemma memoryLib_laws: "memory_laws memoryLib"
  by (force simp: memory_laws_def memoryLib_def list_ex_iff)

lemma kustB_rendered:
  "RenderKustomization samplePlatform memoryLib sampleServer (sampleRenderContext component) kustB [] =
     Ok [(''b/x.yaml'', AdjustTemplateOutput ''x''), (''b/kustomization.yaml'', ''b/x.yaml'')]"
  by (simp add: kustB_def renderOwn_def sampleServer_def memoryLib_def sampleRenderContext_def MergeMaps_def writeTemplate_def
      ensureKustomization_def generateKustomization_def inDirectory_def walkStep_def isResourceFile_def HasPrefix_def HasSuffix_def Let_def)

theorem RenderKustomization_renders_witness:
  "with_kustomization memoryLib ''b'' [(''b/x.yaml'', AdjustTemplateOutput ''x'')]
     [(''b/x.yaml'', AdjustTemplateOutput ''x''), (''b/kustomization.yaml'', ''b/x.yaml'')]"
proof -
  have "kustomizations kustB = []" by (simp add: kustB_def)
  from RenderKustomization_renders [OF memoryLib_laws kustB_rendered this] show ?thesis
    by (auto simp: kustB_def memoryLib_def outputsOf_def list_all2_Cons1)
qed

end
