(* ===== verification/Template_Functions.thy ===== *)
theory Template_Functions
  imports Helm_Chart
begin

text \<open>
  \<open>internal/templatex/functions.go\<close>: the functions that templates may call. Values in a
  template are of a type \<open>'v\<close> about which the code asks \<open>spf13/cast\<close>, the YAML and JSON
  packages, or the template engine: parameters. The arithmetic is on machine words.
\<close>

section \<open>Conversions\<close>

record 'v cast_lib =
  ToUint64E :: "'v \<Rightarrow> goerr + 64 word"
  ToUint32E :: "'v \<Rightarrow> goerr + 32 word"
  ToStringE :: "'v \<Rightarrow> goerr + string"
  IsNil :: "'v \<Rightarrow> bool"
  AsString :: "'v \<Rightarrow> string option"
  YamlMarshal :: "'v \<Rightarrow> goerr + string"
  YamlUnmarshal :: "string \<Rightarrow> goerr + 'v"
  YamlUnmarshalArray :: "string \<Rightarrow> goerr + 'v list"
  JsonMarshal :: "'v \<Rightarrow> goerr + string"
  JsonMarshalIndent :: "'v \<Rightarrow> string \<Rightarrow> string \<Rightarrow> goerr + string"
  JsonEncodeRaw :: "'v \<Rightarrow> goerr + string"
  JsonUnmarshal :: "string \<Rightarrow> goerr + 'v"
  JsonUnmarshalArray :: "string \<Rightarrow> goerr + 'v list"

definition newline :: string where "newline = [CHR 0x0A]"

definition toYaml :: "'v cast_lib \<Rightarrow> 'v \<Rightarrow> goerr + string" where
  "toYaml C data = (case YamlMarshal C data of Inl err \<Rightarrow> Inl err | Inr raw \<Rightarrow> Inr (TrimSuffix raw newline))"

definition fromYaml :: "'v cast_lib \<Rightarrow> string \<Rightarrow> goerr + 'v" where
  "fromYaml C data = YamlUnmarshal C data"

definition fromYamlArray :: "'v cast_lib \<Rightarrow> string \<Rightarrow> goerr + 'v list" where
  "fromYamlArray C data = YamlUnmarshalArray C data"

definition toJson :: "'v cast_lib \<Rightarrow> 'v \<Rightarrow> goerr + string" where
  "toJson C data = JsonMarshal C data"

definition toPrettyJson :: "'v cast_lib \<Rightarrow> 'v \<Rightarrow> goerr + string" where
  "toPrettyJson C data = JsonMarshalIndent C data '''' ''  ''"

text \<open>\<open>JsonEncodeRaw\<close> is an encoder that does not escape HTML, which ends its output with a newline.\<close>

definition toRawJson :: "'v cast_lib \<Rightarrow> 'v \<Rightarrow> goerr + string" where
  "toRawJson C data = (case JsonEncodeRaw C data of Inl err \<Rightarrow> Inl err | Inr buf \<Rightarrow> Inr (TrimSuffix buf newline))"

definition fromJson :: "'v cast_lib \<Rightarrow> string \<Rightarrow> goerr + 'v" where
  "fromJson C data = JsonUnmarshal C data"

definition fromJsonArray :: "'v cast_lib \<Rightarrow> string \<Rightarrow> goerr + 'v list" where
  "fromJsonArray C data = JsonUnmarshalArray C data"

definition required :: "'v cast_lib \<Rightarrow> string \<Rightarrow> 'v \<Rightarrow> goerr + 'v" where
  "required C warn data =
     (if IsNil C data then Inl (Errorf warn [])
      else if AsString C data = Some '''' then Inl (Errorf warn [])
      else Inr data)"

section \<open>Bitwise operations\<close>

text \<open>A shift by the width or more gives zero, in Go as in the library.\<close>

definition bitwiseShiftLeft :: "'v cast_lib \<Rightarrow> 'v \<Rightarrow> 'v \<Rightarrow> goerr + 64 word" where
  "bitwiseShiftLeft C by' arg = (case ToUint64E C arg of Inl err \<Rightarrow> Inl err | Inr a \<Rightarrow>
     (case ToUint64E C by' of Inl err \<Rightarrow> Inl err | Inr b \<Rightarrow> Inr (push_bit (unat b) a)))"

definition bitwiseShiftRight :: "'v cast_lib \<Rightarrow> 'v \<Rightarrow> 'v \<Rightarrow> goerr + 64 word" where
  "bitwiseShiftRight C by' arg = (case ToUint64E C arg of Inl err \<Rightarrow> Inl err | Inr a \<Rightarrow>
     (case ToUint64E C by' of Inl err \<Rightarrow> Inl err | Inr b \<Rightarrow> Inr (drop_bit (unat b) a)))"

fun bitwiseLoop :: "'v cast_lib \<Rightarrow> (64 word \<Rightarrow> 64 word \<Rightarrow> 64 word) \<Rightarrow> 64 word \<Rightarrow> 'v list \<Rightarrow> goerr + 64 word" where
  "bitwiseLoop C f r [] = Inr r"
| "bitwiseLoop C f r (arg # args) = (case ToUint64E C arg of Inl err \<Rightarrow> Inl err | Inr a \<Rightarrow> bitwiseLoop C f (f r a) args)"

definition bitwiseAnd :: "'v cast_lib \<Rightarrow> 'v list \<Rightarrow> goerr + 64 word" where
  "bitwiseAnd C args = bitwiseLoop C (AND) 0xFFFFFFFFFFFFFFFF args"

definition bitwiseOr :: "'v cast_lib \<Rightarrow> 'v list \<Rightarrow> goerr + 64 word" where
  "bitwiseOr C args = bitwiseLoop C (OR) 0 args"

definition bitwiseXor :: "'v cast_lib \<Rightarrow> 'v list \<Rightarrow> goerr + 64 word" where
  "bitwiseXor C args = bitwiseLoop C (XOR) 0 args"

section \<open>IPv4 addresses\<close>

text \<open>
  \<open>strconv.ParseUint(s, 10, 8)\<close>, which reads the digits one by one and stops at the first
  one that is no digit, or that takes the number out of range.
\<close>

fun ParseUint8_loop :: "string \<Rightarrow> int \<Rightarrow> string \<Rightarrow> goerr + 64 word" where
  "ParseUint8_loop s n [] = Inr (word_of_int n)"
| "ParseUint8_loop s n (c # cs) =
     (if \<not> is_digit c then Inl (Errorf ''strconv.ParseUint: parsing %q: invalid syntax'' [AStr s])
      else if 255 < 10 * n + (of_char c - 48)
        then Inl (Errorf ''strconv.ParseUint: parsing %q: value out of range'' [AStr s])
      else ParseUint8_loop s (10 * n + (of_char c - 48)) cs)"

definition ParseUint8 :: "string \<Rightarrow> goerr + 64 word" where
  "ParseUint8 s = (if s = [] then Inl (Errorf ''strconv.ParseUint: parsing %q: invalid syntax'' [AStr s])
     else ParseUint8_loop s 0 s)"

text \<open>The loop over the octets, from the last one on.\<close>

fun parseOctets :: "nat \<Rightarrow> string list \<Rightarrow> 64 word \<Rightarrow> goerr + 64 word" where
  "parseOctets i [] r = Inr r"
| "parseOctets i (octet # octets) r = (case ParseUint8 octet of
     Inl err \<Rightarrow> Inl err
   | Inr x \<Rightarrow> parseOctets (Suc i) octets (r OR push_bit (8 * i) x))"

definition parseIPv4Address :: "'v cast_lib \<Rightarrow> 'v \<Rightarrow> goerr + 32 word" where
  "parseIPv4Address C data = (case ToStringE C data of
     Inl err \<Rightarrow> Inl err
   | Inr s \<Rightarrow>
       (let octets = splitAt (CHR ''.'') s in
        if length octets \<noteq> 4 then Inl (Errorf ''invalid IP address'' [])
        else case parseOctets 0 (rev octets) 0 of Inl err \<Rightarrow> Inl err | Inr r \<Rightarrow> Inr (ucast r)))"

definition formatOctets :: "32 word \<Rightarrow> string" where
  "formatOctets i = Itoa (uint (drop_bit 24 (i AND 0xFF000000))) @ ''.'' @ Itoa (uint (drop_bit 16 (i AND 0x0FF0000))) @ ''.''
     @ Itoa (uint (drop_bit 8 (i AND 0x00FF00))) @ ''.'' @ Itoa (uint (i AND 0x000000FF))"

definition formatIPv4Address :: "'v cast_lib \<Rightarrow> 'v \<Rightarrow> goerr + string" where
  "formatIPv4Address C data = (case ToUint32E C data of Inl err \<Rightarrow> Inl err | Inr i \<Rightarrow> Inr (formatOctets i))"

section \<open>Templates and lookups\<close>

text \<open>
  \<open>include\<close> returns what was written before an error as well. Executing gives the text
  written and the error.
\<close>

definition include_text :: "('t \<Rightarrow> string \<Rightarrow> 'v \<Rightarrow> string \<times> goerr option) \<Rightarrow> 't \<Rightarrow> string \<Rightarrow> 'v \<Rightarrow> string \<times> goerr option" where
  "include_text executeTemplate t name data = (let (buf, err) = executeTemplate t name data in (AdjustTemplateOutput buf, err))"

definition tpl :: "('t \<Rightarrow> goerr + 't) \<Rightarrow> ('t \<Rightarrow> string \<Rightarrow> string \<Rightarrow> goerr + 't) \<Rightarrow> ('t \<Rightarrow> string \<Rightarrow> 'v \<Rightarrow> string \<times> goerr option) \<Rightarrow>
    't \<Rightarrow> string \<Rightarrow> 'v \<Rightarrow> (goerr, string \<times> goerr option) outcome" where
  "tpl clone parse execute t str data = (case clone t of
     Inl _ \<Rightarrow> Panic ''this cannot happen''
   | Inr t' \<Rightarrow> (case parse t' ''gotpl'' str of
       Inl err \<Rightarrow> Ok ('''', Some err)
     | Inr t'' \<Rightarrow> (let (buf, err) = execute t'' ''gotpl'' data in Ok (AdjustTemplateOutput buf, err))))"

text \<open>A request for an object or for a list, with the world it runs in; an object is its content.\<close>

record 'w lookup_client =
  LookupGet :: "string \<Rightarrow> string \<Rightarrow> string \<Rightarrow> string \<Rightarrow> 'w \<Rightarrow> (goerr + jmap) \<times> 'w"
  LookupList :: "string \<Rightarrow> string \<Rightarrow> string \<Rightarrow> string \<Rightarrow> 'w \<Rightarrow> (goerr + jmap list) \<times> 'w"

definition lookupResult :: "bool \<Rightarrow> goerr + jmap \<Rightarrow> jmap \<times> goerr option" where
  "lookupResult ignoreNotFound res = (case res of
     Inl err \<Rightarrow> ([], if IsNotFound err \<and> ignoreNotFound then None else Some err)
   | Inr object \<Rightarrow> (object, None))"

definition lookupObject :: "'w lookup_client \<Rightarrow> bool \<Rightarrow> string \<Rightarrow> string \<Rightarrow> string \<Rightarrow> string \<Rightarrow> 'w \<Rightarrow> (jmap \<times> goerr option) \<times> 'w" where
  "lookupObject c ignoreNotFound apiVersion kind namespace name w =
     (let (res, w) = LookupGet c apiVersion kind namespace name w in (lookupResult ignoreNotFound res, w))"

text \<open>\<open>newClient\<close> is \<open>RESTConfigFromKubeConfig\<close> followed by \<open>client.New\<close>.\<close>

definition lookupWithKubeConfig :: "(string \<Rightarrow> goerr + 'w lookup_client) \<Rightarrow> bool \<Rightarrow> string \<Rightarrow> string \<Rightarrow> string \<Rightarrow> string \<Rightarrow> string \<Rightarrow> 'w \<Rightarrow>
    (jmap \<times> goerr option) \<times> 'w" where
  "lookupWithKubeConfig newClient ignoreNotFound apiVersion kind namespace name kubeConfig w = (case newClient kubeConfig of
     Inl err \<Rightarrow> (([], Some err), w)
   | Inr c \<Rightarrow> lookupObject c ignoreNotFound apiVersion kind namespace name w)"

definition lookupList :: "(string \<Rightarrow> goerr + string) \<Rightarrow> 'w lookup_client \<Rightarrow> string \<Rightarrow> string \<Rightarrow> string \<Rightarrow> string \<Rightarrow> 'w \<Rightarrow>
    (goerr + jmap list) \<times> 'w" where
  "lookupList parseSelector c apiVersion kind namespace labelSelector w = (case parseSelector labelSelector of
     Inl err \<Rightarrow> (Inl err, w)
   | Inr selector \<Rightarrow> LookupList c apiVersion kind namespace selector w)"

definition lookupListWithKubeConfig :: "(string \<Rightarrow> goerr + string) \<Rightarrow> (string \<Rightarrow> goerr + 'w lookup_client) \<Rightarrow> string \<Rightarrow> string \<Rightarrow> string \<Rightarrow>
    string \<Rightarrow> string \<Rightarrow> 'w \<Rightarrow> (goerr + jmap list) \<times> 'w" where
  "lookupListWithKubeConfig parseSelector newClient apiVersion kind namespace labelSelector kubeConfig w = (case newClient kubeConfig of
     Inl err \<Rightarrow> (Inl err, w)
   | Inr c \<Rightarrow> lookupList parseSelector c apiVersion kind namespace labelSelector w)"

section \<open>Addresses in both forms\<close>

text \<open>The octets of an address, as numbers.\<close>

definition octetOf :: "32 word \<Rightarrow> nat \<Rightarrow> nat" where
  "octetOf i n = unat i div 2 ^ (8 * n) mod 256"

definition addressOf :: "nat list \<Rightarrow> nat" where
  "addressOf ns = foldr (\<lambda>n v. n + 256 * v) ns 0"

lemma octet_masks:
  "(0xFF000000 :: 32 word) = push_bit 24 (mask 8)" "(0x0FF0000 :: 32 word) = push_bit 16 (mask 8)"
  "(0x00FF00 :: 32 word) = push_bit 8 (mask 8)" "(0x000000FF :: 32 word) = push_bit 0 (mask 8)"
  by (simp_all add: mask_eq_exp_minus_1 push_bit_eq_mult)

lemma octet_masked: "unat (drop_bit m (i AND push_bit m (mask 8))) = unat i div 2 ^ m mod 256" for i :: "32 word"
proof -
  have "drop_bit m (i AND push_bit m (mask 8)) = take_bit 8 (drop_bit m i)"
    by (rule bit_word_eqI) (auto simp: bit_simps dest: bit_imp_le_length)
  then have "unat (drop_bit m (i AND push_bit m (mask 8))) = take_bit 8 (drop_bit m (unat i))"
    by (simp only: unsigned_take_bit_eq unat_drop_bit_eq)
  also have "\<dots> = unat i div 2 ^ m mod 2 ^ 8" by (simp only: take_bit_eq_mod drop_bit_eq_div)
  finally show ?thesis by simp
qed

lemma formatOctets_eq: "formatOctets i = strings_join (map (\<lambda>n. digits_of (octetOf i n)) [3, 2, 1, 0]) ''.''"
proof -
  have itoa: "Itoa (uint w) = digits_of (unat w)" for w :: "32 word"
    by (simp add: Itoa_def)
  have o: "octetOf i 3 = unat i div 2 ^ 24 mod 256" "octetOf i 2 = unat i div 2 ^ 16 mod 256" "octetOf i 1 = unat i div 2 ^ 8 mod 256"
    by (simp_all add: octetOf_def)
  have last: "unat (i AND push_bit 0 (mask 8)) = octetOf i 0" using octet_masked [of 0 i] by (simp add: octetOf_def)
  show ?thesis
    unfolding formatOctets_def octet_masks itoa list.map strings_join.simps by (simp only: octet_masked o last append_assoc)
qed

lemma addressOf_octets: "addressOf (map (octetOf i) [0, 1, 2, 3]) = unat i"
proof -
  have "unat i < 2 ^ LENGTH(32)" by (rule unsigned_less)
  then have "unat i < 2 ^ 32" by simp
  then have "unat i div 16777216 < 256" by (simp add: less_mult_imp_div_less)
  moreover have "n mod 256 + 256 * (n div 256 mod 256 + 256 * (n div 65536 mod 256 + 256 * (n div 16777216))) = n" for n :: nat
  proof -
    have "n div 65536 = n div 256 div 256" "n div 16777216 = n div 256 div 256 div 256"
      by (simp_all add: div_mult2_eq [symmetric])
    then show ?thesis by (simp only: mod_mult_div_eq)
  qed
  ultimately show ?thesis by (simp add: addressOf_def octetOf_def)
qed

text \<open>The loop builds the number from its octets; they do not overlap.\<close>

lemma or_shift:
  assumes "v < 2 ^ k"
  shows "(word_of_nat v :: 64 word) OR push_bit k (word_of_nat n) = word_of_nat (v + 2 ^ k * n)"
proof -
  have lt: "bit v j \<Longrightarrow> j < k" for j using assms by (metis bit_take_bit_iff take_bit_nat_eq_self)
  have "v AND push_bit k n = 0" by (rule bit_eqI) (auto simp: bit_simps dest!: lt)
  then have "v + push_bit k n = v OR push_bit k n" by (rule disjunctive_add_eq_or)
  then show ?thesis
    by (metis (no_types) mult.commute of_nat_or_eq push_bit_eq_mult push_bit_of_nat)
qed

lemma parseOctets_run:
  assumes "list_all2 (\<lambda>octet n. ParseUint8 octet = Inr (word_of_nat n) \<and> n < 256) octets ns" "v < 2 ^ (8 * i)"
  shows "parseOctets i octets (word_of_nat v) = Inr (word_of_nat (v + 2 ^ (8 * i) * addressOf ns))"
  using assms
proof (induction octets ns arbitrary: i v rule: list_all2_induct)
  case (Cons octet octets n ns)
  have "v + 2 ^ (8 * i) * n < 2 ^ (8 * Suc i)"
  proof -
    have "v + 2 ^ (8 * i) * n < 2 ^ (8 * i) * Suc n" using Cons.prems by simp
    also have "\<dots> \<le> 2 ^ (8 * i) * 256" using Cons.hyps by (intro mult_le_mono2) simp
    finally show ?thesis by (simp add: power_add)
  qed
  from Cons.IH [OF this] show ?case
    using Cons.hyps or_shift [OF Cons.prems] by (simp add: addressOf_def power_add algebra_simps)
qed (simp add: addressOf_def)

lemma is_digit_nonneg: "is_digit c \<Longrightarrow> (48 :: int) \<le> of_char c"
  unfolding is_digit_def by (metis of_nat_le_iff of_nat_numeral of_nat_of_char)

abbreviation digits_from :: "int \<Rightarrow> string \<Rightarrow> int" where
  "digits_from n s \<equiv> fold (\<lambda>c n. 10 * n + (of_char c - 48)) s n"

lemma digits_from_ge: "\<forall>c \<in> set str. is_digit c \<Longrightarrow> 0 \<le> n \<Longrightarrow> n \<le> digits_from n str"
proof (induction str arbitrary: n)
  case (Cons c str)
  have "n \<le> 10 * n + (of_char c - 48)" using is_digit_nonneg [of c] Cons.prems by auto
  with Cons.IH [of "10 * n + (of_char c - 48)"] Cons.prems show ?case by simp
qed simp

lemma digits_value_nonneg: "\<forall>c \<in> set str. is_digit c \<Longrightarrow> 0 \<le> digits_value str"
  unfolding digits_value_def by (rule digits_from_ge) simp_all

lemma ParseUint8_loop_Inr:
  "0 \<le> n \<Longrightarrow> n < 256 \<Longrightarrow> ParseUint8_loop s n cs = Inr x \<longleftrightarrow>
     (\<forall>c \<in> set cs. is_digit c) \<and> digits_from n cs < 256 \<and> x = word_of_int (digits_from n cs)"
proof (induction cs arbitrary: n)
  case (Cons c cs)
  show ?case
  proof (cases "is_digit c \<and> 10 * n + (of_char c - 48) < 256")
    case True
    then have "0 \<le> 10 * n + (of_char c - 48)" using is_digit_nonneg [of c] Cons.prems by auto
    with Cons.IH [of "10 * n + (of_char c - 48)"] True show ?thesis by simp
  next
    case False
    have "256 \<le> digits_from n (c # cs)" if "\<forall>c \<in> set (c # cs). is_digit c"
      using digits_from_ge [of cs "10 * n + (of_char c - 48)"] that False by auto
    with False show ?thesis by (auto simp: not_less)
  qed
qed auto

lemma ParseUint8_Inr: "ParseUint8 octet = Inr x \<longleftrightarrow> (\<exists>n. parse_digits octet = Some (int n) \<and> n < 256 \<and> x = word_of_nat n)"
proof -
  have "0 \<le> digits_value octet" if "\<forall>c \<in> set octet. is_digit c" using that by (rule digits_value_nonneg)
  then show ?thesis
    using ParseUint8_loop_Inr [of 0 octet octet x]
    by (auto simp: ParseUint8_def parse_digits_def digits_value_def [symmetric] zless_nat_eq_int_zless [symmetric] intro!: exI [of _ "nat (digits_value octet)"])
qed

lemma addressOf_less: "list_all (\<lambda>n. n < 256) ns \<Longrightarrow> addressOf ns < 256 ^ length ns"
proof (induction ns)
  case (Cons n ns)
  then have "n + 256 * addressOf ns < 256 + 256 * addressOf ns" "addressOf ns + 1 \<le> 256 ^ length ns" by auto
  then have "n + 256 * addressOf ns < 256 * 256 ^ length ns" by linarith
  then show ?case by (simp add: addressOf_def)
qed (simp add: addressOf_def)

text \<open>What is an address: four decimal numbers up to 255 between dots; leading zeros do not matter.\<close>

definition denotes :: "string \<Rightarrow> 32 word \<Rightarrow> bool" where
  "denotes s w \<longleftrightarrow> (\<exists>ns. length ns = 4 \<and> list_all2 (\<lambda>octet n. parse_digits octet = Some (int n) \<and> n < 256) (splitAt (CHR ''.'') s) ns
     \<and> unat w = addressOf (rev ns))"

lemma parseOctets_Inr:
  assumes "parseOctets i octets r = Inr r'"
  obtains ns where "list_all2 (\<lambda>octet n. parse_digits octet = Some (int n) \<and> n < 256) octets ns"
  using assms
proof (induction octets arbitrary: i r thesis)
  case (Cons octet octets)
  then obtain n where n: "parse_digits octet = Some (int n)" "n < 256" by (auto simp: ParseUint8_Inr split: sum.splits)
  from Cons.prems(2) obtain j r1 where "parseOctets j octets r1 = Inr r'" by (auto split: sum.splits)
  from Cons.IH [OF _ this] obtain ns where "list_all2 (\<lambda>octet n. parse_digits octet = Some (int n) \<and> n < 256) octets ns" by blast
  with n have "list_all2 (\<lambda>octet n. parse_digits octet = Some (int n) \<and> n < 256) (octet # octets) (n # ns)" by simp
  then show ?case by (rule Cons.prems(1))
qed simp

lemma parseOctets_address:
  assumes "list_all2 (\<lambda>octet n. parse_digits octet = Some (int n) \<and> n < 256) octets ns" "length ns = 4"
  shows "\<exists>r. parseOctets 0 (rev octets) 0 = Inr r \<and> unat (ucast r :: 32 word) = addressOf (rev ns)"
proof -
  have "list_all2 (\<lambda>octet n. ParseUint8 octet = Inr (word_of_nat n) \<and> n < 256) (rev octets) (rev ns)"
    unfolding list_all2_rev using assms(1) by (rule list_all2_mono) (auto simp: ParseUint8_Inr)
  then have "parseOctets 0 (rev octets) 0 = Inr (word_of_nat (addressOf (rev ns)))"
    using parseOctets_run [of "rev octets" "rev ns" 0 0] by simp
  moreover have "addressOf (rev ns) < 256 ^ 4"
    using addressOf_less [of "rev ns"] assms by (auto simp: list_all_length list_all2_conv_all_nth rev_nth)
  ultimately show ?thesis
    by (simp add: unsigned_ucast_eq unsigned_of_nat take_bit_nat_eq_self)
qed

lemma denotes_format: "denotes (formatOctets i) i"
proof -
  have "CHR ''.'' \<notin> set (digits_of n)" for n using digits_of_digits [of "CHR ''.''" n] by (auto simp: is_digit_def)
  then have "splitAt (CHR ''.'') (formatOctets i) = map (\<lambda>n. digits_of (octetOf i n)) [3, 2, 1, 0]"
    unfolding formatOctets_eq by (intro splitAt_join) auto
  moreover have "octetOf i n < 256" for n by (simp add: octetOf_def)
  ultimately show ?thesis
    unfolding denotes_def
    by (intro exI [of _ "map (octetOf i) [3, 2, 1, 0]"]) (use addressOf_octets [of i] in simp)
qed

lemma parse_denotes: "(\<exists>s. ToStringE C data = Inr s \<and> denotes s w) \<longleftrightarrow> parseIPv4Address C data = Inr w"
proof
  assume "\<exists>s. ToStringE C data = Inr s \<and> denotes s w"
  then obtain s ns where s: "ToStringE C data = Inr s" "length ns = 4" "unat w = addressOf (rev ns)"
      "list_all2 (\<lambda>octet n. parse_digits octet = Some (int n) \<and> n < 256) (splitAt (CHR ''.'') s) ns" by (auto simp: denotes_def)
  from parseOctets_address [OF s(4,2)] obtain r where "parseOctets 0 (rev (splitAt (CHR ''.'') s)) 0 = Inr r" "ucast r = w"
    using s(3) by (auto simp: word_unat_eq_iff)
  then show "parseIPv4Address C data = Inr w"
    using s(1,2) list_all2_lengthD [OF s(4)] by (simp add: parseIPv4Address_def)
next
  assume "parseIPv4Address C data = Inr w"
  then obtain s r where s: "ToStringE C data = Inr s" "length (splitAt (CHR ''.'') s) = 4"
      "parseOctets 0 (rev (splitAt (CHR ''.'') s)) 0 = Inr r" "w = ucast r"
    by (auto simp: parseIPv4Address_def Let_def split: sum.splits if_splits)
  from parseOctets_Inr [OF s(3)] obtain ns where "list_all2 (\<lambda>octet n. parse_digits octet = Some (int n) \<and> n < 256) (rev (splitAt (CHR ''.'') s)) ns" .
  then have ns: "list_all2 (\<lambda>octet n. parse_digits octet = Some (int n) \<and> n < 256) (splitAt (CHR ''.'') s) (rev ns)"
    using list_all2_rev [of _ "splitAt (CHR ''.'') s" "rev ns"] by (simp only: rev_rev_ident)
  have len: "length (rev ns) = 4" using list_all2_lengthD [OF ns] s(2) by simp
  from parseOctets_address [OF ns len] s(3,4) have "unat w = addressOf (rev (rev ns))" by simp
  with ns len have "denotes s w" unfolding denotes_def by blast
  with s(1) show "\<exists>s. ToStringE C data = Inr s \<and> denotes s w" by blast
qed

text \<open>
  C36: \<open>formatIPv4Address\<close> writes an address as four decimal numbers, and \<open>parseIPv4Address\<close>
  reads it back, for every 32 bit address, an error being passed on; and what it accepts
  are exactly the texts of four decimal numbers up to 255 with dots between them, the first
  one being the highest byte.
\<close>

theorem ipv4_roundtrip:
  "parseIPv4Address (C\<lparr>ToStringE := formatIPv4Address C\<rparr>) data = ToUint32E C data
   \<and> (parseIPv4Address C data = Inr w \<longleftrightarrow> (\<exists>s. ToStringE C data = Inr s \<and> denotes s w))"
proof (cases "ToUint32E C data")
  case (Inl err)
  then show ?thesis by (simp add: parse_denotes [symmetric]) (simp add: parseIPv4Address_def formatIPv4Address_def)
next
  case (Inr i)
  then have "parseIPv4Address (C\<lparr>ToStringE := formatIPv4Address C\<rparr>) data = Inr i"
    by (intro parse_denotes [THEN iffD1]) (simp add: formatIPv4Address_def denotes_format)
  with Inr parse_denotes show ?thesis by metis
qed

end
