(* ===== verification/Spec2Isabelle.thy ===== *)
theory Spec2Isabelle
  imports Client_Factory Clm_Manifests Clm_Sample Clm_Status Component_Sample Inventory_Tracking Kustomize_Sample Template_Functions
begin

text \<open>
  A verification of component-operator-runtime, a framework for Kubernetes operators whose
  components render a list of dependent objects and keep these in a target cluster.

  \<^bold>\<open>The program.\<close> The outer reconciler (\<open>pkg/component/reconciler.go\<close>) is called with the
  name of a component resource. It reads the component, decides between an apply and a
  delete phase, asks its generator for the manifests, and hands these to the inner
  reconciler (\<open>pkg/reconciler/reconciler.go\<close>), which compares them with the inventory kept in
  the status of the component, writes the new inventory, and creates, updates and deletes
  objects in waves. Around these two: references to config maps and secrets
  (\<open>pkg/component/reference.go\<close>, found by \<open>internal/walk\<close>), the status analyzer
  (\<open>pkg/status\<close>), the backoff counters (\<open>internal/backoff\<close>), the event recorder
  (\<open>internal/events\<close>) and the cache of clients for target clusters
  (\<open>internal/clientfactory\<close>). The manifests come from generators (\<open>pkg/manifests\<close>), which
  render helm charts (\<open>internal/helm\<close>) or kustomizations (\<open>internal/kustomize\<close>) with the
  template functions of \<open>internal/templatex\<close>. The command line tool (\<open>clm\<close>) runs the inner
  reconciler without the outer one and keeps the inventory in a release, stored in a config map.

  \<^bold>\<open>Conventions.\<close> A Go function that may return an error or panic has a result of the type
  declared in \<open>Prelude\<close>; one that also has effects is a computation over a state with a trace
  of the requests made. What is not part of the repository (the API server and its
  clients, discovery, kstatus, hashing, sorting with an unstable sort, the clock) is a
  record of functions passed as first argument (\<open>platform\<close>, \<open>components\<close>); the state of the
  API server is a type variable, so that nothing is known about a response but what a
  theorem assumes. Go pointers to values that are never shared are values, a nil pointer
  is \<open>None\<close>; where sharing matters (the path slices of \<open>Walk\<close>) the store is explicit.
  Loops over slices are structural recursions or the loop combinators of \<open>Prelude\<close>.

  \<^bold>\<open>Fuel.\<close> Four functions recurse without a bound that can be read off their arguments.
  \<open>parseChart\<close> and \<open>parseKustomization\<close> have the size of the Go stack as an argument, and running
  out of it is a panic. For a kustomization, a stack deeper than the number of directories is
  always enough (\<open>ParseKustomization_terminates\<close>), because nothing is included twice on a
  path; for a chart, a stack deeper than the nesting of its \<open>charts\<close> directories is enough
  (\<open>ParseChart_stack\<close>: for any measure that decreases along it). The loops of \<open>clm apply\<close> and \<open>clm delete\<close>
  (\<open>retryLoop\<close>) run until they succeed or fail, or time out, so that they need not end; they are
  modelled for any number of rounds, after which the run is cut off. The properties about
  them hold for every number, that is, at every point of a run. \<open>basePath\<close> is given the length
  of its path, which every step shortens.

  \<^bold>\<open>The inner reconciler.\<close> \<open>Api_Objects\<close> and \<open>Api_Client\<close> hold objects, keys, requests and the
  platform; \<open>Inventory\<close> the types of \<open>types.go\<close>; \<open>Reconciler_Util\<close> the functions of \<open>util.go\<close>;
  \<open>Ssa\<close> those of \<open>ssa.go\<close>; \<open>Reconciler_Base\<close> the struct and its constructor;
  \<open>Reconciler_Ops\<close> one definition per request or helper method; \<open>Reconciler_Apply\<close> the
  methods \<open>Apply\<close>, \<open>Delete\<close> (called \<open>DeleteAll\<close>) and \<open>IsDeletionAllowed\<close>, split into one
  definition per loop body. About these: \<open>Inventory_Lookup\<close> (the contract of \<open>getItem\<close>, as a
  locale), \<open>Reconciler_Steps\<close> (a locale for relations that every method keeps),
  \<open>Reconciler_Guard\<close> (a locale for what may be asked of the API server, one lemma per
  method), \<open>Prepare_Inventory\<close> (the inventory computed by \<open>Apply\<close>), \<open>Reconciler_Requests\<close>
  (which requests are made), \<open>Deletion_Waves\<close> (their order, and what a finished deletion
  means), \<open>Apply_Result\<close> (what a successful \<open>Apply\<close> means), \<open>Inventory_Tracking\<close> (no object is
  lost track of). \<open>Sample_Cluster\<close> is a small API
  server on which the definitions are run; the witnesses come from there.

  \<^bold>\<open>The outer reconciler.\<close> \<open>Component_Types\<close> models the component and its conditions,
  \<open>Component_Context\<close> the values in a context, \<open>Component_Target\<close> the struct, options and
  hooks and \<open>target.go\<close>, \<open>Component_Reconcile\<close> the method \<open>Reconcile\<close> with its deferred status
  handler. About these: \<open>Component_Calls\<close> (weakest preconditions, the contract of each call),
  \<open>Component_Finish\<close> (the status handler as a function), \<open>Component_Run\<close> (a locale with the
  results of a run of the body, called \<open>bodyResult\<close>), \<open>Component_Finalizer\<close> (the order of the calls),
  \<open>Component_Inventory\<close> (the guarantees of the inner reconciler, carried to a run of the
  outer one, for the inventory that is handed over, as hooks may change the status),
  \<open>Component_Phases\<close> (the abstract machine and the refinement),
  \<open>Component_Outcomes\<close> (what follows from it), \<open>Component_Sample\<close> (a concrete instance).

  \<^bold>\<open>Manifests.\<close> \<open>Go_Strings\<close>, \<open>Go_Paths\<close> and \<open>Json_Values\<close> model what the code uses of Go's
  strings, paths and of untyped values (with the merge of maps of \<open>pkg/manifests\<close>);
  \<open>File_Search\<close> the search for files in \<open>internal/fileutils\<close>, over a file system that is a
  parameter. \<open>Helm_Values\<close>, \<open>Helm_Types\<close>, \<open>Helm_Parse\<close>, \<open>Helm_Chart\<close> and \<open>Helm_Hooks\<close> hold charts: access to
  values, the data of a chart, parsing it with its subcharts, choosing the enabled dependencies
  and rendering them, and the translation of hooks into policies and waves.
  \<open>Kustomize_Parse\<close> and \<open>Kustomize_Render\<close> do the same for kustomizations. \<open>Manifests\<close> holds the
  generators with their transformers, \<open>Template_Functions\<close> the functions that templates may
  call. The template engine, the YAML decoder and kustomize itself are parameters; templates
  are assumed not to change the data they are executed with, and no dependency of a chart is
  called \<open>global\<close> or \<open>tags\<close>. \<open>Helm_Sample\<close> and \<open>Kustomize_Sample\<close> run them on small charts and
  kustomizations.

  \<^bold>\<open>The command line tool.\<close> \<open>Clm_Release\<close> models releases and the config maps that store them,
  \<open>Clm_Command\<close> the client and the commands \<open>apply\<close> and \<open>delete\<close> with their retries,
  \<open>Clm_Manifests\<close> the sources of a release, \<open>Clm_Status\<close> what is shown of it. The argument
  \<open>generator\<close> of \<open>applyCommand\<close> stands for \<open>clmGenerate\<close>, run in the world of the cluster. About
  these: \<open>Clm_Runs\<close> (a locale for what every round keeps, and that releases are written before
  the objects they list are created), \<open>Clm_Delete\<close> (when a release is let go), \<open>Clm_Retries\<close> (how
  often and how long a command tries, and what it returns), \<open>Clm_Sample\<close> (a concrete run).

  \<^bold>\<open>Other components.\<close> \<open>Walk\<close>, \<open>References\<close>, \<open>Status_Analyzer\<close>, \<open>Events\<close>, \<open>Backoff\<close> and
  \<open>Client_Factory\<close> hold one component each, with its definitions and its properties.

  \<^bold>\<open>Not modelled.\<close> Generated deep copies (values are immutable here), metrics and logging,
  which change nothing the program reads; the wiring with controller-runtime (watches, caches,
  options of the manager), the flags, the kubeconfig, the output and the read-only commands
  of \<open>clm\<close>, and the copy of a single file to a temporary directory, which only call
  libraries; scaffolding and test environment; the version and the operator types,
  which are data only.
\<close>

end
